(* ===== verification/Prelude.thy ===== *)
theory Prelude
  imports Main "HOL-Library.Sublist" "HOL-Library.List_Lexorder" "HOL-Library.Char_ord"
begin

text \<open>
  What every component of the development shares: results (a Go function that returns a
  value and an error), the loop that stops at the first error, generic facts on lists, and
  the collections of rewrite rules the component theories fill.
\<close>

section \<open>Collections of facts\<close>

named_theorems go_strings \<open>rewrite rules for the models of the Go string functions\<close>
named_theorems result_simps \<open>rewrite rules for results and for the loops over them\<close>
named_theorems error_simps \<open>rewrite rules for error values and the exit codes they ask for\<close>

section \<open>Results\<close>

text \<open>
  A Go function with results \<open>(T, error)\<close> returns \<open>Inl e\<close> where the code returns a
  non-nil error, and \<open>Inr v\<close> otherwise. The value beside a non-nil error is never used by
  the callers modelled here.
\<close>

type_synonym ('e, 'a) result = "'e + 'a"

fun rbind :: "'e + 'a \<Rightarrow> ('a \<Rightarrow> 'e + 'b) \<Rightarrow> 'e + 'b" where
  "rbind (Inl e) f = Inl e"
| "rbind (Inr a) f = f a"

lemma rbind_Inr_iff [result_simps]: "rbind m f = Inr b \<longleftrightarrow> (\<exists>a. m = Inr a \<and> f a = Inr b)"
  by (cases m) auto

lemma rbind_Inl_iff [result_simps]:
  "rbind m f = Inl e \<longleftrightarrow> m = Inl e \<or> (\<exists>a. m = Inr a \<and> f a = Inl e)"
  by (cases m) auto

lemma rbind_cong [fundef_cong]:
  "m = m' \<Longrightarrow> (\<And>a. m' = Inr a \<Longrightarrow> f a = g a) \<Longrightarrow> rbind m f = rbind m' g"
  by (cases m') auto

text \<open>A loop over a slice that appends each result and returns at the first error.\<close>

fun traverse :: "('a \<Rightarrow> 'e + 'b) \<Rightarrow> 'a list \<Rightarrow> 'e + 'b list" where
  "traverse f [] = Inr []"
| "traverse f (x # xs) =
     (case f x of Inl e \<Rightarrow> Inl e
      | Inr y \<Rightarrow> (case traverse f xs of Inl e \<Rightarrow> Inl e | Inr ys \<Rightarrow> Inr (y # ys)))"

lemma traverse_Inr_iff [result_simps]:
  "traverse f xs = Inr ys \<longleftrightarrow> list_all2 (\<lambda>x y. f x = Inr y) xs ys"
proof (induction xs arbitrary: ys)
  case (Cons x xs)
  show ?case
  proof (cases "traverse f xs")
    case (Inl e)
    with Cons.IH have "\<not> list_all2 (\<lambda>x y. f x = Inr y) xs zs" for zs
      by (metis Inl_Inr_False)
    with Inl show ?thesis by (cases "f x") (auto simp: list_all2_Cons1)
  next
    case (Inr zs)
    then have "list_all2 (\<lambda>x y. f x = Inr y) xs us \<longleftrightarrow> us = zs" for us
      using Cons.IH [of us] by auto
    with Inr show ?thesis by (cases "f x") (auto simp: list_all2_Cons1)
  qed
qed auto

lemma traverse_total: "(\<And>x. x \<in> set xs \<Longrightarrow> f x = Inr (g x)) \<Longrightarrow> traverse f xs = Inr (map g xs)"
  by (induction xs) auto

lemma traverse_Inl: "traverse f xs = Inl e \<Longrightarrow> \<exists>x\<in>set xs. f x = Inl e"
  by (induction xs) (auto split: sum.splits)

lemma traverse_length: "traverse f xs = Inr ys \<Longrightarrow> length ys = length xs"
  by (simp add: traverse_Inr_iff list_all2_lengthD)

text \<open>A check over a slice that returns the first error, and nothing else.\<close>

fun first_error :: "('a \<Rightarrow> 'e option) \<Rightarrow> 'a list \<Rightarrow> 'e option" where
  "first_error f [] = None"
| "first_error f (x # xs) = (case f x of None \<Rightarrow> first_error f xs | Some e \<Rightarrow> Some e)"

lemma first_error_None [result_simps]: "first_error f xs = None \<longleftrightarrow> (\<forall>x\<in>set xs. f x = None)"
  by (induction xs) (auto split: option.splits)

section \<open>Actions on a world\<close>

text \<open>
  Code that asks or changes something outside the program takes the world and returns it. The
  code stops at the first error, and what was done until then stays done.
\<close>

type_synonym ('w, 'e, 'a) act = "'w \<Rightarrow> ('e + 'a) \<times> 'w"

definition abind :: "('w, 'e, 'a) act \<Rightarrow> ('a \<Rightarrow> ('w, 'e, 'b) act) \<Rightarrow> ('w, 'e, 'b) act" where
  "abind m f w = (case m w of (Inl e, w') \<Rightarrow> (Inl e, w') | (Inr a, w') \<Rightarrow> f a w')"

definition alift :: "'e + 'a \<Rightarrow> ('w, 'e, 'a) act" where
  "alift r w = (r, w)"

lemma abind_Inr_iff [result_simps]:
  "abind m f w = (Inr b, w') \<longleftrightarrow> (\<exists>a w1. m w = (Inr a, w1) \<and> f a w1 = (Inr b, w'))"
  by (auto simp: abind_def split: prod.splits sum.splits)

lemma abind_step: "m w = (Inr a, w1) \<Longrightarrow> abind m f w = f a w1"
  by (simp add: abind_def)

lemma abind_fail: "m w = (Inl e, w1) \<Longrightarrow> abind m f w = (Inl e, w1)"
  by (simp add: abind_def)

lemma alift_iff [result_simps]: "alift r w = (s, w') \<longleftrightarrow> r = s \<and> w = w'"
  by (simp add: alift_def)

section \<open>Lists\<close>

lemma filter_eq_conv: "(\<And>x. x \<in> set xs \<Longrightarrow> P x = Q x) \<Longrightarrow> filter P xs = filter Q xs"
  by (rule filter_cong) auto

lemma list_all2_nth_eq: "list_all2 (\<lambda>x y. y = f x) xs ys \<Longrightarrow> ys = map f xs"
  by (induction rule: list_all2_induct) auto

lemma find_Some_split:
  "find P xs = Some x \<longleftrightarrow> (\<exists>pre post. xs = pre @ x # post \<and> P x \<and> (\<forall>y\<in>set pre. \<not> P y))"
proof
  assume "find P xs = Some x"
  then show "\<exists>pre post. xs = pre @ x # post \<and> P x \<and> (\<forall>y\<in>set pre. \<not> P y)"
  proof (induction xs)
    case (Cons a xs)
    show ?case
    proof (cases "P a")
      case True
      with Cons.prems show ?thesis by (intro exI [of _ "[]"] exI [of _ xs]) auto
    next
      case False
      with Cons obtain pre post where "xs = pre @ x # post" "P x" "\<forall>y\<in>set pre. \<not> P y" by auto
      with False show ?thesis by (intro exI [of _ "a # pre"] exI [of _ post]) simp
    qed
  qed simp
next
  assume "\<exists>pre post. xs = pre @ x # post \<and> P x \<and> (\<forall>y\<in>set pre. \<not> P y)"
  then obtain pre post where "xs = pre @ x # post" "P x" "\<forall>y\<in>set pre. \<not> P y" by blast
  then show "find P xs = Some x" by (induction pre arbitrary: xs) auto
qed

lemma not_in_takeWhile: "x \<notin> set (takeWhile (\<lambda>y. y \<noteq> x) xs)"
  using set_takeWhileD by fastforce

end
