(* ===== verification/GoStrings.thy ===== *)
theory GoStrings
  imports Prelude
begin

text \<open>
  The functions of the packages \<open>strings\<close>, \<open>strconv\<close> and \<open>slices\<close> of the Go
  standard library that the program uses. A Go string is a sequence of bytes, and so is an
  Isabelle \<open>string\<close>: a list of 8-bit characters. Lower-casing and case-insensitive
  comparison are modelled for the 26 ASCII letters; the bytes of other letters stay as they
  are. Trimming and splitting at white space follow Unicode's white space, written as the
  UTF-8 sequences that encode it.
\<close>

section \<open>Characters\<close>

definition char_between :: "char \<Rightarrow> char \<Rightarrow> char \<Rightarrow> bool" where
  "char_between lo hi c \<longleftrightarrow> (of_char lo :: nat) \<le> of_char c \<and> (of_char c :: nat) \<le> of_char hi"

definition is_lower :: "char \<Rightarrow> bool" where
  "is_lower c = char_between (CHR ''a'') (CHR ''z'') c"

definition is_upper :: "char \<Rightarrow> bool" where
  "is_upper c = char_between (CHR ''A'') (CHR ''Z'') c"

definition is_digit :: "char \<Rightarrow> bool" where
  "is_digit c = char_between (CHR ''0'') (CHR ''9'') c"

definition is_alnum :: "char \<Rightarrow> bool" where
  "is_alnum c \<longleftrightarrow> is_lower c \<or> is_upper c \<or> is_digit c"

definition lower_char :: "char \<Rightarrow> char" where
  "lower_char c = (if is_upper c then char_of (of_char c + 32 :: nat) else c)"

definition to_lower :: "string \<Rightarrow> string" where
  "to_lower s = map lower_char s"

definition equal_fold :: "string \<Rightarrow> string \<Rightarrow> bool" where
  "equal_fold s t \<longleftrightarrow> to_lower s = to_lower t"

lemmas char_class_defs = char_between_def is_lower_def is_upper_def is_digit_def is_alnum_def

lemma lower_char_not_upper: "\<not> is_upper (lower_char c)"
proof (cases "is_upper c")
  case True
  then have "(of_char c :: nat) + 32 < 256" "97 \<le> (of_char c :: nat) + 32"
    by (auto simp: char_class_defs)
  with True show ?thesis by (simp add: lower_char_def char_class_defs)
next
  case False
  then show ?thesis by (simp add: lower_char_def)
qed

lemma lower_char_idem [simp]: "lower_char (lower_char c) = lower_char c"
  using lower_char_not_upper [of c] by (simp add: lower_char_def [of "lower_char c"])

lemma to_lower_idem [simp]: "to_lower (to_lower s) = to_lower s"
  by (simp add: to_lower_def)

lemma to_lower_Nil [simp]: "to_lower [] = []"
  by (simp add: to_lower_def)

lemma to_lower_append [simp]: "to_lower (s @ t) = to_lower s @ to_lower t"
  by (simp add: to_lower_def)

lemma lower_char_fixed: "\<not> is_upper c \<Longrightarrow> lower_char c = c"
  by (simp add: lower_char_def)

lemma lower_char_image: "lower_char c = d \<Longrightarrow> \<not> is_lower d \<Longrightarrow> c = d"
proof (cases "is_upper c")
  case True
  assume d: "lower_char c = d" "\<not> is_lower d"
  from True have "(of_char c :: nat) + 32 < 256" "97 \<le> (of_char c :: nat) + 32"
      "(of_char c :: nat) + 32 \<le> 122"
    by (auto simp: char_class_defs)
  with True d show ?thesis by (auto simp: lower_char_def char_class_defs)
next
  case False
  assume "lower_char c = d"
  with False show ?thesis by (simp add: lower_char_def)
qed

section \<open>Prefixes and suffixes\<close>

fun has_prefix :: "string \<Rightarrow> string \<Rightarrow> bool" where
  "has_prefix s [] = True"
| "has_prefix [] (c # p) = False"
| "has_prefix (d # s) (c # p) = (d = c \<and> has_prefix s p)"

definition has_suffix :: "string \<Rightarrow> string \<Rightarrow> bool" where
  "has_suffix s p = has_prefix (rev s) (rev p)"

lemma has_prefix_iff: "has_prefix s p \<longleftrightarrow> (\<exists>r. s = p @ r)"
  by (induction s p rule: has_prefix.induct) auto

lemma has_prefix_append [simp]: "has_prefix (p @ r) p"
  by (auto simp: has_prefix_iff)

lemma has_suffix_iff: "has_suffix s p \<longleftrightarrow> (\<exists>r. s = r @ p)"
proof
  assume "has_suffix s p"
  then obtain r where "rev s = rev p @ r" by (auto simp: has_suffix_def has_prefix_iff)
  then have "s = rev r @ p" by (metis rev_append rev_rev_ident)
  then show "\<exists>r. s = r @ p" by blast
next
  assume "\<exists>r. s = r @ p"
  then show "has_suffix s p" by (auto simp: has_suffix_def has_prefix_iff)
qed

text \<open>\<open>CutPrefix\<close> and \<open>CutSuffix\<close>: what is left, where the affix was there.\<close>

definition cut_prefix :: "string \<Rightarrow> string \<Rightarrow> string option" where
  "cut_prefix s p = (if has_prefix s p then Some (drop (length p) s) else None)"

definition cut_suffix :: "string \<Rightarrow> string \<Rightarrow> string option" where
  "cut_suffix s p = (if has_suffix s p then Some (take (length s - length p) s) else None)"

definition trim_suffix :: "string \<Rightarrow> string \<Rightarrow> string" where
  "trim_suffix s p = (case cut_suffix s p of None \<Rightarrow> s | Some r \<Rightarrow> r)"

lemma cut_prefix_Some [go_strings]: "cut_prefix s p = Some r \<longleftrightarrow> s = p @ r"
  by (auto simp: cut_prefix_def has_prefix_iff)

lemma cut_suffix_Some [go_strings]: "cut_suffix s p = Some r \<longleftrightarrow> s = r @ p"
  by (auto simp: cut_suffix_def has_suffix_iff)

lemma trim_suffix_cases: "trim_suffix s p = s \<or> s = trim_suffix s p @ p"
  by (cases "cut_suffix s p") (simp_all add: trim_suffix_def cut_suffix_Some [symmetric] del: cut_suffix_Some)

section \<open>Cutting, splitting and joining\<close>

text \<open>\<open>strings.Cut\<close> at the first occurrence of a separator.\<close>

fun cut :: "string \<Rightarrow> string \<Rightarrow> (string \<times> string) option" where
  "cut [] sep = (if sep = [] then Some ([], []) else None)"
| "cut (c # s) sep =
     (if has_prefix (c # s) sep then Some ([], drop (length sep) (c # s))
      else map_option (\<lambda>(a, b). (c # a, b)) (cut s sep))"

declare cut.simps(2) [simp del]

lemma cut_prefixed: "has_prefix s sep \<Longrightarrow> cut s sep = Some ([], drop (length sep) s)"
  by (cases s) (auto simp: cut.simps(2) has_prefix_iff)

lemma cut_Cons: "\<not> has_prefix (c # s) sep \<Longrightarrow>
    cut (c # s) sep = map_option (\<lambda>(a, b). (c # a, b)) (cut s sep)"
  by (simp add: cut.simps(2))

lemma cut_Some_append: "cut s sep = Some (a, b) \<Longrightarrow> s = a @ sep @ b"
proof (induction s arbitrary: a b)
  case (Cons c s)
  then show ?case
    by (cases "has_prefix (c # s) sep") (auto simp: cut_prefixed cut_Cons has_prefix_iff)
qed (auto split: if_splits)

lemma cut_None_iff: "cut s sep = None \<longleftrightarrow> \<not> sublist sep s"
proof (induction s)
  case (Cons c s)
  have "has_prefix (c # s) sep \<longleftrightarrow> prefix sep (c # s)"
    by (auto simp: has_prefix_iff prefix_def)
  with Cons show ?case
    by (cases "has_prefix (c # s) sep") (auto simp: cut_prefixed cut_Cons sublist_Cons_right)
qed auto

lemma cut_char_first: "c \<notin> set u \<Longrightarrow> cut (u @ c # r) [c] = Some (u, r)"
proof (induction u)
  case (Cons a u)
  then have "a \<noteq> c" by auto
  with Cons show ?case by (simp add: cut_Cons)
qed (simp add: cut_prefixed)

definition contains_str :: "string \<Rightarrow> string \<Rightarrow> bool" where
  "contains_str s t \<longleftrightarrow> cut s t \<noteq> None"

lemma contains_str_sublist [go_strings]: "contains_str s t \<longleftrightarrow> sublist t s"
  by (simp add: contains_str_def cut_None_iff)

text \<open>\<open>strings.Split\<close> for a separator that is not empty; the program splits at no other.\<close>

function split_str :: "string \<Rightarrow> string \<Rightarrow> string list" where
  "split_str sep s =
     (if sep = [] then [s]
      else case cut s sep of None \<Rightarrow> [s] | Some (a, b) \<Rightarrow> a # split_str sep b)"
  by pat_completeness auto
termination
  by (relation "measure (\<lambda>(sep, s). length s)") (auto dest!: cut_Some_append)

declare split_str.simps [simp del]

text \<open>The same for a separator of one byte, structurally.\<close>

fun split_char :: "char \<Rightarrow> string \<Rightarrow> string list" where
  "split_char c [] = [[]]"
| "split_char c (d # s) =
     (if d = c then [] # split_char c s
      else case split_char c s of [] \<Rightarrow> [[d]] | w # ws \<Rightarrow> (d # w) # ws)"

fun join_str :: "string \<Rightarrow> string list \<Rightarrow> string" where
  "join_str sep [] = []"
| "join_str sep [x] = x"
| "join_str sep (x # y # ys) = x @ sep @ join_str sep (y # ys)"

lemma join_str_Cons: "join_str sep (x # xs) = (if xs = [] then x else x @ sep @ join_str sep xs)"
  by (cases xs) auto

lemma split_char_not_Nil [simp]: "split_char c s \<noteq> []"
  by (cases s) (auto split: list.splits)

lemma join_split_char [simp]: "join_str [c] (split_char c s) = s"
  by (induction s) (auto simp: join_str_Cons split: list.splits)

lemma split_char_plain: "c \<notin> set s \<Longrightarrow> split_char c s = [s]"
  by (induction s) auto

lemma split_char_append: "c \<notin> set s \<Longrightarrow> split_char c (s @ c # t) = s # split_char c t"
  by (induction s) (auto split: list.splits)

lemma split_char_parts: "w \<in> set (split_char c s) \<Longrightarrow> c \<notin> set w"
  by (induction s arbitrary: w) (auto split: list.splits if_splits)

lemma split_char_subset: "w \<in> set (split_char c s) \<Longrightarrow> set w \<subseteq> set s"
proof (induction s arbitrary: w)
  case (Cons d s)
  obtain v vs where vs: "split_char c s = v # vs" by (cases "split_char c s") auto
  with Cons show ?case by (fastforce split: if_splits)
qed simp

lemma split_char_snoc: "split_char c (s @ [c]) = split_char c s @ [[]]"
  by (induction s) (auto split: list.splits)

lemma split_join_char:
  "ws \<noteq> [] \<Longrightarrow> (\<And>w. w \<in> set ws \<Longrightarrow> c \<notin> set w) \<Longrightarrow> split_char c (join_str [c] ws) = ws"
proof (induction ws)
  case (Cons w ws)
  then show ?case
    by (cases "ws = []") (auto simp: join_str_Cons split_char_plain split_char_append)
qed simp

lemma split_str_not_Nil [simp]: "split_str sep s \<noteq> []"
  by (subst split_str.simps) (auto split: option.splits)

lemma split_str_found: "cut s sep = Some (a, b) \<Longrightarrow> sep \<noteq> [] \<Longrightarrow> split_str sep s = a # split_str sep b"
  by (subst split_str.simps) simp

lemma split_str_absent: "cut s sep = None \<Longrightarrow> split_str sep s = [s]"
  by (subst split_str.simps) simp

lemma join_split_str: "sep \<noteq> [] \<Longrightarrow> join_str sep (split_str sep s) = s"
proof (induction sep s rule: split_str.induct)
  case (1 sep s)
  show ?case
  proof (cases "cut s sep")
    case None
    then show ?thesis by (simp add: split_str_absent)
  next
    case (Some ab)
    obtain a b where ab: "ab = (a, b)" by force
    with Some have c: "cut s sep = Some (a, b)" by simp
    have "join_str sep (split_str sep b) = b"
      using "1.IH" [OF _ Some] ab "1.prems" by auto
    with c "1.prems" show ?thesis
      by (auto simp: split_str_found join_str_Cons dest!: cut_Some_append)
  qed
qed

section \<open>Trimming\<close>

definition trim_right_set :: "char list \<Rightarrow> string \<Rightarrow> string" where
  "trim_right_set cs s = rev (dropWhile (\<lambda>c. c \<in> set cs) (rev s))"

definition trim_left_set :: "char list \<Rightarrow> string \<Rightarrow> string" where
  "trim_left_set cs s = dropWhile (\<lambda>c. c \<in> set cs) s"

definition trim_set :: "char list \<Rightarrow> string \<Rightarrow> string" where
  "trim_set cs s = trim_right_set cs (trim_left_set cs s)"

text \<open>
  The UTF-8 sequences of the characters \<open>unicode.IsSpace\<close> accepts: the ASCII ones, then
  U+0085, U+00A0, U+1680, U+2000 to U+200A, U+2028, U+2029, U+202F, U+205F and U+3000.
\<close>

definition ascii_spaces :: "char list" where
  "ascii_spaces = [CHR '' '', CHR 0x09, CHR 0x0A, CHR 0x0B, CHR 0x0C, CHR 0x0D]"

definition space_seqs :: "string list" where
  "space_seqs = map (\<lambda>c. [c]) ascii_spaces @
     [[CHR 0xC2, CHR 0x85], [CHR 0xC2, CHR 0xA0], [CHR 0xE1, CHR 0x9A, CHR 0x80]] @
     map (\<lambda>n. [CHR 0xE2, CHR 0x80, char_of n])
       [0x80, 0x81, 0x82, 0x83, 0x84, 0x85, 0x86, 0x87, 0x88, 0x89, 0x8A, 0xA8, 0xA9, 0xAF :: nat] @
     [[CHR 0xE2, CHR 0x81, CHR 0x9F], [CHR 0xE3, CHR 0x80, CHR 0x80]]"

text \<open>The number of bytes of the white space a string begins with, 0 for none.\<close>

definition space_at :: "string \<Rightarrow> nat" where
  "space_at s = (case find (has_prefix s) space_seqs of None \<Rightarrow> 0 | Some w \<Rightarrow> length w)"

definition space_at_end :: "string \<Rightarrow> nat" where
  "space_at_end s = (case find (has_suffix s) space_seqs of None \<Rightarrow> 0 | Some w \<Rightarrow> length w)"

function trim_left_space :: "string \<Rightarrow> string" where
  "trim_left_space s =
     (if s = [] \<or> space_at s = 0 then s else trim_left_space (drop (space_at s) s))"
  by pat_completeness auto
termination
  by (relation "measure length") auto

function trim_right_space :: "string \<Rightarrow> string" where
  "trim_right_space s =
     (if s = [] \<or> space_at_end s = 0 then s
      else trim_right_space (take (length s - space_at_end s) s))"
  by pat_completeness auto
termination
  by (relation "measure length") auto

declare trim_left_space.simps [simp del] trim_right_space.simps [simp del]

definition trim_space :: "string \<Rightarrow> string" where
  "trim_space s = trim_right_space (trim_left_space s)"

lemma trim_left_space_subset: "set (trim_left_space s) \<subseteq> set s"
proof (induction s rule: trim_left_space.induct)
  case (1 s)
  then show ?case
    using set_drop_subset [of "space_at s" s] by (subst trim_left_space.simps) auto
qed

lemma trim_right_space_subset: "set (trim_right_space s) \<subseteq> set s"
proof (induction s rule: trim_right_space.induct)
  case (1 s)
  then show ?case
    using set_take_subset [of "length s - space_at_end s" s] by (subst trim_right_space.simps) auto
qed

lemma trim_space_subset: "set (trim_space s) \<subseteq> set s"
  unfolding trim_space_def using trim_left_space_subset trim_right_space_subset by blast

lemma space_seqs_filled: "[] \<notin> set space_seqs"
  by (auto simp: space_seqs_def)

lemma space_at_0: "space_at s = 0 \<longleftrightarrow> (\<forall>w\<in>set space_seqs. \<not> has_prefix s w)"
  using space_seqs_filled
  by (auto simp: space_at_def find_None_iff find_Some_iff split: option.splits) (metis nth_mem)

lemma trim_left_space_0: "space_at (trim_left_space s) = 0"
proof (induction s rule: trim_left_space.induct)
  case (1 s)
  show ?case
  proof (cases "s = [] \<or> space_at s = 0")
    case True
    then have "space_at s = 0" using space_seqs_filled by (auto simp: space_at_0) (metis has_prefix.simps(2) list.exhaust)
    with True show ?thesis by (simp add: trim_left_space.simps [of s])
  next
    case False
    with "1.IH" show ?thesis by (simp add: trim_left_space.simps [of s])
  qed
qed

lemma trim_right_space_0: "trim_right_space s = [] \<or> space_at_end (trim_right_space s) = 0"
proof (induction s rule: trim_right_space.induct)
  case (1 s)
  then show ?case by (cases "s = [] \<or> space_at_end s = 0") (auto simp: trim_right_space.simps [of s])
qed

lemma trim_right_space_take: "\<exists>n. trim_right_space s = take n s"
proof (induction s rule: trim_right_space.induct)
  case (1 s)
  show ?case
  proof (cases "s = [] \<or> space_at_end s = 0")
    case True
    then show ?thesis by (intro exI [of _ "length s"]) (simp add: trim_right_space.simps [of s])
  next
    case False
    with "1.IH" obtain n where "trim_right_space (take (length s - space_at_end s) s) = take n (take (length s - space_at_end s) s)"
      by blast
    with False show ?thesis by (auto simp: trim_right_space.simps [of s])
  qed
qed

lemma space_at_take: "space_at s = 0 \<Longrightarrow> space_at (take n s) = 0"
  unfolding space_at_0 has_prefix_iff by (metis append.assoc append_take_drop_id)

lemma trim_space_idem [simp]: "trim_space (trim_space s) = trim_space s"
proof -
  obtain n where "trim_space s = take n (trim_left_space s)"
    using trim_right_space_take by (auto simp: trim_space_def)
  then have "space_at (trim_space s) = 0" by (simp add: space_at_take trim_left_space_0)
  then have "trim_left_space (trim_space s) = trim_space s" by (subst trim_left_space.simps) simp
  moreover have "trim_right_space (trim_space s) = trim_space s"
    using trim_right_space_0 [of "trim_left_space s"] unfolding trim_space_def
    by (subst trim_right_space.simps) auto
  ultimately show ?thesis by (simp add: trim_space_def [of "trim_space s"])
qed

section \<open>Fields\<close>

text \<open>\<open>strings.FieldsFunc\<close> for a predicate on ASCII characters.\<close>

function fields_func :: "(char \<Rightarrow> bool) \<Rightarrow> string \<Rightarrow> string list" where
  "fields_func p s =
     (case dropWhile p s of [] \<Rightarrow> []
      | c # t \<Rightarrow> (c # takeWhile (\<lambda>d. \<not> p d) t) # fields_func p (dropWhile (\<lambda>d. \<not> p d) t))"
  by pat_completeness auto
termination
proof (relation "measure (\<lambda>(p, s). length s)")
  fix p s c and t :: string
  assume "dropWhile p s = c # t"
  then have "length (c # t) \<le> length s" by (metis length_dropWhile_le)
  moreover have "length (dropWhile (\<lambda>d. \<not> p d) t) \<le> length t" by (rule length_dropWhile_le)
  ultimately show "((p, dropWhile (\<lambda>d. \<not> p d) t), p, s) \<in> measure (\<lambda>(p, s). length s)"
    by simp
qed simp

declare fields_func.simps [simp del]

lemma fields_func_none: "dropWhile p s = [] \<Longrightarrow> fields_func p s = []"
  by (subst fields_func.simps) (simp only: list.case)

lemma fields_func_some: "dropWhile p s = c # t \<Longrightarrow>
    fields_func p s = (c # takeWhile (\<lambda>d. \<not> p d) t) # fields_func p (dropWhile (\<lambda>d. \<not> p d) t)"
  by (simp add: fields_func.simps [of p s])

lemma fields_func_words: "w \<in> set (fields_func p s) \<Longrightarrow> w \<noteq> [] \<and> (\<forall>c\<in>set w. \<not> p c)"
proof (induction p s arbitrary: w rule: fields_func.induct)
  case (1 p s)
  show ?case
  proof (cases "dropWhile p s")
    case Nil
    with "1.prems" show ?thesis by (simp add: fields_func_none)
  next
    case (Cons c t)
    then have "\<not> p c" using hd_dropWhile [of p s] by simp
    moreover from Cons "1.prems"
    have "w = c # takeWhile (\<lambda>d. \<not> p d) t \<or> w \<in> set (fields_func p (dropWhile (\<lambda>d. \<not> p d) t))"
      by (simp add: fields_func_some)
    ultimately show ?thesis using "1.IH" [OF Cons, of w] set_takeWhileD [of _ "\<lambda>d. \<not> p d" t]
      by (metis list.distinct(1) set_ConsD)
  qed
qed

text \<open>\<open>strings.Fields\<close>: the runs of bytes between white space.\<close>

function fields_space :: "string \<Rightarrow> string \<Rightarrow> string list" where
  "fields_space acc s =
     (if s = [] then (if acc = [] then [] else [rev acc])
      else if space_at s = 0 then fields_space (hd s # acc) (tl s)
      else (if acc = [] then [] else [rev acc]) @ fields_space [] (drop (space_at s) s))"
  by pat_completeness auto
termination
  by (relation "measure (\<lambda>(acc, s). length s)") auto

declare fields_space.simps [simp del]

definition go_fields :: "string \<Rightarrow> string list" where
  "go_fields s = fields_space [] s"

section \<open>Comparison and numbers\<close>

text \<open>\<open>strings.Compare\<close> and \<open>cmp.Compare\<close> on strings are the lexicographic order of bytes.\<close>

definition go_compare :: "string \<Rightarrow> string \<Rightarrow> int" where
  "go_compare a b = (if a < b then -1 else if a = b then 0 else 1)"

text \<open>\<open>cmp.Or\<close> on strings: the first that is not empty.\<close>

fun cmp_or :: "string list \<Rightarrow> string" where
  "cmp_or [] = []"
| "cmp_or (s # ss) = (if s \<noteq> [] then s else cmp_or ss)"

fun digits_value :: "nat \<Rightarrow> string \<Rightarrow> nat option" where
  "digits_value n [] = Some n"
| "digits_value n (c # s) =
     (if is_digit c then digits_value (10 * n + (of_char c - 48)) s else None)"

text \<open>\<open>strconv.Atoi\<close>: an optional sign and decimal digits within the 64 bits of an \<open>int\<close>.\<close>

definition atoi :: "string \<Rightarrow> int option" where
  "atoi s =
     (let neg = (s \<noteq> [] \<and> hd s = CHR ''-'');
          body = (if s \<noteq> [] \<and> (hd s = CHR ''-'' \<or> hd s = CHR ''+'') then tl s else s)
      in if body = [] then None
         else case digits_value 0 body of None \<Rightarrow> None
              | Some n \<Rightarrow> (let v = (if neg then - int n else int n)
                          in if - (2 ^ 63) \<le> v \<and> v < 2 ^ 63 then Some v else None))"

end
