(* ===== verification/ShellQuote.thy ===== *)
theory ShellQuote
  imports GoStrings
begin

text \<open>
  \<open>internal/shellquote\<close>: an argument vector rendered as a POSIX shell word list, with a
  reference model of how a POSIX shell splits such a line into words. The model of the shell
  gives up (\<open>None\<close>) at every unquoted character the shell could give a meaning to, so a
  line it splits was split without any expansion. It models word splitting and quoting only:
  what the shell makes of the words, such as an assignment before a command, is not part
  of it.
\<close>

section \<open>Quoting\<close>

abbreviation single_quote :: char where "single_quote \<equiv> CHR 0x27"
abbreviation backslash :: char where "backslash \<equiv> CHR 0x5C"

definition safe_char :: "char \<Rightarrow> bool" where
  "safe_char c \<longleftrightarrow> is_alnum c \<or> c \<in> set ''-_./:=+,@%''"

definition safe :: "string \<Rightarrow> bool" where
  "safe s \<longleftrightarrow> s \<noteq> [] \<and> list_all safe_char s"

definition quote_char :: "char \<Rightarrow> string" where
  "quote_char c = (if c = single_quote then [single_quote, backslash, single_quote, single_quote] else [c])"

definition quote :: "string \<Rightarrow> string" where
  "quote s = (if safe s then s else single_quote # concat (map quote_char s) @ [single_quote])"

definition join_words :: "string list \<Rightarrow> string" where
  "join_words args = join_str '' '' (map quote args)"

section \<open>How a POSIX shell splits a line\<close>

datatype sh_mode = Between | InWord | InQuotes | AfterBackslash

fun sh_split :: "sh_mode \<Rightarrow> string \<Rightarrow> string \<Rightarrow> string list option" where
  "sh_split Between w [] = Some []"
| "sh_split InWord w [] = Some [w]"
| "sh_split InQuotes w [] = None"
| "sh_split AfterBackslash w [] = None"
| "sh_split InQuotes w (c # s) =
     (if c = single_quote then sh_split InWord w s else sh_split InQuotes (w @ [c]) s)"
| "sh_split AfterBackslash w (c # s) =
     (if c = CHR 0x0A then None else sh_split InWord (w @ [c]) s)"
| "sh_split Between w (c # s) =
     (if c = CHR '' '' then sh_split Between [] s
      else if c = single_quote then sh_split InQuotes [] s
      else if c = backslash then sh_split AfterBackslash [] s
      else if safe_char c then sh_split InWord [c] s else None)"
| "sh_split InWord w (c # s) =
     (if c = CHR '' '' then map_option ((#) w) (sh_split Between [] s)
      else if c = single_quote then sh_split InQuotes w s
      else if c = backslash then sh_split AfterBackslash w s
      else if safe_char c then sh_split InWord (w @ [c]) s else None)"

definition shell_words :: "string \<Rightarrow> string list option" where
  "shell_words line = sh_split Between [] line"

section \<open>The shell reads back what was quoted\<close>

lemma safe_char_plain:
  "safe_char c \<Longrightarrow> c \<noteq> CHR '' '' \<and> c \<noteq> single_quote \<and> c \<noteq> backslash"
  by (auto simp: safe_char_def char_class_defs)

lemma sh_split_safe_word:
  "list_all safe_char s \<Longrightarrow> sh_split InWord w (s @ r) = sh_split InWord (w @ s) r"
  by (induction s arbitrary: w) (auto dest: safe_char_plain)

lemma sh_split_quoted_run:
  "sh_split InQuotes w (concat (map quote_char s) @ single_quote # r) = sh_split InWord (w @ s) r"
  by (induction s arbitrary: w) (auto simp: quote_char_def)

lemma sh_split_quote: "sh_split Between [] (quote s @ r) = sh_split InWord s r"
proof (cases "safe s")
  case True
  then obtain c t where "s = c # t" "safe_char c" "list_all safe_char t"
    by (cases s) (auto simp: safe_def)
  with True show ?thesis
    by (auto simp: quote_def sh_split_safe_word [of t "[c]" r] dest: safe_char_plain)
next
  case False
  then show ?thesis by (simp add: quote_def sh_split_quoted_run [of "[]"])
qed

lemma shell_words_join: "shell_words (join_words args) = Some args"
proof (induction args)
  case Nil
  show ?case by (simp add: shell_words_def join_words_def)
next
  case (Cons a args)
  show ?case
  proof (cases "args = []")
    case True
    then show ?thesis
      using sh_split_quote [of a "[]"] by (simp add: shell_words_def join_words_def)
  next
    case False
    with Cons show ?thesis
      by (simp add: shell_words_def join_words_def join_str_Cons sh_split_quote)
  qed
qed

section \<open>The interface of a quoting\<close>

text \<open>
  What the packages that send a command rely on: one line stands for one argument vector.
  The transport proves its facts about command lines from this contract alone.
\<close>

locale word_quoting =
  fixes render :: "string list \<Rightarrow> string"
    and split :: "string \<Rightarrow> string list option"
  assumes split_render: "split (render args) = Some args"
begin

lemma render_inject: "render a = render b \<longleftrightarrow> a = b"
  by (metis option.inject split_render)

lemma render_last: "split (render (pre @ args)) = Some (pre @ args)"
  by (rule split_render)

end

interpretation posix: word_quoting join_words shell_words
  by unfold_locales (rule shell_words_join)


text \<open>
  Two argument vectors are rendered as the same command line only when they are equal,
  so a command line shown to an administrator stands for one command.
\<close>
theorem join_words_injective: "join_words a = join_words b \<longleftrightarrow> a = b"
  by (rule posix.render_inject)

end
