(* ===== verification/ExitCode.thy ===== *)
theory ExitCode
  imports GoStrings
begin

text \<open>
  \<open>internal/exitcode\<close>: the exit codes of the program, the errors that carry one, and the
  rule that picks the worst of several. A Go error is a tree: a message (\<open>Leaf\<close>, the format
  string and its arguments, not rendered), one of the package level error values
  (\<open>Sentinel\<close>), an error that wraps others (\<open>fmt.Errorf\<close> with \<open>%w\<close>, \<open>errors.Join\<close>)
  and an error with an exit code (\<open>exitcode.Error\<close>). Of a format string the leading words
  are kept, which tell the messages apart. A nil error is \<open>None\<close>.
\<close>

section \<open>Errors\<close>

datatype goerr =
    Leaf string "string list"
  | Sentinel string
  | Wrap string "string list" "goerr list"
  | Coded int goerr

abbreviation context_canceled :: goerr where
  "context_canceled \<equiv> Sentinel ''context canceled''"

abbreviation OK :: int where "OK \<equiv> 0"
abbreviation TargetFailed :: int where "TargetFailed \<equiv> 1"
abbreviation Usage :: int where "Usage \<equiv> 2"
abbreviation Transport :: int where "Transport \<equiv> 3"
abbreviation Interrupted :: int where "Interrupted \<equiv> 130"

text \<open>\<open>Errorf\<close> and \<open>Wrap\<close>.\<close>

definition errorf :: "int \<Rightarrow> string \<Rightarrow> string list \<Rightarrow> goerr" where
  "errorf code fmt args = Coded code (Leaf fmt args)"

definition wrap_code :: "int \<Rightarrow> goerr option \<Rightarrow> goerr option" where
  "wrap_code code err = (case err of None \<Rightarrow> None | Some e \<Rightarrow> Some (Coded code e))"

text \<open>\<open>errors.As\<close> for an \<open>exitcode.Error\<close>, depth first, and \<open>errors.Is\<close>.\<close>

fun find_coded :: "goerr \<Rightarrow> int option" and find_coded_in :: "goerr list \<Rightarrow> int option" where
  "find_coded (Leaf f a) = None"
| "find_coded (Sentinel n) = None"
| "find_coded (Wrap f a es) = find_coded_in es"
| "find_coded (Coded c e) = Some c"
| "find_coded_in [] = None"
| "find_coded_in (e # es) = (case find_coded e of None \<Rightarrow> find_coded_in es | Some c \<Rightarrow> Some c)"

fun errors_is :: "goerr \<Rightarrow> string \<Rightarrow> bool" where
  "errors_is (Leaf f a) n = False"
| "errors_is (Sentinel m) n = (m = n)"
| "errors_is (Wrap f a es) n = list_ex (\<lambda>e. errors_is e n) es"
| "errors_is (Coded c e) n = errors_is e n"

definition has_code :: "goerr option \<Rightarrow> bool" where
  "has_code err = (case err of None \<Rightarrow> False | Some e \<Rightarrow> find_coded e \<noteq> None)"

definition default_code :: "int \<Rightarrow> goerr option \<Rightarrow> goerr option" where
  "default_code code err = (if has_code err then err else wrap_code code err)"

text \<open>The same for an error that is not nil, as most callers have it.\<close>

definition default_err :: "int \<Rightarrow> goerr \<Rightarrow> goerr" where
  "default_err code e = (if find_coded e \<noteq> None then e else Coded code e)"

text \<open>
  \<open>From\<close>. Whether an error is one of the command line library's own usage errors
  (\<open>cobratree.IsUsage\<close>) is code of another module, and a parameter.
\<close>

definition from_err :: "(goerr \<Rightarrow> bool) \<Rightarrow> goerr option \<Rightarrow> int" where
  "from_err is_usage err =
     (case err of None \<Rightarrow> OK
      | Some e \<Rightarrow> (case find_coded e of Some c \<Rightarrow> c
                   | None \<Rightarrow> if is_usage e then Usage else TargetFailed))"

definition precedence :: "int \<Rightarrow> nat" where
  "precedence code =
     (if code = OK then 0 else if code = Usage then 2 else if code = Transport then 3
      else if code = Interrupted then 4 else 1)"

text \<open>The code \<open>Worst\<close> counts an error as: a cancellation is an interrupt however wrapped.\<close>

definition counted_code :: "(goerr \<Rightarrow> bool) \<Rightarrow> goerr option \<Rightarrow> int" where
  "counted_code is_usage err =
     (case err of None \<Rightarrow> from_err is_usage err
      | Some e \<Rightarrow> if errors_is e ''context canceled'' then Interrupted else from_err is_usage err)"

fun worst_from :: "(goerr \<Rightarrow> bool) \<Rightarrow> int \<Rightarrow> goerr option list \<Rightarrow> int" where
  "worst_from is_usage code [] = code"
| "worst_from is_usage code (err # errs) =
     (let c = counted_code is_usage err
      in worst_from is_usage (if precedence c > precedence code then c else code) errs)"

definition worst :: "(goerr \<Rightarrow> bool) \<Rightarrow> goerr option list \<Rightarrow> int" where
  "worst is_usage errs = worst_from is_usage OK errs"

section \<open>Progress classes\<close>

datatype progress_class = ClassNone | ClassTransport | ClassUsage | ClassCanceled | ClassTarget

definition code_class :: "int \<Rightarrow> progress_class" where
  "code_class code =
     (if code = OK then ClassNone else if code = Transport then ClassTransport
      else if code = Usage then ClassUsage else if code = Interrupted then ClassCanceled
      else ClassTarget)"

definition err_class :: "(goerr \<Rightarrow> bool) \<Rightarrow> goerr option \<Rightarrow> progress_class" where
  "err_class is_usage err = code_class (from_err is_usage err)"

section \<open>Facts on codes\<close>

lemma precedence_OK_iff: "precedence c = 0 \<longleftrightarrow> c = OK"
  by (simp add: precedence_def)

lemma find_coded_errorf [error_simps, simp]: "find_coded (errorf c f a) = Some c"
  by (simp add: errorf_def)

lemma errors_is_errorf [error_simps, simp]: "errors_is (errorf c f a) n = False"
  by (simp add: errorf_def)

lemma from_errorf [error_simps, simp]: "from_err u (Some (errorf c f a)) = c"
  by (simp add: from_err_def)

lemma has_default_err [error_simps, simp]: "find_coded (default_err c e) \<noteq> None"
  by (simp add: default_err_def)

lemma default_code_keeps: "find_coded e = Some c \<Longrightarrow> default_code d (Some e) = Some e"
  by (simp add: default_code_def has_code_def)

lemma from_default_err:
  "from_err u (Some (default_err c e)) = (case find_coded e of Some d \<Rightarrow> d | None \<Rightarrow> c)"
  by (auto simp: default_err_def from_err_def split: option.splits)

lemma worst_from_mem:
  "worst_from u code errs \<in> insert code (set (map (counted_code u) errs))"
proof (induction errs arbitrary: code)
  case (Cons e errs)
  show ?case using Cons.IH [of "counted_code u e"] Cons.IH [of code] by (auto simp: Let_def)
qed simp

lemma worst_from_ge:
  "precedence code \<le> precedence (worst_from u code errs) \<and>
   (\<forall>e\<in>set errs. precedence (counted_code u e) \<le> precedence (worst_from u code errs))"
proof (induction errs arbitrary: code)
  case (Cons e errs)
  show ?case
    using Cons.IH [of "counted_code u e"] Cons.IH [of code]
    by (auto simp: Let_def intro: order_trans)
qed simp

text \<open>
  \<open>Worst\<close> returns the code of one of the errors, or OK when there is none, and no
  error has a code that tells more: interrupts win over transport failures, those over usage
  errors and those over failed targets. It is OK exactly when every error counts as OK.
\<close>
theorem worst_is_worst:
  "worst u errs \<in> insert OK (set (map (counted_code u) errs)) \<and>
   (\<forall>e\<in>set errs. precedence (counted_code u e) \<le> precedence (worst u errs)) \<and>
   (worst u errs = OK \<longleftrightarrow> (\<forall>e\<in>set errs. counted_code u e = OK))"
proof (intro conjI)
  show mem: "worst u errs \<in> insert OK (set (map (counted_code u) errs))"
    unfolding worst_def by (rule worst_from_mem)
  show ge: "\<forall>e\<in>set errs. precedence (counted_code u e) \<le> precedence (worst u errs)"
    unfolding worst_def using worst_from_ge by blast
  show "worst u errs = OK \<longleftrightarrow> (\<forall>e\<in>set errs. counted_code u e = OK)"
    using mem ge by (force simp: precedence_OK_iff [symmetric])
qed

theorem worst_is_worst_witness:
  "precedence (counted_code (\<lambda>e. False) (Some (errorf Transport ''x'' []))) \<le>
     precedence (worst (\<lambda>e. False) [Some (errorf Usage ''y'' []), Some (errorf Transport ''x'' [])])"
  using worst_is_worst [of "\<lambda>e. False" "[Some (errorf Usage ''y'' []), Some (errorf Transport ''x'' [])]"]
  by simp

end
