(* ===== verification/Tmpl.thy ===== *)
theory Tmpl
  imports ExitCode
begin

text \<open>
  \<open>internal/tmpl\<close>: the \<open>{placeholder}\<close> templates of host names and tunnels. \<open>{name}\<close> is
  replaced by the value named \<open>name\<close>, \<open>{{\<close> and \<open>}}\<close> write a brace, and a placeholder
  that names nothing is an error. The error for an unknown placeholder also lists the known
  ones in the code; the list is left out here.
\<close>

section \<open>Expansion\<close>

abbreviation open_brace :: char where "open_brace \<equiv> CHR 0x7B"
abbreviation close_brace :: char where "close_brace \<equiv> CHR 0x7D"

function expand_from :: "string \<Rightarrow> (string \<rightharpoonup> string) \<Rightarrow> string \<Rightarrow> string \<Rightarrow> goerr + string" where
  "expand_from template vars b t =
     (case t of [] \<Rightarrow> Inr b
      | c # r \<Rightarrow>
          if c = open_brace \<and> has_prefix r [open_brace] then
            expand_from template vars (b @ [open_brace]) (drop 1 r)
          else if c = close_brace \<and> has_prefix r [close_brace] then
            expand_from template vars (b @ [close_brace]) (drop 1 r)
          else if c = open_brace then
            (case cut r [close_brace] of
               None \<Rightarrow> Inl (Leaf ''in %q: a { is not closed'' [template])
             | Some (k, rest) \<Rightarrow>
                 (case vars (trim_space k) of
                    None \<Rightarrow> Inl (Leaf ''in %q: unknown placeholder {%s}'' [template, trim_space k])
                  | Some v \<Rightarrow> expand_from template vars (b @ v) rest))
          else if c = close_brace then Inl (Leaf ''in %q: a } has no opening brace'' [template])
          else expand_from template vars (b @ [c]) r)"
  by pat_completeness auto
termination
  by (relation "measure (\<lambda>(template, vars, b, t). length t)") (auto dest!: cut_Some_append)

declare expand_from.simps [simp del]

definition Expand :: "string \<Rightarrow> (string \<rightharpoonup> string) \<Rightarrow> goerr + string" where
  "Expand template vars = expand_from template vars [] template"

text \<open>\<open>Prefixed\<close>: a table of values under a dotted prefix, over the values already there.\<close>

definition Prefixed :: "string \<Rightarrow> (string \<rightharpoonup> string) \<Rightarrow> (string \<rightharpoonup> string) \<Rightarrow> (string \<rightharpoonup> string)" where
  "Prefixed pre values into =
     (\<lambda>key. case cut_prefix key (pre @ ''.'') of None \<Rightarrow> into key
       | Some k \<Rightarrow> (case values k of None \<Rightarrow> into key | Some v \<Rightarrow> Some v))"

section \<open>Templates as lists of parts\<close>

datatype part = Lit char | Var string

fun part_text :: "part \<Rightarrow> string" where
  "part_text (Lit c) = (if c = open_brace \<or> c = close_brace then [c, c] else [c])"
| "part_text (Var k) = open_brace # k @ [close_brace]"

text \<open>A key that the template text can hold: no closing brace, and no brace at its start.\<close>

fun part_ok :: "part \<Rightarrow> bool" where
  "part_ok (Lit c) = True"
| "part_ok (Var k) = (close_brace \<notin> set k \<and> \<not> has_prefix k [open_brace])"

fun part_value :: "(string \<rightharpoonup> string) \<Rightarrow> part \<Rightarrow> string option" where
  "part_value vars (Lit c) = Some [c]"
| "part_value vars (Var k) = vars (trim_space k)"

fun parts_value :: "(string \<rightharpoonup> string) \<Rightarrow> part list \<Rightarrow> string option" where
  "parts_value vars [] = Some []"
| "parts_value vars (p # ps) =
     (case part_value vars p of None \<Rightarrow> None
      | Some v \<Rightarrow> map_option ((@) v) (parts_value vars ps))"

definition render_parts :: "part list \<Rightarrow> string" where
  "render_parts ps = concat (map part_text ps)"

lemma cut_close_brace: "close_brace \<notin> set k \<Longrightarrow> cut (k @ close_brace # r) [close_brace] = Some (k, r)"
  by (rule cut_char_first)

lemma has_prefix_close: "\<not> has_prefix k [open_brace] \<Longrightarrow> \<not> has_prefix (k @ close_brace # r) [open_brace]"
  by (cases k) auto

lemma expand_from_char:
  "expand_from t vars b (part_text (Lit c) @ r) = expand_from t vars (b @ [c]) r"
  by (simp add: expand_from.simps [of t vars b "c # c # r"] expand_from.simps [of t vars b "c # r"])

lemma expand_from_var:
  assumes "part_ok (Var k)"
  shows "expand_from t vars b (part_text (Var k) @ r) =
     (case vars (trim_space k) of None \<Rightarrow> Inl (Leaf ''in %q: unknown placeholder {%s}'' [t, trim_space k])
      | Some v \<Rightarrow> expand_from t vars (b @ v) r)"
  using assms by (simp add: expand_from.simps [of t vars b "open_brace # k @ close_brace # r"]
      cut_close_brace has_prefix_close)

lemma expand_from_parts:
  "list_all part_ok ps \<Longrightarrow> parts_value vars ps = Some v \<Longrightarrow>
     expand_from t vars b (render_parts ps @ r) = expand_from t vars (b @ v) r"
proof (induction ps arbitrary: b v)
  case Nil
  then show ?case by (simp add: render_parts_def)
next
  case (Cons p ps)
  then obtain v1 v2 where v: "part_value vars p = Some v1" "parts_value vars ps = Some v2" "v = v1 @ v2"
    by (auto split: option.splits)
  have "expand_from t vars b (part_text p @ u) = expand_from t vars (b @ v1) u" for u
    using Cons.prems v(1) by (cases p) (auto simp: expand_from_char expand_from_var simp del: part_text.simps)
  with Cons v show ?case by (simp add: render_parts_def)
qed

lemma expand_from_Inr_parts:
  "expand_from t vars b s = Inr out \<Longrightarrow>
     \<exists>ps v. list_all part_ok ps \<and> s = render_parts ps \<and> parts_value vars ps = Some v \<and> out = b @ v"
proof (induction t vars b s rule: expand_from.induct)
  case (1 t vars b s)
  have step: ?case
    if p: "part_ok p" "part_value vars p = Some v1" "s = part_text p @ r"
      and ih: "\<exists>ps v. list_all part_ok ps \<and> r = render_parts ps \<and> parts_value vars ps = Some v \<and>
          out = (b @ v1) @ v" for p v1 r
  proof -
    from ih obtain ps v where "list_all part_ok ps" "r = render_parts ps" "parts_value vars ps = Some v"
        "out = (b @ v1) @ v" by blast
    with p show ?thesis
      by (intro exI [of _ "p # ps"] exI [of _ "v1 @ v"]) (simp add: render_parts_def)
  qed
  show ?case
  proof (cases s)
    case Nil
    with "1.prems" show ?thesis
      by (intro exI [of _ "[]"]) (simp add: expand_from.simps [of t vars b "[]"] render_parts_def)
  next
    case (Cons c r)
    note unf = expand_from.simps [of t vars b "c # r"]
    consider (oo) "c = open_brace" "has_prefix r [open_brace]"
      | (cc) "c = close_brace" "has_prefix r [close_brace]"
      | (var) "c = open_brace" "\<not> has_prefix r [open_brace]"
      | (bad) "c = close_brace" "\<not> has_prefix r [close_brace]"
      | (plain) "c \<noteq> open_brace" "c \<noteq> close_brace" by blast
    then show ?thesis
    proof cases
      case oo
      have "expand_from t vars (b @ [c]) (drop 1 r) = Inr out"
        using "1.prems" [unfolded Cons unf] oo by simp
      with oo "1.IH"(1) [OF Cons] show ?thesis
        by (intro step [of "Lit c" "[c]" "drop 1 r"]) (auto simp: Cons has_prefix_iff)
    next
      case cc
      have "expand_from t vars (b @ [c]) (drop 1 r) = Inr out"
        using "1.prems" [unfolded Cons unf] cc by simp
      with cc "1.IH"(2) [OF Cons] show ?thesis
        by (intro step [of "Lit c" "[c]" "drop 1 r"]) (auto simp: Cons has_prefix_iff)
    next
      case var
      with "1.prems" [unfolded Cons unf] obtain k rest v where k: "cut r [close_brace] = Some (k, rest)"
          "vars (trim_space k) = Some v" "expand_from t vars (b @ v) rest = Inr out"
        by (auto split: option.splits)
      have r: "r = k @ close_brace # rest" using cut_Some_append [OF k(1)] by simp
      have "close_brace \<notin> set k"
      proof
        assume "close_brace \<in> set k"
        then obtain x y where k': "k = x @ close_brace # y" "close_brace \<notin> set x"
          using split_list_first by metis
        then have "cut r [close_brace] = Some (x, y @ close_brace # rest)"
          using cut_close_brace [of x "y @ close_brace # rest"] r by simp
        with k(1) k'(1) show False by simp
      qed
      moreover have "\<not> has_prefix k [open_brace]" using var(2) r by (cases k) auto
      ultimately show ?thesis
        using Cons var r k "1.IH"(3) [OF Cons _ _ _ k(1) refl k(2) k(3)]
        by (intro step [of "Var k" v rest]) auto
    next
      case bad
      with "1.prems" [unfolded Cons unf] show ?thesis by simp
    next
      case plain
      have "expand_from t vars (b @ [c]) r = Inr out"
        using "1.prems" [unfolded Cons unf] plain by simp
      with plain "1.IH"(4) [OF Cons] show ?thesis
        by (intro step [of "Lit c" "[c]" r]) (auto simp: Cons)
    qed
  qed
qed

text \<open>
  \<open>Expand\<close> succeeds exactly when the template is a sequence of characters, doubled
  braces and placeholders that all name a value, and then returns the sequence with each
  placeholder replaced by its value and each doubled brace by one. A placeholder that names
  nothing is never replaced by an empty string.
\<close>
theorem Expand_parts:
  "Expand template vars = Inr out \<longleftrightarrow>
     (\<exists>ps. list_all part_ok ps \<and> template = render_parts ps \<and> parts_value vars ps = Some out)"
proof
  assume "Expand template vars = Inr out"
  then show "\<exists>ps. list_all part_ok ps \<and> template = render_parts ps \<and> parts_value vars ps = Some out"
    using expand_from_Inr_parts [of template vars "[]" template out] by (auto simp: Expand_def)
next
  assume "\<exists>ps. list_all part_ok ps \<and> template = render_parts ps \<and> parts_value vars ps = Some out"
  then obtain ps where "list_all part_ok ps" "template = render_parts ps" "parts_value vars ps = Some out"
    by blast
  then show "Expand template vars = Inr out"
    using expand_from_parts [of ps vars out template "[]" "[]"]
    by (simp add: Expand_def expand_from.simps [of _ _ _ "[]"])
qed

lemma Prefixed_hit [simp]: "values k = Some v \<Longrightarrow> Prefixed p values into (p @ ''.'' @ k) = Some v"
proof -
  assume v: "values k = Some v"
  have "cut_prefix (p @ ''.'' @ k) (p @ ''.'') = Some k" by (simp add: cut_prefix_Some)
  with v show ?thesis by (simp add: Prefixed_def)
qed

lemma Prefixed_other: "cut_prefix key (p @ ''.'') = None \<Longrightarrow> Prefixed p values into key = into key"
  by (simp add: Prefixed_def)

end
