(* ===== verification/GoNet.thy ===== *)
theory GoNet
  imports GoStrings
begin

text \<open>
  \<open>net.ParseIP\<close> of the Go standard library, which the program uses to tell an address from
  a name: an IPv4 address of four decimal fields without leading zeros, or an IPv6 address
  with an optional ellipsis and an optional embedded IPv4 address, and no zone. The result is
  the 16 bytes of the address, \<open>None\<close> for a string that is none.
\<close>

section \<open>IPv4\<close>

definition octet :: "string \<Rightarrow> nat option" where
  "octet s =
     (if s = [] \<or> (hd s = CHR ''0'' \<and> length s > 1) then None
      else case digits_value 0 s of None \<Rightarrow> None | Some n \<Rightarrow> if n \<le> 255 then Some n else None)"

fun octets :: "string list \<Rightarrow> nat list option" where
  "octets [] = Some []"
| "octets (s # ss) =
     (case octet s of None \<Rightarrow> None
      | Some n \<Rightarrow> (case octets ss of None \<Rightarrow> None | Some ns \<Rightarrow> Some (n # ns)))"

definition parse_ipv4 :: "string \<Rightarrow> nat list option" where
  "parse_ipv4 s =
     (let fs = split_char (CHR ''.'') s in if length fs = 4 then octets fs else None)"

section \<open>IPv6\<close>

definition is_hex :: "char \<Rightarrow> bool" where
  "is_hex c \<longleftrightarrow> is_digit c \<or> char_between (CHR ''a'') (CHR ''f'') c \<or> char_between (CHR ''A'') (CHR ''F'') c"

definition hex_digit :: "char \<Rightarrow> nat" where
  "hex_digit c =
     (if is_digit c then of_char c - 48
      else if char_between (CHR ''a'') (CHR ''f'') c then of_char c - 87 else of_char c - 55)"

definition hex_value :: "string \<Rightarrow> nat" where
  "hex_value s = foldl (\<lambda>n c. 16 * n + hex_digit c) 0 s"

text \<open>The loop over the fields: the bytes so far, the place of the ellipsis, what is left.\<close>

function ipv6_fields :: "nat list \<Rightarrow> nat option \<Rightarrow> string \<Rightarrow> (nat list \<times> nat option \<times> string) option" where
  "ipv6_fields bs ell s =
     (if length bs \<ge> 16 then Some (bs, ell, s)
      else
        let ds = takeWhile is_hex s; v = hex_value ds; bs' = bs @ [v div 256, v mod 256]
        in if ds = [] \<or> length ds > 4 then None
           else case dropWhile is_hex s of
               [] \<Rightarrow> Some (bs', ell, [])
             | c # t \<Rightarrow>
                 if c = CHR ''.'' then
                   (if ell = None \<and> length bs \<noteq> 12 \<or> length bs + 4 > 16 then None
                    else case parse_ipv4 s of None \<Rightarrow> None | Some q \<Rightarrow> Some (bs @ q, ell, []))
                 else if c \<noteq> CHR '':'' \<or> t = [] then None
                 else if hd t = CHR '':'' then
                   (if ell \<noteq> None then None
                    else if tl t = [] then Some (bs', Some (length bs'), [])
                    else ipv6_fields bs' (Some (length bs')) (tl t))
                 else ipv6_fields bs' ell t)"
  by pat_completeness auto
termination
proof (relation "measure (\<lambda>(bs, ell, s). length s)", goal_cases)
  case 1
  show ?case by simp
next
  case (2 bs ell s x xa xb c t)
  then have "length (c # t) \<le> length s" by (metis length_dropWhile_le)
  with 2 show ?case by simp
next
  case (3 bs ell s x xa xb c t)
  then have "length (c # t) \<le> length s" by (metis length_dropWhile_le)
  with 3 show ?case by simp
qed

declare ipv6_fields.simps [simp del]

definition ipv6_finish :: "nat list \<times> nat option \<times> string \<Rightarrow> nat list option" where
  "ipv6_finish r =
     (case r of (bs, ell, rest) \<Rightarrow>
        if rest \<noteq> [] then None
        else if length bs < 16 then
          (case ell of None \<Rightarrow> None
           | Some e \<Rightarrow> Some (take e bs @ replicate (16 - length bs) 0 @ drop e bs))
        else if ell \<noteq> None then None else Some bs)"

definition parse_ipv6 :: "string \<Rightarrow> nat list option" where
  "parse_ipv6 s =
     (if has_prefix s ''::'' then
        (if length s = 2 then Some (replicate 16 0)
         else Option.bind (ipv6_fields [] (Some 0) (drop 2 s)) ipv6_finish)
      else Option.bind (ipv6_fields [] None s) ipv6_finish)"

section \<open>Either\<close>

text \<open>A percent sign would begin a zone, which \<open>net.ParseIP\<close> refuses.\<close>

definition parse_ip :: "string \<Rightarrow> nat list option" where
  "parse_ip s =
     (if CHR ''%'' \<in> set s then None
      else case find (\<lambda>c. c = CHR ''.'' \<or> c = CHR '':'') s of
          None \<Rightarrow> None
        | Some c \<Rightarrow>
            if c = CHR ''.''
            then map_option (\<lambda>q. replicate 10 0 @ [255, 255] @ q) (parse_ipv4 s)
            else parse_ipv6 s)"

section \<open>The alphabet of an address\<close>

definition ip_char :: "char \<Rightarrow> bool" where
  "ip_char c \<longleftrightarrow> is_hex c \<or> c = CHR ''.'' \<or> c = CHR '':''"

lemma digits_value_digits: "digits_value n s = Some m \<Longrightarrow> \<forall>c\<in>set s. is_digit c"
  by (induction n s rule: digits_value.induct) (auto split: if_splits)

lemma octets_digits: "octets fs = Some ns \<Longrightarrow> \<forall>f\<in>set fs. \<forall>c\<in>set f. is_digit c"
  by (induction fs arbitrary: ns)
    (auto simp: octet_def split: option.splits if_splits dest!: digits_value_digits)

lemma set_split_char: "set s \<subseteq> insert c (\<Union> (set ` set (split_char c s)))"
  by (induction s) (auto split: list.splits dest!: subsetD)

lemma parse_ipv4_chars: "parse_ipv4 s = Some q \<Longrightarrow> \<forall>c\<in>set s. ip_char c"
  using set_split_char [of s "CHR ''.''"]
  by (fastforce simp: parse_ipv4_def Let_def ip_char_def is_hex_def split: if_splits dest!: octets_digits)

lemma octets_length: "octets fs = Some ns \<Longrightarrow> length ns = length fs"
  by (induction fs arbitrary: ns) (auto split: option.splits)

lemma set_span: "set s = set (takeWhile p s) \<union> set (dropWhile p s)"
  by (metis set_append takeWhile_dropWhile_id)

lemma ipv6_fields_chars:
  "ipv6_fields bs ell s = Some (bs', ell', rest) \<Longrightarrow> rest = [] \<Longrightarrow> \<forall>c\<in>set s. ip_char c"
proof (induction bs ell s arbitrary: bs' ell' rest rule: ipv6_fields.induct)
  case (1 bs ell s)
  let ?ds = "takeWhile is_hex s" and ?bs = "bs @ [hex_value (takeWhile is_hex s) div 256, hex_value (takeWhile is_hex s) mod 256]"
  have hex: "\<forall>c\<in>set ?ds. ip_char c" by (auto simp: ip_char_def dest: set_takeWhileD)
  show ?case
  proof (cases "length bs \<ge> 16")
    case True
    with "1.prems" show ?thesis by (simp add: ipv6_fields.simps [of bs ell s])
  next
    case False
    with "1.prems" have ds: "\<not> (?ds = [] \<or> length ?ds > 4)"
      by (auto simp: ipv6_fields.simps [of bs ell s] Let_def split: if_splits)
    show ?thesis
    proof (cases "dropWhile is_hex s")
      case Nil
      with hex show ?thesis using set_span [of s is_hex] by (metis Un_iff empty_iff empty_set)
    next
      case (Cons c t)
      have sub: "(\<forall>d\<in>set (c # t). ip_char d) \<Longrightarrow> ?thesis"
        using set_span [of s is_hex] hex Cons by auto
      consider (dot) "c = CHR ''.''"
        | (final) "c = CHR '':''" "t \<noteq> []" "hd t = CHR '':''" "ell = None" "tl t = []"
        | (more) "c = CHR '':''" "t \<noteq> []" "hd t = CHR '':''" "ell = None" "tl t \<noteq> []"
        | (field) "c = CHR '':''" "t \<noteq> []" "hd t \<noteq> CHR '':''"
        using "1.prems" False ds Cons
        by (auto simp: ipv6_fields.simps [of bs ell s] Let_def split: if_splits)
      then show ?thesis
      proof cases
        case dot
        with "1.prems" False ds Cons show ?thesis
          by (auto simp: ipv6_fields.simps [of bs ell s] Let_def split: if_splits option.splits
              dest: parse_ipv4_chars)
      next
        case final
        then have "t = [CHR '':'']" by (cases t) auto
        with final sub show ?thesis by (simp add: ip_char_def)
      next
        case more
        then have "ipv6_fields ?bs (Some (length ?bs)) (tl t) = Some (bs', ell', rest)"
          using "1.prems" False ds Cons by (auto simp: ipv6_fields.simps [of bs None s] Let_def)
        then have "\<forall>d\<in>set (tl t). ip_char d"
          using "1.IH"(1) [OF False refl refl refl ds Cons] more "1.prems" by simp
        moreover from more have "t = CHR '':'' # tl t" by (cases t) auto
        ultimately have "\<forall>d\<in>set t. ip_char d" by (metis ip_char_def set_ConsD)
        with more sub show ?thesis by (simp add: ip_char_def)
      next
        case field
        then have "ipv6_fields ?bs ell t = Some (bs', ell', rest)"
          using "1.prems" False ds Cons by (auto simp: ipv6_fields.simps [of bs ell s] Let_def)
        then have "\<forall>d\<in>set t. ip_char d"
          using "1.IH"(2) [OF False refl refl refl ds Cons] field "1.prems" by simp
        with field sub show ?thesis by (simp add: ip_char_def)
      qed
    qed
  qed
qed

lemma parse_ip_chars: "parse_ip s \<noteq> None \<Longrightarrow> \<forall>c\<in>set s. ip_char c"
proof -
  have fin: "\<forall>c\<in>set u. ip_char c" if "Option.bind (ipv6_fields [] e u) ipv6_finish \<noteq> None" for e u
  proof -
    from that obtain bs ell rest where "ipv6_fields [] e u = Some (bs, ell, rest)" "rest = []"
      by (cases "ipv6_fields [] e u") (auto simp: ipv6_finish_def split: if_splits)
    then show ?thesis by (rule ipv6_fields_chars)
  qed
  assume "parse_ip s \<noteq> None"
  then consider "parse_ipv4 s \<noteq> None" | "parse_ipv6 s \<noteq> None"
    by (auto simp: parse_ip_def split: if_splits option.splits)
  then show ?thesis
  proof cases
    case 1
    then show ?thesis by (auto dest: parse_ipv4_chars)
  next
    case 2
    show ?thesis
    proof (cases "has_prefix s ''::''")
      case True
      then obtain r where s: "s = ''::'' @ r" by (auto simp: has_prefix_iff)
      with 2 True fin have "\<forall>c\<in>set r. ip_char c"
        by (cases "r = []") (auto simp: parse_ipv6_def)
      with s show ?thesis by (simp add: ip_char_def)
    next
      case False
      with 2 fin show ?thesis by (simp add: parse_ipv6_def)
    qed
  qed
qed

lemma parse_ip_not_Nil: "parse_ip s \<noteq> None \<Longrightarrow> s \<noteq> []"
  by (auto simp: parse_ip_def)

end
