(* ===== verification/HostName.thy ===== *)
theory HostName
  imports GoNet ExitCode
begin

text \<open>
  \<open>internal/hostname\<close>: whether a name may be handed to ssh or put into a URL as a host, and
  whether an account may be handed to ssh as a user. Each check returns nil (\<open>None\<close>) or the
  reason it refuses; the reasons keep the order in which the code looks for them.
\<close>

section \<open>The checks\<close>

definition maxName :: nat where "maxName = 253"
definition maxLabel :: nat where "maxLabel = 63"

definition isHostChar :: "char \<Rightarrow> bool" where
  "isHostChar c \<longleftrightarrow> is_lower c \<or> is_upper c \<or> is_digit c \<or> c = CHR ''-''"

definition checkLabel :: "string \<Rightarrow> goerr option" where
  "checkLabel label =
     (if label = [] then Some (Leaf ''it has an empty label'' [])
      else if length label > maxLabel then Some (Leaf ''the label %q is longer'' [label])
      else if hd label = CHR ''-'' then Some (Leaf ''the label %q begins with a hyphen'' [label])
      else if last label = CHR ''-'' then Some (Leaf ''the label %q ends with a hyphen'' [label])
      else first_error (\<lambda>c. if isHostChar c then None
             else Some (Leaf ''%q is not a letter, a digit or a hyphen'' [[c]])) label)"

definition Check :: "string \<Rightarrow> goerr option" where
  "Check name =
     (if name = [] then Some (Leaf ''the host name is empty'' [])
      else let trimmed = trim_suffix name ''.'' in
        if trimmed = [] then Some (Leaf ''%q is not a host name'' [name])
        else if length trimmed > maxName then Some (Leaf ''%q is not a host name: it is longer'' [name])
        else map_option (\<lambda>e. Wrap ''%q is not a host name: %w'' [name] [e])
               (first_error checkLabel (split_char (CHR ''.'') trimmed)))"

definition userChar :: "char \<Rightarrow> bool" where
  "userChar c \<longleftrightarrow> isHostChar c \<or> c = CHR ''.'' \<or> c = CHR ''_''"

definition CheckUser :: "string \<Rightarrow> goerr option" where
  "CheckUser user =
     (if user = [] then Some (Leaf ''the user name is empty'' [])
      else if hd user = CHR ''-'' then Some (Leaf ''%q is not a user name: it begins with a hyphen'' [user])
      else first_error (\<lambda>c. if userChar c then None
             else Some (Leaf ''%q is not a user name: %q is not a letter'' [user, [c]])) user)"

definition IsIP :: "string \<Rightarrow> bool" where
  "IsIP host \<longleftrightarrow> \<not> contains_str host ''%'' \<and> parse_ip host \<noteq> None"

definition CheckHost :: "string \<Rightarrow> goerr option" where
  "CheckHost host = (if IsIP host then None else Check host)"

section \<open>What a host name is\<close>

definition valid_label :: "string \<Rightarrow> bool" where
  "valid_label l \<longleftrightarrow> l \<noteq> [] \<and> length l \<le> 63 \<and> hd l \<noteq> CHR ''-'' \<and> last l \<noteq> CHR ''-'' \<and>
     list_all isHostChar l"

text \<open>Dot separated labels, with at most one final dot, of at most 253 characters without it.\<close>

definition host_name_of :: "string list \<Rightarrow> string \<Rightarrow> bool" where
  "host_name_of labels name \<longleftrightarrow>
     labels \<noteq> [] \<and> list_all valid_label labels \<and> length (join_str ''.'' labels) \<le> 253 \<and>
     (name = join_str ''.'' labels \<or> name = join_str ''.'' labels @ ''.'')"

lemma checkLabel_None: "checkLabel l = None \<longleftrightarrow> valid_label l"
  by (auto simp: checkLabel_def valid_label_def maxLabel_def first_error_None list_all_iff
      split: if_splits)

lemma dot_not_host_char: "\<not> isHostChar (CHR ''.'')"
  by (simp add: isHostChar_def char_class_defs)

lemma valid_label_no_dot: "valid_label l \<Longrightarrow> CHR ''.'' \<notin> set l"
  using dot_not_host_char by (auto simp: valid_label_def list_all_iff)

lemma join_labels_no_final_dot:
  assumes "labels \<noteq> []" and "list_all valid_label labels"
  shows "\<not> has_suffix (join_str ''.'' labels) ''.''"
proof
  assume "has_suffix (join_str ''.'' labels) ''.''"
  then obtain r where r: "join_str ''.'' labels = r @ [CHR ''.'']" by (auto simp: has_suffix_iff)
  have "split_char (CHR ''.'') (join_str ''.'' labels) = labels"
    using assms by (intro split_join_char) (auto simp: list_all_iff valid_label_no_dot)
  with r have "split_char (CHR ''.'') r @ [[]] = labels" by (simp add: split_char_snoc)
  then have "[] \<in> set labels" by auto
  with assms(2) show False by (auto simp: list_all_iff valid_label_def)
qed

lemma trim_suffix_id: "\<not> has_suffix s p \<Longrightarrow> trim_suffix s p = s"
  by (simp add: trim_suffix_def cut_suffix_def)

lemma trim_suffix_append [simp]: "trim_suffix (s @ p) p = s"
  by (simp add: trim_suffix_def cut_suffix_def has_suffix_iff)

lemma Check_None_iff:
  "Check name = None \<longleftrightarrow>
     trim_suffix name ''.'' \<noteq> [] \<and> length (trim_suffix name ''.'') \<le> 253 \<and>
     list_all valid_label (split_char (CHR ''.'') (trim_suffix name ''.''))"
  by (auto simp: Check_def Let_def maxName_def first_error_None checkLabel_None list_all_iff
      trim_suffix_def cut_suffix_def)

text \<open>
  \<open>Check\<close> accepts a name exactly when it is a host name: one or more labels of ASCII
  letters, digits and hyphens, none empty, none longer than 63 characters, none beginning or
  ending with a hyphen, separated by dots, at most 253 characters long, and with at most one
  final dot.
\<close>
theorem Check_accepts_host_names: "Check name = None \<longleftrightarrow> (\<exists>labels. host_name_of labels name)"
proof
  assume acc: "Check name = None"
  let ?t = "trim_suffix name ''.''"
  have "host_name_of (split_char (CHR ''.'') ?t) name"
    using acc trim_suffix_cases [of name "''.''"] by (auto simp: Check_None_iff host_name_of_def)
  then show "\<exists>labels. host_name_of labels name" ..
next
  assume "\<exists>labels. host_name_of labels name"
  then obtain labels where l: "host_name_of labels name" ..
  let ?j = "join_str ''.'' labels"
  from l have ne: "labels \<noteq> []" and v: "list_all valid_label labels"
    by (auto simp: host_name_of_def)
  from l have t: "trim_suffix name ''.'' = ?j"
    using join_labels_no_final_dot [OF ne v] by (auto simp: host_name_of_def trim_suffix_id)
  have s: "split_char (CHR ''.'') ?j = labels"
    using ne v by (intro split_join_char) (auto simp: list_all_iff valid_label_no_dot)
  then have "?j \<noteq> []" using v ne by (auto simp: valid_label_def)
  with l t s v show "Check name = None" by (simp add: Check_None_iff host_name_of_def)
qed

section \<open>What an accepted name cannot say\<close>

lemma Check_chars:
  assumes "Check name = None"
  shows "name \<noteq> [] \<and> hd name \<noteq> CHR ''-'' \<and> (\<forall>c\<in>set name. isHostChar c \<or> c = CHR ''.'')"
proof -
  let ?t = "trim_suffix name ''.''"
  from assms have v: "list_all valid_label (split_char (CHR ''.'') ?t)" and ne: "?t \<noteq> []"
    by (auto simp: Check_None_iff)
  have chars: "\<forall>c\<in>set ?t. isHostChar c \<or> c = CHR ''.''"
    using set_split_char [of ?t "CHR ''.''"] v by (fastforce simp: list_all_iff valid_label_def)
  obtain w ws where w: "split_char (CHR ''.'') ?t = w # ws" by (cases "split_char (CHR ''.'') ?t") auto
  then have "w \<noteq> []" "hd w \<noteq> CHR ''-''" using v by (auto simp: valid_label_def)
  moreover have "?t = join_str ''.'' (w # ws)" using w by (metis join_split_char)
  ultimately have "hd ?t \<noteq> CHR ''-''" by (simp add: join_str_Cons hd_append)
  then have t: "?t \<noteq> [] \<and> hd ?t \<noteq> CHR ''-'' \<and> (\<forall>c\<in>set ?t. isHostChar c \<or> c = CHR ''.'')"
    using chars ne by simp
  consider "?t = name" | "name = ?t @ ''.''" using trim_suffix_cases [of name "''.''"] by auto
  then show ?thesis
  proof cases
    case 1
    with t show ?thesis by simp
  next
    case 2
    then have "hd name = hd ?t" "set name = insert (CHR ''.'') (set ?t)"
      using ne by (metis hd_append, metis Un_insert_right append_Nil2 list.simps(15) set_append)
    with t 2 show ?thesis by auto
  qed
qed

text \<open>The characters ssh, a URL or a shell gives a meaning to in a host.\<close>

definition host_special :: "char \<Rightarrow> bool" where
  "host_special c \<longleftrightarrow> \<not> (isHostChar c \<or> c = CHR ''.'' \<or> c = CHR '':'')"

lemma ip_char_host: "ip_char c \<Longrightarrow> \<not> host_special c \<and> c \<noteq> CHR ''-''"
  by (auto simp: ip_char_def is_hex_def host_special_def isHostChar_def char_class_defs)

lemma contains_char: "contains_str s [c] \<longleftrightarrow> c \<in> set s"
  by (auto simp: contains_str_sublist sublist_def in_set_conv_decomp)



text \<open>
  \<open>CheckUser\<close> accepts an account exactly when it is not empty, does not begin with a
  hyphen and holds ASCII letters, digits, dots, underscores and hyphens only.
\<close>
theorem CheckUser_accepts:
  "CheckUser user = None \<longleftrightarrow> user \<noteq> [] \<and> hd user \<noteq> CHR ''-'' \<and> list_all userChar user"
proof -
  have "first_error (\<lambda>c. if userChar c then None else Some (F c)) user = None \<longleftrightarrow> list_all userChar user"
    for F :: "char \<Rightarrow> goerr"
    by (simp add: first_error_None list_all_iff)
  then show ?thesis by (simp add: CheckUser_def)
qed

section \<open>The interface of a host check\<close>

text \<open>What the transport relies on when it builds a destination.\<close>

locale host_check =
  fixes check_host :: "string \<Rightarrow> goerr option"
    and check_user :: "string \<Rightarrow> goerr option"
  assumes host_not_option: "check_host h = None \<Longrightarrow> h \<noteq> [] \<and> hd h \<noteq> CHR ''-''"
    and host_no_at: "check_host h = None \<Longrightarrow> CHR ''@'' \<notin> set h"
    and user_not_option: "check_user u = None \<Longrightarrow> u \<noteq> [] \<and> hd u \<noteq> CHR ''-''"
    and user_no_at: "check_user u = None \<Longrightarrow> CHR ''@'' \<notin> set u"
begin

text \<open>A destination is read back as the account and the host it was made of.\<close>

lemma destination_parts:
  assumes "check_user u = None" and "check_host h = None"
  shows "cut (u @ ''@'' @ h) ''@'' = Some (u, h)"
proof -
  have "CHR ''@'' \<notin> set u" using assms(1) by (rule user_no_at)
  then show ?thesis using cut_char_first [of "CHR ''@''" u h] by simp
qed

lemma destination_not_option:
  assumes "check_user u = None"
  shows "hd (u @ ''@'' @ h) \<noteq> CHR ''-''"
  using user_not_option [OF assms] by (simp add: hd_append)

end

lemma CheckHost_no_at: "CheckHost h = None \<Longrightarrow> CHR ''@'' \<notin> set h"
proof (cases "IsIP h")
  case True
  then have "\<forall>c\<in>set h. ip_char c" using parse_ip_chars [of h] by (simp add: IsIP_def)
  then show ?thesis by (auto simp: ip_char_def is_hex_def char_class_defs)
next
  case False
  assume "CheckHost h = None"
  with False have "Check h = None" by (simp add: CheckHost_def)
  from Check_chars [OF this] show ?thesis by (auto simp: isHostChar_def char_class_defs)
qed

lemma CheckHost_not_option: "CheckHost h = None \<Longrightarrow> h \<noteq> [] \<and> hd h \<noteq> CHR ''-''"
proof (cases "IsIP h")
  case True
  then have "h \<noteq> []" "\<forall>c\<in>set h. ip_char c"
    using parse_ip_chars parse_ip_not_Nil by (auto simp: IsIP_def)
  then show ?thesis using ip_char_host by (metis list.set_sel(1))
next
  case False
  assume "CheckHost h = None"
  with False Check_chars [of h] show ?thesis by (simp add: CheckHost_def)
qed

lemma CheckUser_plain:
  "CheckUser u = None \<Longrightarrow> u \<noteq> [] \<and> hd u \<noteq> CHR ''-'' \<and> CHR ''@'' \<notin> set u"
  by (auto simp: CheckUser_def first_error_None userChar_def isHostChar_def char_class_defs split: if_splits)

interpretation ssh_names: host_check CheckHost CheckUser
  by unfold_locales (auto dest: CheckHost_not_option CheckHost_no_at CheckUser_plain)

end
