(* ===== verification/NodeSet.thy ===== *)
theory NodeSet
  imports ExitCode
begin

text \<open>
  The interface of the node set engine, the module go-nodeset, which the program uses and does
  not contain: the record of its operations the program calls, a parameter of every
  definition that uses them, and the laws its documentation gives. Two names are one host
  when they have the same key, which leaves out what is no part of a host's identity, such as
  zero padding. \<open>Add\<close> and \<open>Parse\<close> fail on an expression that cannot be read; an \<open>Add\<close> that
  fails leaves the set as it was.
\<close>

record 'ns nodeset_lib =
  ns_new :: 'ns
  ns_parse :: "string \<Rightarrow> goerr + 'ns"
  ns_add :: "'ns \<Rightarrow> string \<Rightarrow> goerr + 'ns"
  ns_union :: "'ns \<Rightarrow> 'ns \<Rightarrow> 'ns"
  ns_inter :: "'ns \<Rightarrow> 'ns \<Rightarrow> 'ns"
  ns_diff :: "'ns \<Rightarrow> 'ns \<Rightarrow> 'ns"
  ns_expand :: "'ns \<Rightarrow> string list"
  ns_len :: "'ns \<Rightarrow> nat"
  ns_is_empty :: "'ns \<Rightarrow> bool"
  ns_contains :: "'ns \<Rightarrow> string \<Rightarrow> bool"
  ns_string :: "'ns \<Rightarrow> string"
  ns_hostlist :: "'ns \<Rightarrow> string"

text \<open>A node name with no character the node set language gives a meaning to.\<close>

definition plain_name :: "string \<Rightarrow> bool" where
  "plain_name x \<longleftrightarrow> x \<noteq> [] \<and> list_all (\<lambda>c. is_alnum c \<or> c \<in> set ''._-'') x"

text \<open>\<open>_ = s.Add(e)\<close>: the error is dropped.\<close>

definition add_quiet :: "('ns, 'z) nodeset_lib_scheme \<Rightarrow> 'ns \<Rightarrow> string \<Rightarrow> 'ns" where
  "add_quiet L s e = (case ns_add L s e of Inl _ \<Rightarrow> s | Inr t \<Rightarrow> t)"

text \<open>The keys of the hosts of a set.\<close>

definition ns_keys :: "('ns, 'z) nodeset_lib_scheme \<Rightarrow> (string \<Rightarrow> string) \<Rightarrow> 'ns \<Rightarrow> string set" where
  "ns_keys L key s = key ` set (ns_expand L s)"

locale nodeset_contract =
  fixes L :: "'ns nodeset_lib"
    and key :: "string \<Rightarrow> string"
  assumes keys_new: "ns_keys L key (ns_new L) = {}"
    and distinct_keys: "distinct (map key (ns_expand L s))"
    and len_expand: "ns_len L s = length (ns_expand L s)"
    and is_empty_expand: "ns_is_empty L s \<longleftrightarrow> ns_expand L s = []"
    and contains_keys: "ns_contains L s x \<longleftrightarrow> key x \<in> ns_keys L key s"
    and keys_union: "ns_keys L key (ns_union L s t) = ns_keys L key s \<union> ns_keys L key t"
    and keys_inter: "ns_keys L key (ns_inter L s t) = ns_keys L key s \<inter> ns_keys L key t"
    and expand_diff: "set (ns_expand L (ns_diff L s t)) =
          {x \<in> set (ns_expand L s). key x \<notin> ns_keys L key t}"
    and add_parse: "ns_add L s e = Inr u \<Longrightarrow>
          \<exists>t. ns_parse L e = Inr t \<and> ns_keys L key u = ns_keys L key s \<union> ns_keys L key t"
    and parse_add: "ns_parse L e = Inr t \<Longrightarrow> \<exists>u. ns_add L s e = Inr u"
    and parse_plain: "plain_name x \<Longrightarrow> \<exists>t. ns_parse L x = Inr t \<and> ns_expand L t = [x]"
    and parse_expanded: "x \<in> set (ns_expand L s) \<Longrightarrow>
          \<exists>t. ns_parse L x = Inr t \<and> ns_keys L key t = {key x}"
begin

lemma keys_empty_iff: "ns_is_empty L s \<longleftrightarrow> ns_keys L key s = {}"
  by (simp add: is_empty_expand ns_keys_def)

lemma keys_diff: "ns_keys L key (ns_diff L s t) = ns_keys L key s - ns_keys L key t"
  by (auto simp: ns_keys_def expand_diff)

lemma diff_empty_iff: "ns_is_empty L (ns_diff L s t) \<longleftrightarrow> ns_keys L key s \<subseteq> ns_keys L key t"
  by (auto simp: keys_empty_iff keys_diff)

lemma keys_in: "x \<in> set (ns_expand L s) \<Longrightarrow> key x \<in> ns_keys L key s"
  by (simp add: ns_keys_def)

lemma keys_add_plain:
  assumes "plain_name x" and "ns_add L s x = Inr u"
  shows "ns_keys L key u = insert (key x) (ns_keys L key s)"
proof -
  from add_parse [OF assms(2)] obtain t where t: "ns_parse L x = Inr t"
      "ns_keys L key u = ns_keys L key s \<union> ns_keys L key t" by blast
  from parse_plain [OF assms(1)] t(1) have "ns_expand L t = [x]" by auto
  with t(2) show ?thesis by (simp add: ns_keys_def)
qed

lemma add_plain_ok: "plain_name x \<Longrightarrow> \<exists>u. ns_add L s x = Inr u"
  using parse_plain parse_add by blast

lemma keys_add_quiet_plain:
  "plain_name x \<Longrightarrow> ns_keys L key (add_quiet L s x) = insert (key x) (ns_keys L key s)"
  using add_plain_ok [of x s] keys_add_plain [of x s] by (auto simp: add_quiet_def)

lemma keys_add_quiet_expanded:
  assumes "x \<in> set (ns_expand L t)"
  shows "ns_keys L key (add_quiet L s x) = insert (key x) (ns_keys L key s)"
proof -
  from parse_expanded [OF assms] obtain r where r: "ns_parse L x = Inr r" "ns_keys L key r = {key x}"
    by blast
  obtain u where "ns_add L s x = Inr u" using parse_add [OF r(1)] by blast
  with add_parse [OF this] r show ?thesis by (auto simp: add_quiet_def)
qed

lemma keys_add_quiet_mono: "ns_keys L key s \<subseteq> ns_keys L key (add_quiet L s e)"
  using add_parse [of s e] by (auto simp: add_quiet_def split: sum.splits)

lemma keys_foldl_add_plain:
  "(\<And>x. x \<in> set xs \<Longrightarrow> plain_name (f x)) \<Longrightarrow>
     ns_keys L key (foldl (\<lambda>s x. add_quiet L s (f x)) s xs) = ns_keys L key s \<union> key ` f ` set xs"
  by (induction xs arbitrary: s) (auto simp: keys_add_quiet_plain)

lemma keys_foldl_add_expanded:
  "set xs \<subseteq> set (ns_expand L t) \<Longrightarrow>
     ns_keys L key (foldl (add_quiet L) s xs) = ns_keys L key s \<union> key ` set xs"
  by (induction xs arbitrary: s) (auto simp: keys_add_quiet_expanded)

lemma len_keys: "ns_len L s = card (ns_keys L key s)"
  using distinct_card [OF distinct_keys [of s]] by (simp add: len_expand ns_keys_def)

end

section \<open>A set of names\<close>

text \<open>
  A concrete node set for closed examples: the distinct names of a comma separated list, each
  its own key. It reads plain names only, and prints them as it reads them.
\<close>

definition names_parse :: "string \<Rightarrow> goerr + string list" where
  "names_parse e =
     (let ws = split_char (CHR '','') e in
      if e = [] then Inr []
      else if list_all plain_name ws then Inr (remdups ws) else Inl (Leaf ''in %q'' [e]))"

definition name_list :: "string list nodeset_lib" where
  "name_list = \<lparr>
     ns_new = [],
     ns_parse = (\<lambda>e. if plain_name e then Inr [e] else names_parse e),
     ns_add = (\<lambda>s e. rbind (if plain_name e then Inr [e] else names_parse e) (\<lambda>t. Inr (s @ t))),
     ns_union = (\<lambda>s t. s @ t),
     ns_inter = (\<lambda>s t. filter (\<lambda>x. x \<in> set t) s),
     ns_diff = (\<lambda>s t. filter (\<lambda>x. x \<notin> set t) s),
     ns_expand = (\<lambda>s. remdups (filter plain_name s)),
     ns_len = (\<lambda>s. length (remdups (filter plain_name s))),
     ns_is_empty = (\<lambda>s. filter plain_name s = []),
     ns_contains = (\<lambda>s x. plain_name x \<and> x \<in> set s),
     ns_string = join_str '','',
     ns_hostlist = join_str '','' \<rparr>"

lemma filter_plain_mem: "filter plain_name s = [] \<longleftrightarrow> remdups (filter plain_name s) = []"
  by simp

interpretation names: nodeset_contract name_list id
  by unfold_locales
    (auto simp: name_list_def ns_keys_def names_parse_def plain_name_def rbind_Inr_iff Let_def
      split: if_splits)

end
