(* ===== verification/Naming.thy ===== *)
theory Naming
  imports HostName Tmpl NodeSet
begin

text \<open>
  \<open>internal/naming\<close>: short node names turned into host names and service processor names by
  the ordered rules of a site. A rule's pattern is compiled by Go's regular expression
  engine; the model takes the compiler as a parameter that gives the predicate of the whole
  pattern, and builds the anchored pattern the way the code does.
\<close>

section \<open>Rules\<close>

text \<open>A rule as the configuration has it (\<open>v1alpha1.NamingRule\<close>), and as it is compiled.\<close>

record rule_spec =
  rs_prefixes :: "string list"
  rs_pattern :: string
  rs_fqdn :: string
  rs_bmc :: string

record rule =
  rl_index :: nat
  rl_prefixes :: "string list"
  rl_pattern :: "(string \<Rightarrow> bool) option"
  rl_fqdn :: string
  rl_bmc :: string

record namer =
  nm_rules :: "rule list"
  nm_vars :: "string \<rightharpoonup> string"
  nm_domains :: "string \<rightharpoonup> string"

type_synonym regexp_compiler = "string \<Rightarrow> goerr + (string \<Rightarrow> bool)"

definition compile_rule :: "regexp_compiler \<Rightarrow> nat \<Rightarrow> rule_spec \<Rightarrow> goerr + rule" where
  "compile_rule re i r =
     rbind (if rs_pattern r = [] then Inr None
            else case re (''^(?:'' @ rs_pattern r @ '')$'') of
                Inl e \<Rightarrow> Inl (Wrap ''naming rule %d: invalid pattern %q: %w'' [rs_pattern r] [e])
              | Inr m \<Rightarrow> Inr (Some m))
       (\<lambda>pat. if rs_fqdn r = [] \<and> rs_bmc r = []
              then Inl (Leaf ''naming rule %d sets neither fqdn nor bmc'' [])
              else Inr \<lparr>rl_index = i + 1, rl_prefixes = map to_lower (rs_prefixes r),
                     rl_pattern = pat, rl_fqdn = rs_fqdn r, rl_bmc = rs_bmc r\<rparr>)"

fun compile_rules :: "regexp_compiler \<Rightarrow> nat \<Rightarrow> rule_spec list \<Rightarrow> goerr + rule list" where
  "compile_rules re i [] = Inr []"
| "compile_rules re i (r # rs) =
     rbind (compile_rule re i r) (\<lambda>c. rbind (compile_rules re (Suc i) rs) (\<lambda>cs. Inr (c # cs)))"

definition new_namer ::
  "regexp_compiler \<Rightarrow> string \<Rightarrow> rule_spec list \<Rightarrow> (string \<rightharpoonup> string) \<Rightarrow> goerr + namer" where
  "new_namer re bmc_prefix rules domains =
     rbind (compile_rules re 0 rules) (\<lambda>rs.
       if rs = [] then Inl (Leaf ''the site defines no naming rules'' [])
       else Inr \<lparr>nm_rules = rs,
              nm_vars = Prefixed ''domains'' domains [''bmcPrefix'' \<mapsto> bmc_prefix],
              nm_domains = domains\<rparr>)"

text \<open>\<open>Domain\<close>: a missing key of a Go map reads as the empty string.\<close>

definition Domain :: "namer \<Rightarrow> string \<Rightarrow> string" where
  "Domain n role = (case nm_domains n role of None \<Rightarrow> [] | Some d \<Rightarrow> d)"

definition rule_claims :: "rule \<Rightarrow> string \<Rightarrow> bool" where
  "rule_claims r node =
     (case rl_pattern r of Some m \<Rightarrow> m node
      | None \<Rightarrow> if rl_prefixes r \<noteq> [] then list_ex (has_prefix node) (rl_prefixes r) else True)"

definition match_rule :: "namer \<Rightarrow> string \<Rightarrow> rule option" where
  "match_rule n node = find (\<lambda>r. rule_claims r node) (nm_rules n)"

definition expand_name :: "namer \<Rightarrow> string \<Rightarrow> string \<Rightarrow> goerr + string" where
  "expand_name n template node =
     rbind (Expand template ((nm_vars n)(''name'' \<mapsto> node))) (\<lambda>out.
       if has_suffix out ''.'' \<or> contains_str out ''..''
       then Inl (Leaf ''naming %q with %q produced %q'' [node, template, out])
       else Inr out)"

section \<open>Host names\<close>

definition Short :: "string \<Rightarrow> string" where
  "Short name = (case cut name ''.'' of None \<Rightarrow> name | Some (before, _) \<Rightarrow> before)"

definition FQDN :: "namer \<Rightarrow> string \<Rightarrow> goerr + string" where
  "FQDN n node0 =
     (let node = to_lower node0 in
      if contains_str node ''.'' then Inr node
      else case match_rule n node of
          None \<Rightarrow> Inr node
        | Some r \<Rightarrow> if rl_fqdn r = [] then Inr node else expand_name n (rl_fqdn r) node)"

section \<open>Service processors\<close>

definition BMC :: "namer \<Rightarrow> string \<Rightarrow> goerr + string" where
  "BMC n node =
     (let name = trim_suffix (to_lower node) ''.'' in
      if parse_ip name \<noteq> None then Inl (Leaf ''%q is an address, not a node name'' [node])
      else
        let short = Short name in
        rbind (FQDN n short) (\<lambda>fqdn.
          if name \<noteq> short \<and> \<not> equal_fold name fqdn
          then Inl (Leaf ''%q is not the host name the naming rules give'' [node, short, fqdn])
          else case match_rule n short of
              None \<Rightarrow> Inl (Leaf ''no naming rule matches %s'' [short])
            | Some r \<Rightarrow>
                if rl_bmc r = [] then Inl (Leaf ''naming rule %d has no bmc template'' [short])
                else rbind (expand_name n (rl_bmc r) short) (\<lambda>bmc.
                  if equal_fold bmc short \<or> equal_fold bmc fqdn
                  then Inl (Leaf ''the service processor is the node itself'' [short, bmc])
                  else Inr bmc)))"

section \<open>Sets of nodes\<close>

fun map_names ::
  "('ns, 'z) nodeset_lib_scheme \<Rightarrow> (string \<Rightarrow> goerr + string) \<Rightarrow> 'ns \<Rightarrow> string list \<Rightarrow> goerr + 'ns" where
  "map_names L f out [] = Inr out"
| "map_names L f out (node # nodes) =
     rbind (f node) (\<lambda>name.
       case ns_add L out name of
         Inl e \<Rightarrow> Inl (Wrap ''the name %q of node %q is not a valid host name: %w'' [name, node] [e])
       | Inr out' \<Rightarrow> map_names L f out' nodes)"

definition FQDNSet :: "('ns, 'z) nodeset_lib_scheme \<Rightarrow> namer \<Rightarrow> 'ns \<Rightarrow> goerr + 'ns" where
  "FQDNSet L n ns = map_names L (FQDN n) (ns_new L) (ns_expand L ns)"

section \<open>Facts\<close>

lemma Short_no_dot: "CHR ''.'' \<notin> set (Short s)"
proof (cases "cut s ''.''")
  case None
  then have "\<not> sublist ''.'' s" by (simp add: cut_None_iff)
  then show ?thesis using None by (simp add: Short_def flip: contains_str_sublist contains_char)
next
  case (Some ab)
  obtain a b where ab: "ab = (a, b)" by force
  have "CHR ''.'' \<notin> set a"
  proof
    assume "CHR ''.'' \<in> set a"
    then obtain x y where a: "a = x @ CHR ''.'' # y" "CHR ''.'' \<notin> set x"
      using split_list_first by metis
    have "s = x @ CHR ''.'' # (y @ ''.'' @ b)" using cut_Some_append [of s "''.''" a b] Some ab a by simp
    then have "cut s ''.'' = Some (x, y @ ''.'' @ b)" using cut_char_first [OF a(2)] by simp
    with Some ab a(1) show False by simp
  qed
  with Some ab show ?thesis by (simp add: Short_def)
qed

lemma Short_id: "CHR ''.'' \<notin> set s \<Longrightarrow> Short s = s"
proof -
  assume "CHR ''.'' \<notin> set s"
  then have "cut s ''.'' = None" using contains_char [of s "CHR ''.''"] by (simp only: contains_str_def) blast
  then show ?thesis by (simp add: Short_def)
qed

lemma Short_idem [simp]: "Short (Short s) = Short s"
  by (rule Short_id) (rule Short_no_dot)

lemma lower_dot: "lower_char c = CHR ''.'' \<longleftrightarrow> c = CHR ''.''"
  using lower_char_image [of c "CHR ''.''"] by (auto simp: lower_char_def char_class_defs)

lemma dot_in_lower: "CHR ''.'' \<in> set (to_lower s) \<longleftrightarrow> CHR ''.'' \<in> set s"
  by (auto simp: to_lower_def image_iff lower_dot eq_commute [of "CHR ''.''"])

lemma to_lower_Short: "to_lower (Short s) = Short (to_lower s)"
proof (cases "CHR ''.'' \<in> set s")
  case True
  then obtain x y where s: "s = x @ CHR ''.'' # y" "CHR ''.'' \<notin> set x" using split_list_first by metis
  have d: "lower_char (CHR ''.'') = CHR ''.''" by (simp add: lower_dot)
  have l: "to_lower s = to_lower x @ CHR ''.'' # to_lower y"
    by (simp add: s(1) to_lower_def d)
  have "CHR ''.'' \<notin> set (to_lower x)" using s(2) by (simp add: dot_in_lower)
  with s l show ?thesis by (simp add: Short_def cut_char_first)
next
  case False
  then show ?thesis by (simp add: Short_id dot_in_lower)
qed

lemma match_rule_first:
  "match_rule n node = Some r \<longleftrightarrow>
     (\<exists>pre post. nm_rules n = pre @ r # post \<and> rule_claims r node \<and> (\<forall>q\<in>set pre. \<not> rule_claims q node))"
  by (simp add: match_rule_def find_Some_split)

lemma expand_name_result:
  "expand_name n t node = Inr out \<Longrightarrow> \<not> has_suffix out ''.'' \<and> \<not> contains_str out ''..''"
  by (auto simp: expand_name_def rbind_Inr_iff split: if_splits)

text \<open>The decisions of \<open>BMC\<close> on a name, once it is lowercased and has lost its final dot.\<close>

lemma BMC_Inr_iff:
  "BMC n node = Inr bmc \<longleftrightarrow>
     (let name = trim_suffix (to_lower node) ''.'' in
      parse_ip name = None \<and>
      (\<exists>fqdn r. FQDN n (Short name) = Inr fqdn \<and>
        (name = Short name \<or> equal_fold name fqdn) \<and>
        match_rule n (Short name) = Some r \<and> rl_bmc r \<noteq> [] \<and>
        expand_name n (rl_bmc r) (Short name) = Inr bmc \<and>
        \<not> equal_fold bmc (Short name) \<and> \<not> equal_fold bmc fqdn))"
proof -
  define name where "name = trim_suffix (to_lower node) ''.''"
  show ?thesis
  proof (cases "parse_ip name")
    case None
    then show ?thesis
      unfolding BMC_def Let_def name_def [symmetric]
      by (cases "FQDN n (Short name)"; cases "match_rule n (Short name)")
        (auto simp: rbind_Inr_iff split: if_splits)
  next
    case (Some a)
    then show ?thesis unfolding BMC_def Let_def name_def [symmetric] by simp
  qed
qed

text \<open>
  The name \<open>BMC\<close> returns for a node never names the node itself: it differs, in any
  case of letters, from the node's short name and from the host name the rules give it, so
  the site's BMC account is never sent to the node. It comes from the bmc template of the
  first rule that claims the short name, and has no empty label.
\<close>
theorem BMC_never_the_node:
  assumes "BMC n node = Inr bmc"
  shows "\<exists>short fqdn pre r post.
     short = Short (trim_suffix (to_lower node) ''.'') \<and> FQDN n short = Inr fqdn \<and>
     \<not> equal_fold bmc short \<and> \<not> equal_fold bmc fqdn \<and>
     nm_rules n = pre @ r # post \<and> rule_claims r short \<and> (\<forall>q. q \<in> set pre \<longrightarrow> \<not> rule_claims q short) \<and>
     rl_bmc r \<noteq> [] \<and> expand_name n (rl_bmc r) short = Inr bmc \<and>
     \<not> has_suffix bmc ''.'' \<and> \<not> contains_str bmc ''..''"
proof -
  let ?short = "Short (trim_suffix (to_lower node) ''.'')"
  from assms obtain fqdn r where r: "FQDN n ?short = Inr fqdn" "match_rule n ?short = Some r"
      "rl_bmc r \<noteq> []" "expand_name n (rl_bmc r) ?short = Inr bmc"
      "\<not> equal_fold bmc ?short" "\<not> equal_fold bmc fqdn"
    by (auto simp: BMC_Inr_iff Let_def)
  from r(2) obtain pre post where "nm_rules n = pre @ r # post" "rule_claims r ?short"
      "\<forall>q\<in>set pre. \<not> rule_claims q ?short"
    by (auto simp: match_rule_first)
  with r expand_name_result [OF r(4)] show ?thesis by blast
qed

definition sample_namer :: namer where
  "sample_namer = \<lparr>nm_rules = [\<lparr>rl_index = 1, rl_prefixes = [''exe''], rl_pattern = None,
       rl_fqdn = ''{name}.hpc'', rl_bmc = ''{name}.bmc''\<rparr>],
     nm_vars = Map.empty, nm_domains = Map.empty\<rparr>"

lemma sample_names:
  "trim_suffix (to_lower ''EXE1'') ''.'' = ''exe1''" "Short ''exe1'' = ''exe1''"
  "to_lower ''exe1'' = ''exe1''" "parse_ip ''exe1'' = None"
  by code_simp+

lemma sample_bmc:
  "FQDN sample_namer ''exe1'' = Inr ''exe1.hpc''" "BMC sample_namer ''EXE1'' = Inr ''exe1.bmc''"
proof -
  have m: "match_rule sample_namer ''exe1'' = Some \<lparr>rl_index = 1, rl_prefixes = [''exe''],
      rl_pattern = None, rl_fqdn = ''{name}.hpc'', rl_bmc = ''{name}.bmc''\<rparr>"
    by (simp add: match_rule_def sample_namer_def rule_claims_def)
  have k: "trim_space ''name'' = ''name''" by code_simp
  have e: "Expand ''{name}.bmc'' [''name'' \<mapsto> ''exe1''] = Inr ''exe1.bmc''"
    "Expand ''{name}.hpc'' [''name'' \<mapsto> ''exe1''] = Inr ''exe1.hpc''"
    by (simp_all add: Expand_def expand_from.simps cut.simps k)
  have x: "expand_name sample_namer ''{name}.bmc'' ''exe1'' = Inr ''exe1.bmc''"
    "expand_name sample_namer ''{name}.hpc'' ''exe1'' = Inr ''exe1.hpc''"
    by (simp_all add: expand_name_def sample_namer_def e has_suffix_def contains_str_def cut.simps)
  have d: "contains_str ''exe1'' ''.'' = False" by code_simp
  have eq: "equal_fold ''exe1.bmc'' ''exe1'' = False" "equal_fold ''exe1.bmc'' ''exe1.hpc'' = False"
    by code_simp+
  show f: "FQDN sample_namer ''exe1'' = Inr ''exe1.hpc''"
    by (simp only: FQDN_def Let_def sample_names d if_False m x option.case rule.simps) simp
  show "BMC sample_namer ''EXE1'' = Inr ''exe1.bmc''"
    by (simp only: BMC_Inr_iff Let_def sample_names m x f eq rule.simps) (simp add: x eq)
qed

theorem BMC_never_the_node_witness:
  "BMC sample_namer ''EXE1'' = Inr ''exe1.bmc'' \<and> \<not> equal_fold ''exe1.bmc'' ''exe1''"
  using BMC_never_the_node [OF sample_bmc(2)] sample_bmc(2) by (auto simp: sample_names)

text \<open>
  \<open>BMC\<close> takes a node by its short name or by exactly the host name the rules give that
  short name, written in any case and with or without a final dot: when it answers for a name,
  it answers the same for the short name, and a name under any other domain is refused.
\<close>
theorem BMC_accepts_only_own_names:
  assumes "BMC n node = Inr bmc"
  shows "\<exists>short fqdn. short = Short (trim_suffix (to_lower node) ''.'') \<and> FQDN n short = Inr fqdn \<and>
     (trim_suffix (to_lower node) ''.'' = short \<or> equal_fold (trim_suffix (to_lower node) ''.'') fqdn) \<and>
     (parse_ip short = None \<longrightarrow> BMC n short = Inr bmc)"
proof -
  let ?name = "trim_suffix (to_lower node) ''.''"
  let ?short = "Short ?name"
  have low: "to_lower ?short = ?short"
  proof -
    have "to_lower ?name = ?name"
      using trim_suffix_cases [of "to_lower node" "''.''"]
    proof
      assume "to_lower node = ?name @ ''.''"
      then have "to_lower ?name @ to_lower ''.'' = ?name @ ''.''" by (metis to_lower_append to_lower_idem)
      then show ?thesis by (simp add: to_lower_def)
    qed (metis to_lower_idem)
    then show ?thesis by (simp add: to_lower_Short)
  qed
  have trim: "trim_suffix ?short ''.'' = ?short"
    using Short_no_dot [of ?name] by (intro trim_suffix_id) (auto simp: has_suffix_iff)
  from assms obtain fqdn r where f: "FQDN n ?short = Inr fqdn" "?name = ?short \<or> equal_fold ?name fqdn"
    and m: "match_rule n ?short = Some r" "rl_bmc r \<noteq> []" "expand_name n (rl_bmc r) ?short = Inr bmc"
      "\<not> equal_fold bmc ?short" "\<not> equal_fold bmc fqdn"
    unfolding BMC_Inr_iff Let_def by blast
  have "BMC n ?short = Inr bmc" if "parse_ip ?short = None"
    unfolding BMC_Inr_iff Let_def low trim Short_idem
    using f(1) m that by (intro conjI exI [of _ fqdn] exI [of _ r]) simp_all
  with f show ?thesis by (intro exI [of _ ?short] exI [of _ fqdn] conjI refl impI) assumption+
qed

theorem BMC_accepts_only_own_names_witness:
  "\<exists>fqdn. FQDN sample_namer ''exe1'' = Inr fqdn \<and> BMC sample_namer ''exe1'' = Inr ''exe1.bmc''"
proof -
  from BMC_accepts_only_own_names [OF sample_bmc(2)] show ?thesis by (auto simp: sample_names)
qed

end
