(* ===== verification/GoNumbers.thy ===== *)
theory GoNumbers
  imports GoStrings
begin

text \<open>
  Numbers as Go prints them: \<open>strconv.Itoa\<close> and \<open>%d\<close>, and a duration in seconds with three
  decimals (\<open>%.3f\<close> of \<open>Duration.Seconds\<close>), whose value goes through \<open>float64\<close>: the nanoseconds
  are divided in floating point, added to the whole seconds, and the result is rounded to three
  decimals, each step to nearest with ties to even. A duration is its number of nanoseconds.
\<close>

section \<open>Decimal numbers\<close>

definition digit_char :: "nat \<Rightarrow> char" where
  "digit_char d = char_of (48 + d)"

fun nat_digits :: "nat \<Rightarrow> string" where
  "nat_digits n = (if n < 10 then [digit_char n] else nat_digits (n div 10) @ [digit_char (n mod 10)])"

declare nat_digits.simps [simp del]

definition itoa :: "int \<Rightarrow> string" where
  "itoa i = (if i < 0 then CHR ''-'' # nat_digits (nat (- i)) else nat_digits (nat i))"

lemma digit_char_digit: "d < 10 \<Longrightarrow> is_digit (digit_char d)"
  by (simp add: digit_char_def char_class_defs)

lemma digit_char_value: "d < 10 \<Longrightarrow> of_char (digit_char d) = 48 + d"
  by (simp add: digit_char_def)

lemma nat_digits_not_Nil [simp]: "nat_digits n \<noteq> []"
  by (subst nat_digits.simps) simp

lemma nat_digits_are_digits: "c \<in> set (nat_digits n) \<Longrightarrow> is_digit c"
proof (induction n rule: nat_digits.induct)
  case (1 n)
  show ?case
  proof (cases "n < 10")
    case True
    with "1.prems" show ?thesis by (simp add: nat_digits.simps [of n] digit_char_digit)
  next
    case False
    with "1.prems" have "c \<in> set (nat_digits (n div 10)) \<or> c = digit_char (n mod 10)"
      by (auto simp: nat_digits.simps [of n])
    moreover have "is_digit (digit_char (n mod 10))" by (rule digit_char_digit) simp
    ultimately show ?thesis using "1.IH" [OF False] by blast
  qed
qed

lemma digits_value_append:
  "digits_value k (s @ t) = (case digits_value k s of None \<Rightarrow> None | Some m \<Rightarrow> digits_value m t)"
  by (induction s arbitrary: k) auto

lemma digits_value_nat_digits: "digits_value 0 (nat_digits n) = Some n"
proof (induction n rule: nat_digits.induct)
  case (1 n)
  show ?case
  proof (cases "n < 10")
    case True
    then show ?thesis by (simp add: nat_digits.simps [of n] digit_char_digit digit_char_value)
  next
    case False
    have "digits_value (n div 10) [digit_char (n mod 10)] = Some n"
      using digit_char_digit [of "n mod 10"] digit_char_value [of "n mod 10"] by simp
    with "1.IH" [OF False] False show ?thesis
      by (simp add: nat_digits.simps [of n] digits_value_append)
  qed
qed

lemma nat_digits_inject: "nat_digits m = nat_digits n \<Longrightarrow> m = n"
  by (metis digits_value_nat_digits option.inject)

lemma hd_nat_digits: "is_digit (hd (nat_digits n))"
  by (rule nat_digits_are_digits [OF hd_in_set [OF nat_digits_not_Nil]])

lemma atoi_itoa:
  assumes "- (2 ^ 63) \<le> i" and "i < 2 ^ 63"
  shows "atoi (itoa i) = Some i"
proof (cases "i < 0")
  case True
  with assms show ?thesis by (simp add: itoa_def atoi_def digits_value_nat_digits)
next
  case False
  have "hd (nat_digits (nat i)) \<noteq> CHR ''-'' \<and> hd (nat_digits (nat i)) \<noteq> CHR ''+''"
    using hd_nat_digits [of "nat i"] by (auto simp: char_class_defs)
  with False assms show ?thesis by (simp add: itoa_def atoi_def digits_value_nat_digits)
qed

section \<open>Durations\<close>

abbreviation Second :: int where "Second \<equiv> 1000000000"

text \<open>Division rounded to nearest, ties to even.\<close>

definition div_even :: "nat \<Rightarrow> nat \<Rightarrow> nat" where
  "div_even a b =
     (let q = a div b; r = a mod b
      in if 2 * r > b \<or> 2 * r = b \<and> odd q then q + 1 else q)"

fun bits :: "nat \<Rightarrow> nat" where
  "bits n = (if n = 0 then 0 else 1 + bits (n div 2))"

declare bits.simps [simp del]

text \<open>
  A \<open>float64\<close> that is not negative is \<open>m / 2 ^ e\<close> with \<open>m < 2 ^ 53\<close>. The quotient of a number
  below \<open>10 ^ 9\<close> by \<open>10 ^ 9\<close>: scaled so that the mantissa has 53 bits, or 54 before one is
  rounded off.
\<close>

definition float_billionth :: "nat \<Rightarrow> nat \<times> nat" where
  "float_billionth n =
     (if n = 0 then (0, 0)
      else let e = 83 - bits n; q = n * 2 ^ e div 1000000000;
               e' = e + 53 - bits q
           in (div_even (n * 2 ^ e') 1000000000, e'))"

definition float_add_nat :: "nat \<Rightarrow> nat \<times> nat \<Rightarrow> nat \<times> nat" where
  "float_add_nat s f =
     (case f of (m, e) \<Rightarrow>
        let v = s * 2 ^ e + m; k = min e (bits v - 53)
        in (div_even v (2 ^ k), e - k))"

text \<open>\<open>%.3f\<close>: rounded to thousandths, then written with three decimals.\<close>

definition three_decimals :: "nat \<times> nat \<Rightarrow> string" where
  "three_decimals f =
     (case f of (m, e) \<Rightarrow>
        let t = div_even (m * 1000) (2 ^ e)
        in nat_digits (t div 1000) @ ''.'' @
           [digit_char (t div 100 mod 10), digit_char (t div 10 mod 10), digit_char (t mod 10)])"

definition seconds_float :: "nat \<Rightarrow> nat \<times> nat" where
  "seconds_float ns = float_add_nat (ns div 1000000000) (float_billionth (ns mod 1000000000))"

text \<open>\<open>math.Ceil\<close> of \<open>Duration.Seconds\<close>.\<close>

definition ceil_seconds :: "int \<Rightarrow> int" where
  "ceil_seconds d =
     (if d < 0 then (case seconds_float (nat (- d)) of (m, e) \<Rightarrow> - int (m div 2 ^ e))
      else (case seconds_float (nat d) of (m, e) \<Rightarrow> int ((m + 2 ^ e - 1) div 2 ^ e)))"

end
