(* ===== verification/ApiTypes.thy ===== *)
theory ApiTypes
  imports GoNumbers
begin

text \<open>
  The configuration documents the components read (\<open>internal/apis/v1alpha1\<close>), as far as the
  modelled code reads them. A Go map is an association list: \<open>find_key\<close> reads it, and code that
  walks it in the order of its sorted keys uses \<open>sorted_keys\<close>. A key occurs once in a map; where
  that matters it is a premise.
\<close>

section \<open>Go maps\<close>

type_synonym 'v go_map = "(string \<times> 'v) list"

definition find_key :: "'v go_map \<Rightarrow> string \<Rightarrow> 'v option" where
  "find_key m k = map_of m k"

definition sorted_keys :: "'v go_map \<Rightarrow> string list" where
  "sorted_keys m = sort (remdups (map fst m))"

lemma set_sorted_keys [simp]: "set (sorted_keys m) = fst ` set m"
  by (simp add: sorted_keys_def)

lemma distinct_sorted_keys [simp]: "distinct (sorted_keys m)"
  by (simp add: sorted_keys_def)

lemma sorted_sorted_keys [simp]: "sorted (sorted_keys m)"
  by (simp add: sorted_keys_def)

lemma find_key_None: "find_key m k = None \<longleftrightarrow> k \<notin> fst ` set m"
  by (simp add: find_key_def map_of_eq_None_iff)

lemma find_key_in_sorted: "find_key m k = Some v \<Longrightarrow> k \<in> set (sorted_keys m)"
  by (force simp: find_key_def dest: map_of_SomeD)

section \<open>Hosts and ssh\<close>

record host_role =
  role_host :: string
  role_user :: string
  role_forward_agent :: bool
  role_forward_x11 :: bool
  role_proxy_jump :: string
  role_control_master :: bool
  role_legacy_algorithms :: bool
  role_options :: "string go_map"
  role_description :: string

text \<open>A pointer to a bool that may be nil is an option; a duration is in nanoseconds.\<close>

record ssh_spec =
  ssh_known_hosts_file :: string
  ssh_include :: "string list"
  ssh_strict :: "bool option"
  ssh_connect_timeout :: int
  ssh_connection_attempts :: int
  ssh_alive_interval :: int
  ssh_alive_count_max :: int
  ssh_control_path :: string
  ssh_control_persist :: int
  ssh_send_env :: "string list"
  ssh_options :: "string go_map"
  ssh_legacy_key_types :: bool
  ssh_binary :: string
  ssh_scp_binary :: string

text \<open>\<open>Duration.Or\<close>: the duration, or the fallback when it is zero.\<close>

definition duration_or :: "int \<Rightarrow> int \<Rightarrow> int" where
  "duration_or d fallback = (if d = 0 then fallback else d)"

text \<open>The values a document that says nothing leaves in the fields.\<close>

definition no_role :: host_role where
  "no_role = \<lparr> role_host = [], role_user = [], role_forward_agent = False, role_forward_x11 = False,
     role_proxy_jump = [], role_control_master = False, role_legacy_algorithms = False,
     role_options = [], role_description = [] \<rparr>"

definition no_ssh_spec :: ssh_spec where
  "no_ssh_spec = \<lparr> ssh_known_hosts_file = [], ssh_include = [], ssh_strict = None,
     ssh_connect_timeout = 0, ssh_connection_attempts = 0, ssh_alive_interval = 0,
     ssh_alive_count_max = 0, ssh_control_path = [], ssh_control_persist = 0, ssh_send_env = [],
     ssh_options = [], ssh_legacy_key_types = False, ssh_binary = [], ssh_scp_binary = [] \<rparr>"

end
