(* ===== verification/Remote.thy ===== *)
theory Remote
  imports ApiTypes ShellQuote HostName
begin

text \<open>
  The command half of \<open>internal/transport\<close>: the targets, the requests, the one argument a request
  is sent to a host as (\<open>RemoteCommand\<close> and the status guard), and the argument vectors the client
  runs ssh and scp with (\<open>Args\<close>, \<open>CopyArgs\<close>). The path of the generated configuration comes
  from \<open>writeConfig\<close> and is a field of the client here: \<open>Inl\<close> when it could not be written.
\<close>

section \<open>Targets and requests\<close>

datatype tty = TTYAuto | TTYForce | TTYNone

record target =
  tg_name :: string
  tg_host :: string
  tg_user :: string
  tg_role :: string
  tg_forward_agent :: bool
  tg_forward_x11 :: bool

text \<open>The writers and the line callback of a request are left out; nothing modelled reads them.\<close>

record request =
  rq_argv :: "string list"
  rq_script :: string
  rq_tty :: tty
  rq_timeout :: int
  rq_stdin :: "string option"
  rq_max_output :: int
  rq_no_shell :: bool

definition no_target :: target where
  "no_target = \<lparr> tg_name = [], tg_host = [], tg_user = [], tg_role = [], tg_forward_agent = False,
     tg_forward_x11 = False \<rparr>"

definition no_request :: request where
  "no_request = \<lparr> rq_argv = [], rq_script = [], rq_tty = TTYAuto, rq_timeout = 0, rq_stdin = None,
     rq_max_output = 0, rq_no_shell = False \<rparr>"

definition target_string :: "target \<Rightarrow> string" where
  "target_string t =
     (if tg_name t \<noteq> [] \<and> tg_name t \<noteq> tg_host t then tg_name t @ '' ('' @ tg_host t @ '')''
      else tg_host t)"

section \<open>The remote command\<close>

definition defaultConnectTimeout :: int where "defaultConnectTimeout = 10 * Second"
definition defaultShell :: string where "defaultShell = ''bash''"
definition killGrace :: int where "killGrace = 5 * Second"
definition maxArgBytes :: int where "maxArgBytes = 131072 - 1"

text \<open>The double quotes of the guard are written as characters: its text is
  \<open>"$@"; s=$?; [ "$s" -ne 255 ] || s=254; exit "$s"\<close>.\<close>

definition statusGuard :: string where
  "statusGuard = [CHR 0x22] @ ''$@'' @ [CHR 0x22] @ ''; s=$?; [ '' @ [CHR 0x22] @ ''$s'' @ [CHR 0x22] @
     '' -ne 255 ] || s=254; exit '' @ [CHR 0x22] @ ''$s'' @ [CHR 0x22]"

definition guardPrefix :: string where
  "guardPrefix = join_words [''sh'', ''-c'', statusGuard, ''sh''] @ '' ''"

definition timeout_text :: "int \<Rightarrow> string" where
  "timeout_text d =
     (if d mod Second = 0 then itoa (d div Second) @ ''s''
      else if d < 0 then CHR ''-'' # three_decimals (seconds_float (nat (- d))) @ ''s''
      else three_decimals (seconds_float (nat d)) @ ''s'')"

definition RemoteCommand :: "request \<Rightarrow> goerr + string" where
  "RemoteCommand req =
     (if rq_argv req \<noteq> [] \<and> rq_script req \<noteq> [] then
        Inl (Leaf ''a request carries both an argument vector and a script'' [])
      else
        let parts = (if rq_timeout req > 0
                     then [''timeout'', ''-k'', timeout_text killGrace, timeout_text (rq_timeout req)] else []);
            finish = (\<lambda>parts.
              let command = join_words parts;
                  sent = int (length command) +
                    (if rq_no_shell req then 0 else int (length guardPrefix))
              in if sent > maxArgBytes
                 then Inl (Leaf ''the remote command is %d bytes'' [itoa sent, itoa maxArgBytes])
                 else Inr command)
        in if rq_script req \<noteq> [] then finish (parts @ [defaultShell, ''-c'', rq_script req])
           else if rq_argv req \<noteq> [] then finish (parts @ rq_argv req)
           else if parts \<noteq> [] then Inl (Leaf ''a timeout was given without a command'' [])
           else Inr [])"

section \<open>The client\<close>

record client =
  cl_spec :: ssh_spec
  cl_roles :: "host_role go_map"
  cl_default_user :: string
  cl_no_terminal :: bool
  cl_state_dir :: string
  cl_known_hosts :: string
  cl_config_path :: "goerr + string"

definition Binary :: "client \<Rightarrow> string" where
  "Binary c = cmp_or [ssh_binary (cl_spec c), ''ssh'']"

definition ScpBinary :: "client \<Rightarrow> string" where
  "ScpBinary c = cmp_or [ssh_scp_binary (cl_spec c), ''scp'']"

definition Command :: "client \<Rightarrow> goerr + string list" where
  "Command c = rbind (cl_config_path c) (\<lambda>config. Inr [Binary c, ''-F'', config])"

text \<open>\<open>userFor\<close>: the account of the target, of its role, or the client's.\<close>

definition user_for :: "client \<Rightarrow> target \<Rightarrow> string" where
  "user_for c t =
     (if tg_user t \<noteq> [] then tg_user t
      else case find_key (cl_roles c) (tg_role t) of
        Some r \<Rightarrow> if role_user r \<noteq> [] then role_user r else cl_default_user c
      | None \<Rightarrow> cl_default_user c)"

definition destination :: "client \<Rightarrow> target \<Rightarrow> goerr + string" where
  "destination c t =
     (case CheckHost (tg_host t) of
        Some e \<Rightarrow> Inl (Coded Usage (Wrap ''%s: %w'' [tg_name t] [e]))
      | None \<Rightarrow>
          let user = user_for c t in
          if user = [] then Inr (tg_host t)
          else case CheckUser user of
            Some e \<Rightarrow> Inl (Coded Usage (Wrap ''%s: %w'' [tg_name t] [e]))
          | None \<Rightarrow> Inr (user @ ''@'' @ tg_host t))"

definition ssh_options_of :: "client \<Rightarrow> target \<Rightarrow> request \<Rightarrow> string list" where
  "ssh_options_of c t req =
     (case rq_tty req of TTYForce \<Rightarrow> [''-tt''] | TTYNone \<Rightarrow> [''-T''] | TTYAuto \<Rightarrow> []) @
     (if tg_forward_agent t then [''-A''] else []) @
     (if tg_forward_x11 t then [''-X''] else []) @
     (if cl_no_terminal c then [''-o'', ''BatchMode=yes''] else [])"

definition Args :: "client \<Rightarrow> target \<Rightarrow> request \<Rightarrow> goerr + string list" where
  "Args c t req =
     rbind (Command c) (\<lambda>base.
     rbind (destination c t) (\<lambda>dest.
     rbind (RemoteCommand req) (\<lambda>line.
       let sent = (if line \<noteq> [] \<and> \<not> rq_no_shell req then guardPrefix @ line else line)
       in Inr (base @ ssh_options_of c t req @ [''--'', dest] @ (if sent \<noteq> [] then [sent] else [])))))"

section \<open>Copying\<close>

record copy_request =
  cp_sources :: "string list"
  cp_destination :: string
  cp_upload :: bool
  cp_recursive :: bool
  cp_preserve :: bool

definition local_path :: "string \<Rightarrow> string" where
  "local_path path =
     (if has_prefix path ''-'' then ''./'' @ path
      else if contains_str path '':'' \<and> \<not> has_prefix path ''/'' \<and> \<not> has_prefix path ''./''
        then ''./'' @ path
      else path)"

definition copy_host :: "target \<Rightarrow> string \<Rightarrow> string" where
  "copy_host t host =
     (if contains_str (tg_host t) '':''
      then trim_suffix host (tg_host t) @ ''['' @ tg_host t @ '']'' else host)"

definition CopyArgs :: "client \<Rightarrow> target \<Rightarrow> copy_request \<Rightarrow> goerr + string list" where
  "CopyArgs c t req =
     (if cp_sources req = [] then Inl (Leaf ''no source was given to copy'' [])
      else if cp_destination req = [] then Inl (Leaf ''no destination was given to copy to'' [])
      else
        rbind (cl_config_path c) (\<lambda>config.
        let base = [ScpBinary c, ''-F'', config] @ (if cp_recursive req then [''-r''] else []) @
              (if cp_preserve req then [''-p''] else []) @
              (if cl_no_terminal c then [''-o'', ''BatchMode=yes''] else [])
        in rbind (destination c t) (\<lambda>dest.
        let remote = (\<lambda>path. copy_host t dest @ '':'' @ path)
        in Inr (base @ [''--''] @
             (if cp_upload req then map local_path (cp_sources req) @ [remote (cp_destination req)]
              else map remote (cp_sources req) @ [local_path (cp_destination req)])))))"

section \<open>What is sent\<close>

text \<open>
  The words a request asks a host to run: the timeout in front, then the argument vector or
  the script as the shell's one argument; and the guard's words, which a shell gets in front
  of those.
\<close>

definition timeout_words :: "request \<Rightarrow> string list" where
  "timeout_words req =
     (if rq_timeout req > 0
      then [''timeout'', ''-k'', timeout_text killGrace, timeout_text (rq_timeout req)] else [])"

definition command_words :: "request \<Rightarrow> string list" where
  "command_words req =
     (if rq_script req \<noteq> [] then [''bash'', ''-c'', rq_script req] else rq_argv req)"

definition guard_words :: "request \<Rightarrow> string list" where
  "guard_words req = (if rq_no_shell req then [] else [''sh'', ''-c'', statusGuard, ''sh''])"

definition sent_line :: "request \<Rightarrow> string" where
  "sent_line req = join_words (guard_words req @ timeout_words req @ command_words req)"

lemma quote_not_Nil [simp]: "quote s \<noteq> []"
  by (auto simp: quote_def safe_def)

lemma join_words_append:
  "a \<noteq> [] \<Longrightarrow> b \<noteq> [] \<Longrightarrow> join_words (a @ b) = join_words a @ '' '' @ join_words b"
proof (induction a)
  case (Cons x a)
  then show ?case by (cases "a = []") (simp_all add: join_words_def join_str_Cons)
qed simp

lemma join_words_Nil_iff [simp]: "join_words ws = [] \<longleftrightarrow> ws = []"
  by (cases ws) (simp_all add: join_words_def join_str_Cons)

lemma sent_line_guard:
  assumes "command_words req \<noteq> []"
  shows "sent_line req = (if rq_no_shell req then [] else guardPrefix) @ join_words (timeout_words req @ command_words req)"
proof -
  have "join_words ([''sh'', ''-c'', statusGuard, ''sh''] @ timeout_words req @ command_words req) =
      guardPrefix @ join_words (timeout_words req @ command_words req)"
    using join_words_append [of "[''sh'', ''-c'', statusGuard, ''sh'']" "timeout_words req @ command_words req"]
      assms by (simp only: guardPrefix_def append_assoc) simp
  then show ?thesis by (simp add: sent_line_def guard_words_def)
qed

lemma RemoteCommand_cases:
  "RemoteCommand req =
     (if rq_argv req \<noteq> [] \<and> rq_script req \<noteq> [] then
        Inl (Leaf ''a request carries both an argument vector and a script'' [])
      else if command_words req = [] then
        (if rq_timeout req > 0 then Inl (Leaf ''a timeout was given without a command'' []) else Inr [])
      else if int (length (sent_line req)) > 131071 then
        Inl (Leaf ''the remote command is %d bytes'' [itoa (int (length (sent_line req))), itoa maxArgBytes])
      else Inr (join_words (timeout_words req @ command_words req)))"
proof (cases "command_words req = []")
  case True
  then have "rq_argv req = []" "rq_script req = []" by (auto simp: command_words_def split: if_splits)
  with True show ?thesis by (simp add: RemoteCommand_def Let_def)
next
  case False
  have len: "int (length (sent_line req)) = int (length (join_words (timeout_words req @ command_words req))) +
      (if rq_no_shell req then 0 else int (length guardPrefix))"
    using sent_line_guard [OF False] by simp
  show ?thesis
  proof (cases "rq_script req \<noteq> []")
    case True
    then show ?thesis unfolding len
      by (simp add: RemoteCommand_def Let_def maxArgBytes_def command_words_def timeout_words_def defaultShell_def)
  next
    case script: False
    with False have "rq_argv req \<noteq> []" by (simp add: command_words_def)
    with script show ?thesis unfolding len
      by (simp add: RemoteCommand_def Let_def maxArgBytes_def command_words_def timeout_words_def)
  qed
qed


section \<open>What ssh is given\<close>

lemma destination_cases:
  "destination c t = Inr d \<longleftrightarrow>
     CheckHost (tg_host t) = None \<and>
     (if user_for c t = [] then d = tg_host t
      else CheckUser (user_for c t) = None \<and> d = user_for c t @ ''@'' @ tg_host t)"
  by (auto simp: destination_def Let_def split: option.splits if_splits)

text \<open>
  C2. A request that asks for a command is given to ssh as its last argument, right after
  \<open>--\<close> and the destination. A POSIX shell splits that argument into exactly the words of the
  request: the status guard unless the host has no shell, the timeout when there is one, and
  the argument vector, or bash with the script as one argument. It is within the kernel's
  bound on one argument, the guard counted in.
\<close>
theorem Args_sends_the_words:
  assumes "Args c t req = Inr argv" and "command_words req \<noteq> []"
  shows "\<exists>opts dest sent. argv = opts @ [''--'', dest, sent] \<and> destination c t = Inr dest \<and>
     shell_words sent = Some (guard_words req @ timeout_words req @ command_words req) \<and>
     length sent \<le> 131071"
proof -
  from assms(1) obtain base dest line where parts: "Command c = Inr base" "destination c t = Inr dest"
      "RemoteCommand req = Inr line"
    by (auto simp: Args_def result_simps)
  from parts(3) assms(2) have line: "line = join_words (timeout_words req @ command_words req)"
    and short: "length (sent_line req) \<le> 131071"
    by (auto simp: RemoteCommand_cases split: if_splits)
  have ne: "line \<noteq> []" using assms(2) by (simp add: line)
  let ?sent = "if rq_no_shell req then line else guardPrefix @ line"
  have sent: "?sent = sent_line req" using sent_line_guard [OF assms(2)] line by simp
  have "argv = (base @ ssh_options_of c t req) @ [''--'', dest, ?sent]"
    using assms(1) parts ne by (auto simp: Args_def Let_def)
  moreover have "shell_words ?sent = Some (guard_words req @ timeout_words req @ command_words req)"
    by (simp only: sent sent_line_def posix.split_render)
  moreover have "length ?sent \<le> 131071" using short by (simp only: sent)
  ultimately show ?thesis using parts(2)
    by (intro exI [of _ "base @ ssh_options_of c t req"] exI [of _ dest] exI [of _ ?sent] conjI)
qed

definition sample_client :: client where
  "sample_client = \<lparr> cl_spec = no_ssh_spec, cl_roles = [(''hub'', no_role\<lparr>role_host := ''hub.x'', role_user := ''ops''\<rparr>)],
     cl_default_user = ''root'', cl_no_terminal = True, cl_state_dir = ''/s'', cl_known_hosts = ''/k'', cl_config_path = Inr ''/c'' \<rparr>"

definition sample_request :: request where
  "sample_request = no_request\<lparr>rq_argv := [''echo'', ''it's''], rq_no_shell := True\<rparr>"

lemma sample_destination: "destination sample_client (no_target\<lparr>tg_host := ''n1''\<rparr>) = Inr ''root@n1''"
  by code_simp

lemma sample_sent: "RemoteCommand sample_request = Inr (join_words [''echo'', ''it's''])"
  by code_simp

theorem Args_sends_the_words_witness:
  "\<exists>opts dest sent. Args sample_client (no_target\<lparr>tg_host := ''n1''\<rparr>) sample_request =
     Inr (opts @ [''--'', dest, sent]) \<and> shell_words sent = Some [''echo'', ''it's'']"
proof -
  have "Command sample_client = Inr [''ssh'', ''-F'', ''/c'']" by code_simp
  then obtain argv where a: "Args sample_client (no_target\<lparr>tg_host := ''n1''\<rparr>) sample_request = Inr argv"
    using sample_destination sample_sent by (simp add: Args_def Let_def)
  have w: "guard_words sample_request @ timeout_words sample_request @ command_words sample_request
      = [''echo'', ''it's'']" by code_simp
  have "command_words sample_request \<noteq> []" by code_simp
  from Args_sends_the_words [OF a this] a show ?thesis unfolding w by auto
qed

text \<open>
  A destination names one host that \<open>CheckHost\<close> accepts, never begins with a hyphen, and
  is read back at its at sign as the account that was resolved, which \<open>CheckUser\<close> accepts, and
  that host; where no account was resolved it is the host alone.
\<close>
theorem destination_reads_back:
  assumes "destination c t = Inr d"
  shows "CheckHost (tg_host t) = None \<and> d \<noteq> [] \<and> hd d \<noteq> CHR ''-'' \<and>
     cut d ''@'' = (if user_for c t = [] then None else Some (user_for c t, tg_host t))"
proof (cases "user_for c t = []")
  case True
  with assms have d: "d = tg_host t" and ok: "CheckHost (tg_host t) = None"
    by (auto simp: destination_cases)
  have "\<not> sublist ''@'' d" using ssh_names.host_no_at [OF ok]
    by (auto simp: d sublist_def in_set_conv_decomp)
  with True ok d ssh_names.host_not_option [OF ok] show ?thesis by (simp add: cut_None_iff)
next
  case False
  with assms have d: "d = user_for c t @ ''@'' @ tg_host t" and ok: "CheckHost (tg_host t) = None"
    and user: "CheckUser (user_for c t) = None"
    by (auto simp: destination_cases)
  with False show ?thesis
    using ssh_names.destination_parts [OF user ok] ssh_names.destination_not_option [OF user, of "tg_host t"]
    by simp
qed

theorem destination_reads_back_witness: "cut ''root@n1'' ''@'' = Some (''root'', ''n1'')"
proof -
  have "user_for sample_client (no_target\<lparr>tg_host := ''n1''\<rparr>) = ''root''" by code_simp
  with destination_reads_back [OF sample_destination] show ?thesis by simp
qed


section \<open>What scp is given\<close>

text \<open>
  How scp tells a remote operand from a local one, from its manual page and source: the first
  colon outside brackets, unless a slash comes first or the operand begins with a colon; an
  address in brackets, at the start or after the account, is passed over whole.
\<close>

fun scp_colon :: "bool \<Rightarrow> string \<Rightarrow> (string \<times> string) option" where
  "scp_colon flag [] = None"
| "scp_colon flag (c # s) =
     (let flag' = (flag \<or> c = CHR ''@'' \<and> has_prefix s ''['')
      in if c = CHR '']'' \<and> has_prefix s '':'' \<and> flag' then Some ([c], tl s)
         else if c = CHR '':'' \<and> \<not> flag' then Some ([], s)
         else if c = CHR ''/'' then None
         else map_option (\<lambda>(h, p). (c # h, p)) (scp_colon flag' s))"

definition scp_remote :: "string \<Rightarrow> (string \<times> string) option" where
  "scp_remote operand =
     (if has_prefix operand '':'' then None else scp_colon (has_prefix operand ''['') operand)"

definition host_text :: "target \<Rightarrow> string" where
  "host_text t = (if contains_str (tg_host t) '':'' then ''['' @ tg_host t @ '']'' else tg_host t)"

lemma scp_colon_plain:
  assumes "CHR '':'' \<notin> set s" and "CHR ''/'' \<notin> set s" and "CHR ''@'' \<notin> set s"
  shows "scp_colon False (s @ '':'' @ p) = Some (s, p)"
  using assms by (induction s) auto

lemma scp_colon_bracketed:
  assumes "CHR '']'' \<notin> set s" and "CHR ''/'' \<notin> set s"
  shows "scp_colon True (s @ '']:'' @ p) = Some (s @ '']'', p)"
  using assms by (induction s) auto

lemma scp_colon_account:
  assumes "CHR '':'' \<notin> set u" and "CHR ''/'' \<notin> set u" and "CHR ''@'' \<notin> set u"
  shows "scp_colon False (u @ CHR ''@'' # r) =
     map_option (\<lambda>(h, p). (u @ CHR ''@'' # h, p)) (scp_colon (has_prefix r ''['') r)"
  using assms by (induction u) (auto simp: option.map_comp comp_def case_prod_unfold)

lemma host_chars:
  assumes "CheckHost h = None"
  shows "CHR ''/'' \<notin> set h \<and> CHR ''@'' \<notin> set h \<and> CHR '']'' \<notin> set h \<and> CHR ''['' \<notin> set h"
proof -
  have "\<forall>c\<in>set h. \<not> host_special c"
  proof (cases "IsIP h")
    case True
    then have "\<forall>c\<in>set h. ip_char c" using parse_ip_chars [of h] by (simp add: IsIP_def)
    then show ?thesis using ip_char_host by blast
  next
    case False
    with assms have "Check h = None" by (simp add: CheckHost_def)
    from Check_chars [OF this] show ?thesis by (auto simp: host_special_def)
  qed
  then show ?thesis by (auto simp: host_special_def isHostChar_def char_class_defs)
qed

lemma user_chars:
  assumes "CheckUser u = None"
  shows "CHR ''/'' \<notin> set u \<and> CHR ''@'' \<notin> set u \<and> CHR '':'' \<notin> set u \<and> CHR ''['' \<notin> set u"
  using assms by (auto simp: CheckUser_def first_error_None userChar_def isHostChar_def char_class_defs
      split: if_splits)

lemma scp_colon_host:
  assumes "CheckHost (tg_host t) = None"
  shows "scp_colon (has_prefix (host_text t @ '':'' @ p) ''['') (host_text t @ '':'' @ p) = Some (host_text t, p)"
proof (cases "CHR '':'' \<in> set (tg_host t)")
  case True
  then have h: "host_text t = CHR ''['' # tg_host t @ '']''" by (simp add: host_text_def contains_char)
  show ?thesis
    using scp_colon_bracketed [of "tg_host t" p] host_chars [OF assms] by (simp add: h)
next
  case False
  then have h: "host_text t = tg_host t" by (simp add: host_text_def contains_char)
  obtain c s where cs: "tg_host t = c # s"
    using ssh_names.host_not_option [OF assms] by (cases "tg_host t") auto
  then have "c \<noteq> CHR ''[''" using host_chars [OF assms] by auto
  with cs have "\<not> has_prefix (tg_host t @ '':'' @ p) ''[''" by simp
  then show ?thesis
    using scp_colon_plain [of "tg_host t" p] host_chars [OF assms] False by (simp add: h)
qed

lemma copy_host_text:
  assumes "destination c t = Inr d"
  shows "copy_host t d = (if user_for c t = [] then [] else user_for c t @ ''@'') @ host_text t"
  using assms trim_suffix_append [of "user_for c t @ ''@''" "tg_host t"] trim_suffix_append [of "[]" "tg_host t"]
  by (auto simp: destination_cases copy_host_def host_text_def)

lemma scp_remote_operand:
  assumes "destination c t = Inr d"
  shows "scp_remote (copy_host t d @ '':'' @ p) = Some (copy_host t d, p)"
proof (cases "user_for c t = []")
  case True
  from assms have ok: "CheckHost (tg_host t) = None" by (auto simp: destination_cases)
  have "\<not> has_prefix (host_text t @ '':'' @ p) '':''"
    using ssh_names.host_not_option [OF ok] by (cases "tg_host t") (auto simp: host_text_def contains_char)
  then show ?thesis using scp_colon_host [OF ok, of p] True copy_host_text [OF assms]
    by (simp add: scp_remote_def)
next
  case False
  let ?u = "user_for c t"
  from assms False have ok: "CheckHost (tg_host t) = None" and user: "CheckUser ?u = None"
    by (auto simp: destination_cases)
  obtain x v where u: "?u = x # v" using False by (cases ?u) auto
  with user_chars [OF user] have "x \<noteq> CHR '':''" "x \<noteq> CHR ''[''" by auto
  then show ?thesis
    using scp_colon_host [OF ok, of p] False copy_host_text [OF assms] user_chars [OF user]
      scp_colon_account [of ?u "host_text t @ '':'' @ p"]
    by (simp add: scp_remote_def u)
qed

lemma scp_colon_no_colon: "CHR '':'' \<notin> set s \<Longrightarrow> scp_colon flag s = None"
proof (induction s arbitrary: flag)
  case (Cons c s)
  then have "\<not> has_prefix s '':''" by (cases s) auto
  with Cons show ?case by (auto simp: Let_def)
qed simp

lemma scp_local_operand: "scp_remote (local_path p) = None \<and> \<not> has_prefix (local_path p) ''-''"
proof -
  consider "has_prefix p ''-''" | "\<not> has_prefix p ''-''" "CHR '':'' \<notin> set p"
    | r where "p = CHR ''/'' # r" | r where "p = ''./'' @ r"
    | "\<not> has_prefix p ''-''" "CHR '':'' \<in> set p" "\<not> has_prefix p ''/''" "\<not> has_prefix p ''./''"
    by (metis append_Cons append_Nil has_prefix_iff)
  then show ?thesis
    by cases (auto simp: local_path_def contains_char scp_remote_def scp_colon_no_colon)
qed

text \<open>
  Every operand \<open>CopyArgs\<close> writes after \<open>--\<close> is read by scp the way it was meant: the
  remote ones as the destination of the target, an IPv6 address in brackets, and the whole
  path, whatever colons are in it; the local ones as local files, and none of those as an
  option.
\<close>
theorem CopyArgs_operands:
  assumes "CopyArgs c t req = Inr argv"
  shows "\<exists>opts d locals remotes.
     argv = opts @ [''--''] @ (if cp_upload req then locals @ remotes else remotes @ locals) \<and>
     destination c t = Inr d \<and>
     map scp_remote remotes = map (\<lambda>p. Some (copy_host t d, p))
       (if cp_upload req then [cp_destination req] else cp_sources req) \<and>
     locals = map local_path (if cp_upload req then cp_sources req else [cp_destination req]) \<and>
     list_all (\<lambda>p. scp_remote p = None \<and> \<not> has_prefix p ''-'') locals"
proof -
  from assms obtain config d where parts: "cl_config_path c = Inr config" "destination c t = Inr d"
    by (auto simp: CopyArgs_def result_simps Let_def split: if_splits)
  let ?opts = "[ScpBinary c, ''-F'', config] @ (if cp_recursive req then [''-r''] else []) @
     (if cp_preserve req then [''-p''] else []) @
     (if cl_no_terminal c then [''-o'', ''BatchMode=yes''] else [])"
  let ?remote = "\<lambda>p. copy_host t d @ '':'' @ p"
  let ?remotes = "map ?remote (if cp_upload req then [cp_destination req] else cp_sources req)"
  let ?locals = "map local_path (if cp_upload req then cp_sources req else [cp_destination req])"
  from assms parts have argv: "argv = ?opts @ [''--''] @ (if cp_upload req then ?locals @ ?remotes else ?remotes @ ?locals)"
    by (auto simp: CopyArgs_def Let_def split: if_splits)
  have remotes: "map scp_remote ?remotes = map (\<lambda>p. Some (copy_host t d, p))
       (if cp_upload req then [cp_destination req] else cp_sources req)"
    using scp_remote_operand [OF parts(2)] by simp
  have locals: "list_all (\<lambda>p. scp_remote p = None \<and> \<not> has_prefix p ''-'') ?locals"
    using scp_local_operand by (simp add: list_all_iff)
  show ?thesis
    by (intro exI conjI) (rule argv, rule parts(2), rule remotes, rule refl, rule locals)
qed

definition sample_copy :: copy_request where
  "sample_copy = \<lparr> cp_sources = [''a:b''], cp_destination = ''/tmp/a:b'', cp_upload = True,
     cp_recursive = False, cp_preserve = False \<rparr>"

theorem CopyArgs_operands_witness:
  "\<exists>opts r. CopyArgs sample_client (no_target\<lparr>tg_host := ''n1''\<rparr>) sample_copy =
     Inr (opts @ [''--'', ''./a:b'', r]) \<and> scp_remote r = Some (''root@n1'', ''/tmp/a:b'')"
proof -
  have "cl_config_path sample_client = Inr ''/c''" by (simp add: sample_client_def)
  then obtain argv where a: "CopyArgs sample_client (no_target\<lparr>tg_host := ''n1''\<rparr>) sample_copy = Inr argv"
    by (simp add: CopyArgs_def sample_destination sample_copy_def)
  have up: "cp_upload sample_copy" "cp_sources sample_copy = [''a:b'']" "cp_destination sample_copy = ''/tmp/a:b''"
    by (simp_all add: sample_copy_def)
  have h: "copy_host (no_target\<lparr>tg_host := ''n1''\<rparr>) ''root@n1'' = ''root@n1''" by code_simp
  have l: "local_path ''a:b'' = ''./a:b''" by code_simp
  show ?thesis using CopyArgs_operands [OF a] by (auto simp: a up l h sample_destination)
qed

end
