(* ===== verification/SshConfig.thy ===== *)
theory SshConfig
  imports Remote
begin

text \<open>
  \<open>internal/transport/sshconfig.go\<close>: the ssh configuration every connection is made with, the
  jump hosts of a role, and the checks of everything the file is built from. What the code asks
  the machine for is the parameter \<open>env\<close>: the home directory, which files exist, the digest of
  a text (SHA-256 in hexadecimal) and what \<open>ssh -V\<close> answered. A Host block is the list of its
  settings, in order; \<open>block_text\<close> writes it out.
\<close>

record ssh_env =
  env_home :: "string option"
  env_exists :: "string \<Rightarrow> bool"
  env_digest :: "string \<Rightarrow> string"
  env_version :: "goerr option \<times> (string option)"

section \<open>Paths and values\<close>

definition hasControl :: "string \<Rightarrow> bool \<Rightarrow> bool" where
  "hasControl s allow_lines \<longleftrightarrow>
     list_ex (\<lambda>c. \<not> (allow_lines \<and> (c = CHR 0x0A \<or> c = CHR 0x09)) \<and>
       ((of_char c :: nat) < 32 \<or> c = CHR 0x7F)) s"

definition contains_any :: "string \<Rightarrow> string \<Rightarrow> bool" where
  "contains_any s cs \<longleftrightarrow> list_ex (\<lambda>c. c \<in> set cs) s"

definition checkPath :: "string \<Rightarrow> goerr option" where
  "checkPath path =
     (if hasControl path False then Some (Leaf ''%q holds a control character'' [path])
      else if contains_any path [CHR 0x22, CHR 0x5C] then Some (Leaf ''%q holds a quote or a backslash'' [path])
      else if contains_str path ''${'' then Some (Leaf ''%q holds ${'' [path])
      else None)"

definition quote_path :: "string \<Rightarrow> string" where
  "quote_path path = [CHR 0x22] @ path @ [CHR 0x22]"

definition escapePercent :: "string \<Rightarrow> string" where
  "escapePercent path = concat (map (\<lambda>c. if c = CHR ''%'' then ''%%'' else [c]) path)"

definition seconds :: "int \<Rightarrow> string" where
  "seconds d = itoa (ceil_seconds d)"

definition persist :: "int \<Rightarrow> string" where
  "persist d = (if d \<le> 0 then ''no'' else seconds d)"

text \<open>\<open>filepath.Clean\<close> and \<open>filepath.Join\<close> of two elements.\<close>

fun clean_elements :: "bool \<Rightarrow> string list \<Rightarrow> string list \<Rightarrow> string list" where
  "clean_elements rooted stack [] = rev stack"
| "clean_elements rooted stack (e # es) =
     (if e = [] \<or> e = ''.'' then clean_elements rooted stack es
      else if e = ''..'' then
        (if stack \<noteq> [] \<and> hd stack \<noteq> ''..'' then clean_elements rooted (tl stack) es
         else if rooted then clean_elements rooted stack es
         else clean_elements rooted (e # stack) es)
      else clean_elements rooted (e # stack) es)"

definition path_clean :: "string \<Rightarrow> string" where
  "path_clean p =
     (let rooted = has_prefix p ''/'';
          es = join_str ''/'' (clean_elements rooted [] (split_char (CHR ''/'') p))
      in if rooted then CHR ''/'' # es else if es = [] then ''.'' else es)"

definition path_join :: "string \<Rightarrow> string \<Rightarrow> string" where
  "path_join a b =
     (if a = [] \<and> b = [] then [] else if a = [] then path_clean b else if b = [] then path_clean a
      else path_clean (a @ ''/'' @ b))"

definition expandHome :: "ssh_env \<Rightarrow> string \<Rightarrow> string" where
  "expandHome env path =
     (if path = ''~'' \<or> has_prefix path ''~/'' then
        (case env_home env of None \<Rightarrow> path
         | Some home \<Rightarrow> path_join home (if path = ''~'' then [] else drop 2 path))
      else path)"

definition isGlob :: "string \<Rightarrow> bool" where
  "isGlob path \<longleftrightarrow> contains_any path ''*?[''"

definition include_files :: "ssh_env \<Rightarrow> client \<Rightarrow> string list" where
  "include_files env c =
     filter (\<lambda>p. isGlob p \<or> env_exists env p) (map (expandHome env) (ssh_include (cl_spec c)))"

section \<open>Blocks\<close>

definition canonicalKeyword :: "string \<Rightarrow> string" where
  "canonicalKeyword key =
     (let k = to_lower key in if k = ''pubkeyacceptedalgorithms'' then ''pubkeyacceptedkeytypes'' else k)"

type_synonym block = "(string \<times> string) list"

definition block_keys :: "block \<Rightarrow> string list" where
  "block_keys b = map (canonicalKeyword \<circ> fst) b"

definition setting_text :: "string \<times> string \<Rightarrow> string" where
  "setting_text kv = ''  '' @ fst kv @ '' '' @ snd kv @ [CHR 0x0A]"

definition block_text :: "block \<Rightarrow> string" where
  "block_text b = concat (map setting_text b)"

fun block_options_from :: "string \<Rightarrow> string list \<Rightarrow> block \<Rightarrow> (string \<times> string) list \<Rightarrow> goerr + block" where
  "block_options_from place refused b [] = Inr b"
| "block_options_from place refused b ((k, v) # kvs) =
     (if canonicalKeyword k \<in> set refused then
        Inl (Leaf ''%s: the ssh option %s is refused'' [place, k])
      else if canonicalKeyword k \<in> set (block_keys b) then
        Inl (Leaf ''%s: the ssh option %s is set by clusterctl itself'' [place, k])
      else block_options_from place refused (b @ [(k, v)]) kvs)"

definition option_list :: "string go_map \<Rightarrow> (string \<times> string) list" where
  "option_list m = map (\<lambda>k. (k, case find_key m k of Some v \<Rightarrow> v | None \<Rightarrow> [])) (sorted_keys m)"

definition block_options :: "block \<Rightarrow> string \<Rightarrow> string go_map \<Rightarrow> string list \<Rightarrow> goerr + block" where
  "block_options b place options refused = block_options_from place refused b (option_list options)"

definition legacy_algorithms :: block where
  "legacy_algorithms = [(''PubkeyAcceptedKeyTypes'', ''+ssh-rsa''), (''HostKeyAlgorithms'', ''+ssh-rsa'')]"

definition trustKeywords :: "string list" where
  "trustKeywords = [''host'', ''match'', ''include'', ''userknownhostsfile'', ''globalknownhostsfile'',
     ''knownhostscommand'', ''stricthostkeychecking'', ''verifyhostkeydns'', ''updatehostkeys'',
     ''hashknownhosts'', ''checkhostip'', ''hostkeyalias'', ''nohostauthenticationforlocalhost'',
     ''controlmaster'', ''controlpath'']"

definition roleRefused :: "string list" where
  "roleRefused = trustKeywords @ [''user'', ''proxyjump'', ''forwardagent'', ''forwardx11'']"

section \<open>Jump hosts\<close>

record jump_hop =
  hop_user :: string
  hop_host :: string
  hop_port :: string

definition no_hop :: jump_hop where
  "no_hop = \<lparr> hop_user = [], hop_host = [], hop_port = [] \<rparr>"

text \<open>The text around the last occurrence of a character (\<open>strings.LastIndex\<close>).\<close>

definition cut_last :: "char \<Rightarrow> string \<Rightarrow> (string \<times> string) option" where
  "cut_last c s =
     (if c \<in> set s
      then Some (rev (tl (dropWhile (\<lambda>x. x \<noteq> c) (rev s))), rev (takeWhile (\<lambda>x. x \<noteq> c) (rev s)))
      else None)"

definition hop_address :: "string \<Rightarrow> goerr + (string \<times> string)" where
  "hop_address s =
     (if has_prefix s ''['' then
        (case cut (tl s) '']'' of
           None \<Rightarrow> Inl (Leaf ''%q has no closing bracket'' [s])
         | Some (host, r) \<Rightarrow>
             if r = [] then Inr (host, [])
             else if \<not> has_prefix r '':'' then Inl (Leaf ''unexpected %q after the address'' [r])
             else Inr (host, tl r))
      else if count_list s (CHR '':'') = 1 then
        (case cut s '':'' of Some hp \<Rightarrow> Inr hp | None \<Rightarrow> Inr (s, []))
      else Inr (s, []))"

definition valid_port :: "string \<Rightarrow> bool" where
  "valid_port p \<longleftrightarrow> (case atoi p of None \<Rightarrow> False | Some n \<Rightarrow> 1 \<le> n \<and> n \<le> 65535)"

definition parse_hop :: "string \<Rightarrow> goerr + jump_hop" where
  "parse_hop s0 =
     (let (user, s, bad) = (case cut_last (CHR ''@'') s0 of
            None \<Rightarrow> ([], s0, None) | Some (u, r) \<Rightarrow> (u, r, CheckUser u))
      in case bad of Some e \<Rightarrow> Inl e
         | None \<Rightarrow>
           rbind (hop_address s) (\<lambda>(host, port).
             if port \<noteq> [] \<and> \<not> valid_port port then Inl (Leaf ''%q is not a port'' [port])
             else if host = [] then Inl (Leaf ''the host name is empty'' [])
             else Inr \<lparr> hop_user = user, hop_host = host, hop_port = port \<rparr>))"

definition hop_string :: "jump_hop \<Rightarrow> string" where
  "hop_string h =
     (let host = (if contains_str (hop_host h) '':'' then ''['' @ hop_host h @ '']'' else hop_host h);
          addr = (if hop_port h \<noteq> [] then host @ '':'' @ hop_port h else host)
      in if hop_user h \<noteq> [] then hop_user h @ ''@'' @ addr else addr)"

fun roles_by_host :: "host_role go_map \<Rightarrow> string list \<Rightarrow> (string \<times> string) list" where
  "roles_by_host roles [] = []"
| "roles_by_host roles (n # ns) =
     (case find_key roles n of None \<Rightarrow> roles_by_host roles ns
      | Some r \<Rightarrow> (role_host r, n) # filter (\<lambda>hn. fst hn \<noteq> role_host r) (roles_by_host roles ns))"

definition roleByHost :: "client \<Rightarrow> string \<Rightarrow> string" where
  "roleByHost c host =
     (case find_key (roles_by_host (cl_roles c) (sorted_keys (cl_roles c))) host of
        Some n \<Rightarrow> n | None \<Rightarrow> [])"

definition role_or_zero :: "client \<Rightarrow> string \<Rightarrow> host_role" where
  "role_or_zero c name = (case find_key (cl_roles c) name of Some r \<Rightarrow> r | None \<Rightarrow> no_role)"

text \<open>One element of a proxyJump value: the hop it becomes, and the role it goes through.\<close>

definition resolve_hop :: "client \<Rightarrow> string \<Rightarrow> string \<Rightarrow> goerr + (jump_hop \<times> string option)" where
  "resolve_hop c value element =
     (case parse_hop (trim_space element) of
        Inl e \<Rightarrow> Inl (Wrap ''proxyJump %q: %w'' [value] [e])
      | Inr hop \<Rightarrow>
        let via_role = (\<lambda>hop name.
              Inr (if hop_user hop = [] then hop\<lparr>hop_user := user_for c (no_target\<lparr>tg_role := name\<rparr>)\<rparr> else hop,
                   Some name))
        in case find_key (cl_roles c) (hop_host hop) of
          Some role \<Rightarrow>
            if role_host role = [] then Inl (Leaf ''role %q used as a jump host has no host name'' [hop_host hop])
            else via_role (hop\<lparr>hop_host := role_host role\<rparr>) (hop_host hop)
        | None \<Rightarrow>
            if roleByHost c (hop_host hop) \<noteq> [] then via_role hop (roleByHost c (hop_host hop))
            else if \<not> contains_any (hop_host hop) ''.:'' then
              Inl (Leaf ''proxyJump %q: %q is neither a role nor a fully qualified host name'' [value, hop_host hop])
            else case CheckHost (hop_host hop) of
              Some e \<Rightarrow> Inl (Wrap ''proxyJump %q: %w'' [value] [e])
            | None \<Rightarrow> Inr (hop, None))"

definition resolve_hops :: "client \<Rightarrow> string \<Rightarrow> goerr + (jump_hop \<times> string option) list" where
  "resolve_hops c value = traverse (resolve_hop c value) (split_char (CHR '','') value)"

definition resolveJumps :: "client \<Rightarrow> string \<Rightarrow> goerr + (string \<times> string list)" where
  "resolveJumps c value =
     rbind (resolve_hops c value) (\<lambda>hs.
       Inr (join_str '','' (map (hop_string \<circ> fst) hs), List.map_filter snd hs))"

definition Jumps :: "client \<Rightarrow> string \<Rightarrow> goerr + jump_hop list" where
  "Jumps c value =
     rbind (resolveJumps c value) (\<lambda>(chain, roles). traverse parse_hop (split_char (CHR '','') chain))"

section \<open>The generated file\<close>

definition trustDigest :: "ssh_env \<Rightarrow> client \<Rightarrow> string" where
  "trustDigest env c =
     take 8 (env_digest env (cl_known_hosts c @ [CHR 0x00] @
       (if ssh_strict (cl_spec c) = Some False then ''false'' else ''true'')))"

definition controlPath :: "ssh_env \<Rightarrow> client \<Rightarrow> string" where
  "controlPath env c =
     (if ssh_control_path (cl_spec c) \<noteq> [] then expandHome env (ssh_control_path (cl_spec c))
      else path_join (escapePercent (cl_state_dir c)) (''cm-'' @ trustDigest env c @ ''-%C''))"

text \<open>The settings of a role's block before its options, given its resolved chain.\<close>

definition role_settings :: "ssh_env \<Rightarrow> client \<Rightarrow> host_role \<Rightarrow> string \<Rightarrow> block" where
  "role_settings env c role jump =
     (if role_forward_agent role then [(''ForwardAgent'', ''yes'')] else []) @
     (if role_forward_x11 role then [(''ForwardX11'', ''yes''), (''ForwardX11Trusted'', ''yes'')] else []) @
     (if role_proxy_jump role \<noteq> [] then [(''ProxyJump'', jump)] else []) @
     (if role_control_master role then
        [(''ControlMaster'', ''auto''), (''ControlPath'', quote_path (controlPath env c)),
         (''ControlPersist'', persist (ssh_control_persist (cl_spec c)))] else []) @
     (if role_legacy_algorithms role then legacy_algorithms else [])"

definition roleBody :: "ssh_env \<Rightarrow> client \<Rightarrow> string \<Rightarrow> host_role \<Rightarrow> goerr + block" where
  "roleBody env c name role =
     rbind (if role_proxy_jump role \<noteq> [] then
              (case resolveJumps c (role_proxy_jump role) of
                 Inl e \<Rightarrow> Inl (Wrap ''role %s: %w'' [name] [e]) | Inr (jump, _) \<Rightarrow> Inr jump)
            else Inr [])
       (\<lambda>jump. block_options (role_settings env c role jump) (''role '' @ name) (role_options role) roleRefused)"

definition roleBodies :: "ssh_env \<Rightarrow> client \<Rightarrow> goerr + (string \<times> block) list" where
  "roleBodies env c =
     traverse (\<lambda>name. rbind (roleBody env c name (role_or_zero c name)) (\<lambda>b. Inr (name, b)))
       (sorted_keys (cl_roles c))"

definition global_settings :: "client \<Rightarrow> bool \<Rightarrow> block" where
  "global_settings c known_hosts_command =
     (let spec = cl_spec c in
      [(''UserKnownHostsFile'', quote_path (escapePercent (cl_known_hosts c))),
       (''GlobalKnownHostsFile'', ''/dev/null'')] @
      (if known_hosts_command then [(''KnownHostsCommand'', ''none'')] else []) @
      [(''StrictHostKeyChecking'', if ssh_strict spec = Some False then ''accept-new'' else ''yes''),
       (''VerifyHostKeyDNS'', ''no''), (''NoHostAuthenticationForLocalhost'', ''no''),
       (''UpdateHostKeys'', ''no''), (''CheckHostIP'', ''no''), (''HashKnownHosts'', ''no''),
       (''ControlMaster'', ''no''), (''ControlPath'', ''none''),
       (''ConnectTimeout'', seconds (duration_or (ssh_connect_timeout spec) defaultConnectTimeout))] @
      (if ssh_connection_attempts spec > 0 then [(''ConnectionAttempts'', itoa (ssh_connection_attempts spec))] else []) @
      (if ssh_alive_interval spec > 0 then [(''ServerAliveInterval'', seconds (ssh_alive_interval spec))] else []) @
      (if ssh_alive_count_max spec > 0 then [(''ServerAliveCountMax'', itoa (ssh_alive_count_max spec))] else []) @
      (if ssh_send_env spec \<noteq> [] then [(''SendEnv'', join_str '' '' (ssh_send_env spec))] else []) @
      (if ssh_legacy_key_types spec then legacy_algorithms else []))"

definition globalBody :: "client \<Rightarrow> bool \<Rightarrow> goerr + block" where
  "globalBody c known_hosts_command =
     block_options (global_settings c known_hosts_command) ''ssh.options'' (ssh_options (cl_spec c)) trustKeywords"

text \<open>
  \<open>knowsKnownHostsCommand\<close>. The answer of \<open>ssh -V\<close> is the error of the client's context, if
  it had ended, and what ssh printed, if it ran. The first \<open>OpenSSH_\<close>, with \<open>for_Windows_\<close>
  after it or not, that two numbers and a dot follow gives the version.
\<close>

definition version_at :: "string \<Rightarrow> (nat \<times> nat) option" where
  "version_at s =
     (case cut_prefix s ''OpenSSH_'' of None \<Rightarrow> None
      | Some r0 \<Rightarrow>
        let r = (case cut_prefix r0 ''for_Windows_'' of Some r' \<Rightarrow> r' | None \<Rightarrow> r0);
            major = takeWhile is_digit r; r1 = dropWhile is_digit r;
            minor = takeWhile is_digit (tl r1)
        in if major \<noteq> [] \<and> has_prefix r1 ''.'' \<and> minor \<noteq> []
           then Some (the (digits_value 0 major), the (digits_value 0 minor)) else None)"

fun find_version :: "string \<Rightarrow> (nat \<times> nat) option" where
  "find_version [] = None"
| "find_version (c # s) = (case version_at (c # s) of Some v \<Rightarrow> Some v | None \<Rightarrow> find_version s)"

definition knowsKnownHostsCommand :: "ssh_env \<Rightarrow> client \<Rightarrow> goerr + bool" where
  "knowsKnownHostsCommand env c =
     (case env_version env of
        (Some cause, _) \<Rightarrow> Inl (Coded (if errors_is cause ''context canceled'' then Interrupted else TargetFailed)
                             (Wrap ''%s: %w'' [Binary c @ '' -V''] [cause]))
      | (None, None) \<Rightarrow> Inr True
      | (None, Some out) \<Rightarrow>
          (case find_version out of None \<Rightarrow> Inr True
           | Some (major, minor) \<Rightarrow> Inr (major > 8 \<or> major = 8 \<and> minor \<ge> 5)))"

section \<open>The checks of the options\<close>

definition valid_keyword :: "string \<Rightarrow> bool" where
  "valid_keyword k \<longleftrightarrow> k \<noteq> [] \<and> (is_upper (hd k) \<or> is_lower (hd k)) \<and> list_all is_alnum k"

definition check_options :: "string \<Rightarrow> string go_map \<Rightarrow> goerr list" where
  "check_options place options =
     concat (map (\<lambda>(k, v).
       (if valid_keyword k then [] else [Leaf ''%s: %q is not an ssh option keyword'' [place, k]]) @
       (if trim_space v = [] \<or> hasControl v False
        then [Leaf ''%s: the value %q of %s is empty or holds a control character'' [place, v, k]] else []))
       (option_list options))"

definition opt_err :: "string \<Rightarrow> string list \<Rightarrow> goerr option \<Rightarrow> goerr list" where
  "opt_err fmt as e = (case e of None \<Rightarrow> [] | Some e' \<Rightarrow> [Wrap fmt as [e']])"

definition check_role :: "client \<Rightarrow> string \<Rightarrow> goerr list" where
  "check_role c name =
     (let role = role_or_zero c name in
      (if hasControl name False then [Leaf ''role %q: the name holds a control character'' [name]] else []) @
      (if role_host role \<noteq> [] then opt_err ''role %s: %w; it is written as a Host pattern'' [name] (CheckHost (role_host role)) else []) @
      (if role_user role \<noteq> [] then opt_err ''role %s: %w'' [name] (CheckUser (role_user role)) else []) @
      (if hasControl (role_description role) True
       then [Leaf ''role %s: the description holds a control character'' [name]] else []) @
      check_options (''role '' @ name) (role_options role))"

definition check_values :: "ssh_env \<Rightarrow> client \<Rightarrow> goerr list" where
  "check_values env c =
     (let spec = cl_spec c in
      (if cl_known_hosts c = [] then []
       else case checkPath (cl_known_hosts c) of
         Some e \<Rightarrow> [Wrap ''ssh.knownHostsFile: %w'' [] [e]]
       | None \<Rightarrow> if has_prefix (cl_known_hosts c) ''/'' then []
                 else [Leaf ''ssh.knownHostsFile %q is not an absolute path'' [cl_known_hosts c]]) @
      opt_err ''state directory: %w'' [] (checkPath (cl_state_dir c)) @
      (if cl_default_user c \<noteq> [] then opt_err ''the context user: %w'' [] (CheckUser (cl_default_user c)) else []) @
      concat (map (\<lambda>include.
         case checkPath include of
           Some e \<Rightarrow> [Wrap ''ssh.include: %w'' [] [e]]
         | None \<Rightarrow> if has_prefix (expandHome env include) ''/'' then []
                   else [Leaf ''ssh.include %q is not an absolute path'' [include]]) (ssh_include spec)) @
      opt_err ''ssh.controlPath: %w'' [] (checkPath (ssh_control_path spec)) @
      concat (map (\<lambda>name.
         if name = [] \<or> contains_any name [CHR '' '', CHR 0x09, CHR 0x22, CHR 0x5C] \<or> hasControl name False
         then [Leaf ''ssh.sendEnv: %q is not an environment variable name'' [name]] else []) (ssh_send_env spec)) @
      check_options ''ssh.options'' (ssh_options spec) @
      concat (map (check_role c) (sorted_keys (cl_roles c))))"

text \<open>\<open>checkSharedHosts\<close>: roles of one host have one body; \<open>first\<close> maps a host to the first.\<close>

fun shared_hosts_from ::
  "client \<Rightarrow> (string \<times> block) list \<Rightarrow> string go_map \<Rightarrow> string list \<Rightarrow> goerr list" where
  "shared_hosts_from c bodies first [] = []"
| "shared_hosts_from c bodies first (name # names) =
     (let host = role_host (role_or_zero c name)
      in if host = [] then shared_hosts_from c bodies first names
         else case find_key first host of
           None \<Rightarrow> shared_hosts_from c bodies ((host, name) # first) names
         | Some other \<Rightarrow>
             (if map_option block_text (find_key bodies other) \<noteq> map_option block_text (find_key bodies name)
              then [Leaf ''roles %s and %s both connect to %s with different ssh settings'' [other, name, host]]
              else []) @ shared_hosts_from c bodies first names)"

definition checkSharedHosts :: "client \<Rightarrow> (string \<times> block) list \<Rightarrow> goerr list" where
  "checkSharedHosts c bodies = shared_hosts_from c bodies [] (sorted_keys (cl_roles c))"

section \<open>Cycles of jump hosts\<close>

text \<open>
  The depth first search of \<open>checkJumpCycles\<close> over the roles each role jumps through. Its state
  is the set of roles that are done and the path of those being visited. The fuel bounds the
  depth, which no path of distinct roles exceeds; running out of it is \<open>None\<close>.
\<close>

definition jump_graph :: "client \<Rightarrow> (string \<times> string list) list" where
  "jump_graph c =
     concat (map (\<lambda>name.
       let jump = role_proxy_jump (role_or_zero c name)
       in if jump = [] then []
          else case resolveJumps c jump of Inl _ \<Rightarrow> [] | Inr (_, roles) \<Rightarrow> [(name, roles)])
       (sorted_keys (cl_roles c)))"

definition next_roles :: "(string \<times> string list) list \<Rightarrow> string \<Rightarrow> string list" where
  "next_roles g name = (case find_key g name of None \<Rightarrow> [] | Some rs \<Rightarrow> rs)"

fun visit :: "nat \<Rightarrow> (string \<times> string list) list \<Rightarrow> string list \<Rightarrow> string list \<Rightarrow> string \<Rightarrow> (goerr + string list) option"
and visit_all :: "nat \<Rightarrow> (string \<times> string list) list \<Rightarrow> string list \<Rightarrow> string list \<Rightarrow> string list \<Rightarrow> (goerr + string list) option" where
  "visit fuel g path fin name =
     (if name \<in> set path then
        Some (Inl (Leaf ''proxyJump cycle: %s'' (dropWhile (\<lambda>n. n \<noteq> name) path @ [name])))
      else if name \<in> set fin then Some (Inr fin)
      else case fuel of 0 \<Rightarrow> None
        | Suc fuel' \<Rightarrow>
            (case visit_all fuel' g (path @ [name]) fin (next_roles g name) of
               Some (Inr d) \<Rightarrow> Some (Inr (name # d)) | r \<Rightarrow> r))"
| "visit_all fuel g path fin [] = Some (Inr fin)"
| "visit_all fuel g path fin (n # ns) =
     (case visit fuel g path fin n of Some (Inr d) \<Rightarrow> visit_all fuel g path d ns | r \<Rightarrow> r)"

definition checkJumpCycles :: "client \<Rightarrow> goerr option" where
  "checkJumpCycles c =
     (case visit_all (length (sorted_keys (cl_roles c)) + 1) (jump_graph c) [] [] (sorted_keys (cl_roles c)) of
        Some (Inl e) \<Rightarrow> Some e | _ \<Rightarrow> None)"

definition Validate :: "ssh_env \<Rightarrow> client \<Rightarrow> goerr list" where
  "Validate env c =
     (let errs = check_values env c in
      if errs \<noteq> [] then errs
      else
        (case roleBodies env c of Inl e \<Rightarrow> [e] | Inr _ \<Rightarrow> []) @
        (case globalBody c True of Inl e \<Rightarrow> [e] | Inr _ \<Rightarrow> []) @
        (case roleBodies env c of Inl e \<Rightarrow> [] | Inr bodies \<Rightarrow> checkSharedHosts c bodies) @
        (case checkJumpCycles c of None \<Rightarrow> [] | Some e \<Rightarrow> [e]))"

section \<open>The text of the file\<close>

definition role_comment :: "string \<Rightarrow> string \<Rightarrow> string" where
  "role_comment name description =
     (case split_char (CHR 0x0A) (trim_right_set [CHR 0x0A] description) of
        [] \<Rightarrow> ''# role '' @ name
      | first # rest \<Rightarrow>
          ''# role '' @ name @ (if first \<noteq> [] then '': '' @ first else []) @
          concat (map (\<lambda>l. CHR 0x0A # ''#   '' @ l) rest)) @ [CHR 0x0A]"

definition host_block_text :: "client \<Rightarrow> (string \<times> block) list \<Rightarrow> string \<Rightarrow> string" where
  "host_block_text c bodies name =
     (let role = role_or_zero c name in
      role_comment name (role_description role) @ ''Host '' @ role_host role @ [CHR 0x0A] @
      block_text (case find_key bodies name of Some b \<Rightarrow> b | None \<Rightarrow> []) @ [CHR 0x0A])"

text \<open>The roles that get a block: the first, in name order, of each host that is not empty.\<close>

fun block_roles :: "client \<Rightarrow> string list \<Rightarrow> string list \<Rightarrow> string list" where
  "block_roles c written [] = []"
| "block_roles c written (name # names) =
     (let host = role_host (role_or_zero c name)
      in if host = [] \<or> host \<in> set written then block_roles c written names
         else name # block_roles c (host # written) names)"

definition file_head :: string where
  "file_head = ''# Generated by clusterctl. Edits are overwritten.'' @ [CHR 0x0A] @
     ''#'' @ [CHR 0x0A] @ ''# Settings below win over the included files, because ssh keeps the'' @ [CHR 0x0A] @
     ''# first value it obtains for each keyword.'' @ [CHR 0x0A, CHR 0x0A]"

definition config_text :: "client \<Rightarrow> (string \<times> block) list \<Rightarrow> block \<Rightarrow> string list \<Rightarrow> string" where
  "config_text c bodies global incl =
     file_head @
     concat (map (host_block_text c bodies) (block_roles c [] (sorted_keys (cl_roles c)))) @
     ''Host *'' @ [CHR 0x0A] @ block_text global @
     concat (map (\<lambda>i. [CHR 0x0A] @ ''Include '' @ quote_path i @ [CHR 0x0A]) incl)"

definition generateConfig :: "ssh_env \<Rightarrow> client \<Rightarrow> goerr + string" where
  "generateConfig env c =
     (if Validate env c \<noteq> [] then Inl (Coded Usage (Wrap ''join'' [] (Validate env c)))
      else if cl_known_hosts c = [] then
        Inl (errorf Usage ''ssh.knownHostsFile is not set'' [])
      else
        rbind (case roleBodies env c of Inl e \<Rightarrow> Inl (Coded Usage e) | Inr bs \<Rightarrow> Inr bs) (\<lambda>bodies.
        rbind (knowsKnownHostsCommand env c) (\<lambda>known.
        rbind (case globalBody c known of Inl e \<Rightarrow> Inl (Coded Usage e) | Inr b \<Rightarrow> Inr b) (\<lambda>global.
          Inr (config_text c bodies global (include_files env c))))))"

text \<open>
  \<open>writeConfig\<close>: the file is named by a digest of its content. Creating the directory, the
  atomic write and what the file holds already are the files of the machine.
\<close>

definition config_path :: "ssh_env \<Rightarrow> client \<Rightarrow> string \<Rightarrow> string" where
  "config_path env c text = path_join (cl_state_dir c) (''ssh_config-'' @ take 16 (env_digest env text))"

definition writeConfig ::
  "ssh_env \<Rightarrow> (string \<Rightarrow> 'fs \<Rightarrow> goerr + 'fs) \<Rightarrow> (string \<Rightarrow> 'fs \<Rightarrow> string option) \<Rightarrow>
   (string \<Rightarrow> string \<Rightarrow> 'fs \<Rightarrow> goerr + 'fs) \<Rightarrow> client \<Rightarrow> 'fs \<Rightarrow> goerr + (string \<times> 'fs)" where
  "writeConfig env ensure_dir read_file write_atomic c fs =
     rbind (generateConfig env c) (\<lambda>text.
     rbind (ensure_dir (cl_state_dir c) fs) (\<lambda>fs'.
       let path = config_path env c text
       in if read_file path fs' = Some text then Inr (path, fs')
          else rbind (write_atomic path text fs') (\<lambda>fs''. Inr (path, fs''))))"

section \<open>Reaching a host\<close>

text \<open>\<open>time.Duration\<close> is a signed 64-bit integer.\<close>

definition wrap64 :: "int \<Rightarrow> int" where
  "wrap64 i = (i + 2 ^ 63) mod 2 ^ 64 - 2 ^ 63"

text \<open>\<open>JumpHosts\<close>: a host is not followed twice, which bounds the loop by the hosts of the roles.\<close>

definition chain_hosts :: "string \<Rightarrow> string list" where
  "chain_hosts chain =
     List.map_filter (\<lambda>r. case r of Inl e \<Rightarrow> None | Inr h \<Rightarrow> Some (hop_host h))
       (takeWhile (\<lambda>r. case r of Inl e \<Rightarrow> False | Inr h \<Rightarrow> True)
         (map parse_hop (split_char (CHR '','') chain)))"

fun jump_hosts :: "nat \<Rightarrow> client \<Rightarrow> string list \<Rightarrow> string \<Rightarrow> string list option" where
  "jump_hosts fuel c seen host =
     (if host \<in> set seen then Some []
      else case fuel of 0 \<Rightarrow> None
        | Suc fuel' \<Rightarrow>
          let jump = role_proxy_jump (role_or_zero c (roleByHost c host))
          in if jump = [] then Some []
             else case resolveJumps c jump of Inl _ \<Rightarrow> Some []
               | Inr (chain, _) \<Rightarrow>
                   (case chain_hosts chain of [] \<Rightarrow> Some []
                    | h # hs \<Rightarrow> map_option (\<lambda>out. (h # hs) @ out) (jump_hosts fuel' c (host # seen) h)))"

definition JumpHosts :: "client \<Rightarrow> string \<Rightarrow> string list" where
  "JumpHosts c host =
     (case jump_hosts (length (sorted_keys (cl_roles c)) + 2) c [] host of Some hs \<Rightarrow> hs | None \<Rightarrow> [])"

definition role_option :: "string go_map \<Rightarrow> string \<Rightarrow> string option" where
  "role_option options key =
     map_option snd (find (\<lambda>kv. canonicalKeyword (fst kv) = key) options)"

definition intOption :: "string go_map \<Rightarrow> string \<Rightarrow> int option" where
  "intOption options key =
     (case role_option options key of None \<Rightarrow> None | Some v \<Rightarrow> atoi (trim_space v))"

definition reach_one :: "client \<Rightarrow> string \<Rightarrow> int" where
  "reach_one c host =
     (let options = role_options (role_or_zero c (roleByHost c host));
          attempts = (case intOption options ''connectionattempts'' of
             Some n \<Rightarrow> max 1 n | None \<Rightarrow> max 1 (ssh_connection_attempts (cl_spec c)));
          timeout = (case intOption options ''connecttimeout'' of
             Some n \<Rightarrow> if n > 0 then wrap64 (n * Second)
                       else wrap64 (ceil_seconds (duration_or (ssh_connect_timeout (cl_spec c)) defaultConnectTimeout) * Second)
           | None \<Rightarrow> wrap64 (ceil_seconds (duration_or (ssh_connect_timeout (cl_spec c)) defaultConnectTimeout) * Second))
      in wrap64 (attempts * timeout + (attempts - 1) * Second))"

definition reach :: "client \<Rightarrow> target \<Rightarrow> int" where
  "reach c t =
     foldl (\<lambda>total host.
        let one = reach_one c host;
            total = wrap64 (total + one)
        in if role_option (role_options (role_or_zero c (roleByHost c host))) ''proxycommand'' \<noteq> None
           then wrap64 (total + one) else total)
       0 (JumpHosts c (tg_host t) @ [tg_host t])"

end
