(* ===== verification/SshConfigProps.thy ===== *)
theory SshConfigProps
  imports SshConfig
begin

text \<open>
  What the generated ssh configuration relies on: a hop is written the way it is read, the
  search for cycles of jump hosts finds every cycle, and following jump hosts ends.
\<close>

section \<open>Hops\<close>

definition valid_hop :: "jump_hop \<Rightarrow> bool" where
  "valid_hop h \<longleftrightarrow>
     (hop_user h = [] \<or> CheckUser (hop_user h) = None) \<and> CheckHost (hop_host h) = None \<and>
     (hop_port h = [] \<or> list_all is_digit (hop_port h) \<and> valid_port (hop_port h))"

lemma span_until:
  assumes "c \<notin> set w"
  shows "takeWhile (\<lambda>x. x \<noteq> c) (w @ c # z) = w" and "dropWhile (\<lambda>x. x \<noteq> c) (w @ c # z) = c # z"
  using assms by (induction w) auto

lemma cut_last_Some: "c \<notin> set r \<Longrightarrow> cut_last c (u @ c # r) = Some (u, r)"
  using span_until [of c "rev r" "rev u"] by (simp add: cut_last_def)

lemma cut_last_None: "c \<notin> set s \<Longrightarrow> cut_last c s = None"
  by (simp add: cut_last_def)

lemma digits_plain:
  assumes "list_all is_digit p"
  shows "CHR '':'' \<notin> set p \<and> CHR ''@'' \<notin> set p \<and> CHR ''['' \<notin> set p \<and> CHR '']'' \<notin> set p \<and> CHR '','' \<notin> set p"
  using assms by (auto simp: list_all_iff char_class_defs)

definition hop_addr :: "jump_hop \<Rightarrow> string" where
  "hop_addr h =
     (let host = (if contains_str (hop_host h) '':'' then ''['' @ hop_host h @ '']'' else hop_host h)
      in if hop_port h \<noteq> [] then host @ '':'' @ hop_port h else host)"

lemma hop_address_addr:
  assumes "CheckHost (hop_host h) = None" and "list_all is_digit (hop_port h)"
  shows "hop_address (hop_addr h) = Inr (hop_host h, hop_port h)"
proof (cases "CHR '':'' \<in> set (hop_host h)")
  case True
  have "CHR '']'' \<notin> set (hop_host h)" using host_chars [OF assms(1)] by simp
  then have c: "cut (hop_host h @ CHR '']'' # r) '']'' = Some (hop_host h, r)" for r
    by (rule cut_char_first)
  show ?thesis using True c [of "[]"] c [of "CHR '':'' # hop_port h"]
    by (simp add: hop_addr_def hop_address_def contains_char Let_def)
next
  case False
  obtain x v where x: "hop_host h = x # v" using ssh_names.host_not_option [OF assms(1)] by (cases "hop_host h") auto
  with host_chars [OF assms(1)] have "x \<noteq> CHR ''[''" by auto
  moreover have "x \<noteq> CHR '':''" using False x by auto
  moreover have "count_list (hop_host h) (CHR '':'') = 0" using False by (simp add: count_list_0_iff)
  moreover have "count_list (hop_port h) (CHR '':'') = 0"
    using digits_plain [OF assms(2)] by (simp add: count_list_0_iff)
  moreover have "cut (hop_host h @ CHR '':'' # hop_port h) '':'' = Some (hop_host h, hop_port h)"
    using False by (rule cut_char_first)
  ultimately show ?thesis using False x
    by (simp add: hop_addr_def hop_address_def contains_char Let_def)
qed

lemma hop_string_addr:
  "hop_string h = (if hop_user h \<noteq> [] then hop_user h @ ''@'' @ hop_addr h else hop_addr h)"
  by (simp add: hop_string_def hop_addr_def Let_def)

lemma hop_addr_no_at:
  assumes "CheckHost (hop_host h) = None" and "list_all is_digit (hop_port h)"
  shows "CHR ''@'' \<notin> set (hop_addr h)"
  using host_chars [OF assms(1)] digits_plain [OF assms(2)] by (auto simp: hop_addr_def Let_def)

lemma parse_hop_string:
  assumes "valid_hop h"
  shows "parse_hop (hop_string h) = Inr h"
proof -
  from assms have host: "CheckHost (hop_host h) = None"
    and port: "list_all is_digit (hop_port h)" "hop_port h = [] \<or> valid_port (hop_port h)"
    by (auto simp: valid_hop_def)
  note addr = hop_address_addr [OF host port(1)] and no_at = hop_addr_no_at [OF host port(1)]
  have ne: "hop_host h \<noteq> []" using ssh_names.host_not_option [OF host] by simp
  show ?thesis
  proof (cases "hop_user h = []")
    case True
    then show ?thesis using addr ne port(2)
      by (auto simp: parse_hop_def hop_string_addr cut_last_None [OF no_at])
  next
    case False
    with assms have "CheckUser (hop_user h) = None" by (auto simp: valid_hop_def)
    with False show ?thesis using addr ne port(2) cut_last_Some [OF no_at, of "hop_user h"]
      by (auto simp: parse_hop_def hop_string_addr)
  qed
qed

text \<open>
  A jump host written into a ProxyJump list is read back as the same account, host and
  port, with an IPv6 address bracketed whether a port follows it or not.
\<close>
theorem parse_hop_round_trip:
  assumes "valid_hop h"
  shows "parse_hop (hop_string h) = Inr h"
  using assms by (rule parse_hop_string)

theorem parse_hop_round_trip_witness:
  "parse_hop (hop_string \<lparr> hop_user = ''ops'', hop_host = ''gw.x'', hop_port = ''22'' \<rparr>) =
     Inr \<lparr> hop_user = ''ops'', hop_host = ''gw.x'', hop_port = ''22'' \<rparr>"
proof (rule parse_hop_round_trip)
  show "valid_hop \<lparr> hop_user = ''ops'', hop_host = ''gw.x'', hop_port = ''22'' \<rparr>" by code_simp
qed

section \<open>The search for cycles\<close>

definition edges :: "(string \<times> string list) list \<Rightarrow> (string \<times> string) set" where
  "edges g = {(a, b). b \<in> set (next_roles g a)}"

definition explored :: "(string \<times> string list) list \<Rightarrow> string list \<Rightarrow> bool" where
  "explored g D \<longleftrightarrow> (\<forall>a\<in>set D. set (next_roles g a) \<subseteq> set D \<and> (a, a) \<notin> (edges g)\<^sup>+)"

lemma explored_reaches:
  assumes "explored g D" and "a \<in> set D" and "(a, b) \<in> (edges g)\<^sup>+"
  shows "b \<in> set D"
  using assms(3)
proof (induction rule: trancl_induct)
  case (base y)
  with assms show ?case by (auto simp: explored_def edges_def)
next
  case (step y z)
  with assms(1) show ?case by (auto simp: explored_def edges_def)
qed

lemma explored_Cons:
  assumes D: "explored g D" and sub: "set (next_roles g n) \<subseteq> set D" and n: "n \<notin> set D"
  shows "explored g (n # D)"
proof -
  have "(n, n) \<notin> (edges g)\<^sup>+"
  proof
    assume "(n, n) \<in> (edges g)\<^sup>+"
    then obtain m where m: "(n, m) \<in> edges g" "(m, n) \<in> (edges g)\<^sup>*" by (metis tranclD)
    from m(1) sub have mD: "m \<in> set D" by (auto simp: edges_def)
    from m(2) show False
    proof (cases rule: rtranclE)
      case base
      with mD n show False by simp
    next
      case (step y)
      then have "(m, n) \<in> (edges g)\<^sup>+" by (rule rtrancl_into_trancl1)
      with explored_reaches [OF D mD] n show False by simp
    qed
  qed
  with D sub show ?thesis by (auto simp: explored_def)
qed

lemma visit_explores:
  "visit fuel g path D n = Some (Inr d) \<Longrightarrow> explored g D \<Longrightarrow> set D \<inter> set path = {} \<Longrightarrow>
     explored g d \<and> set D \<subseteq> set d \<and> n \<in> set d \<and> set d \<inter> set path = {}"
  "visit_all fuel g path D ns = Some (Inr d) \<Longrightarrow> explored g D \<Longrightarrow> set D \<inter> set path = {} \<Longrightarrow>
     explored g d \<and> set D \<subseteq> set d \<and> set ns \<subseteq> set d \<and> set d \<inter> set path = {}"
proof (induction fuel g path D n and fuel g path D ns arbitrary: d and d rule: visit_visit_all.induct)
  case (1 fuel g path D n)
  show ?case
  proof (cases "n \<in> set path \<or> n \<in> set D")
    case True
    with "1.prems" show ?thesis by (auto split: if_splits)
  next
    case False
    with "1.prems"(1) obtain fuel' d' where f: "fuel = Suc fuel'"
      and v: "visit_all fuel' g (path @ [n]) D (next_roles g n) = Some (Inr d')" and d: "d = n # d'"
      by (auto split: nat.splits option.splits sum.splits)
    have "set D \<inter> set (path @ [n]) = {}" using "1.prems"(3) False by auto
    with "1.IH" [OF _ _ f v "1.prems"(2)] False
    have "explored g d'" "set D \<subseteq> set d'" "set (next_roles g n) \<subseteq> set d'" "set d' \<inter> set (path @ [n]) = {}"
      by auto
    moreover from this have "n \<notin> set d'" by auto
    ultimately show ?thesis using explored_Cons [of g d' n] False by (auto simp: d)
  qed
next
  case (2 fuel g path D)
  then show ?case by simp
next
  case (3 fuel g path D n ns)
  from "3.prems"(1) obtain d' where v: "visit fuel g path D n = Some (Inr d')"
    and vs: "visit_all fuel g path d' ns = Some (Inr d)"
    by (auto split: option.splits sum.splits)
  from "3.IH"(1) [OF v "3.prems"(2,3)]
  have d': "explored g d'" "set D \<subseteq> set d'" "n \<in> set d'" "set d' \<inter> set path = {}" by auto
  with "3.IH"(2) [OF v _ vs] show ?case by auto
qed

lemma visit_finds_cycle:
  "visit fuel g path D n = Some (Inl e) \<Longrightarrow> \<forall>p\<in>set path. (p, n) \<in> (edges g)\<^sup>+ \<Longrightarrow>
     \<exists>m. (m, m) \<in> (edges g)\<^sup>+"
  "visit_all fuel g path D ns = Some (Inl e) \<Longrightarrow> \<forall>p\<in>set path. \<forall>n\<in>set ns. (p, n) \<in> (edges g)\<^sup>+ \<Longrightarrow>
     \<exists>m. (m, m) \<in> (edges g)\<^sup>+"
proof (induction fuel g path D n and fuel g path D ns rule: visit_visit_all.induct)
  case (1 fuel g path D n)
  show ?case
  proof (cases "n \<in> set path")
    case True
    with "1.prems"(2) show ?thesis by blast
  next
    case False
    with "1.prems"(1) obtain fuel' where out: "n \<notin> set D" and f: "fuel = Suc fuel'"
      and v: "visit_all fuel' g (path @ [n]) D (next_roles g n) = Some (Inl e)"
      by (auto split: if_splits nat.splits option.splits sum.splits)
    have "\<forall>p\<in>set (path @ [n]). \<forall>m\<in>set (next_roles g n). (p, m) \<in> (edges g)\<^sup>+"
    proof (intro ballI)
      fix p m assume p: "p \<in> set (path @ [n])" and "m \<in> set (next_roles g n)"
      then have nm: "(n, m) \<in> edges g" by (simp add: edges_def)
      show "(p, m) \<in> (edges g)\<^sup>+"
      proof (cases "p = n")
        case True
        with nm show ?thesis by auto
      next
        case False
        with p "1.prems"(2) have "(p, n) \<in> (edges g)\<^sup>+" by auto
        then show ?thesis using nm by (rule trancl_into_trancl)
      qed
    qed
    with "1.IH" [OF False out f v] show ?thesis by blast
  qed
next
  case (3 fuel g path D n ns)
  from "3.prems"(1) consider "visit fuel g path D n = Some (Inl e)"
    | d where "visit fuel g path D n = Some (Inr d)" "visit_all fuel g path d ns = Some (Inl e)"
    by (auto split: option.splits sum.splits)
  then show ?case
  proof cases
    case 1
    with "3.IH"(1) "3.prems"(2) show ?thesis by auto
  next
    case 2
    with "3.IH"(2) "3.prems"(2) show ?thesis by auto
  qed
qed simp

lemma visit_enough_fuel:
  "distinct path \<Longrightarrow> set path \<subseteq> N \<Longrightarrow> n \<in> N \<Longrightarrow> (\<forall>a. set (next_roles g a) \<subseteq> N) \<Longrightarrow> finite N \<Longrightarrow>
     card N < fuel + length path \<Longrightarrow> visit fuel g path D n \<noteq> None"
  "distinct path \<Longrightarrow> set path \<subseteq> N \<Longrightarrow> set ns \<subseteq> N \<Longrightarrow> (\<forall>a. set (next_roles g a) \<subseteq> N) \<Longrightarrow> finite N \<Longrightarrow>
     card N < fuel + length path \<Longrightarrow> visit_all fuel g path D ns \<noteq> None"
proof (induction fuel g path D n and fuel g path D ns rule: visit_visit_all.induct)
  case (1 fuel g path D n)
  show ?case
  proof (cases "n \<in> set path \<or> n \<in> set D")
    case True
    then show ?thesis by auto
  next
    case False
    have "length path \<le> card N"
      using "1.prems" by (metis card_mono distinct_card)
    with "1.prems" obtain fuel' where f: "fuel = Suc fuel'" by (cases fuel) auto
    have "visit_all fuel' g (path @ [n]) D (next_roles g n) \<noteq> None"
      using "1.prems" False f by (intro "1.IH") auto
    with False f show ?thesis by (auto split: option.splits sum.splits)
  qed
next
  case (3 fuel g path D n ns)
  then have "visit fuel g path D n \<noteq> None" by simp
  moreover have "visit_all fuel g path d ns \<noteq> None" if "visit fuel g path D n = Some (Inr d)" for d
    using 3 that by simp
  ultimately show ?case
    by (cases "visit fuel g path D n") (auto simp del: visit.simps split: sum.split)
qed simp

text \<open>The roles a role jumps through, where its proxyJump resolves.\<close>

definition jumps_through :: "client \<Rightarrow> (string \<times> string) set" where
  "jumps_through c =
     {(a, b). \<exists>role chain roles. find_key (cl_roles c) a = Some role \<and> role_proxy_jump role \<noteq> [] \<and>
        resolveJumps c (role_proxy_jump role) = Inr (chain, roles) \<and> b \<in> set roles}"

lemma jumps_through_iff:
  "(a, b) \<in> jumps_through c \<longleftrightarrow>
     (\<exists>role chain roles. find_key (cl_roles c) a = Some role \<and> role_proxy_jump role \<noteq> [] \<and>
        resolveJumps c (role_proxy_jump role) = Inr (chain, roles) \<and> b \<in> set roles)"
  by (simp only: jumps_through_def mem_Collect_eq prod.case)

lemma jumps_through_Some:
  assumes "find_key (cl_roles c) a = Some role"
  shows "(a, b) \<in> jumps_through c \<longleftrightarrow> role_proxy_jump role \<noteq> [] \<and>
     (\<exists>chain roles. resolveJumps c (role_proxy_jump role) = Inr (chain, roles) \<and> b \<in> set roles)"
  unfolding jumps_through_iff using assms by (metis option.inject)

lemma jumps_through_None: "find_key (cl_roles c) a = None \<Longrightarrow> (a, b) \<notin> jumps_through c"
  unfolding jumps_through_iff by (metis option.distinct(1))

lemma map_of_singles:
  "map_of (concat (map (\<lambda>n. case f n of None \<Rightarrow> [] | Some v \<Rightarrow> [(n, v)]) ns)) a =
     (if a \<in> set ns then f a else None)"
  by (induction ns) (auto split: option.splits)

lemma role_or_zero_key: "a \<in> set (sorted_keys (cl_roles c)) \<Longrightarrow> find_key (cl_roles c) a = Some (role_or_zero c a)"
  using find_key_None [of "cl_roles c" a] by (cases "find_key (cl_roles c) a") (simp_all add: role_or_zero_def)

lemma next_jump_graph:
  "next_roles (jump_graph c) a =
     (if a \<in> set (sorted_keys (cl_roles c)) \<and> role_proxy_jump (role_or_zero c a) \<noteq> [] then
        (case resolveJumps c (role_proxy_jump (role_or_zero c a)) of Inl _ \<Rightarrow> [] | Inr (_, roles) \<Rightarrow> roles)
      else [])"
proof -
  let ?f = "\<lambda>n. let jump = role_proxy_jump (role_or_zero c n)
     in if jump = [] then None else case resolveJumps c jump of Inl _ \<Rightarrow> None | Inr (_, roles) \<Rightarrow> Some roles"
  have "jump_graph c = concat (map (\<lambda>n. case ?f n of None \<Rightarrow> [] | Some v \<Rightarrow> [(n, v)]) (sorted_keys (cl_roles c)))"
    unfolding jump_graph_def
    by (intro arg_cong [where f = concat] map_cong refl) (auto simp: Let_def split: sum.splits)
  then have "find_key (jump_graph c) a = (if a \<in> set (sorted_keys (cl_roles c)) then ?f a else None)"
    unfolding find_key_def by (simp only: map_of_singles)
  then show ?thesis by (auto simp: next_roles_def Let_def split: sum.splits)
qed

lemma edges_jump_graph: "edges (jump_graph c) = jumps_through c"
proof -
  have "b \<in> set (next_roles (jump_graph c) a) \<longleftrightarrow> (a, b) \<in> jumps_through c" for a b
  proof (cases "find_key (cl_roles c) a")
    case None
    then have "a \<notin> set (sorted_keys (cl_roles c))" by (simp add: find_key_None)
    with jumps_through_None [OF None] show ?thesis by (simp add: next_jump_graph)
  next
    case (Some role)
    have a: "a \<in> set (sorted_keys (cl_roles c))" using Some by (rule find_key_in_sorted)
    have r: "role_or_zero c a = role" by (simp add: role_or_zero_def Some)
    have n: "next_roles (jump_graph c) a = (if role_proxy_jump role \<noteq> [] then
        (case resolveJumps c (role_proxy_jump role) of Inl _ \<Rightarrow> [] | Inr (_, roles) \<Rightarrow> roles) else [])"
      using a by (simp only: next_jump_graph r if_True simp_thms)
    show ?thesis
    proof (cases "resolveJumps c (role_proxy_jump role)")
      case (Inl e)
      then have "next_roles (jump_graph c) a = []" unfolding n by simp
      moreover have "(a, b) \<notin> jumps_through c" unfolding jumps_through_Some [OF Some] Inl by simp
      ultimately show ?thesis by simp
    next
      case (Inr cr)
      obtain chain roles where "cr = (chain, roles)" by (rule prod.exhaust)
      with Inr have "resolveJumps c (role_proxy_jump role) = Inr (chain, roles)" by (simp only:)
      then have nx: "next_roles (jump_graph c) a = (if role_proxy_jump role \<noteq> [] then roles else [])"
        unfolding n by simp
      have "(a, b) \<in> jumps_through c \<longleftrightarrow> role_proxy_jump role \<noteq> [] \<and> b \<in> set roles"
        unfolding jumps_through_Some [OF Some] \<open>resolveJumps c (role_proxy_jump role) = Inr (chain, roles)\<close>
        by (metis Pair_inject sum.inject(2))
      with nx show ?thesis by (cases "role_proxy_jump role = []") simp_all
    qed
  qed
  then show ?thesis unfolding edges_def by auto
qed

lemma roles_by_host_names: "(h, n) \<in> set (roles_by_host roles ns) \<Longrightarrow> n \<in> set ns"
  by (induction ns) (auto split: option.splits)

lemma roleByHost_key:
  assumes "roleByHost c h \<noteq> []"
  shows "roleByHost c h \<in> set (sorted_keys (cl_roles c))"
proof -
  from assms have "find_key (roles_by_host (cl_roles c) (sorted_keys (cl_roles c))) h = Some (roleByHost c h)"
    by (auto simp: roleByHost_def split: option.splits)
  then have "(h, roleByHost c h) \<in> set (roles_by_host (cl_roles c) (sorted_keys (cl_roles c)))"
    unfolding find_key_def by (rule map_of_SomeD)
  then show ?thesis by (rule roles_by_host_names)
qed

lemma resolve_hop_role:
  assumes "resolve_hop c value element = Inr (hop, Some name)"
  shows "name \<in> set (sorted_keys (cl_roles c))"
  using assms roleByHost_key find_key_in_sorted
  by (auto simp: resolve_hop_def Let_def simp del: set_sorted_keys split: sum.splits option.splits if_splits)

lemma list_all2_mem2: "list_all2 P xs ys \<Longrightarrow> y \<in> set ys \<Longrightarrow> \<exists>x\<in>set xs. P x y"
  by (induction rule: list_all2_induct) auto

lemma resolveJumps_roles:
  assumes "resolveJumps c value = Inr (chain, roles)"
  shows "set roles \<subseteq> set (sorted_keys (cl_roles c))"
proof
  fix n assume n: "n \<in> set roles"
  from assms obtain hs where hs: "resolve_hops c value = Inr hs" and r: "roles = List.map_filter snd hs"
    by (auto simp: resolveJumps_def result_simps)
  from n r obtain h where "h \<in> set hs" "snd h = Some n" by (auto simp: List.map_filter_def)
  from hs have "list_all2 (\<lambda>x y. resolve_hop c value x = Inr y) (split_char (CHR '','') value) hs"
    unfolding resolve_hops_def traverse_Inr_iff .
  from list_all2_mem2 [OF this \<open>h \<in> set hs\<close>] obtain element where "resolve_hop c value element = Inr h" ..
  with \<open>snd h = Some n\<close> have "resolve_hop c value element = Inr (fst h, Some n)" by (cases h) simp
  then show "n \<in> set (sorted_keys (cl_roles c))" by (rule resolve_hop_role)
qed

text \<open>
  C22. \<open>checkJumpCycles\<close> accepts the roles exactly when no role is reached again by following
  jump hosts: it refuses every cycle, of any length and through any chain of hops, and never
  refuses roles that share jump hosts without a cycle. Its search always ends.
\<close>
theorem checkJumpCycles_exact:
  "checkJumpCycles c = None \<longleftrightarrow> (\<forall>r. (r, r) \<notin> (jumps_through c)\<^sup>+)"
proof -
  let ?N = "set (sorted_keys (cl_roles c))" and ?g = "jump_graph c"
  let ?fuel = "length (sorted_keys (cl_roles c)) + 1"
  let ?res = "visit_all ?fuel ?g [] [] (sorted_keys (cl_roles c))"
  have "set (next_roles ?g a) \<subseteq> ?N" for a
  proof
    fix b assume "b \<in> set (next_roles ?g a)"
    then have "(a, b) \<in> jumps_through c" using edges_jump_graph [of c] unfolding edges_def by blast
    then obtain jump chain roles where "resolveJumps c jump = Inr (chain, roles)" "b \<in> set roles"
      unfolding jumps_through_def by blast
    with resolveJumps_roles show "b \<in> ?N" by blast
  qed
  then have "\<forall>a. set (next_roles ?g a) \<subseteq> ?N" by blast
  moreover have "card ?N < ?fuel + length []" using card_length [of "sorted_keys (cl_roles c)"] by simp
  ultimately have "?res \<noteq> None"
    using visit_enough_fuel(2) [of "[]" ?N "sorted_keys (cl_roles c)" ?g ?fuel "[]"] by simp
  then consider e where "?res = Some (Inl e)" | d where "?res = Some (Inr d)"
    by (cases ?res) (auto, metis sum.exhaust)
  then show ?thesis
  proof cases
    case 1
    from visit_finds_cycle(2) [OF 1] have "\<exists>m. (m, m) \<in> (jumps_through c)\<^sup>+"
      by (simp add: edges_jump_graph)
    with 1 show ?thesis by (auto simp: checkJumpCycles_def)
  next
    case 2
    have ex: "explored ?g d" "?N \<subseteq> set d"
      using visit_explores(2) [OF 2] by (auto simp: explored_def)
    have "(r, r) \<notin> (jumps_through c)\<^sup>+" for r
    proof
      assume cyc: "(r, r) \<in> (jumps_through c)\<^sup>+"
      then obtain s where "(r, s) \<in> jumps_through c" by (metis tranclD)
      then have "r \<in> ?N" by (auto simp: jumps_through_def dest: find_key_in_sorted)
      with ex cyc show False by (auto simp: explored_def edges_jump_graph)
    qed
    with 2 show ?thesis by (auto simp: checkJumpCycles_def)
  qed
qed

section \<open>Following jump hosts\<close>

lemma find_key_Cons: "find_key ((k, v) # m) x = (if x = k then Some v else find_key m x)"
  by (simp add: find_key_def)

lemma find_key_filter_other: "k \<noteq> x \<Longrightarrow> find_key (filter (\<lambda>kv. fst kv \<noteq> x) m) k = find_key m k"
  unfolding find_key_def by (induction m) auto

lemma roles_by_host_find:
  "find_key (roles_by_host roles ns) h = Some n \<Longrightarrow> map_option role_host (find_key roles n) = Some h"
proof (induction ns)
  case Nil
  then show ?case by (simp add: find_key_def)
next
  case (Cons m ns)
  show ?case
  proof (cases "find_key roles m")
    case None
    with Cons show ?thesis by simp
  next
    case (Some r)
    show ?thesis
    proof (cases "h = role_host r")
      case True
      with Some Cons.prems show ?thesis by (simp add: find_key_Cons)
    next
      case False
      with Some Cons show ?thesis by (simp add: find_key_Cons find_key_filter_other)
    qed
  qed
qed

lemma role_of_host:
  assumes "role_proxy_jump (role_or_zero c (roleByHost c host)) \<noteq> []" and "roleByHost c host \<noteq> []"
  shows "host \<in> (\<lambda>n. role_host (role_or_zero c n)) ` set (sorted_keys (cl_roles c))"
proof -
  from assms(2) have "find_key (roles_by_host (cl_roles c) (sorted_keys (cl_roles c))) host = Some (roleByHost c host)"
    by (auto simp: roleByHost_def split: option.splits)
  then have f: "map_option role_host (find_key (cl_roles c) (roleByHost c host)) = Some host"
    by (rule roles_by_host_find)
  then have "role_host (role_or_zero c (roleByHost c host)) = host"
    by (cases "find_key (cl_roles c) (roleByHost c host)") (simp_all add: role_or_zero_def)
  with roleByHost_key [OF assms(2)] show ?thesis by (metis image_eqI)
qed

text \<open>A role named by the empty string is what a host without a role is looked up as.\<close>

lemma role_or_zero_empty:
  assumes "[] \<notin> set (sorted_keys (cl_roles c))"
  shows "role_proxy_jump (role_or_zero c []) = []"
proof -
  from assms have "find_key (cl_roles c) [] = None" by (simp add: find_key_None)
  then show ?thesis by (simp add: role_or_zero_def no_role_def)
qed

lemma jump_hosts_ends:
  assumes "[] \<notin> set (sorted_keys (cl_roles c))"
  shows "distinct seen \<Longrightarrow>
     set seen \<subseteq> (\<lambda>n. role_host (role_or_zero c n)) ` set (sorted_keys (cl_roles c)) \<Longrightarrow>
     length (sorted_keys (cl_roles c)) < fuel + length seen \<Longrightarrow> jump_hosts fuel c seen host \<noteq> None"
proof (induction fuel arbitrary: seen host)
  case 0
  let ?H = "(\<lambda>n. role_host (role_or_zero c n)) ` set (sorted_keys (cl_roles c))"
  have "length seen \<le> card ?H"
    using 0 by (metis card_mono distinct_card finite_imageI finite_set)
  also have "\<dots> \<le> length (sorted_keys (cl_roles c))"
    by (metis card_image_le card_length finite_set le_trans)
  finally show ?case using 0 by simp
next
  case (Suc fuel)
  let ?jump = "role_proxy_jump (role_or_zero c (roleByHost c host))"
  show ?case
  proof (cases "host \<in> set seen \<or> ?jump = []")
    case True
    then show ?thesis by (auto simp: Let_def)
  next
    case False
    then have "roleByHost c host \<noteq> []" using role_or_zero_empty [OF assms] by auto
    with False have "host \<in> (\<lambda>n. role_host (role_or_zero c n)) ` set (sorted_keys (cl_roles c))"
      using role_of_host by blast
    with False Suc.prems have "jump_hosts fuel c (host # seen) h \<noteq> None" for h
      by (intro Suc.IH) auto
    then show ?thesis
      by (auto simp: Let_def split: sum.splits list.splits)
  qed
qed

lemma JumpHosts_value:
  assumes "[] \<notin> set (sorted_keys (cl_roles c))"
  shows "jump_hosts (length (sorted_keys (cl_roles c)) + 2) c [] host = Some (JumpHosts c host)"
  using jump_hosts_ends [OF assms, of "[]" "length (sorted_keys (cl_roles c)) + 2" host]
  by (auto simp: JumpHosts_def split: option.splits)

end
