(* ===== verification/SshTrust.thy ===== *)
theory SshTrust
  imports SshConfigProps
begin

text \<open>
  What ssh makes of the generated file: a reader of ssh_config as its manual page describes it
  (a line is a keyword and its value, a Host line starts a block, the first value obtained for a
  keyword counts), and the proof that the file gives every host the trust settings of the site,
  whatever the roles, the options and the files it includes say.
\<close>

section \<open>Reading ssh_config\<close>

abbreviation newline :: char where "newline \<equiv> CHR 0x0A"

definition blank :: "char \<Rightarrow> bool" where
  "blank c \<longleftrightarrow> c = CHR '' '' \<or> c = CHR 0x09"

definition read_directive :: "string \<Rightarrow> (string \<times> string) option" where
  "read_directive line =
     (let s = dropWhile blank line; key = (\<lambda>c. \<not> blank c \<and> c \<noteq> CHR ''='')
      in if s = [] \<or> hd s = CHR ''#'' then None
         else Some (canonicalKeyword (takeWhile key s), dropWhile blank (dropWhile key s)))"

definition directives :: "string \<Rightarrow> (string \<times> string) list" where
  "directives text = List.map_filter read_directive (split_char newline text)"

text \<open>A pattern may hold \<open>*\<close> and \<open>?\<close>; one that begins with an exclamation mark excludes.\<close>

fun glob :: "string \<Rightarrow> string \<Rightarrow> bool" where
  "glob [] s \<longleftrightarrow> s = []"
| "glob (p # ps) [] \<longleftrightarrow> p = CHR ''*'' \<and> glob ps []"
| "glob (p # ps) (c # s) \<longleftrightarrow>
     (if p = CHR ''*'' then glob ps (c # s) \<or> glob (p # ps) s
      else (p = CHR ''?'' \<or> p = c) \<and> glob ps s)"

definition host_matches :: "string \<Rightarrow> string \<Rightarrow> bool" where
  "host_matches patterns h \<longleftrightarrow>
     list_ex (\<lambda>p. \<not> has_prefix p ''!'' \<and> glob p h) (fields_func blank patterns) \<and>
     \<not> list_ex (\<lambda>p. has_prefix p ''!'' \<and> glob (tl p) h) (fields_func blank patterns)"

text \<open>
  The first value of a keyword for a host. \<open>None\<close> where the directives give none, and where an
  Include or a Match is met before one, since what those add is not in the file.
\<close>

fun first_value :: "string \<Rightarrow> bool \<Rightarrow> string \<Rightarrow> (string \<times> string) list \<Rightarrow> string option" where
  "first_value k act h [] = None"
| "first_value k act h ((key, v) # ds) =
     (if key = ''host'' then first_value k (host_matches v h) h ds
      else if key = ''match'' \<or> key = ''include'' then None
      else if act \<and> key = k then Some v
      else first_value k act h ds)"

definition ssh_value :: "string \<Rightarrow> string \<Rightarrow> string \<Rightarrow> string option" where
  "ssh_value text k h = first_value k True h (directives text)"

section \<open>The lines of the file\<close>

definition lines_text :: "string list \<Rightarrow> string" where
  "lines_text ls = concat (map (\<lambda>l. l @ [newline]) ls)"

lemma lines_text_append [simp]: "lines_text (a @ b) = lines_text a @ lines_text b"
  by (simp add: lines_text_def)

lemma lines_text_simps [simp]: "lines_text [] = []" "lines_text (l # ls) = l @ newline # lines_text ls"
  by (simp_all add: lines_text_def)

lemma lines_text_concat: "lines_text (concat (map f xs)) = concat (map (\<lambda>x. lines_text (f x)) xs)"
  by (induction xs) simp_all

lemma directives_lines:
  assumes "\<forall>l\<in>set ls. newline \<notin> set l"
  shows "directives (lines_text ls) = List.map_filter read_directive ls"
  using assms
proof (induction ls)
  case Nil
  show ?case by (simp add: directives_def read_directive_def List.map_filter_def)
next
  case (Cons l ls)
  then have "split_char newline (lines_text (l # ls)) = l # split_char newline (lines_text ls)"
    by (simp add: split_char_append)
  with Cons show ?case by (simp add: directives_def List.map_filter_def)
qed

definition setting_line :: "string \<times> string \<Rightarrow> string" where
  "setting_line kv = ''  '' @ fst kv @ '' '' @ snd kv"

definition comment_lines :: "string \<Rightarrow> string \<Rightarrow> string list" where
  "comment_lines name description =
     (case split_char newline (trim_right_set [newline] description) of
        [] \<Rightarrow> []
      | first # rest \<Rightarrow>
          (''# role '' @ name @ (if first \<noteq> [] then '': '' @ first else [])) # map (\<lambda>l. ''#   '' @ l) rest)"

definition role_body :: "(string \<times> block) list \<Rightarrow> string \<Rightarrow> block" where
  "role_body bodies name = (case find_key bodies name of Some b \<Rightarrow> b | None \<Rightarrow> [])"

definition role_lines :: "client \<Rightarrow> (string \<times> block) list \<Rightarrow> string \<Rightarrow> string list" where
  "role_lines c bodies name =
     comment_lines name (role_description (role_or_zero c name)) @
     [''Host '' @ role_host (role_or_zero c name)] @ map setting_line (role_body bodies name) @ [[]]"

definition config_lines :: "client \<Rightarrow> (string \<times> block) list \<Rightarrow> block \<Rightarrow> string list \<Rightarrow> string list" where
  "config_lines c bodies global incl =
     [''# Generated by clusterctl. Edits are overwritten.'', ''#'',
      ''# Settings below win over the included files, because ssh keeps the'',
      ''# first value it obtains for each keyword.'', []] @
     concat (map (role_lines c bodies) (block_roles c [] (sorted_keys (cl_roles c)))) @
     [''Host *''] @ map setting_line global @
     concat (map (\<lambda>i. [[], ''Include '' @ quote_path i]) incl)"

lemma block_lines: "block_text b = lines_text (map setting_line b)"
  by (induction b) (simp_all add: block_text_def setting_text_def setting_line_def)

lemma concat_newlines:
  "concat (map (\<lambda>l. newline # f l) ls) @ [newline] = newline # lines_text (map f ls)"
  by (induction ls) simp_all

lemma comment_text: "role_comment name description = lines_text (comment_lines name description)"
proof (cases "split_char newline (trim_right_set [newline] description)")
  case (Cons first rest)
  with concat_newlines [of "(@) ''#   ''" rest] show ?thesis
    by (simp add: role_comment_def comment_lines_def)
qed simp

lemma host_block_lines: "host_block_text c bodies = (\<lambda>name. lines_text (role_lines c bodies name))"
  by (simp add: fun_eq_iff host_block_text_def role_lines_def comment_text block_lines role_body_def Let_def)

lemma config_text_lines: "config_text c bodies global incl = lines_text (config_lines c bodies global incl)"
  by (simp add: config_text_def config_lines_def file_head_def lines_text_concat block_lines host_block_lines)

section \<open>What the lines say\<close>

lemma map_filter_append [simp]: "List.map_filter f (a @ b) = List.map_filter f a @ List.map_filter f b"
  by (simp add: List.map_filter_def)

lemma map_filter_concat: "List.map_filter f (concat xss) = concat (map (List.map_filter f) xss)"
  by (induction xss) (simp_all add: List.map_filter_def)

lemma map_filter_Some: "(\<And>x. x \<in> set xs \<Longrightarrow> f x = Some (g x)) \<Longrightarrow> List.map_filter f xs = map g xs"
  by (induction xs) (auto simp: List.map_filter_def)

lemma map_filter_none: "(\<And>x. x \<in> set xs \<Longrightarrow> f x = None) \<Longrightarrow> List.map_filter f xs = []"
  by (induction xs) (auto simp: List.map_filter_def)

lemma keyword_chars:
  assumes "valid_keyword k"
  shows "k \<noteq> [] \<and> (\<forall>x\<in>set k. \<not> blank x \<and> x \<noteq> CHR ''='' \<and> x \<noteq> CHR ''#'' \<and> x \<noteq> newline)"
  using assms by (auto simp: valid_keyword_def list_all_iff blank_def char_class_defs)

lemma read_keyword_line:
  assumes "valid_keyword k" and "set pad \<subseteq> {CHR '' ''}"
  shows "read_directive (pad @ k @ '' '' @ v) = Some (canonicalKeyword k, dropWhile blank v)"
proof -
  from keyword_chars [OF assms(1)] have ne: "k \<noteq> []" and k: "\<forall>x\<in>set k. \<not> blank x \<and> x \<noteq> CHR ''=''" "hd k \<noteq> CHR ''#''"
    by auto
  have "dropWhile blank (pad @ k @ '' '' @ v) = k @ '' '' @ v"
  proof -
    have "dropWhile blank (pad @ w) = dropWhile blank w" for w
      using assms(2) by (induction pad) (auto simp: blank_def)
    moreover have "\<not> blank (hd k)" using k ne by (cases k) auto
    ultimately show ?thesis using ne by (cases k) auto
  qed
  moreover have "takeWhile (\<lambda>c. \<not> blank c \<and> c \<noteq> CHR ''='') (k @ '' '' @ v) = k"
    using k by (simp add: takeWhile_append2 blank_def)
  moreover have "dropWhile (\<lambda>c. \<not> blank c \<and> c \<noteq> CHR ''='') (k @ '' '' @ v) = '' '' @ v"
    using k by (simp add: dropWhile_append2 blank_def)
  moreover have "dropWhile blank ('' '' @ v) = dropWhile blank v" by (simp add: blank_def)
  ultimately show ?thesis using ne k by (simp add: read_directive_def Let_def)
qed

lemma read_comment: "read_directive (CHR ''#'' # l) = None"
  by (simp add: read_directive_def blank_def)

lemma read_empty [simp]: "read_directive [] = None"
  by (simp add: read_directive_def)

lemma comment_lines_skipped: "List.map_filter read_directive (comment_lines name description) = []"
proof (rule map_filter_none)
  fix l assume "l \<in> set (comment_lines name description)"
  then obtain r where "l = CHR ''#'' # r"
    by (cases "split_char newline (trim_right_set [newline] description)")
      (auto simp: comment_lines_def)
  then show "read_directive l = None" by (simp add: read_comment)
qed

definition directive_of :: "string \<times> string \<Rightarrow> string \<times> string" where
  "directive_of kv = (canonicalKeyword (fst kv), dropWhile blank (snd kv))"

lemma settings_read:
  assumes "\<forall>kv\<in>set b. valid_keyword (fst kv)"
  shows "List.map_filter read_directive (map setting_line b) = map directive_of b"
proof -
  have "List.map_filter read_directive (map setting_line b) = List.map_filter (read_directive \<circ> setting_line) b"
    by (induction b) (simp_all add: List.map_filter_def)
  also have "\<dots> = map directive_of b"
  proof (rule map_filter_Some)
    fix kv assume "kv \<in> set b"
    with assms read_keyword_line [of "fst kv" "''  ''" "snd kv"]
    show "(read_directive \<circ> setting_line) kv = Some (directive_of kv)"
      by (simp add: setting_line_def directive_of_def)
  qed
  finally show ?thesis .
qed

definition role_directives :: "client \<Rightarrow> (string \<times> block) list \<Rightarrow> string \<Rightarrow> (string \<times> string) list" where
  "role_directives c bodies name =
     (''host'', dropWhile blank (role_host (role_or_zero c name))) # map directive_of (role_body bodies name)"

lemma header_keywords:
  "valid_keyword ''Host''" "canonicalKeyword ''Host'' = ''host''"
  "valid_keyword ''Include''" "canonicalKeyword ''Include'' = ''include''"
  by code_simp+

lemma read_host: "read_directive (''Host '' @ v) = Some (''host'', dropWhile blank v)"
  using read_keyword_line [of "''Host''" "[]" v] header_keywords by simp

lemma read_include: "read_directive (''Include '' @ v) = Some (''include'', dropWhile blank v)"
  using read_keyword_line [of "''Include''" "[]" v] header_keywords by simp

lemma role_lines_read:
  assumes "\<forall>kv\<in>set (role_body bodies name). valid_keyword (fst kv)"
  shows "List.map_filter read_directive (role_lines c bodies name) = role_directives c bodies name"
  using settings_read [OF assms] read_host [of "role_host (role_or_zero c name)"]
  by (simp add: role_lines_def role_directives_def comment_lines_skipped List.map_filter_simps)

lemma config_lines_read:
  assumes "\<forall>n\<in>set (block_roles c [] (sorted_keys (cl_roles c))). \<forall>kv\<in>set (role_body bodies n). valid_keyword (fst kv)"
    and "\<forall>kv\<in>set global. valid_keyword (fst kv)"
  shows "List.map_filter read_directive (config_lines c bodies global incl) =
     concat (map (role_directives c bodies) (block_roles c [] (sorted_keys (cl_roles c)))) @
     (''host'', ''*'') # map directive_of global @
     map (\<lambda>i. (''include'', dropWhile blank (quote_path i))) incl"
proof -
  have roles: "List.map_filter read_directive (concat (map (role_lines c bodies) (block_roles c [] (sorted_keys (cl_roles c))))) =
      concat (map (role_directives c bodies) (block_roles c [] (sorted_keys (cl_roles c))))"
    unfolding map_filter_concat
    using assms(1) by (intro arg_cong [where f = concat]) (simp add: role_lines_read)
  have incl: "List.map_filter read_directive (concat (map (\<lambda>i. [[], ''Include '' @ quote_path i]) incl)) =
      map (\<lambda>i. (''include'', dropWhile blank (quote_path i))) incl"
    using read_include by (induction incl) (simp_all add: List.map_filter_simps)
  have star: "read_directive ''Host *'' = Some (''host'', ''*'')"
    using read_host [of "''*''"] by (simp add: blank_def)
  show ?thesis
    using settings_read [OF assms(2)] star
    by (simp only: config_lines_def map_filter_append roles incl)
      (simp add: List.map_filter_simps read_comment)
qed

section \<open>Which settings a block holds\<close>

lemma block_options_from_Inr:
  "block_options_from place refused b kvs = Inr b' \<Longrightarrow>
     b' = b @ kvs \<and> (\<forall>kv\<in>set kvs. canonicalKeyword (fst kv) \<notin> set refused)"
proof (induction kvs arbitrary: b)
  case (Cons kv kvs)
  obtain k v where kv: "kv = (k, v)" by (cases kv)
  from Cons.prems have ok: "canonicalKeyword k \<notin> set refused"
    and r: "block_options_from place refused (b @ [(k, v)]) kvs = Inr b'"
    by (auto simp: kv split: if_splits)
  from Cons.IH [OF r] ok show ?case by (simp add: kv)
qed simp

lemma block_options_Inr:
  assumes "block_options b place options refused = Inr b'"
  shows "b' = b @ option_list options \<and>
     (\<forall>kv\<in>set (option_list options). canonicalKeyword (fst kv) \<notin> set refused)"
  using assms unfolding block_options_def by (rule block_options_from_Inr)

lemma hasControl_newline: "newline \<in> set s \<Longrightarrow> hasControl s False"
  unfolding hasControl_def list_ex_iff by (rule bexI [of _ newline]) simp_all

lemma check_options_Nil:
  assumes "check_options place options = []"
  shows "\<forall>kv\<in>set (option_list options). valid_keyword (fst kv) \<and> newline \<notin> set (snd kv)"
proof
  fix kv assume "kv \<in> set (option_list options)"
  moreover obtain k v where kv: "kv = (k, v)" by (cases kv)
  ultimately have "(k, v) \<in> set (option_list options)" by simp
  with assms have "(if valid_keyword k then [] else [Leaf ''%s: %q is not an ssh option keyword'' [place, k]]) = [] \<and>
      (if trim_space v = [] \<or> hasControl v False
       then [Leaf ''%s: the value %q of %s is empty or holds a control character'' [place, v, k]] else []) = []"
    unfolding check_options_def concat_eq_Nil_conv by (simp only: set_map ball_simps) (drule (1) bspec, simp)
  then have "valid_keyword k \<and> \<not> hasControl v False" by (simp split: if_splits)
  then show "valid_keyword (fst kv) \<and> newline \<notin> set (snd kv)"
    using hasControl_newline by (auto simp: kv)
qed

definition role_keys :: "string list" where
  "role_keys = [''ForwardAgent'', ''ForwardX11'', ''ForwardX11Trusted'', ''ProxyJump'', ''ControlMaster'',
     ''ControlPath'', ''ControlPersist'', ''PubkeyAcceptedKeyTypes'', ''HostKeyAlgorithms'']"

lemma role_settings_keys: "kv \<in> set (role_settings env c role jump) \<Longrightarrow> fst kv \<in> set role_keys"
  by (auto simp: role_settings_def role_keys_def legacy_algorithms_def split: if_splits)

lemma role_keys_valid: "list_all (\<lambda>k. valid_keyword k \<and> canonicalKeyword k \<notin> {''host'', ''match'', ''include''}) role_keys"
  by code_simp

definition trust_only :: "string list" where
  "trust_only = [''userknownhostsfile'', ''globalknownhostsfile'', ''knownhostscommand'', ''stricthostkeychecking'',
     ''verifyhostkeydns'', ''updatehostkeys'', ''hashknownhosts'', ''checkhostip'',
     ''nohostauthenticationforlocalhost'']"

lemma role_keys_no_trust: "list_all (\<lambda>k. canonicalKeyword k \<notin> set trust_only) role_keys"
  by code_simp

lemma trust_only_refused: "set trust_only \<union> {''host'', ''match'', ''include''} \<subseteq> set trustKeywords"
  by (simp add: trust_only_def trustKeywords_def)

text \<open>No setting of the block starts a block, includes a file, or is one of the keywords.\<close>

definition quiet_block :: "string set \<Rightarrow> block \<Rightarrow> bool" where
  "quiet_block ks b \<longleftrightarrow>
     (\<forall>kv\<in>set b. valid_keyword (fst kv) \<and> canonicalKeyword (fst kv) \<notin> {''host'', ''match'', ''include''} \<union> ks)"

lemma roleBody_quiet:
  assumes "roleBody env c name role = Inr b" and "check_options (''role '' @ name) (role_options role) = []"
  shows "quiet_block (set trust_only) b"
proof -
  from assms(1) obtain jump where "block_options (role_settings env c role jump) (''role '' @ name)
      (role_options role) roleRefused = Inr b"
    by (auto simp: roleBody_def result_simps)
  from block_options_Inr [OF this] have b: "b = role_settings env c role jump @ option_list (role_options role)"
    and o: "\<forall>kv\<in>set (option_list (role_options role)). canonicalKeyword (fst kv) \<notin> set roleRefused" by auto
  have "set trust_only \<union> {''host'', ''match'', ''include''} \<subseteq> set roleRefused"
    using trust_only_refused by (auto simp: roleRefused_def)
  then show ?thesis
    using o check_options_Nil [OF assms(2)] role_settings_keys role_keys_valid role_keys_no_trust
    unfolding quiet_block_def b by (fastforce simp: list_all_iff)
qed

lemma first_value_quiet:
  assumes "quiet_block ks b" and "k \<in> ks"
  shows "first_value k act h (map directive_of b @ ds) = first_value k act h ds"
  using assms by (induction b) (auto simp: quiet_block_def directive_of_def)

lemma glob_star: "glob ''*'' h"
  by (induction h) auto

lemma host_matches_star: "host_matches ''*'' h"
proof -
  have "fields_func blank ''*'' = [''*'']"
    by (subst fields_func_some [of _ _ "CHR ''*''" "[]"]) (simp_all add: blank_def fields_func_none)
  then show ?thesis by (simp add: host_matches_def glob_star)
qed

lemma first_value_roles:
  assumes "\<forall>n\<in>set names. quiet_block ks (role_body bodies n)" and "k \<in> ks" and "k \<noteq> ''host''"
  shows "\<exists>act'. first_value k act h (concat (map (role_directives c bodies) names) @ ds) = first_value k act' h ds"
  using assms(1)
proof (induction names arbitrary: act)
  case (Cons n names)
  then have "quiet_block ks (role_body bodies n)" by simp
  then have "first_value k act h (concat (map (role_directives c bodies) (n # names)) @ ds) =
      first_value k (host_matches (dropWhile blank (role_host (role_or_zero c n))) h) h
        (concat (map (role_directives c bodies) names) @ ds)"
    using first_value_quiet [OF _ assms(2)] by (simp add: role_directives_def)
  with Cons show ?case by simp
qed auto

section \<open>No value breaks a line\<close>

abbreviation one_line :: "string \<Rightarrow> bool" where "one_line s \<equiv> newline \<notin> set s"

lemma checkPath_one_line: "checkPath p = None \<Longrightarrow> one_line p"
  using hasControl_newline [of p] by (auto simp: checkPath_def split: if_splits)

lemma CheckUser_one_line: "CheckUser u = None \<Longrightarrow> one_line u"
  by (auto simp: CheckUser_def first_error_None userChar_def isHostChar_def char_class_defs split: if_splits)

lemma CheckHost_one_line:
  assumes "CheckHost h = None"
  shows "one_line h"
proof (cases "IsIP h")
  case True
  then have "\<forall>c\<in>set h. ip_char c" using parse_ip_chars [of h] by (simp add: IsIP_def)
  then show ?thesis by (auto simp: ip_char_def is_hex_def char_class_defs)
next
  case False
  with assms have "Check h = None" by (simp add: CheckHost_def)
  from Check_chars [OF this] show ?thesis by (auto simp: isHostChar_def char_class_defs)
qed

lemma itoa_one_line: "one_line (itoa i)"
  using nat_digits_are_digits [of newline] by (auto simp: itoa_def char_class_defs)

lemma seconds_one_line: "one_line (seconds d)" "one_line (persist d)"
  using itoa_one_line by (auto simp: seconds_def persist_def)

lemma quote_path_one_line: "newline \<in> set (quote_path p) \<longleftrightarrow> newline \<in> set p"
  by (simp add: quote_path_def)

lemma escapePercent_one_line: "newline \<in> set (escapePercent p) \<longleftrightarrow> newline \<in> set p"
  by (auto simp: escapePercent_def split: if_splits)

lemma join_str_set: "set (join_str sep ws) \<subseteq> set sep \<union> (\<Union>w\<in>set ws. set w)"
  by (induction sep ws rule: join_str.induct) auto

lemma clean_elements_set: "set (clean_elements rooted stack es) \<subseteq> set stack \<union> set es"
proof (induction rooted stack es rule: clean_elements.induct)
  case (2 rooted stack e es)
  have tl: "set (tl stack) \<subseteq> set stack" by (cases stack) auto
  consider "e = [] \<or> e = ''.''" | "e = ''..''" "stack \<noteq> [] \<and> hd stack \<noteq> ''..''"
    | "e = ''..''" "\<not> (stack \<noteq> [] \<and> hd stack \<noteq> ''..'')"
    | "e \<noteq> []" "e \<noteq> ''.''" "e \<noteq> ''..''" by blast
  then show ?case
  proof cases
    case 1
    with "2.IH"(1) show ?thesis by auto
  next
    case 2
    with "2.IH"(2) tl show ?thesis by auto
  next
    case 3
    with "2.IH"(3,4) show ?thesis by (cases rooted) auto
  next
    case 4
    with "2.IH"(5) show ?thesis by auto
  qed
qed simp

lemma path_clean_set: "set (path_clean p) \<subseteq> set p \<union> {CHR ''/'', CHR ''.''}"
proof -
  have "set (join_str ''/'' (clean_elements r [] (split_char (CHR ''/'') p))) \<subseteq> set p \<union> {CHR ''/''}" for r
    using join_str_set [of "''/''" "clean_elements r [] (split_char (CHR ''/'') p)"]
      clean_elements_set [of r "[]" "split_char (CHR ''/'') p"] split_char_subset [of _ "CHR ''/''" p]
    by fastforce
  then show ?thesis by (auto simp: path_clean_def Let_def)
qed

lemma path_join_one_line: "one_line a \<Longrightarrow> one_line b \<Longrightarrow> one_line (path_join a b)"
  using path_clean_set [of a] path_clean_set [of b] path_clean_set [of "a @ ''/'' @ b"]
  by (auto simp: path_join_def)

text \<open>The machine's own answers: a home directory and digests without a line break.\<close>

definition plain_env :: "ssh_env \<Rightarrow> bool" where
  "plain_env env \<longleftrightarrow>
     (case env_home env of None \<Rightarrow> True | Some h \<Rightarrow> one_line h) \<and> (\<forall>s. one_line (env_digest env s))"

lemma expandHome_one_line:
  assumes "plain_env env" and "one_line p"
  shows "one_line (expandHome env p)"
proof -
  have "one_line (drop 2 p)" using assms(2) by (meson in_set_dropD)
  then have "one_line (path_join h (if p = ''~'' then [] else drop 2 p))" if "env_home env = Some h" for h
    using assms(1) that by (intro path_join_one_line) (auto simp: plain_env_def)
  with assms(2) show ?thesis
    by (cases "env_home env"; cases "p = ''~'' \<or> has_prefix p ''~/''") (simp_all only: expandHome_def if_True if_False option.case simp_thms)
qed

lemma controlPath_one_line:
  assumes "plain_env env" and "one_line (ssh_control_path (cl_spec c))" and "one_line (cl_state_dir c)"
  shows "one_line (controlPath env c)"
proof -
  have "one_line (trustDigest env c)" using assms(1) unfolding trustDigest_def plain_env_def by (meson in_set_takeD)
  then have "one_line (path_join (escapePercent (cl_state_dir c)) (''cm-'' @ trustDigest env c @ ''-%C''))"
    using assms(3) by (intro path_join_one_line) (auto simp: escapePercent_one_line)
  with expandHome_one_line [OF assms(1,2)] show ?thesis by (simp add: controlPath_def)
qed

section \<open>What the checks leave\<close>

lemma check_values_Nil:
  assumes "check_values env c = []"
  shows "one_line (cl_known_hosts c)" "one_line (cl_state_dir c)"
    "one_line (ssh_control_path (cl_spec c))"
    "cl_default_user c = [] \<or> CheckUser (cl_default_user c) = None"
    "\<forall>i\<in>set (ssh_include (cl_spec c)). one_line i"
    "\<forall>n\<in>set (ssh_send_env (cl_spec c)). one_line n"
    "check_options ''ssh.options'' (ssh_options (cl_spec c)) = []"
    "\<forall>n\<in>set (sorted_keys (cl_roles c)). check_role c n = []"
proof -
  note parts = assms [unfolded check_values_def Let_def append_is_Nil_conv]
  show "one_line (cl_known_hosts c)" using parts checkPath_one_line
    by (cases "checkPath (cl_known_hosts c)") (auto split: if_splits)
  show "one_line (cl_state_dir c)" using parts checkPath_one_line
    by (cases "checkPath (cl_state_dir c)") (auto simp: opt_err_def)
  show "one_line (ssh_control_path (cl_spec c))" using parts checkPath_one_line
    by (cases "checkPath (ssh_control_path (cl_spec c))") (auto simp: opt_err_def)
  show "cl_default_user c = [] \<or> CheckUser (cl_default_user c) = None" using parts
    by (cases "CheckUser (cl_default_user c)") (auto simp: opt_err_def split: if_splits)
  show "check_options ''ssh.options'' (ssh_options (cl_spec c)) = []" using parts by simp
  show "\<forall>n\<in>set (sorted_keys (cl_roles c)). check_role c n = []" using parts by simp
  show "\<forall>i\<in>set (ssh_include (cl_spec c)). one_line i"
  proof
    fix i assume i: "i \<in> set (ssh_include (cl_spec c))"
    have "(case checkPath i of Some e \<Rightarrow> [Wrap ''ssh.include: %w'' [] [e]]
         | None \<Rightarrow> if has_prefix (expandHome env i) ''/'' then []
                   else [Leaf ''ssh.include %q is not an absolute path'' [i]]) = []"
      using parts i by simp
    then show "one_line i" by (intro checkPath_one_line) (simp split: option.splits)
  qed
  show "\<forall>n\<in>set (ssh_send_env (cl_spec c)). one_line n"
  proof
    fix n assume n: "n \<in> set (ssh_send_env (cl_spec c))"
    let ?bad = "n = [] \<or> contains_any n [CHR '' '', CHR 0x09, CHR 0x22, CHR 0x5C] \<or> hasControl n False"
    have "(if ?bad then [Leaf ''ssh.sendEnv: %q is not an environment variable name'' [n]] else []) = []"
      using parts n by simp
    then have "\<not> ?bad" by (metis not_Cons_self2)
    then have "\<not> hasControl n False" by (elim contrapos_nn) simp
    then show "one_line n" using hasControl_newline by blast
  qed
qed

lemma check_role_Nil:
  assumes "check_role c n = []"
  shows "one_line n" "check_options (''role '' @ n) (role_options (role_or_zero c n)) = []"
    "role_host (role_or_zero c n) = [] \<or> CheckHost (role_host (role_or_zero c n)) = None"
    "role_user (role_or_zero c n) = [] \<or> CheckUser (role_user (role_or_zero c n)) = None"
proof -
  note parts = assms [unfolded check_role_def Let_def append_is_Nil_conv]
  show "one_line n" using parts hasControl_newline by (auto split: if_splits)
  show "check_options (''role '' @ n) (role_options (role_or_zero c n)) = []" using parts by simp
  show "role_host (role_or_zero c n) = [] \<or> CheckHost (role_host (role_or_zero c n)) = None"
    using parts by (cases "CheckHost (role_host (role_or_zero c n))") (auto simp: opt_err_def split: if_splits)
  show "role_user (role_or_zero c n) = [] \<or> CheckUser (role_user (role_or_zero c n)) = None"
    using parts by (cases "CheckUser (role_user (role_or_zero c n))") (auto simp: opt_err_def split: if_splits)
qed


section \<open>No line of the file is broken\<close>

lemma user_for_role_one_line:
  assumes "check_values env c = []" and "n \<in> set (sorted_keys (cl_roles c))"
  shows "one_line (user_for c (no_target\<lparr>tg_role := n\<rparr>))"
proof -
  have "check_role c n = []" using check_values_Nil(8) [OF assms(1)] assms(2) by blast
  then have r: "one_line (role_user (role_or_zero c n))"
    using check_role_Nil(4) CheckUser_one_line by fastforce
  have d: "one_line (cl_default_user c)"
    using check_values_Nil(4) [OF assms(1)] CheckUser_one_line by fastforce
  have "find_key (cl_roles c) n = Some (role_or_zero c n)" using assms(2) by (rule role_or_zero_key)
  with r d show ?thesis by (simp add: user_for_def no_target_def)
qed

lemma parse_hop_checked:
  assumes "parse_hop s = Inr h"
  shows "(hop_user h = [] \<or> CheckUser (hop_user h) = None) \<and> (hop_port h = [] \<or> valid_port (hop_port h))"
  using assms by (auto simp: parse_hop_def result_simps split: if_splits option.splits)

lemma valid_port_one_line: "valid_port p \<Longrightarrow> one_line p"
proof -
  assume "valid_port p"
  then obtain n where a: "atoi p = Some n" by (auto simp: valid_port_def split: option.splits)
  have nd: "\<not> is_digit newline" by (simp add: char_class_defs)
  have d: "one_line s" if "digits_value k s = Some m" for k s m
    using digits_value_digits [OF that] nd by auto
  obtain c t where p: "p = c # t" using a by (cases p) (auto simp: atoi_def)
  consider "c = CHR ''-'' \<or> c = CHR ''+''" "\<exists>m. digits_value 0 t = Some m"
    | "\<exists>m. digits_value 0 p = Some m"
    using a by (auto simp: p atoi_def Let_def split: if_splits option.splits)
  then show ?thesis
  proof cases
    case 1
    then have "one_line t" using d by blast
    with 1 show ?thesis by (auto simp: p)
  next
    case 2
    then show ?thesis using d by blast
  qed
qed

lemma hop_string_one_line:
  assumes "one_line (hop_user h)" and "one_line (hop_host h)" and "one_line (hop_port h)"
  shows "one_line (hop_string h)"
  using assms by (simp add: hop_string_def Let_def)

lemma role_host_one_line:
  assumes "check_values env c = []" and "n \<in> set (sorted_keys (cl_roles c))"
  shows "one_line (role_host (role_or_zero c n))"
proof -
  have "check_role c n = []" using check_values_Nil(8) [OF assms(1)] assms(2) by blast
  then show ?thesis using check_role_Nil(3) CheckHost_one_line by fastforce
qed

lemma resolve_hop_cases:
  assumes "resolve_hop c value element = Inr (hop, via)"
  obtains h where "parse_hop (trim_space element) = Inr h" "hop_port hop = hop_port h"
    "hop_user hop = hop_user h \<or> (\<exists>n\<in>set (sorted_keys (cl_roles c)). hop_user hop = user_for c (no_target\<lparr>tg_role := n\<rparr>))"
    "CheckHost (hop_host hop) = None \<or> (\<exists>n\<in>set (sorted_keys (cl_roles c)). hop_host hop = role_host (role_or_zero c n))"
proof -
  from assms obtain h where h: "parse_hop (trim_space element) = Inr h"
    by (auto simp: resolve_hop_def split: sum.splits)
  show thesis
  proof (cases "find_key (cl_roles c) (hop_host h)")
    case (Some role)
    have n: "hop_host h \<in> set (sorted_keys (cl_roles c))" using Some by (rule find_key_in_sorted)
    have r: "role_host role = role_host (role_or_zero c (hop_host h))" by (simp add: role_or_zero_def Some)
    have p: "hop_port hop = hop_port h" and a: "hop_host hop = role_host role"
      and u: "hop_user hop = hop_user h \<or> hop_user hop = user_for c (no_target\<lparr>tg_role := hop_host h\<rparr>)"
      using assms h Some by (auto simp: resolve_hop_def Let_def split: if_splits)
    show thesis
      by (rule that [OF h p]) (use u a r n in \<open>auto simp del: set_sorted_keys\<close>)
  next
    case None
    show thesis
    proof (cases "roleByHost c (hop_host h) = []")
      case True
      have "hop = h" "CheckHost (hop_host h) = None"
        using assms h None True by (auto simp: resolve_hop_def Let_def split: if_splits option.splits)
      then show thesis using that [OF h] by blast
    next
      case False
      let ?n = "roleByHost c (hop_host h)"
      have n: "?n \<in> set (sorted_keys (cl_roles c))" using False by (rule roleByHost_key)
      have "find_key (roles_by_host (cl_roles c) (sorted_keys (cl_roles c))) (hop_host h) = Some ?n"
        using False by (auto simp: roleByHost_def split: option.splits)
      then have "map_option role_host (find_key (cl_roles c) ?n) = Some (hop_host h)" by (rule roles_by_host_find)
      then have host: "hop_host h = role_host (role_or_zero c ?n)"
        by (cases "find_key (cl_roles c) ?n") (simp_all add: role_or_zero_def)
      have p: "hop_port hop = hop_port h" and a: "hop_host hop = hop_host h"
        and u: "hop_user hop = hop_user h \<or> hop_user hop = user_for c (no_target\<lparr>tg_role := ?n\<rparr>)"
        using assms h None False by (auto simp: resolve_hop_def Let_def split: if_splits)
      show thesis
        by (rule that [OF h p]) (use u a host n in \<open>auto simp del: set_sorted_keys\<close>)
    qed
  qed
qed

lemma resolve_hop_one_line:
  assumes "check_values env c = []" and "resolve_hop c value element = Inr (hop, via)"
  shows "one_line (hop_string hop)"
proof -
  from resolve_hop_cases [OF assms(2)] obtain h where
    h: "parse_hop (trim_space element) = Inr h" "hop_port hop = hop_port h"
    and user: "hop_user hop = hop_user h \<or> (\<exists>n\<in>set (sorted_keys (cl_roles c)). hop_user hop = user_for c (no_target\<lparr>tg_role := n\<rparr>))"
    and host: "CheckHost (hop_host hop) = None \<or> (\<exists>n\<in>set (sorted_keys (cl_roles c)). hop_host hop = role_host (role_or_zero c n))"
    by blast
  from parse_hop_checked [OF h(1)] have checked: "hop_user h = [] \<or> CheckUser (hop_user h) = None"
    "hop_port h = [] \<or> valid_port (hop_port h)" by auto
  have "one_line (hop_user h)" using checked(1) CheckUser_one_line by fastforce
  with user user_for_role_one_line [OF assms(1)] have "one_line (hop_user hop)" by metis
  moreover have "one_line (hop_host hop)"
    using host role_host_one_line [OF assms(1)] CheckHost_one_line by metis
  moreover have "one_line (hop_port hop)"
    using checked(2) valid_port_one_line h(2) by fastforce
  ultimately show ?thesis by (rule hop_string_one_line)
qed

lemma resolveJumps_one_line:
  assumes "check_values env c = []" and "resolveJumps c value = Inr (chain, roles)"
  shows "one_line chain"
proof -
  from assms(2) obtain hs where "resolve_hops c value = Inr hs" and chain: "chain = join_str '','' (map (hop_string \<circ> fst) hs)"
    by (auto simp: resolveJumps_def result_simps)
  then have all2: "list_all2 (\<lambda>x y. resolve_hop c value x = Inr y) (split_char (CHR '','') value) hs"
    unfolding resolve_hops_def traverse_Inr_iff by simp
  have "\<forall>w\<in>set (map (hop_string \<circ> fst) hs). one_line w"
  proof
    fix w assume "w \<in> set (map (hop_string \<circ> fst) hs)"
    then obtain hv where hv: "hv \<in> set hs" "w = hop_string (fst hv)" by auto
    obtain hop via where "hv = (hop, via)" by (cases hv)
    with list_all2_mem2 [OF all2 hv(1)] obtain e where "resolve_hop c value e = Inr (hop, via)" by auto
    with resolve_hop_one_line [OF assms(1)] hv \<open>hv = (hop, via)\<close> show "one_line w" by simp
  qed
  with join_str_set [of "'',''" "map (hop_string \<circ> fst) hs"] show ?thesis unfolding chain by fastforce
qed

lemma role_settings_one_line:
  assumes "check_values env c = []" and "plain_env env" and "one_line jump"
  shows "\<forall>kv\<in>set (role_settings env c role jump). one_line (snd kv)"
  using assms(3) seconds_one_line controlPath_one_line [OF assms(2) check_values_Nil(3,2) [OF assms(1)]]
  by (auto simp: role_settings_def legacy_algorithms_def quote_path_one_line)

lemma roleBody_one_line:
  assumes "check_values env c = []" and "plain_env env" and "n \<in> set (sorted_keys (cl_roles c))"
    and "roleBody env c n (role_or_zero c n) = Inr b"
  shows "\<forall>kv\<in>set b. one_line (snd kv)"
proof -
  let ?role = "role_or_zero c n"
  from assms(4) obtain jump where j: "jump = [] \<or> (\<exists>roles. resolveJumps c (role_proxy_jump ?role) = Inr (jump, roles))"
    and bo: "block_options (role_settings env c ?role jump) (''role '' @ n) (role_options ?role) roleRefused = Inr b"
    by (auto simp: roleBody_def result_simps split: if_splits sum.splits)
  have "one_line jump" using j resolveJumps_one_line [OF assms(1)] by auto
  moreover have "\<forall>kv\<in>set (option_list (role_options ?role)). one_line (snd kv)"
    using check_values_Nil(8) [OF assms(1)] assms(3) check_role_Nil(2) check_options_Nil by blast
  ultimately show ?thesis
    using block_options_Inr [OF bo] role_settings_one_line [OF assms(1,2)] by auto
qed

lemma globalBody_block:
  assumes "check_values env c = []" and "globalBody c known = Inr b"
  shows "\<exists>opts. b = global_settings c known @ opts \<and> (\<forall>kv\<in>set opts. valid_keyword (fst kv) \<and> one_line (snd kv) \<and>
     canonicalKeyword (fst kv) \<notin> set trustKeywords)"
proof -
  from assms(2) have "block_options (global_settings c known) ''ssh.options'' (ssh_options (cl_spec c)) trustKeywords = Inr b"
    by (simp add: globalBody_def)
  note b = block_options_Inr [OF this] and ok = check_options_Nil [OF check_values_Nil(7) [OF assms(1)]]
  show ?thesis
    by (rule exI [of _ "option_list (ssh_options (cl_spec c))"]) (use b ok in simp)
qed

definition global_keys :: "string list" where
  "global_keys = [''UserKnownHostsFile'', ''GlobalKnownHostsFile'', ''KnownHostsCommand'', ''StrictHostKeyChecking'',
     ''VerifyHostKeyDNS'', ''NoHostAuthenticationForLocalhost'', ''UpdateHostKeys'', ''CheckHostIP'', ''HashKnownHosts'',
     ''ControlMaster'', ''ControlPath'', ''ConnectTimeout'', ''ConnectionAttempts'', ''ServerAliveInterval'',
     ''ServerAliveCountMax'', ''SendEnv'', ''PubkeyAcceptedKeyTypes'', ''HostKeyAlgorithms'']"

lemma global_settings_keys: "kv \<in> set (global_settings c known) \<Longrightarrow> fst kv \<in> set global_keys"
  by (auto simp: global_settings_def global_keys_def legacy_algorithms_def Let_def split: if_splits)

lemma global_keys_valid: "list_all (\<lambda>k. valid_keyword k \<and> canonicalKeyword k \<notin> {''host'', ''match'', ''include''}) global_keys"
  by code_simp

lemma global_settings_one_line:
  assumes "check_values env c = []"
  shows "\<forall>kv\<in>set (global_settings c known). one_line (snd kv)"
proof -
  have "one_line (join_str '' '' (ssh_send_env (cl_spec c)))"
    using join_str_set [of "'' ''" "ssh_send_env (cl_spec c)"] check_values_Nil(6) [OF assms] by fastforce
  then show ?thesis
    using check_values_Nil(1) [OF assms] itoa_one_line seconds_one_line
    by (auto simp: global_settings_def legacy_algorithms_def Let_def quote_path_one_line escapePercent_one_line)
qed

lemma comment_lines_one_line:
  assumes "one_line name"
  shows "\<forall>l\<in>set (comment_lines name description). one_line l"
proof (cases "split_char newline (trim_right_set [newline] description)")
  case (Cons first rest)
  then have "\<forall>w\<in>set (first # rest). one_line w"
    using split_char_parts [of _ newline "trim_right_set [newline] description"] by auto
  with Cons assms show ?thesis by (auto simp: comment_lines_def)
qed simp

lemma setting_line_one_line: "valid_keyword (fst kv) \<Longrightarrow> one_line (snd kv) \<Longrightarrow> one_line (setting_line kv)"
  using keyword_chars [of "fst kv"] by (auto simp: setting_line_def)

lemma block_roles_names: "set (block_roles c written names) \<subseteq> set names"
  by (induction c written names rule: block_roles.induct) (auto simp: Let_def)

lemma roleBodies_body:
  assumes "roleBodies env c = Inr bodies" and "n \<in> set (sorted_keys (cl_roles c))"
  shows "roleBody env c n (role_or_zero c n) = Inr (role_body bodies n)"
proof -
  from assms(1) have "list_all2 (\<lambda>x y. rbind (roleBody env c x (role_or_zero c x)) (\<lambda>b. Inr (x, b)) = Inr y)
      (sorted_keys (cl_roles c)) bodies"
    by (simp add: roleBodies_def traverse_Inr_iff)
  then have *: "list_all2 (\<lambda>x y. fst y = x \<and> roleBody env c x (role_or_zero c x) = Inr (snd y)) (sorted_keys (cl_roles c)) bodies"
    by (rule list_all2_mono) (auto simp: result_simps)
  have "distinct ns \<Longrightarrow> n \<in> set ns \<Longrightarrow>
      list_all2 (\<lambda>x y. fst y = x \<and> roleBody env c x (role_or_zero c x) = Inr (snd y)) ns bs \<Longrightarrow>
      roleBody env c n (role_or_zero c n) = Inr (role_body bs n)" for ns bs
  proof (induction ns arbitrary: bs)
    case (Cons m ns)
    then obtain b bs' where "bs = b # bs'" "fst b = m" "roleBody env c m (role_or_zero c m) = Inr (snd b)"
      "list_all2 (\<lambda>x y. fst y = x \<and> roleBody env c x (role_or_zero c x) = Inr (snd y)) ns bs'"
      by (auto simp: list_all2_Cons1)
    with Cons show ?case by (cases "n = m") (auto simp: role_body_def find_key_def)
  qed simp
  from this [OF distinct_sorted_keys assms(2) *] show ?thesis .
qed

text \<open>Everything a generated text is made of, once it was generated.\<close>

lemma generateConfig_parts:
  assumes "generateConfig env c = Inr text" and "plain_env env"
  obtains bodies known b where "text = lines_text (config_lines c bodies b (include_files env c))"
    "knowsKnownHostsCommand env c = Inr known" "globalBody c known = Inr b" "check_values env c = []"
    "roleBodies env c = Inr bodies" "cl_known_hosts c \<noteq> []"
    "\<forall>l\<in>set (config_lines c bodies b (include_files env c)). one_line l"
proof -
  from assms(1) have v: "Validate env c = []" and ne: "cl_known_hosts c \<noteq> []"
    by (auto simp: generateConfig_def split: if_splits)
  from assms(1) v ne obtain bodies where bodies: "roleBodies env c = Inr bodies"
    by (cases "roleBodies env c") (auto simp: generateConfig_def)
  from assms(1) v ne bodies obtain known where known: "knowsKnownHostsCommand env c = Inr known"
    by (cases "knowsKnownHostsCommand env c") (auto simp: generateConfig_def)
  from assms(1) v ne bodies known obtain b where b: "globalBody c known = Inr b"
    by (cases "globalBody c known") (auto simp: generateConfig_def)
  from assms(1) v ne bodies known b have tx: "text = config_text c bodies b (include_files env c)"
    by (simp add: generateConfig_def)
  from v have cv: "check_values env c = []" by (auto simp: Validate_def Let_def split: if_splits)
  from globalBody_block [OF cv b] obtain opts where opts: "b = global_settings c known @ opts"
    "\<forall>kv\<in>set opts. valid_keyword (fst kv) \<and> one_line (snd kv)" by blast
  have gk: "\<forall>kv\<in>set b. valid_keyword (fst kv) \<and> one_line (snd kv)"
    using opts global_settings_keys global_keys_valid global_settings_one_line [OF cv]
    by (fastforce simp: list_all_iff)
  have roles: "\<forall>l\<in>set (role_lines c bodies n). one_line l" if n: "n \<in> set (sorted_keys (cl_roles c))" for n
  proof -
    note cr = bspec [OF check_values_Nil(8) [OF cv] n]
    note rb = roleBodies_body [OF bodies n]
    have "\<forall>kv\<in>set (role_body bodies n). valid_keyword (fst kv) \<and> one_line (snd kv)"
      using roleBody_quiet [OF rb check_role_Nil(2) [OF cr]] roleBody_one_line [OF cv assms(2) n rb]
      by (auto simp: quiet_block_def)
    then have "\<forall>l\<in>set (map setting_line (role_body bodies n)). one_line l" using setting_line_one_line by simp
    moreover have "one_line (''Host '' @ role_host (role_or_zero c n))"
      using role_host_one_line [OF cv n] by simp
    ultimately show ?thesis
      using comment_lines_one_line [OF check_role_Nil(1) [OF cr]] by (auto simp: role_lines_def)
  qed
  have incl: "\<forall>i\<in>set (include_files env c). one_line i"
    using check_values_Nil(5) [OF cv] expandHome_one_line [OF assms(2)] by (auto simp: include_files_def)
  have "\<forall>l\<in>set (concat (map (role_lines c bodies) (block_roles c [] (sorted_keys (cl_roles c))))). one_line l"
  proof
    fix l assume "l \<in> set (concat (map (role_lines c bodies) (block_roles c [] (sorted_keys (cl_roles c)))))"
    then obtain n where n: "n \<in> set (block_roles c [] (sorted_keys (cl_roles c)))" "l \<in> set (role_lines c bodies n)"
      unfolding set_concat set_map by blast
    have "n \<in> set (sorted_keys (cl_roles c))" by (rule subsetD [OF block_roles_names n(1)])
    from bspec [OF roles [OF this] n(2)] show "one_line l" .
  qed
  moreover have "\<forall>l\<in>set (map setting_line b). one_line l" using gk setting_line_one_line by simp
  moreover have "\<forall>l\<in>set (concat (map (\<lambda>i. [[], ''Include '' @ quote_path i]) (include_files env c))). one_line l"
    using incl by (auto simp: quote_path_one_line)
  moreover have "\<forall>l\<in>set [''# Generated by clusterctl. Edits are overwritten.'', ''#'',
      ''# Settings below win over the included files, because ssh keeps the'',
      ''# first value it obtains for each keyword.'', [], ''Host *'']. one_line l" by simp
  ultimately have "\<forall>l\<in>set (config_lines c bodies b (include_files env c)). one_line l"
    unfolding config_lines_def by (simp only: set_append ball_Un set_simps ball_simps) blast
  with that tx known b cv bodies ne show thesis by (simp add: config_text_lines)
qed

section \<open>The trust settings\<close>

text \<open>What a block says of a keyword, when it starts no other block and includes nothing.\<close>

lemma first_value_block:
  assumes "\<forall>kv\<in>set b. canonicalKeyword (fst kv) \<notin> {''host'', ''match'', ''include''}"
    and "k \<notin> {''host'', ''match'', ''include''}"
  shows "first_value k True h (map directive_of b @ ds) =
     (case map_of (map directive_of b) k of Some v \<Rightarrow> Some v | None \<Rightarrow> first_value k True h ds)"
  using assms by (induction b) (auto simp: directive_of_def)

definition trust_values :: "client \<Rightarrow> bool \<Rightarrow> (string \<times> string) list" where
  "trust_values c known_hosts_command =
     [(''userknownhostsfile'', quote_path (escapePercent (cl_known_hosts c))),
      (''globalknownhostsfile'', ''/dev/null''),
      (''stricthostkeychecking'', if ssh_strict (cl_spec c) = Some False then ''accept-new'' else ''yes''),
      (''verifyhostkeydns'', ''no''), (''nohostauthenticationforlocalhost'', ''no''),
      (''updatehostkeys'', ''no''), (''checkhostip'', ''no''), (''hashknownhosts'', ''no'')] @
     (if known_hosts_command then [(''knownhostscommand'', ''none'')] else [])"

lemma global_canonical:
  "canonicalKeyword ''UserKnownHostsFile'' = ''userknownhostsfile''"
  "canonicalKeyword ''GlobalKnownHostsFile'' = ''globalknownhostsfile''"
  "canonicalKeyword ''KnownHostsCommand'' = ''knownhostscommand''"
  "canonicalKeyword ''StrictHostKeyChecking'' = ''stricthostkeychecking''"
  "canonicalKeyword ''VerifyHostKeyDNS'' = ''verifyhostkeydns''"
  "canonicalKeyword ''NoHostAuthenticationForLocalhost'' = ''nohostauthenticationforlocalhost''"
  "canonicalKeyword ''UpdateHostKeys'' = ''updatehostkeys''"
  "canonicalKeyword ''CheckHostIP'' = ''checkhostip''"
  "canonicalKeyword ''HashKnownHosts'' = ''hashknownhosts''"
  "canonicalKeyword ''ControlMaster'' = ''controlmaster''"
  "canonicalKeyword ''ControlPath'' = ''controlpath''"
  by code_simp+

text \<open>The settings up to the control path, which come first and are always there.\<close>

lemma global_settings_head:
  "\<exists>rest. map directive_of (global_settings c known) =
     [(''userknownhostsfile'', quote_path (escapePercent (cl_known_hosts c))),
      (''globalknownhostsfile'', ''/dev/null'')] @
     (if known then [(''knownhostscommand'', ''none'')] else []) @
     [(''stricthostkeychecking'', if ssh_strict (cl_spec c) = Some False then ''accept-new'' else ''yes''),
      (''verifyhostkeydns'', ''no''), (''nohostauthenticationforlocalhost'', ''no''),
      (''updatehostkeys'', ''no''), (''checkhostip'', ''no''), (''hashknownhosts'', ''no''),
      (''controlmaster'', ''no''), (''controlpath'', ''none'')] @ rest"
  by (cases known) (simp_all add: global_settings_def directive_of_def Let_def global_canonical blank_def quote_path_def)

lemma global_values:
  assumes "(k, v) \<in> set (trust_values c known)"
  shows "map_of (map directive_of (global_settings c known)) k = Some v"
proof -
  obtain rest where r: "map directive_of (global_settings c known) =
     [(''userknownhostsfile'', quote_path (escapePercent (cl_known_hosts c))),
      (''globalknownhostsfile'', ''/dev/null'')] @
     (if known then [(''knownhostscommand'', ''none'')] else []) @
     [(''stricthostkeychecking'', if ssh_strict (cl_spec c) = Some False then ''accept-new'' else ''yes''),
      (''verifyhostkeydns'', ''no''), (''nohostauthenticationforlocalhost'', ''no''),
      (''updatehostkeys'', ''no''), (''checkhostip'', ''no''), (''hashknownhosts'', ''no''),
      (''controlmaster'', ''no''), (''controlpath'', ''none'')] @ rest"
    using global_settings_head by blast
  show ?thesis
  proof (cases known)
    case True
    with assms show ?thesis unfolding r trust_values_def by (simp only: if_True append.simps set_simps) (elim insertE; simp)
  next
    case False
    with assms show ?thesis unfolding r trust_values_def by (simp only: if_False append.simps set_simps) (elim insertE; simp)
  qed
qed

lemma trust_values_keys: "(k, v) \<in> set (trust_values c known) \<Longrightarrow> k \<in> set trust_only"
  by (auto simp: trust_values_def trust_only_def split: if_splits)

text \<open>
  C1. Whatever the roles, their options, \<open>ssh.options\<close> and the included files say, ssh
  obtains for every host the trust settings of the site from a generated file: the site's host
  key file and no other source of keys, strict checking unless the site relaxed it, and none of
  the settings that add keys or skip the check. The file read here is the text itself, with
  every value a configuration supplies written in it, so nothing in a value, a role name or a
  description is read as a line of its own.
\<close>
theorem generated_file_trust:
  assumes "generateConfig env c = Inr text" and "plain_env env"
    and "knowsKnownHostsCommand env c = Inr known" and "(k, v) \<in> set (trust_values c known)"
  shows "ssh_value text k h = Some v"
proof -
  from generateConfig_parts [OF assms(1,2)] obtain bodies b where
    tx: "text = lines_text (config_lines c bodies b (include_files env c))"
    and b: "globalBody c known = Inr b" and cv: "check_values env c = []" and bodies: "roleBodies env c = Inr bodies"
    and ol: "\<forall>l\<in>set (config_lines c bodies b (include_files env c)). one_line l"
    using assms(3) by (metis sum.inject(2))
  let ?names = "block_roles c [] (sorted_keys (cl_roles c))"
  from globalBody_block [OF cv b] obtain opts where opts: "b = global_settings c known @ opts"
    "\<forall>kv\<in>set opts. valid_keyword (fst kv) \<and> canonicalKeyword (fst kv) \<notin> set trustKeywords" by blast
  have gk: "\<forall>kv\<in>set b. valid_keyword (fst kv)"
    and gq: "\<forall>kv\<in>set b. canonicalKeyword (fst kv) \<notin> {''host'', ''match'', ''include''}"
    using opts global_settings_keys global_keys_valid trust_only_refused by (fastforce simp: list_all_iff)+
  have quiet: "\<forall>n\<in>set ?names. quiet_block (set trust_only) (role_body bodies n)"
    using block_roles_names [of c "[]" "sorted_keys (cl_roles c)"] roleBody_quiet
      roleBodies_body [OF bodies] check_role_Nil(2) check_values_Nil(8) [OF cv] by (meson subsetD)
  have k: "k \<in> set trust_only" using assms(4) by (rule trust_values_keys)
  then have k': "k \<notin> {''host'', ''match'', ''include''}" by (auto simp: trust_only_def)
  have read: "directives text = concat (map (role_directives c bodies) ?names) @
     (''host'', ''*'') # map directive_of b @
     map (\<lambda>i. (''include'', dropWhile blank (quote_path i))) (include_files env c)"
    unfolding tx directives_lines [OF ol] using quiet gk
    by (intro config_lines_read) (auto simp: quiet_block_def)
  let ?rest = "(''host'', ''*'') # map directive_of b @
     map (\<lambda>i. (''include'', dropWhile blank (quote_path i))) (include_files env c)"
  have "k \<noteq> ''host''" using k' by simp
  from first_value_roles [OF quiet k this, of True h c ?rest] obtain act where
    "ssh_value text k h = first_value k act h ?rest"
    unfolding ssh_value_def read ..
  also have "\<dots> = Some v"
    using first_value_block [OF gq k'] global_values [OF assms(4)] host_matches_star [of h]
    by (simp add: opts(1) map_add_def)
  finally show ?thesis .
qed

definition sample_env :: ssh_env where
  "sample_env = \<lparr> env_home = Some ''/home/a'', env_exists = (\<lambda>p. True), env_digest = (\<lambda>s. ''0123456789abcdef''),
     env_version = (None, Some ''OpenSSH_9.6p1'') \<rparr>"

lemma sample_generates: "\<exists>text. generateConfig sample_env sample_client = Inr text"
proof -
  have keys: "sorted_keys (cl_roles sample_client) = [''hub'']" by code_simp
  have spec: "cl_spec sample_client = no_ssh_spec" by (simp add: sample_client_def)
  have role: "role_or_zero sample_client ''hub'' = no_role\<lparr>role_host := ''hub.x'', role_user := ''ops''\<rparr>"
    by (simp add: role_or_zero_def find_key_def sample_client_def)
  have body: "roleBody sample_env sample_client ''hub'' (no_role\<lparr>role_host := ''hub.x'', role_user := ''ops''\<rparr>) = Inr []"
    by (simp add: roleBody_def no_role_def role_settings_def block_options_def option_list_def sorted_keys_def)
  have bodies: "roleBodies sample_env sample_client = Inr [(''hub'', [])]"
    by (simp add: roleBodies_def keys role body)
  have global: "globalBody sample_client k = Inr (global_settings sample_client k)" for k
    by (simp add: globalBody_def spec no_ssh_spec_def block_options_def option_list_def sorted_keys_def)
  have vals: "check_values sample_env sample_client = []"
    by code_simp
  have "checkSharedHosts sample_client [(''hub'', [])] = []"
    by (simp add: checkSharedHosts_def keys Let_def find_key_def)
  moreover have "checkJumpCycles sample_client = None"
    by (simp add: checkJumpCycles_def keys jump_graph_def role no_role_def next_roles_def find_key_def numeral_2_eq_2)
  ultimately have "Validate sample_env sample_client = []"
    by (simp add: Validate_def vals bodies global)
  moreover have "knowsKnownHostsCommand sample_env sample_client = Inr True"
    by code_simp
  moreover have "cl_known_hosts sample_client \<noteq> []" by (simp add: sample_client_def)
  ultimately show ?thesis by (simp add: generateConfig_def bodies global)
qed

theorem generated_file_trust_witness:
  "\<exists>text. generateConfig sample_env sample_client = Inr text \<and>
     ssh_value text ''stricthostkeychecking'' ''n1'' = Some ''yes'' \<and> (''stricthostkeychecking'', ''yes'') \<in> set (trust_values sample_client True)"
proof -
  obtain tx where g: "generateConfig sample_env sample_client = Inr tx" using sample_generates by blast
  have p: "plain_env sample_env" by (simp add: plain_env_def sample_env_def)
  have k: "knowsKnownHostsCommand sample_env sample_client = Inr True" by code_simp
  have v: "(''stricthostkeychecking'', ''yes'') \<in> set (trust_values sample_client True)"
    by (simp add: trust_values_def sample_client_def no_ssh_spec_def)
  from generated_file_trust [OF g p k v] g v show ?thesis by blast
qed

end
