(* ===== verification/Outcome.thy ===== *)
theory Outcome
  imports Remote
begin

text \<open>
  The outcome half of \<open>internal/transport\<close>: what a client makes of an ssh or scp that ended
  (\<open>classify\<close>, \<open>Run\<close>), the bounded capture of its output, the result and the error its user
  gets (\<open>Check\<close>), and the recorder that stands in for ssh under a dry run. The process itself is
  a value: the chunks it wrote, how it ended and how long it took. Making host text safe for a
  terminal (\<open>output.EscapeCell\<close>, of go-clikit) is the parameter \<open>escape\<close>.
\<close>

section \<open>Results\<close>

record cmd_result =
  rs_target :: target
  rs_exit_code :: int
  rs_stdout :: string
  rs_stderr :: string
  rs_truncated :: bool
  rs_err :: "goerr option"

definition sshConnectionFailed :: int where "sshConnectionFailed = 255"
definition timedOutStopped :: int where "timedOutStopped = 124"
definition timedOutKilled :: int where "timedOutKilled = 137"

definition Failed :: "cmd_result \<Rightarrow> bool" where
  "Failed r \<longleftrightarrow> rs_err r \<noteq> None \<or> rs_exit_code r \<noteq> 0"

definition out_lines :: "string \<Rightarrow> string list" where
  "out_lines s = filter (\<lambda>l. l \<noteq> []) (map trim_space (split_char (CHR 0x0A) s))"

definition Output :: "cmd_result \<Rightarrow> string" where
  "Output r = trim_right_set [CHR 0x0A] (rs_stdout r)"

definition Lines :: "cmd_result \<Rightarrow> string list" where
  "Lines r = filter (\<lambda>l. l \<noteq> []) (map (trim_right_set [CHR 0x0D]) (split_char (CHR 0x0A) (rs_stdout r)))"

text \<open>What the host said, for the message: standard error, or the first line of standard output.\<close>

definition said_lines :: "cmd_result \<Rightarrow> string list" where
  "said_lines r = (let said = out_lines (rs_stderr r)
     in if said = [] then take 1 (out_lines (rs_stdout r)) else said)"

definition check_reason :: "(string \<Rightarrow> string) \<Rightarrow> string \<Rightarrow> cmd_result \<Rightarrow> goerr" where
  "check_reason escape program r =
     (let what = (if program \<noteq> [] then program @ '' on '' @ target_string (rs_target r)
                  else target_string (rs_target r));
          said = said_lines r
      in if said = [] then errorf TargetFailed ''%s exited %d'' [what, itoa (rs_exit_code r)]
         else errorf TargetFailed ''%s exited %d: %s''
                [what, itoa (rs_exit_code r), escape (join_str ''; '' said)])"

definition check_result :: "(string \<Rightarrow> string) \<Rightarrow> string \<Rightarrow> cmd_result \<Rightarrow> goerr option" where
  "check_result escape program r =
     (if \<not> Failed r then None
      else if has_code (rs_err r) then rs_err r
      else case rs_err r of
        Some e \<Rightarrow> if rs_exit_code r \<le> 0 then wrap_code Transport (Some e)
                  else Some (Wrap ''explained'' [] [check_reason escape program r, e])
      | None \<Rightarrow> Some (check_reason escape program r))"

section \<open>How a command ended\<close>

text \<open>The error of \<open>exec.Cmd.Run\<close>: an exit status (\<open>-1\<close> for a signal), or anything else.\<close>

datatype run_error = ExitError int goerr | OtherError goerr

fun run_err_of :: "run_error \<Rightarrow> goerr" where
  "run_err_of (ExitError code e) = e"
| "run_err_of (OtherError e) = e"

definition timedOut :: "int \<Rightarrow> int \<Rightarrow> int \<Rightarrow> bool" where
  "timedOut code timeout took \<longleftrightarrow>
     timeout > 0 \<and> took \<ge> timeout \<and> (code = timedOutStopped \<or> code = timedOutKilled)"

definition cancelled :: "string \<Rightarrow> goerr \<Rightarrow> goerr" where
  "cancelled what err =
     Coded (if errors_is err ''context canceled'' then Interrupted else TargetFailed)
       (Wrap ''%s: %w'' [what] [err])"

text \<open>The lines ssh ends with once a connection through a jump host has failed.\<close>

definition closedNotice :: "string \<Rightarrow> bool" where
  "closedNotice s \<longleftrightarrow>
     s = ''stdio forwarding failed'' \<or>
     s = ''kex_exchange_identification: Connection closed by remote host'' \<or>
     (let ds = takeWhile is_digit (rev s); front = rev (dropWhile is_digit (rev s))
      in ds \<noteq> [] \<and> has_prefix front ''Connection closed by '' \<and>
         has_suffix (drop (length ''Connection closed by '') front) '' port '')"

definition connectionFailure :: "(string \<Rightarrow> string) \<Rightarrow> string \<Rightarrow> string" where
  "connectionFailure escape stderr =
     (case out_lines stderr of [] \<Rightarrow> []
      | first # rest \<Rightarrow>
          (case dropWhile closedNotice (rev rest) of [] \<Rightarrow> escape first | l # _ \<Rightarrow> escape l))"

definition exited :: "(string \<Rightarrow> string) \<Rightarrow> target \<Rightarrow> int \<Rightarrow> string \<Rightarrow> goerr option" where
  "exited escape t code stderr =
     (if code = 0 then None
      else if code = sshConnectionFailed then
        Some (Coded Transport (Leaf ''%s: %s'' [target_string t,
          cmp_or [connectionFailure escape stderr, ''ssh reported a connection failure'']]))
      else Some (Leaf ''%s: command exited %d'' [target_string t, itoa code]))"

definition timeout_error :: "target \<Rightarrow> int \<Rightarrow> goerr" where
  "timeout_error t code = Leaf ''TimeoutError'' [target_string t, itoa code]"

definition classify ::
  "(string \<Rightarrow> string) \<Rightarrow> goerr option \<Rightarrow> target \<Rightarrow> run_error option \<Rightarrow> string \<Rightarrow> int \<Rightarrow> int \<Rightarrow> int \<times> goerr option" where
  "classify escape ctx_err t err stderr timeout took =
     (case err of None \<Rightarrow> (0, None)
      | Some e \<Rightarrow>
        (case ctx_err of
           Some ce \<Rightarrow> ((case e of ExitError code _ \<Rightarrow> code | OtherError _ \<Rightarrow> -1),
                       Some (cancelled (target_string t) ce))
         | None \<Rightarrow>
           (case e of
              OtherError oe \<Rightarrow> (-1, Some (Coded Transport (Wrap ''running ssh for %s: %w'' [target_string t] [oe])))
            | ExitError code _ \<Rightarrow>
                if timedOut code timeout took then (code, Some (timeout_error t code))
                else (code, exited escape t code stderr))))"

definition exit_result :: "(string \<Rightarrow> string) \<Rightarrow> target \<Rightarrow> int \<Rightarrow> string \<Rightarrow> string \<Rightarrow> cmd_result" where
  "exit_result escape t code stdout stderr =
     \<lparr> rs_target = t, rs_exit_code = code, rs_stdout = stdout, rs_stderr = stderr,
       rs_truncated = False, rs_err = exited escape t code stderr \<rparr>"

definition result_connection_failure :: "(string \<Rightarrow> string) \<Rightarrow> cmd_result \<Rightarrow> string" where
  "result_connection_failure escape r =
     (if rs_exit_code r \<noteq> sshConnectionFailed then [] else connectionFailure escape (rs_stderr r))"

section \<open>Bounded capture\<close>

record capture =
  cap_buf :: string
  cap_limit :: int
  cap_dropped :: int

definition new_capture :: "int \<Rightarrow> capture" where
  "new_capture limit = \<lparr> cap_buf = [], cap_limit = limit, cap_dropped = 0 \<rparr>"

definition capture_write :: "capture \<Rightarrow> string \<Rightarrow> capture" where
  "capture_write c p =
     (let keep = min (int (length p)) (max (cap_limit c - int (length (cap_buf c))) 0)
      in c\<lparr> cap_buf := cap_buf c @ take (nat keep) p,
            cap_dropped := cap_dropped c + (int (length p) - keep) \<rparr>)"

definition DefaultMaxOutput :: int where "DefaultMaxOutput = 32 * 2 ^ 20"

section \<open>Running a request\<close>

text \<open>
  What the process did: what it wrote on each stream, in chunks, how it ended, how long it ran,
  the error of the caller's context and that of the context with the deadline the request's
  timeout gives, once it had ended.
\<close>

record process =
  ps_stdout :: "string list"
  ps_stderr :: "string list"
  ps_err :: "run_error option"
  ps_ran :: int
  ps_ctx_err :: "goerr option"
  ps_deadline_err :: "goerr option"

definition output_limit :: "request \<Rightarrow> int" where
  "output_limit req = (if rq_max_output req \<le> 0 then DefaultMaxOutput else rq_max_output req)"

definition finish_run :: "(string \<Rightarrow> string) \<Rightarrow> target \<Rightarrow> request \<Rightarrow> process \<Rightarrow> cmd_result" where
  "finish_run escape t req p =
     (let out = foldl capture_write (new_capture (output_limit req)) (ps_stdout p);
          err = foldl capture_write (new_capture (output_limit req)) (ps_stderr p);
          (code, e) = classify escape (ps_ctx_err p) t (ps_err p) (cap_buf err) (rq_timeout req) (ps_ran p);
          run_ctx = (if rq_timeout req > 0 then ps_deadline_err p else ps_ctx_err p);
          (code', e') = (if ps_err p \<noteq> None \<and> ps_ctx_err p = None \<and> run_ctx \<noteq> None
            then (-1, Some (Coded Transport (Wrap ''%s: no answer %s after the timeout'' [target_string t] [the run_ctx])))
            else (code, e));
          truncated = (cap_dropped out > 0 \<or> cap_dropped err > 0)
      in \<lparr> rs_target = t, rs_exit_code = code', rs_stdout = cap_buf out, rs_stderr = cap_buf err,
           rs_truncated = truncated,
           rs_err = (if truncated \<and> e' = None
                     then Some (Leaf ''%s: the output was cut off'' [target_string t]) else e') \<rparr>)"

definition Run :: "(string \<Rightarrow> string) \<Rightarrow> client \<Rightarrow> target \<Rightarrow> request \<Rightarrow> (string list \<Rightarrow> process) \<Rightarrow> goerr + cmd_result" where
  "Run escape c t req exec = rbind (Args c t req) (\<lambda>argv. Inr (finish_run escape t req (exec argv)))"

definition Interactive :: "(string \<Rightarrow> string) \<Rightarrow> client \<Rightarrow> target \<Rightarrow> request \<Rightarrow> (string list \<Rightarrow> process) \<Rightarrow> goerr option" where
  "Interactive escape c t req exec =
     (case Args c t req of Inl e \<Rightarrow> Some e
      | Inr argv \<Rightarrow> let p = exec argv
          in snd (classify escape (ps_ctx_err p) t (ps_err p) [] (rq_timeout req) (ps_ran p)))"

definition Copy :: "(string \<Rightarrow> string) \<Rightarrow> client \<Rightarrow> target \<Rightarrow> copy_request \<Rightarrow> (string list \<Rightarrow> process) \<Rightarrow> goerr + cmd_result" where
  "Copy escape c t req exec =
     rbind (CopyArgs c t req) (\<lambda>argv.
       let p = exec argv;
           stderr = cap_buf (foldl capture_write (new_capture DefaultMaxOutput) (ps_stderr p));
           (code, e) = classify escape (ps_ctx_err p) t (ps_err p) stderr 0 (ps_ran p)
       in Inr \<lparr> rs_target = t, rs_exit_code = code, rs_stdout = [], rs_stderr = stderr,
                rs_truncated = False, rs_err = e \<rparr>)"


section \<open>The recorder\<close>

text \<open>
  \<open>Recorder\<close> answers calls from prepared results and records them. Concurrent calls are a
  sequence of calls, in the order they take the recorder's lock; the reply function, where one
  is set, is called with the request as it came.
\<close>

record call =
  ca_target :: target
  ca_request :: request
  ca_command :: string

record recorder =
  rec_responses :: "cmd_result list"
  rec_by_target :: "cmd_result option go_map"
  rec_reply :: "(target \<Rightarrow> request \<Rightarrow> goerr + cmd_result) option"
  rec_calls :: "call list"
  rec_next :: nat

definition empty_result :: "target \<Rightarrow> cmd_result" where
  "empty_result t = \<lparr> rs_target = t, rs_exit_code = 0, rs_stdout = [], rs_stderr = [],
     rs_truncated = False, rs_err = None \<rparr>"

definition answer :: "recorder \<Rightarrow> target \<Rightarrow> request \<Rightarrow> (goerr + cmd_result) \<times> recorder" where
  "answer r t req =
     (case RemoteCommand req of Inl e \<Rightarrow> (Inl e, r)
      | Inr line \<Rightarrow>
        let keyed = find_key (rec_by_target r) (tg_name t);
            index = rec_next r;
            r' = r\<lparr> rec_calls := rec_calls r @ [\<lparr> ca_target = t, ca_request = req, ca_command = line \<rparr>],
                    rec_next := (if keyed = None then rec_next r + 1 else rec_next r) \<rparr>
        in (case rec_reply r of Some f \<Rightarrow> (f t req, r')
            | None \<Rightarrow>
              (case keyed of
                 Some prepared \<Rightarrow>
                   (Inr (case prepared of None \<Rightarrow> empty_result t | Some p \<Rightarrow> p\<lparr>rs_target := t\<rparr>), r')
               | None \<Rightarrow>
                   if index < length (rec_responses r)
                   then (Inr ((rec_responses r ! index)\<lparr>rs_target := t\<rparr>), r')
                   else (Inr (empty_result t), r'))))"

fun answer_all :: "recorder \<Rightarrow> (target \<times> request) list \<Rightarrow> (goerr + cmd_result) list \<times> recorder" where
  "answer_all r [] = ([], r)"
| "answer_all r ((t, req) # cs) =
     (let (a, r') = answer r t req; (as, r'') = answer_all r' cs in (a # as, r''))"

definition Commands :: "recorder \<Rightarrow> string list" where
  "Commands r = map ca_command (rec_calls r)"

definition describe_call :: "call \<Rightarrow> string" where
  "describe_call c =
     (if ca_command c = [] then target_string (ca_target c) @ '': interactive login''
      else target_string (ca_target c) @ '': '' @ ca_command c)"

section \<open>Facts on outcomes\<close>

lemma capture_write_buf:
  assumes "0 \<le> cap_limit c" and "cap_buf c = take (nat (cap_limit c)) s"
    and "cap_dropped c = int (length s) - int (length (cap_buf c))"
  shows "cap_buf (capture_write c p) = take (nat (cap_limit c)) (s @ p) \<and>
     cap_dropped (capture_write c p) = int (length (s @ p)) - int (length (cap_buf (capture_write c p))) \<and>
     cap_limit (capture_write c p) = cap_limit c"
proof -
  define keep where "keep = min (int (length p)) (max (cap_limit c - int (length (cap_buf c))) 0)"
  obtain l where l: "cap_limit c = int l" using assms(1) nonneg_int_cases by metis
  have n: "nat keep = min (length p) (l - length s)" and "0 \<le> keep"
    using assms(2) by (auto simp: keep_def l)
  then have k: "keep = int (min (length p) (l - length s))" by linarith
  have w: "capture_write c p = c\<lparr> cap_buf := cap_buf c @ take (nat keep) p,
      cap_dropped := cap_dropped c + (int (length p) - keep) \<rparr>"
    unfolding capture_write_def Let_def keep_def ..
  have "take (min (length p) (l - length s)) p = take (l - length s) p" by (simp add: min_def)
  then show ?thesis unfolding w n using assms(2,3) k by (simp add: l)
qed

lemma capture_fold:
  assumes "0 \<le> cap_limit c" and "cap_buf c = take (nat (cap_limit c)) s"
    and "cap_dropped c = int (length s) - int (length (cap_buf c))"
  shows "cap_buf (foldl capture_write c ps) = take (nat (cap_limit c)) (s @ concat ps) \<and>
     cap_dropped (foldl capture_write c ps) = int (length (s @ concat ps)) - int (length (cap_buf (foldl capture_write c ps)))"
  using assms
proof (induction ps arbitrary: c s)
  case (Cons p ps)
  note w = capture_write_buf [OF Cons.prems, of p]
  have "0 \<le> cap_limit (capture_write c p)"
    "cap_buf (capture_write c p) = take (nat (cap_limit (capture_write c p))) (s @ p)"
    "cap_dropped (capture_write c p) = int (length (s @ p)) - int (length (cap_buf (capture_write c p)))"
    using w Cons.prems by simp_all
  from Cons.IH [OF this] w show ?case by simp
qed simp

lemma output_limit_pos: "0 < output_limit req"
  by (simp add: output_limit_def DefaultMaxOutput_def)

lemma captured:
  assumes "0 < limit"
  shows "cap_buf (foldl capture_write (new_capture limit) ps) = take (nat limit) (concat ps) \<and>
     (cap_dropped (foldl capture_write (new_capture limit) ps) > 0 \<longleftrightarrow> length (concat ps) > nat limit)"
  using capture_fold [of "new_capture limit" "[]" ps] assms
  by (auto simp: new_capture_def)

text \<open>
  C40. Whatever chunks a host's output arrives in, the result keeps exactly the first bytes of
  each stream, up to the bound of the request; it is marked as cut off exactly when a stream
  wrote more, and such a result has failed.
\<close>
theorem finish_run_output:
  "rs_stdout (finish_run escape t req p) = take (nat (output_limit req)) (concat (ps_stdout p)) \<and>
   rs_stderr (finish_run escape t req p) = take (nat (output_limit req)) (concat (ps_stderr p)) \<and>
   rs_truncated (finish_run escape t req p) =
     (length (concat (ps_stdout p)) > nat (output_limit req) \<or>
      length (concat (ps_stderr p)) > nat (output_limit req)) \<and>
   (rs_truncated (finish_run escape t req p) \<le> Failed (finish_run escape t req p))"
proof -
  note o = captured [OF output_limit_pos, of req "ps_stdout p"]
  note e = captured [OF output_limit_pos, of req "ps_stderr p"]
  show ?thesis using o e
    by (auto simp: finish_run_def Let_def Failed_def case_prod_unfold simp del: length_concat)
qed

lemma from_check_reason [simp]: "find_coded (check_reason escape program r) = Some TargetFailed"
  by (simp add: check_reason_def Let_def)

text \<open>The exit code of a run, from what the process did.\<close>

definition run_code :: "request \<Rightarrow> process \<Rightarrow> bool \<Rightarrow> int" where
  "run_code req p truncated =
     (case ps_err p of
        None \<Rightarrow> if truncated then Transport else OK
      | Some e \<Rightarrow>
        (case ps_ctx_err p of
           Some ce \<Rightarrow> if errors_is ce ''context canceled'' then Interrupted else TargetFailed
         | None \<Rightarrow>
           if rq_timeout req > 0 \<and> ps_deadline_err p \<noteq> None then Transport
           else (case e of OtherError _ \<Rightarrow> Transport
                 | ExitError code _ \<Rightarrow>
                     if code = 0 then (if truncated then Transport else OK)
                     else if code = 255 \<or> code < 0 then Transport else TargetFailed)))"


lemma Check_code:
  "from_err u (check_result escape program r) =
     (if \<not> Failed r then OK
      else case rs_err r of
        None \<Rightarrow> TargetFailed
      | Some e \<Rightarrow> (case find_coded e of Some c \<Rightarrow> c
                   | None \<Rightarrow> if rs_exit_code r \<le> 0 then Transport else TargetFailed))"
  by (auto simp: check_result_def from_err_def has_code_def wrap_code_def split: option.splits)

text \<open>
  C21. What the exit code of a run is, once \<open>Check\<close> has looked at it: OK when ssh exited 0 and
  nothing was cut off; when the caller's context had ended, 130 for an interrupt and 1 for a
  deadline, whatever ssh exited with; a transport failure when ssh could not be run, exited
  255, was ended by a signal, or was stopped because the host no longer answered; and 1, that
  of a target that failed, for every other status and for output that was cut off once the
  status is positive.
\<close>
theorem run_check_code:
  "from_err u (check_result escape program (finish_run escape t req p)) =
     run_code req p (rs_truncated (finish_run escape t req p))"
proof (cases "ps_err p")
  case None
  then show ?thesis
    by (auto simp: Check_code run_code_def finish_run_def Let_def classify_def Failed_def case_prod_unfold)
next
  case (Some e)
  show ?thesis
  proof (cases "ps_ctx_err p")
    case ctx: (Some ce)
    with Some show ?thesis
      by (simp add: Check_code run_code_def finish_run_def Let_def classify_def Failed_def
          case_prod_unfold cancelled_def)
  next
    case live: None
    show ?thesis
    proof (cases "rq_timeout req > 0 \<and> ps_deadline_err p \<noteq> None")
      case True
      with Some live show ?thesis
        by (simp add: Check_code run_code_def finish_run_def Let_def Failed_def case_prod_unfold)
    next
      case False
      show ?thesis
      proof (cases e)
        case (ExitError code oe)
        with Some live False show ?thesis
          by (auto simp: Check_code run_code_def finish_run_def Let_def Failed_def case_prod_unfold
              classify_def timeout_error_def exited_def sshConnectionFailed_def timedOut_def
              timedOutStopped_def timedOutKilled_def)
      next
        case (OtherError oe)
        with Some live False show ?thesis
          by (auto simp: Check_code run_code_def finish_run_def Let_def Failed_def case_prod_unfold
              classify_def)
      qed
    qed
  qed
qed

section \<open>Facts on the recorder\<close>

fun rendered :: "(target \<times> request) list \<Rightarrow> string list" where
  "rendered [] = []"
| "rendered ((t, req) # cs) =
     (case RemoteCommand req of Inl e \<Rightarrow> rendered cs | Inr line \<Rightarrow> line # rendered cs)"

lemma answer_calls:
  "rec_calls (snd (answer r t req)) = rec_calls r @
     (case RemoteCommand req of Inl e \<Rightarrow> []
      | Inr line \<Rightarrow> [\<lparr> ca_target = t, ca_request = req, ca_command = line \<rparr>])"
  by (auto simp: answer_def Let_def split: sum.splits option.splits)

lemma answer_prepared:
  "rec_responses (snd (answer r t req)) = rec_responses r \<and>
   rec_by_target (snd (answer r t req)) = rec_by_target r \<and>
   rec_reply (snd (answer r t req)) = rec_reply r"
  by (auto simp: answer_def Let_def split: sum.splits option.splits)

lemma answer_keyed:
  assumes "RemoteCommand req = Inr line" and "rec_reply r = None"
    and "find_key (rec_by_target r) (tg_name t) = Some (Some p)"
  shows "fst (answer r t req) = Inr (p\<lparr>rs_target := t\<rparr>)"
  using assms by (simp add: answer_def Let_def)

text \<open>
  A recorder keeps, in the order of the calls, the command line of every request that
  renders to one, the very line ssh would be sent behind the guard, and nothing of one that is
  refused; so a dry run shows every command of a run and no other.
\<close>
theorem recorder_commands:
  "Commands (snd (answer_all r cs)) = Commands r @ rendered cs"
proof (induction cs arbitrary: r)
  case (Cons c cs)
  obtain t req where c: "c = (t, req)" by (cases c)
  show ?case
    using Cons.IH [of "snd (answer r t req)"] answer_calls [of r t req]
    by (auto simp: c case_prod_unfold Let_def Commands_def split: sum.splits)
qed simp

end
