(* ===== verification/Safety.thy ===== *)
theory Safety
  imports Naming ApiTypes
begin

text \<open>
  \<open>internal/safety\<close>: the gate every destructive command passes. Its state is the protected
  hosts, resolved once; the world it acts on (the sources an entry is resolved from, the
  terminal, the interrupt) is passed through explicitly as \<open>'w\<close>. What the terminal does, and the
  text of an error, are the parameters of the record \<open>gate_io\<close>; the progress display is left out.
\<close>

section \<open>The gate\<close>

record safety_spec =
  sf_protected_hosts :: "string list"
  sf_confirm_above :: int
  sf_power_on_batch :: int

text \<open>The protected hosts once resolved, with the set of their short names, or why not.\<close>

record ('ns, 'w) gate =
  gt_protected_hosts :: "string list"
  gt_resolve :: "string \<Rightarrow> 'w \<Rightarrow> (goerr + 'ns) \<times> 'w"
  gt_known :: "'ns option"
  gt_confirm_above :: int
  gt_assume_yes :: bool
  gt_force :: bool
  gt_dry_run :: bool
  gt_interactive :: bool
  gt_has_in :: bool
  gt_memo :: "(goerr + 'ns \<times> 'ns) option"

record 'w gate_io =
  io_ctx_err :: "'w \<Rightarrow> goerr option"
  io_ask :: "string \<Rightarrow> 'w \<Rightarrow> (goerr + string) \<times> 'w"
  io_print :: "string \<Rightarrow> 'w \<Rightarrow> 'w"
  io_yes :: "string \<Rightarrow> bool"
  io_err_text :: "goerr \<Rightarrow> string"

definition parse_resolve :: "'ns nodeset_lib \<Rightarrow> string \<Rightarrow> 'w \<Rightarrow> (goerr + 'ns) \<times> 'w" where
  "parse_resolve L expr w = (ns_parse L expr, w)"

definition NewGate ::
  "'ns nodeset_lib \<Rightarrow> safety_spec \<Rightarrow> (string \<Rightarrow> 'w \<Rightarrow> (goerr + 'ns) \<times> 'w) option \<Rightarrow> goerr + ('ns, 'w) gate" where
  "NewGate L spec resolve =
     (if sf_confirm_above spec < 0 then
        Inl (Leaf ''safety.confirmAbove is %d; it must be 0 or more'' [itoa (sf_confirm_above spec)])
      else if sf_power_on_batch spec < 1 then
        Inl (Leaf ''safety.powerOnBatch is %d; it must be at least 1'' [itoa (sf_power_on_batch spec)])
      else Inr \<lparr> gt_protected_hosts = sf_protected_hosts spec,
             gt_resolve = (case resolve of None \<Rightarrow> parse_resolve L | Some r \<Rightarrow> r), gt_known = None,
             gt_confirm_above = sf_confirm_above spec, gt_assume_yes = False, gt_force = False,
             gt_dry_run = False, gt_interactive = False, gt_has_in = False, gt_memo = None \<rparr>)"

section \<open>Protected hosts\<close>

text \<open>The loop over the entries: the union of what they name, or the first that fails.\<close>

fun resolve_entries ::
  "'ns nodeset_lib \<Rightarrow> (string \<Rightarrow> 'w \<Rightarrow> (goerr + 'ns) \<times> 'w) \<Rightarrow> 'ns \<Rightarrow> string list \<Rightarrow> 'w \<Rightarrow> (goerr + 'ns) \<times> 'w" where
  "resolve_entries L resolve acc [] w = (Inr acc, w)"
| "resolve_entries L resolve acc (expr # exprs) w =
     (case resolve expr w of
        (Inl e, w') \<Rightarrow> (Inl (default_err Usage (Wrap ''safety.protectedHosts %q: %w'' [expr] [e])), w')
      | (Inr ns, w') \<Rightarrow> resolve_entries L resolve (ns_union L acc ns) exprs w')"

definition short_name :: "string \<Rightarrow> string" where
  "short_name x = to_lower (Short x)"

definition shorts_of :: "'ns nodeset_lib \<Rightarrow> 'ns \<Rightarrow> 'ns" where
  "shorts_of L protected =
     foldl (\<lambda>s x. if IsIP x then s else add_quiet L s (short_name x)) (ns_new L) (ns_expand L protected)"

definition Protected ::
  "'ns nodeset_lib \<Rightarrow> ('ns, 'w) gate \<Rightarrow> 'w \<Rightarrow> (goerr + 'ns \<times> 'ns) \<times> ('ns, 'w) gate \<times> 'w" where
  "Protected L g w =
     (case gt_memo g of Some r \<Rightarrow> (r, g, w)
      | None \<Rightarrow>
        let (res, w') = resolve_entries L (gt_resolve g) (ns_new L) (gt_protected_hosts g) w;
            r = (case res of Inl e \<Rightarrow> Inl e | Inr p \<Rightarrow> Inr (p, shorts_of L p))
        in (r, g\<lparr>gt_memo := Some r\<rparr>, w'))"

definition hit_targets :: "'ns nodeset_lib \<Rightarrow> 'ns \<Rightarrow> 'ns \<Rightarrow> 'ns \<Rightarrow> 'ns" where
  "hit_targets L protected shorts targets =
     (let hit = ns_inter L targets protected
      in if ns_is_empty L protected then hit
         else foldl (\<lambda>h x. if IsIP x then h
                else if ns_contains L shorts (short_name x) then add_quiet L h x else h)
                hit (ns_expand L (ns_diff L targets hit)))"

definition ProtectedIn ::
  "'ns nodeset_lib \<Rightarrow> ('ns, 'w) gate \<Rightarrow> 'ns \<Rightarrow> 'w \<Rightarrow> (goerr + 'ns) \<times> ('ns, 'w) gate \<times> 'w" where
  "ProtectedIn L g targets w =
     (case Protected L g w of
        (Inl e, g', w') \<Rightarrow> (Inl e, g', w')
      | (Inr (p, shorts), g', w') \<Rightarrow> (Inr (hit_targets L p shorts targets), g', w'))"

section \<open>Checking an action\<close>

record 'ns action =
  ac_verb :: string
  ac_targets :: "'ns option"
  ac_detail :: string
  ac_not_nodes :: bool

text \<open>What \<open>--force\<close> let through, one sentence each.\<close>

datatype forced = ForcedUnresolved goerr | ForcedProtected nat string | ForcedUnknown string

definition plural :: "nat \<Rightarrow> string" where
  "plural n = (if n = 1 then [] else ''s'')"

definition isAre :: "nat \<Rightarrow> string" where
  "isAre n = (if n = 1 then ''it is'' else ''they are'')"

definition forced_text :: "(goerr \<Rightarrow> string) \<Rightarrow> forced \<Rightarrow> string" where
  "forced_text err_text f =
     (case f of
        ForcedUnresolved e \<Rightarrow>
          ''The protected hosts could not be worked out; going ahead because --force was given: '' @ err_text e
      | ForcedProtected n s \<Rightarrow> ''--force lets through the protected host'' @ plural n @ '' '' @ s
      | ForcedUnknown s \<Rightarrow> ''--force lets through '' @ s @ '', which the inventory does not know'')"

text \<open>The second half of \<open>check\<close>, once the protected targets are known.\<close>

definition check_hit :: "'ns nodeset_lib \<Rightarrow> ('ns, 'w) gate \<Rightarrow> 'ns action \<Rightarrow> 'ns \<Rightarrow> 'ns \<Rightarrow> forced list \<Rightarrow> goerr + forced list" where
  "check_hit L g a targets hit forced0 =
     (if \<not> ns_is_empty L hit \<and> \<not> gt_force g then
        Inl (errorf Usage ''%s would touch the protected host%s %s''
          [ac_verb a, plural (ns_len L hit), ns_string L hit])
      else
        let forced1 = (if ns_is_empty L hit then forced0
                       else forced0 @ [ForcedProtected (ns_len L hit) (ns_string L hit)])
        in case gt_known g of
             None \<Rightarrow> Inr forced1
           | Some known \<Rightarrow>
               if ac_not_nodes a then Inr forced1
               else let unknown = ns_diff L (ns_diff L targets known) hit
                 in if ns_is_empty L unknown then Inr forced1
                    else if \<not> gt_force g then
                      Inl (errorf Usage ''%s would touch %s, which the inventory does not know''
                        [ac_verb a, ns_string L unknown, isAre (ns_len L unknown)])
                    else Inr (forced1 @ [ForcedUnknown (ns_string L unknown)]))"

definition gate_check ::
  "'ns nodeset_lib \<Rightarrow> ('ns, 'w) gate \<Rightarrow> 'ns action \<Rightarrow> 'w \<Rightarrow> (goerr + forced list) \<times> ('ns, 'w) gate \<times> 'w" where
  "gate_check L g a w =
     (case ac_targets a of
        None \<Rightarrow> (Inl (errorf Usage ''no hosts were selected for %s'' [ac_verb a]), g, w)
      | Some targets \<Rightarrow>
          if ns_is_empty L targets then (Inl (errorf Usage ''no hosts were selected for %s'' [ac_verb a]), g, w)
          else
            (case ProtectedIn L g targets w of
               (Inl e, g', w') \<Rightarrow>
                 if \<not> gt_force g then
                   (Inl (Wrap ''%s was refused, because the protected hosts could not be worked out: %w'' [ac_verb a] [e]), g', w')
                 else (check_hit L g a targets (ns_new L) [ForcedUnresolved e], g', w')
             | (Inr hit, g', w') \<Rightarrow> (check_hit L g a targets hit [], g', w')))"

definition print_lines :: "'w gate_io \<Rightarrow> string list \<Rightarrow> 'w \<Rightarrow> 'w" where
  "print_lines io ls w = foldl (\<lambda>w l. io_print io (l @ [CHR 0x0A]) w) w ls"

definition Announce ::
  "'ns nodeset_lib \<Rightarrow> 'w gate_io \<Rightarrow> ('ns, 'w) gate \<Rightarrow> 'ns action \<Rightarrow> 'w \<Rightarrow> goerr option \<times> ('ns, 'w) gate \<times> 'w" where
  "Announce L io g a w =
     (case gate_check L g a w of
        (Inl e, g', w') \<Rightarrow> (Some e, g', w')
      | (Inr forced, g', w') \<Rightarrow> (None, g', print_lines io (map (forced_text (io_err_text io)) forced) w'))"

section \<open>Previews\<close>

record preview =
  pv_verb :: string
  pv_targets :: string
  pv_count :: nat
  pv_detail :: string
  pv_forced :: "forced list"
  pv_count_required :: bool
  pv_confirm_above :: int

definition Preview ::
  "'ns nodeset_lib \<Rightarrow> ('ns, 'w) gate \<Rightarrow> 'ns action \<Rightarrow> 'w \<Rightarrow> (goerr + preview) \<times> ('ns, 'w) gate \<times> 'w" where
  "Preview L g a w =
     (case gate_check L g a w of
        (Inl e, g', w') \<Rightarrow> (Inl e, g', w')
      | (Inr forced, g', w') \<Rightarrow>
          (case ac_targets a of
             None \<Rightarrow> (Inl (errorf Usage ''no hosts were selected for %s'' [ac_verb a]), g', w')
           | Some targets \<Rightarrow>
               (Inr \<lparr> pv_verb = ac_verb a, pv_targets = ns_string L targets, pv_count = ns_len L targets,
                      pv_detail = ac_detail a, pv_forced = forced,
                      pv_count_required = (int (ns_len L targets) > gt_confirm_above g),
                      pv_confirm_above = gt_confirm_above g \<rparr>, g', w')))"

definition Summary :: "preview \<Rightarrow> string" where
  "Summary p = pv_verb p @ '' '' @ nat_digits (pv_count p) @ '' host'' @ plural (pv_count p) @ '': '' @ pv_targets p"

definition detail_text :: "(goerr \<Rightarrow> string) \<Rightarrow> preview \<Rightarrow> string" where
  "detail_text err_text p =
     (if pv_detail p \<noteq> [] then ''  '' @ pv_detail p @ [CHR 0x0A] else []) @
     concat (map (\<lambda>f. ''  '' @ forced_text err_text f @ [CHR 0x0A]) (pv_forced p))"

definition Question :: "preview \<Rightarrow> string" where
  "Question p =
     (if pv_count_required p \<and> pv_confirm_above p = 0 then ''Type the number of hosts to continue:''
      else if pv_count_required p then
        ''This is more than '' @ itoa (pv_confirm_above p) @ '' hosts. Type the number of hosts to continue:''
      else ''Continue? [y/N]'')"

definition not_confirmed :: goerr where
  "not_confirmed = errorf Interrupted ''not confirmed, nothing was done'' []"

definition Accept :: "(string \<Rightarrow> bool) \<Rightarrow> preview \<Rightarrow> string \<Rightarrow> goerr option" where
  "Accept yes p answer =
     (let answer = trim_space answer in
      if pv_count_required p then
        (case atoi answer of None \<Rightarrow> Some not_confirmed
         | Some n \<Rightarrow> if n = int (pv_count p) then None else Some not_confirmed)
      else if yes answer then None else Some not_confirmed)"

section \<open>Confirming\<close>

definition ErrDryRun :: goerr where
  "ErrDryRun = Sentinel ''dry run: nothing was done''"

definition IsDryRun :: "goerr option \<Rightarrow> bool" where
  "IsDryRun err = (case err of None \<Rightarrow> False | Some e \<Rightarrow> errors_is e ''dry run: nothing was done'')"

definition interrupted :: "'w gate_io \<Rightarrow> 'w \<Rightarrow> goerr option" where
  "interrupted io w = wrap_code Interrupted (io_ctx_err io w)"

definition ask_gate :: "'w gate_io \<Rightarrow> ('ns, 'w) gate \<Rightarrow> string \<Rightarrow> 'w \<Rightarrow> (goerr + string) \<times> 'w" where
  "ask_gate io g prompt w =
     (if \<not> gt_has_in g then (Inl (errorf Interrupted ''nothing to read a confirmation from'' []), w)
      else
        let (r, w') = io_ask io prompt w
        in (case interrupted io w' of Some e \<Rightarrow> Inl e
            | None \<Rightarrow> (case r of Inl _ \<Rightarrow> Inl not_confirmed | Inr line \<Rightarrow> Inr line), w'))"

definition Confirm ::
  "'ns nodeset_lib \<Rightarrow> 'w gate_io \<Rightarrow> ('ns, 'w) gate \<Rightarrow> 'ns action \<Rightarrow> 'w \<Rightarrow> goerr option \<times> ('ns, 'w) gate \<times> 'w" where
  "Confirm L io g a w =
     (case interrupted io w of Some e \<Rightarrow> (Some e, g, w)
      | None \<Rightarrow>
        (case Preview L g a w of
           (Inl e, g', w') \<Rightarrow> (Some e, g', w')
         | (Inr p, g', w') \<Rightarrow>
             if gt_dry_run g then
               (Some ErrDryRun, g',
                let w'' = io_print io (''Would '' @ Summary p @ [CHR 0x0A]) w'; d = detail_text (io_err_text io) p
                in if d \<noteq> [] then io_print io d w'' else w'')
             else if gt_assume_yes g then
               (None, g', print_lines io (map (forced_text (io_err_text io)) (pv_forced p)) w')
             else if \<not> gt_interactive g then
               (Some (errorf Usage ''%s needs a confirmation but there is no terminal to ask on'' [ac_verb a]), g', w')
             else
               (case ask_gate io g (''About to '' @ Summary p @ [CHR 0x0A] @ detail_text (io_err_text io) p @ Question p @ '' '') w' of
                  (Inl e, w'') \<Rightarrow> (Some e, g', w'')
                | (Inr answer, w'') \<Rightarrow> (Accept (io_yes io) p answer, g', w''))))"

section \<open>What a command does\<close>

datatype effect = EffectRead | EffectChange | EffectInteractive

definition EffectOf :: "string go_map \<Rightarrow> effect" where
  "EffectOf annotations =
     (case find_key annotations ''clusterctl.effect'' of
        Some e \<Rightarrow> if e = ''read'' then EffectRead else if e = ''interactive'' then EffectInteractive else EffectChange
      | None \<Rightarrow> EffectChange)"

section \<open>What a protected host is\<close>

text \<open>
  A target is protected when it is a protected host, or when it and a protected host that is no
  address have the same short name, without regard to case.
\<close>

definition protects :: "'ns nodeset_lib \<Rightarrow> (string \<Rightarrow> string) \<Rightarrow> 'ns \<Rightarrow> string \<Rightarrow> bool" where
  "protects L key p x \<longleftrightarrow>
     key x \<in> ns_keys L key p \<or>
     \<not> IsIP x \<and> (\<exists>y\<in>set (ns_expand L p). \<not> IsIP y \<and> plain_name (short_name y) \<and> short_name x = short_name y)"

text \<open>A gate whose memory is what resolving its entries gives.\<close>

definition gate_ok :: "'ns nodeset_lib \<Rightarrow> ('ns, 'w) gate \<Rightarrow> bool" where
  "gate_ok L g \<longleftrightarrow> (case gt_memo g of Some (Inr (p, shorts)) \<Rightarrow> shorts = shorts_of L p | _ \<Rightarrow> True)"

lemma Protected_keeps:
  assumes "gate_ok L g" and "Protected L g w = (r, g', w')"
  shows "gate_ok L g' \<and> gt_memo g' = Some r \<and> (case r of Inl _ \<Rightarrow> True | Inr (p, shorts) \<Rightarrow> shorts = shorts_of L p)"
  using assms by (auto simp: Protected_def gate_ok_def Let_def split: option.splits sum.splits prod.splits)

context nodeset_contract
begin

lemma keys_fold_guarded:
  assumes "set xs \<subseteq> set (ns_expand L t)"
  shows "ns_keys L key (foldl (\<lambda>h x. if A x then h else if B x then add_quiet L h x else h) s xs) =
     ns_keys L key s \<union> key ` {x \<in> set xs. \<not> A x \<and> B x}"
  using assms
proof (induction xs arbitrary: s)
  case (Cons x xs)
  then have "x \<in> set (ns_expand L t)" "set xs \<subseteq> set (ns_expand L t)" by auto
  with Cons.IH keys_add_quiet_expanded show ?case by auto
qed simp

lemma keys_shorts:
  assumes "y \<in> set (ns_expand L p)" and "\<not> IsIP y" and "plain_name (short_name y)"
  shows "key (short_name y) \<in> ns_keys L key (shorts_of L p)"
proof -
  have grow: "ns_keys L key s \<subseteq> ns_keys L key (foldl (\<lambda>s x. if IsIP x then s else add_quiet L s (short_name x)) s xs)"
    for s xs using keys_add_quiet_mono by (induction xs arbitrary: s) (auto, blast)
  have "y \<in> set xs \<Longrightarrow> key (short_name y) \<in>
      ns_keys L key (foldl (\<lambda>s x. if IsIP x then s else add_quiet L s (short_name x)) s xs)" for s xs
  proof (induction xs arbitrary: s)
    case (Cons x xs)
    show ?case
    proof (cases "x = y")
      case True
      then show ?thesis using assms(2) keys_add_quiet_plain [OF assms(3), of s] grow [of "add_quiet L s (short_name y)" xs] by auto
    next
      case False
      with Cons show ?thesis by simp
    qed
  qed simp
  with assms(1) show ?thesis by (simp add: shorts_of_def)
qed

lemma hit_targets_complete:
  assumes "x \<in> set (ns_expand L targets)" and "protects L key p x"
  shows "key x \<in> ns_keys L key (hit_targets L p (shorts_of L p) targets)"
proof -
  let ?hit = "ns_inter L targets p"
  have ne: "\<not> ns_is_empty L p" using assms(2) by (auto simp: protects_def keys_empty_iff ns_keys_def)
  have sub: "set (ns_expand L (ns_diff L targets ?hit)) \<subseteq> set (ns_expand L targets)"
    by (simp add: expand_diff)
  have hit: "ns_keys L key (hit_targets L p (shorts_of L p) targets) = ns_keys L key ?hit \<union>
      key ` {x \<in> set (ns_expand L (ns_diff L targets ?hit)). \<not> IsIP x \<and> ns_contains L (shorts_of L p) (short_name x)}"
    using keys_fold_guarded [OF sub, of IsIP "\<lambda>x. ns_contains L (shorts_of L p) (short_name x)" ?hit] ne
    by (simp add: hit_targets_def Let_def)
  show ?thesis
  proof (cases "key x \<in> ns_keys L key ?hit")
    case True
    with hit show ?thesis by simp
  next
    case False
    then have nk: "key x \<notin> ns_keys L key p" using keys_in [OF assms(1)] by (simp add: keys_inter)
    with assms(2) obtain y where y: "y \<in> set (ns_expand L p)" "\<not> IsIP y" "plain_name (short_name y)"
      "short_name x = short_name y" "\<not> IsIP x" by (auto simp: protects_def)
    have "ns_contains L (shorts_of L p) (short_name x)"
      using keys_shorts [OF y(1-3)] y(4) by (simp add: contains_keys)
    moreover have "x \<in> set (ns_expand L (ns_diff L targets ?hit))"
      using assms(1) False by (simp add: expand_diff)
    ultimately show ?thesis using y(5) by (auto simp: hit)
  qed
qed

lemma gate_check_unforced:
  assumes "gate_ok L g" and "gate_check L g a w = (Inr forced, g', w')" and "\<not> gt_force g"
  shows "\<exists>targets p. ac_targets a = Some targets \<and> ns_expand L targets \<noteq> [] \<and>
     fst (Protected L g w) = Inr (p, shorts_of L p) \<and> forced = [] \<and>
     (\<forall>x\<in>set (ns_expand L targets). \<not> protects L key p x) \<and>
     (\<forall>known. gt_known g = Some known \<longrightarrow> \<not> ac_not_nodes a \<longrightarrow> ns_keys L key targets \<subseteq> ns_keys L key known)"
proof -
  from assms(2) obtain targets where t: "ac_targets a = Some targets" "\<not> ns_is_empty L targets"
    by (auto simp: gate_check_def split: option.splits if_splits)
  obtain r g1 w1 where P: "Protected L g w = (r, g1, w1)" by (metis prod_cases3)
  from assms(2,3) t P obtain p shorts where r: "r = Inr (p, shorts)"
    by (cases r) (auto simp: gate_check_def ProtectedIn_def)
  have s: "shorts = shorts_of L p" using Protected_keeps [OF assms(1) P] by (simp add: r)
  let ?hit = "hit_targets L p shorts targets"
  have c: "check_hit L g a targets ?hit [] = Inr forced"
    using assms(2) t P r by (simp add: gate_check_def ProtectedIn_def)
  have hit: "ns_is_empty L ?hit" using c assms(3) by (auto simp: check_hit_def split: if_splits)
  then have none: "ns_keys L key ?hit = {}" by (simp add: keys_empty_iff)
  have np: "\<forall>x\<in>set (ns_expand L targets). \<not> protects L key p x"
    using hit_targets_complete [of _ targets p] none s by auto
  have kn: "ns_keys L key targets \<subseteq> ns_keys L key known"
    if "gt_known g = Some known" "\<not> ac_not_nodes a" for known
  proof -
    have "ns_is_empty L (ns_diff L (ns_diff L targets known) ?hit)"
      using c that hit assms(3) by (auto simp: check_hit_def Let_def split: if_splits)
    then show ?thesis using none by (auto simp: keys_empty_iff keys_diff)
  qed
  have "forced = []"
    using c hit assms(3) by (auto simp: check_hit_def Let_def split: if_splits option.splits)
  then show ?thesis using t P r s np kn by (auto simp: is_empty_expand)
qed

end

section \<open>What the gate guarantees\<close>


text \<open>A gate of a site that protects one host, asked by a script to touch others.\<close>

definition sample_gate :: "(string list, unit) gate" where
  "sample_gate = \<lparr> gt_protected_hosts = [''db1.x''], gt_resolve = parse_resolve name_list,
     gt_known = Some [''n1'', ''n2'', ''db1.x''], gt_confirm_above = 10, gt_assume_yes = True, gt_force = False,
     gt_dry_run = False, gt_interactive = False, gt_has_in = False, gt_memo = None \<rparr>"

definition sample_io :: "unit gate_io" where
  "sample_io = \<lparr> io_ctx_err = (\<lambda>w. None), io_ask = (\<lambda>p w. (Inr ''y'', w)), io_print = (\<lambda>s w. w),
     io_yes = (\<lambda>s. s = ''y''), io_err_text = (\<lambda>e. ''error'') \<rparr>"

definition sample_action :: "string list action" where
  "sample_action = \<lparr> ac_verb = ''drain'', ac_targets = Some [''n1'', ''n2''], ac_detail = [], ac_not_nodes = False \<rparr>"


text \<open>
  Nothing protected is touched silently: when the check lets through an action on a
  protected host, the gate was forced and the protected hosts are named in what is printed.
\<close>
theorem forced_is_named:
  assumes "nodeset_contract L key" and "gate_ok L g" and "gate_check L g a w = (Inr forced, g', w')"
    and "ac_targets a = Some targets" and "x \<in> set (ns_expand L targets)"
    and "Protected L g w = (Inr (p, shorts), g1, w1)" and "protects L key p x"
  shows "gt_force g \<and> (\<exists>n s. ForcedProtected n s \<in> set forced)"
proof -
  have s: "shorts = shorts_of L p" using Protected_keeps [OF assms(2,6)] by simp
  let ?hit = "hit_targets L p shorts targets"
  have "key x \<in> ns_keys L key ?hit"
    using nodeset_contract.hit_targets_complete [OF assms(1,5,7)] by (simp add: s)
  then have ne: "\<not> ns_is_empty L ?hit"
    using nodeset_contract.keys_empty_iff [OF assms(1)] by auto
  have "\<not> ns_is_empty L targets"
    using nodeset_contract.is_empty_expand [OF assms(1), of targets] assms(5) by auto
  then have "check_hit L g a targets ?hit [] = Inr forced"
    using assms(3,4,6) by (simp add: gate_check_def ProtectedIn_def)
  with ne show ?thesis
    by (auto simp: check_hit_def Let_def split: if_splits option.splits)
qed

theorem forced_is_named_witness:
  "\<exists>n s. ForcedProtected n s \<in> set [ForcedProtected 1 ''db1.x'']"
proof -
  let ?g = "sample_gate\<lparr>gt_force := True\<rparr>" and ?a = "sample_action\<lparr>ac_targets := Some [''db1.x'']\<rparr>"
  have new: "ns_new name_list = []" by (simp add: name_list_def)
  have "resolve_entries name_list (parse_resolve name_list) [] [''db1.x''] () = (Inr [''db1.x''], ())"
    by (simp add: name_list_def parse_resolve_def plain_name_def char_class_defs)
  then have P: "Protected name_list ?g () = (Inr ([''db1.x''], shorts_of name_list [''db1.x'']),
      ?g\<lparr>gt_memo := Some (Inr ([''db1.x''], shorts_of name_list [''db1.x'']))\<rparr>, ())"
    by (simp add: Protected_def sample_gate_def new Let_def del: resolve_entries.simps)
  have "fst (gate_check name_list ?g ?a ()) = Inr [ForcedProtected 1 ''db1.x'']" by code_simp
  then obtain g' w' where C: "gate_check name_list ?g ?a () = (Inr [ForcedProtected 1 ''db1.x''], g', w')"
    by (metis prod_cases3 fst_conv)
  have ok: "gate_ok name_list ?g" by (simp add: gate_ok_def sample_gate_def)
  have t: "ac_targets ?a = Some [''db1.x'']" by simp
  have x: "''db1.x'' \<in> set (ns_expand name_list [''db1.x''])" by code_simp
  then have "protects name_list id [''db1.x''] ''db1.x''" by (simp add: protects_def ns_keys_def)
  from forced_is_named [OF names.nodeset_contract_axioms ok C t x P this] show ?thesis by blast
qed

text \<open>
  The entries of the protected hosts are resolved at most once, the first time they are
  needed: afterwards the same answer is given, an error included, and no source is asked again.
\<close>
theorem Protected_once:
  assumes "Protected L g w = (r, g', w')"
  shows "Protected L g' v = (r, g', v)"
  using assms by (auto simp: Protected_def Let_def split: option.splits prod.splits)

theorem Protected_once_witness:
  "Protected name_list (sample_gate\<lparr>gt_memo := Some (Inl ErrDryRun)\<rparr>) () =
     (Inl ErrDryRun, sample_gate\<lparr>gt_memo := Some (Inl ErrDryRun)\<rparr>, ())"
proof -
  have "Protected name_list (sample_gate\<lparr>gt_memo := Some (Inl ErrDryRun)\<rparr>) () =
     (Inl ErrDryRun, sample_gate\<lparr>gt_memo := Some (Inl ErrDryRun)\<rparr>, ())"
    by (simp add: Protected_def)
  from Protected_once [OF this] show ?thesis .
qed

end
