(* ===== verification/SlurmText.thy ===== *)
theory SlurmText
  imports Outcome NodeSet "HOL-Library.Product_Lexorder"
begin

text \<open>
  The text half of \<open>internal/slurm\<close>: splitting the output of the Slurm clients into fields, the
  framed format whose separator nobody who writes a field knows, the states of nodes, and the
  checks of what is written into a command. UTF-8 is decoded the way Go's \<open>range\<close> over a string
  does it.
\<close>

section \<open>UTF-8\<close>

definition byte_in :: "nat \<Rightarrow> nat \<Rightarrow> char \<Rightarrow> bool" where
  "byte_in lo hi c \<longleftrightarrow> lo \<le> of_char c \<and> (of_char c :: nat) \<le> hi"

definition cont :: "char \<Rightarrow> bool" where
  "cont = byte_in 128 191"

text \<open>
  The first rune of a string and how many bytes encode it; \<open>None\<close> where they encode none, which
  Go reads as one byte of U+FFFD. The second byte is bounded so that no rune has two encodings,
  none is a surrogate, and none is beyond U+10FFFF.
\<close>

definition second_ok :: "nat \<Rightarrow> char \<Rightarrow> bool" where
  "second_ok b c =
     (if b = 224 then byte_in 160 191 c else if b = 237 then byte_in 128 159 c
      else if b = 240 then byte_in 144 191 c else if b = 244 then byte_in 128 143 c else cont c)"

fun first_rune :: "string \<Rightarrow> nat option \<times> nat" where
  "first_rune [] = (None, 0)"
| "first_rune (c # s) =
     (let b = (of_char c :: nat) in
      if b < 128 then (Some b, 1)
      else if 194 \<le> b \<and> b \<le> 223 then
        (case s of c1 # _ \<Rightarrow> if cont c1 then (Some ((b - 192) * 64 + (of_char c1 - 128)), 2) else (None, 1)
         | _ \<Rightarrow> (None, 1))
      else if 224 \<le> b \<and> b \<le> 239 then
        (case s of c1 # c2 # _ \<Rightarrow>
           if second_ok b c1 \<and> cont c2
           then (Some ((b - 224) * 4096 + (of_char c1 - 128) * 64 + (of_char c2 - 128)), 3) else (None, 1)
         | _ \<Rightarrow> (None, 1))
      else if 240 \<le> b \<and> b \<le> 244 then
        (case s of c1 # c2 # c3 # _ \<Rightarrow>
           if second_ok b c1 \<and> cont c2 \<and> cont c3
           then (Some ((b - 240) * 262144 + (of_char c1 - 128) * 4096 + (of_char c2 - 128) * 64 + (of_char c3 - 128)), 4)
           else (None, 1)
         | _ \<Rightarrow> (None, 1))
      else (None, 1))"

function runes :: "string \<Rightarrow> nat option list" where
  "runes s = (if s = [] then [] else fst (first_rune s) # runes (drop (max 1 (snd (first_rune s))) s))"
  by auto
termination by (relation "measure length") auto

declare runes.simps [simp del]

definition valid_utf8 :: "string \<Rightarrow> bool" where
  "valid_utf8 s \<longleftrightarrow> None \<notin> set (runes s)"

text \<open>\<open>unicode.IsControl\<close>; U+FFFD, which stands for a byte that is no UTF-8, is none.\<close>

definition is_control :: "nat option \<Rightarrow> bool" where
  "is_control r \<longleftrightarrow> (case r of None \<Rightarrow> False | Some n \<Rightarrow> n < 32 \<or> 127 \<le> n \<and> n \<le> 159)"

section \<open>Fields\<close>

definition separator :: char where "separator = CHR ''|''"

definition pad_to :: "nat \<Rightarrow> string list \<Rightarrow> string list" where
  "pad_to n xs = xs @ replicate (n - length xs) []"

definition parsable_fields :: "(string \<Rightarrow> string) \<Rightarrow> string \<Rightarrow> string \<Rightarrow> nat \<Rightarrow> goerr + string list" where
  "parsable_fields escape program line n =
     (let out = split_char separator line in
      if length out > n then
        Inl (errorf TargetFailed ''%s printed %d fields where %d were asked for''
          [program, nat_digits (length out), nat_digits n, escape line])
      else Inr (pad_to n out))"

text \<open>A format framed by a token: \<open>newFramed\<close> draws the token, which is an argument here.\<close>

record framed =
  fr_fields :: "string list"
  fr_sep :: string

definition newFramed :: "string \<Rightarrow> string list \<Rightarrow> framed" where
  "newFramed token fs = \<lparr> fr_fields = fs, fr_sep = ''|'' @ token @ ''|'' \<rparr>"

definition framed_format :: "framed \<Rightarrow> string" where
  "framed_format f = join_str (fr_sep f) (fr_fields f) @ fr_sep f"

text \<open>The records of \<open>n\<close> parts; every one but the first starts on a new line.\<close>

fun cut_records :: "nat \<Rightarrow> string \<Rightarrow> bool \<Rightarrow> nat \<Rightarrow> string list \<Rightarrow> goerr + string list list" where
  "cut_records n program first 0 parts = Inr []"
| "cut_records n program first (Suc k) parts =
     (let r = take n parts in
      rbind (if first then Inr r
             else case r of [] \<Rightarrow> Inr [] | x # xs \<Rightarrow>
               (case cut_prefix x [CHR 0x0A] of
                  None \<Rightarrow> Inl (errorf TargetFailed ''%s printed output that does not have the %d fields'' [program, nat_digits n])
                | Some x' \<Rightarrow> Inr (x' # xs)))
        (\<lambda>rec. rbind (cut_records n program False k (drop n parts)) (\<lambda>recs. Inr (rec # recs))))"

definition framed_records :: "framed \<Rightarrow> string \<Rightarrow> string \<Rightarrow> goerr + string list list" where
  "framed_records f program stdout =
     (let parts = split_str (fr_sep f) stdout; rest = last parts; parts = butlast parts;
          n = length (fr_fields f)
      in if trim_space rest \<noteq> [] \<or> length parts mod n \<noteq> 0
         then Inl (errorf TargetFailed ''%s printed output that does not have the %d fields'' [program, nat_digits n])
         else cut_records n program True (length parts div n) parts)"

section \<open>Nodes and their states\<close>

definition hostName :: "string \<Rightarrow> bool" where
  "hostName s \<longleftrightarrow> s \<noteq> [] \<and> is_alnum (hd s) \<and> list_all (\<lambda>c. is_alnum c \<or> c \<in> set ''._-'') s"

record node =
  nd_name :: string
  nd_state :: string
  nd_partition :: string
  nd_cpus :: string
  nd_memory :: string
  nd_features :: string
  nd_gres :: string
  nd_reason :: string
  nd_reason_user :: string
  nd_reason_time :: string

definition stateFlags :: string where "stateFlags = ''*~#!%$@^-''"

definition BaseState :: "node \<Rightarrow> string" where
  "BaseState n =
     (let s = to_lower (nd_state n)
      in trim_right_set stateFlags (case cut s ''+'' of Some (before, _) \<Rightarrow> before | None \<Rightarrow> s))"

definition noReason :: "string \<Rightarrow> bool" where
  "noReason reason \<longleftrightarrow> to_lower (trim_space reason) \<in> {[], ''none'', ''(null)''}"

definition StateGroups :: "string list go_map" where
  "StateGroups =
     [(''alloc'', [''alloc'', ''allocated'', ''mix'', ''mixed'', ''comp'', ''completing'']),
      (''idle'', [''idle'']),
      (''drain'', [''drain'', ''draining'', ''drained'']),
      (''down'', [''down'', ''unk'', ''unknown'']),
      (''defect'', [''drain'', ''draining'', ''drained'', ''down'', ''fail'', ''failing''])]"

definition reported :: "string list go_map" where
  "reported =
     [(''alloc'', [''allocated'']), (''allocated'', [''allocated'']),
      (''mix'', [''mixed'']), (''mixed'', [''mixed'']),
      (''comp'', [''completing'']), (''completing'', [''completing'']),
      (''idle'', [''idle'']),
      (''drain'', [''draining'', ''drained'']), (''draining'', [''draining'']), (''drained'', [''drained'']),
      (''down'', [''down'']), (''unk'', [''unknown'']), (''unknown'', [''unknown'']),
      (''fail'', [''fail'']), (''failing'', [''failing'']),
      (''resv'', [''reserved'']), (''reserved'', [''reserved'']),
      (''futr'', [''future'']), (''future'', [''future'']),
      (''planned'', [''planned'']), (''inval'', [''inval''])]"

text \<open>The states a list keeps; \<open>None\<close> keeps every node.\<close>

fun wanted_states :: "string list \<Rightarrow> string list option" where
  "wanted_states [] = Some []"
| "wanted_states (s # ss) =
     (case find_key reported (to_lower (trim_space s)) of None \<Rightarrow> None
      | Some bases \<Rightarrow> map_option ((@) bases) (wanted_states ss))"

definition stateFilter :: "string list \<Rightarrow> node \<Rightarrow> bool" where
  "stateFilter states n =
     (case wanted_states states of None \<Rightarrow> True
      | Some want \<Rightarrow> want = [] \<or> BaseState n \<in> set want)"

definition States :: "string \<Rightarrow> string list" where
  "States arg =
     (if arg = [] then [] else case find_key StateGroups (to_lower arg) of
        Some states \<Rightarrow> states | None \<Rightarrow> split_char (CHR '','') arg)"

section \<open>What may be written into a command\<close>

definition MaxReasonLength :: nat where "MaxReasonLength = 200"

fun check_runes :: "(nat option \<Rightarrow> goerr) \<Rightarrow> goerr \<Rightarrow> nat option list \<Rightarrow> goerr option" where
  "check_runes control bar [] = None"
| "check_runes control bar (r # rs) =
     (if is_control r then Some (control r) else if r = Some 124 then Some bar else check_runes control bar rs)"

definition ValidateReason :: "string \<Rightarrow> goerr option" where
  "ValidateReason reason =
     (let trimmed = trim_space reason in
      if trimmed = [] then Some (errorf Usage ''draining a node needs a reason'' [])
      else if \<not> valid_utf8 reason then Some (errorf Usage ''the reason is not valid UTF-8'' [])
      else if length (runes trimmed) > MaxReasonLength then Some (errorf Usage ''the reason is longer than %d characters'' [])
      else if noReason trimmed then Some (errorf Usage ''%q is what Slurm prints for no reason'' [trimmed])
      else check_runes (\<lambda>r. errorf Usage ''the reason contains the control character %s'' [])
             (errorf Usage ''the reason contains |'' []) (runes reason))"

definition validName :: "string \<Rightarrow> bool" where
  "validName s \<longleftrightarrow> s \<noteq> [] \<and> (is_alnum (hd s) \<or> hd s = CHR ''_'') \<and>
     list_all (\<lambda>c. is_alnum c \<or> c \<in> set ''_.@-'') s"

definition ValidateName :: "string \<Rightarrow> string \<Rightarrow> goerr option" where
  "ValidateName kind v = (if validName v then None else Some (errorf Usage ''%q is not a %s name'' [v, kind]))"

definition ValidateUserName :: "string \<Rightarrow> goerr option" where
  "ValidateUserName v =
     (case ValidateName ''user'' v of Some e \<Rightarrow> Some e
      | None \<Rightarrow> if trim_set ''0123456789'' v = [] then Some (errorf Usage ''%q is a number, not a user name'' [v]) else None)"

definition ValidateText :: "string \<Rightarrow> string \<Rightarrow> goerr option" where
  "ValidateText kind v =
     check_runes (\<lambda>r. errorf Usage ''the %s contains the control character %s'' [kind])
       (errorf Usage ''the %s contains |'' [kind]) (runes v)"

definition ValidateFairShare :: "string \<Rightarrow> goerr option" where
  "ValidateFairShare v =
     (if v \<noteq> [] \<and> list_all is_digit v \<or> v = ''parent'' then None
      else Some (errorf Usage ''%q is not a fair-share value'' [v]))"

section \<open>A framed format is read back\<close>

text \<open>A value that does not hold the token, which nobody who writes it knows.\<close>

definition token_ok :: "string \<Rightarrow> bool" where
  "token_ok t \<longleftrightarrow> t \<noteq> [] \<and> CHR ''|'' \<notin> set t \<and> CHR 0x0A \<notin> set t"

lemma span_bar: "CHR ''|'' \<notin> set u \<Longrightarrow> takeWhile (\<lambda>x. x \<noteq> CHR ''|'') (u @ CHR ''|'' # v) = u"
  by (induction u) auto

lemma cut_at_token:
  assumes "token_ok t" and "\<not> sublist t f"
  shows "cut (f @ (''|'' @ t @ ''|'') @ r) (''|'' @ t @ ''|'') = Some (f, r)"
  using assms(2)
proof (induction f)
  case Nil
  show ?case by (subst cut_prefixed) (simp_all add: has_prefix_iff)
next
  case (Cons c f)
  have "\<not> sublist t f" using Cons.prems by (metis sublist_Cons_right)
  note IH = Cons.IH [OF this]
  have "\<not> has_prefix ((c # f) @ (''|'' @ t @ ''|'') @ r) (''|'' @ t @ ''|'')"
  proof
    assume "has_prefix ((c # f) @ (''|'' @ t @ ''|'') @ r) (''|'' @ t @ ''|'')"
    then obtain v where v: "f @ CHR ''|'' # t @ ''|'' @ r = t @ CHR ''|'' # v"
      by (auto simp: has_prefix_iff)
    have bar: "CHR ''|'' \<notin> set t" using assms(1) by (simp add: token_ok_def)
    have tk: "takeWhile (\<lambda>x. x \<noteq> CHR ''|'') (t @ CHR ''|'' # v) = t"
      using bar by (induction t) auto
    show False
    proof (cases "CHR ''|'' \<in> set f")
      case True
      then obtain f1 f2 where f: "f = f1 @ CHR ''|'' # f2" "CHR ''|'' \<notin> set f1" by (metis split_list_first)
      then have "takeWhile (\<lambda>x. x \<noteq> CHR ''|'') (f @ CHR ''|'' # t @ ''|'' @ r) = f1"
        using span_bar [of f1 "f2 @ CHR ''|'' # t @ ''|'' @ r"] by simp
      with tk v have "f1 = t" by simp
      then have "c # f = [c] @ t @ CHR ''|'' # f2" using f(1) by simp
      then have "sublist t (c # f)" unfolding sublist_def by blast
      with Cons.prems show False by simp
    next
      case False
      then have "takeWhile (\<lambda>x. x \<noteq> CHR ''|'') (f @ CHR ''|'' # t @ ''|'' @ r) = f"
        using span_bar [of f "t @ ''|'' @ r"] by simp
      with tk v have "f = t" by simp
      with Cons.prems show False by (metis sublist_Cons_right sublist_order.order_refl)
    qed
  qed
  then show ?case using IH by (simp add: cut_Cons)
qed

definition record_text :: "string \<Rightarrow> string list \<Rightarrow> string" where
  "record_text sep fs = concat (map (\<lambda>f. f @ sep) fs)"

text \<open>How sinfo and squeue print records in such a format: one to a line.\<close>

definition records_text :: "string \<Rightarrow> string list list \<Rightarrow> string" where
  "records_text sep recs = concat (map (\<lambda>r. record_text sep r @ [CHR 0x0A]) recs)"

fun framed_parts :: "bool \<Rightarrow> string list list \<Rightarrow> string list" where
  "framed_parts first [] = []"
| "framed_parts first ([] # recs) = framed_parts False recs"
| "framed_parts first ((f # fs) # recs) = ((if first then f else CHR 0x0A # f) # fs) @ framed_parts False recs"

lemma split_str_records:
  assumes "token_ok t" and "\<forall>r\<in>set recs. r \<noteq> [] \<and> (\<forall>f\<in>set r. \<not> sublist t f)"
  shows "split_str (''|'' @ t @ ''|'') ((if first then [] else [CHR 0x0A]) @ records_text (''|'' @ t @ ''|'') recs) =
     framed_parts first recs @ [if recs = [] \<and> first then [] else [CHR 0x0A]]"
  using assms(2)
proof (induction recs arbitrary: first)
  case Nil
  have "cut [] (''|'' @ t @ ''|'') = None" by (simp add: cut_None_iff)
  moreover have "cut [CHR 0x0A] (''|'' @ t @ ''|'') = None"
    unfolding cut_None_iff by (auto simp: sublist_def append_eq_Cons_conv)
  ultimately show ?case by (auto simp: records_text_def split_str_absent)
next
  case (Cons rc recs)
  let ?sep = "''|'' @ t @ ''|''"
  obtain f fs where rec: "rc = f # fs" using Cons.prems by (cases rc) auto
  have nl: "\<not> sublist t (CHR 0x0A # f)" if "\<not> sublist t f" for f
  proof
    assume "sublist t (CHR 0x0A # f)"
    then consider "prefix t (CHR 0x0A # f)" | "sublist t f" by (auto simp: sublist_Cons_right)
    then show False using that assms(1) by cases (auto simp: token_ok_def prefix_Cons)
  qed
  have one: "split_str ?sep (g @ ?sep @ r) = g # split_str ?sep r" if "\<not> sublist t g" for g r
    using cut_at_token [OF assms(1) that, of r] by (intro split_str_found) auto
  have rest: "split_str ?sep (record_text ?sep gs @ r) = gs @ split_str ?sep r"
    if "\<forall>g\<in>set gs. \<not> sublist t g" for gs r
    using that
  proof (induction gs)
    case (Cons g gs)
    then show ?case using one [of g "record_text ?sep gs @ r"] by (simp add: record_text_def)
  qed (simp add: record_text_def)
  let ?g = "if first then f else CHR 0x0A # f"
  have "(if first then [] else [CHR 0x0A]) @ records_text ?sep (rc # recs) =
      ?g @ ?sep @ record_text ?sep fs @ CHR 0x0A # records_text ?sep recs"
    by (simp add: records_text_def record_text_def rec)
  moreover have "\<not> sublist t ?g" using nl [of f] Cons.prems rec by simp
  moreover have "\<forall>g\<in>set fs. \<not> sublist t g" using Cons.prems rec by simp
  ultimately have "split_str ?sep ((if first then [] else [CHR 0x0A]) @ records_text ?sep (rc # recs)) =
      (?g # fs) @ split_str ?sep (CHR 0x0A # records_text ?sep recs)"
    using one rest by simp
  moreover have "split_str ?sep (CHR 0x0A # records_text ?sep recs) = framed_parts False recs @ [[CHR 0x0A]]"
    using Cons.IH [of False] Cons.prems by simp
  ultimately show ?case by (simp add: rec)
qed

lemma cut_records_parts:
  assumes "0 < n" and "\<forall>r\<in>set recs. length r = n"
  shows "cut_records n program first (length recs) (framed_parts first recs) = Inr recs"
  using assms(2)
proof (induction recs arbitrary: first)
  case (Cons rc recs)
  obtain f fs where rec: "rc = f # fs" using Cons.prems assms(1) by (cases rc) auto
  then have n: "n = Suc (length fs)" using Cons.prems by simp
  show ?case using Cons.IH [of False] Cons.prems by (simp add: rec n cut_prefix_def Let_def)
qed simp

lemma framed_parts_length:
  "\<forall>r\<in>set recs. length r = n \<Longrightarrow> 0 < n \<Longrightarrow> length (framed_parts first recs) = length recs * n"
proof (induction recs arbitrary: first)
  case (Cons rc recs)
  then show ?case by (cases rc) auto
qed simp

lemma framed_records_print:
  assumes "token_ok t" and "fs \<noteq> []" and "\<forall>r\<in>set recs. length r = length fs \<and> (\<forall>f\<in>set r. \<not> sublist t f)"
  shows "framed_records (newFramed t fs) program (records_text (''|'' @ t @ ''|'') recs) = Inr recs"
proof -
  have ne: "\<forall>r\<in>set recs. r \<noteq> [] \<and> (\<forall>f\<in>set r. \<not> sublist t f)" using assms(2,3) by force
  have parts: "split_str (''|'' @ t @ ''|'') (records_text (''|'' @ t @ ''|'') recs) =
      framed_parts True recs @ [if recs = [] then [] else [CHR 0x0A]]"
    using split_str_records [OF assms(1) ne, of True] by simp
  have blank: "trim_space [CHR 0x0A] = []" "trim_space [] = []" by code_simp+
  have len: "length (framed_parts True recs) = length recs * length fs"
    using assms(2,3) by (intro framed_parts_length) auto
  have "cut_records (length fs) program True (length recs) (framed_parts True recs) = Inr recs"
    using assms(2,3) by (intro cut_records_parts) auto
  then show ?thesis
    using assms(2) parts [simplified] by (simp add: framed_records_def newFramed_def len blank Let_def)
qed

end
