(* ===== verification/SlurmQuery.thy ===== *)
theory SlurmQuery
  imports SlurmText
begin

text \<open>
  The queries of \<open>internal/slurm\<close>: running a Slurm client on the login node and reading what it
  prints. A runner takes a target and a request to a result, and changes the world it runs in.
  The token of a framed format, which the code draws at random, is an argument.
\<close>

section \<open>The client\<close>

type_synonym 'w runner = "target \<Rightarrow> request \<Rightarrow> 'w \<Rightarrow> (goerr + cmd_result) \<times> 'w"

record 'w slurm_client =
  sl_runner :: "'w runner"
  sl_reader :: "'w runner option"
  sl_target :: target
  sl_organization :: string
  sl_default_account :: string
  sl_timeout :: int
  sl_cluster :: string
  sl_escape :: "string \<Rightarrow> string"

definition slurm_timeout :: "'w slurm_client \<Rightarrow> int" where
  "slurm_timeout c = (if sl_timeout c > 0 then sl_timeout c else 120 * Second)"

definition slurm_request :: "'w slurm_client \<Rightarrow> string list \<Rightarrow> request" where
  "slurm_request c argv = no_request\<lparr>rq_argv := argv, rq_timeout := slurm_timeout c, rq_tty := TTYNone\<rparr>"

text \<open>\<open>exec\<close> returns the result and the error, both of which a caller may read.\<close>

definition exec_pair ::
  "'w slurm_client \<Rightarrow> 'w runner \<Rightarrow> string list \<Rightarrow> 'w \<Rightarrow> (cmd_result option \<times> goerr option) \<times> 'w" where
  "exec_pair c runner argv w =
     (case runner (sl_target c) (slurm_request c argv) w of
        (Inl e, w') \<Rightarrow> ((None, Some (default_err Transport e)), w')
      | (Inr r, w') \<Rightarrow> ((Some r, check_result (sl_escape c) (hd argv) r), w'))"

definition exec_act :: "'w slurm_client \<Rightarrow> 'w runner \<Rightarrow> string list \<Rightarrow> ('w, goerr, cmd_result) act" where
  "exec_act c runner argv w =
     (case exec_pair c runner argv w of
        ((_, Some e), w') \<Rightarrow> (Inl e, w')
      | ((Some r, None), w') \<Rightarrow> (Inr r, w')
      | ((None, None), w') \<Rightarrow> (Inl (Leaf ''no result'' []), w'))"

definition reader :: "'w slurm_client \<Rightarrow> 'w runner" where
  "reader c = (case sl_reader c of None \<Rightarrow> sl_runner c | Some r \<Rightarrow> r)"

definition sl_run :: "'w slurm_client \<Rightarrow> string list \<Rightarrow> 'w \<Rightarrow> goerr option \<times> 'w" where
  "sl_run c argv w = (case exec_act c (sl_runner c) argv w of (Inl e, w') \<Rightarrow> (Some e, w') | (Inr _, w') \<Rightarrow> (None, w'))"

definition sl_read :: "'w slurm_client \<Rightarrow> string list \<Rightarrow> ('w, goerr, cmd_result) act" where
  "sl_read c argv = exec_act c (reader c) argv"

definition readLines :: "'w slurm_client \<Rightarrow> string list \<Rightarrow> ('w, goerr, string list) act" where
  "readLines c argv = abind (sl_read c argv) (\<lambda>r. alift (Inr (Lines r)))"

definition readRecords :: "'w slurm_client \<Rightarrow> string list \<Rightarrow> nat \<Rightarrow> ('w, goerr, string list list) act" where
  "readRecords c argv n =
     abind (readLines c argv) (\<lambda>ls. alift (traverse (\<lambda>l. parsable_fields (sl_escape c) (hd argv) l n) ls))"

section \<open>Nodes\<close>

definition node_format :: "string list" where
  "node_format = [''%N'', ''%T'', ''%R'', ''%c'', ''%m'', ''%f'', ''%G'', ''%u'', ''%H'', ''%E'']"

text \<open>A node of a record. sinfo names a user and a time even when there is no reason.\<close>

definition node_of :: "string list \<Rightarrow> node" where
  "node_of f =
     (let none = noReason (f ! 9) in
      \<lparr> nd_name = f ! 0, nd_state = f ! 1, nd_partition = f ! 2, nd_cpus = f ! 3, nd_memory = f ! 4,
        nd_features = f ! 5, nd_gres = f ! 6, nd_reason = (if none then [] else f ! 9),
        nd_reason_user = (if none then [] else f ! 7), nd_reason_time = (if none then [] else f ! 8) \<rparr>)"

text \<open>The loop over the records: a node of several partitions is listed once per partition.\<close>

fun nodes_from :: "(node \<Rightarrow> bool) \<Rightarrow> string list \<Rightarrow> string list list \<Rightarrow> goerr + node list" where
  "nodes_from keep seen [] = Inr []"
| "nodes_from keep seen (f # fs) =
     (if \<not> hostName (f ! 0) then Inl (errorf TargetFailed ''sinfo printed %q where a node name belongs'' [f ! 0])
      else if f ! 0 \<in> set seen then nodes_from keep seen fs
      else rbind (nodes_from keep (f ! 0 # seen) fs)
             (\<lambda>ns. Inr (if keep (node_of f) then node_of f # ns else ns)))"

definition nodes_argv :: "('ns, 'z) nodeset_lib_scheme \<Rightarrow> framed \<Rightarrow> 'ns option \<Rightarrow> string list \<Rightarrow> string list" where
  "nodes_argv L format ns states =
     [''sinfo'', ''--all'', ''--noheader'', ''--Node'', ''--format'', framed_format format] @
     (case ns of None \<Rightarrow> [] | Some s \<Rightarrow> if ns_is_empty L s then [] else [''--nodes'', ns_hostlist L s]) @
     (if states \<noteq> [] then [''--states'', join_str '','' states] else [])"

definition Nodes ::
  "('ns, 'z) nodeset_lib_scheme \<Rightarrow> 'w slurm_client \<Rightarrow> string \<Rightarrow> 'ns option \<Rightarrow> string list \<Rightarrow> ('w, goerr, node list) act" where
  "Nodes L c token ns states =
     (let format = newFramed token node_format in
      abind (sl_read c (nodes_argv L format ns states)) (\<lambda>r.
      abind (alift (framed_records format ''sinfo'' (rs_stdout r))) (\<lambda>recs.
        alift (nodes_from (stateFilter states) [] recs))))"

fun add_names :: "('ns, 'z) nodeset_lib_scheme \<Rightarrow> 'ns \<Rightarrow> string list \<Rightarrow> goerr + 'ns" where
  "add_names L s [] = Inr s"
| "add_names L s (x # xs) = rbind (ns_add L s x) (\<lambda>s'. add_names L s' xs)"

definition sl_NodeSet ::
  "('ns, 'z) nodeset_lib_scheme \<Rightarrow> 'w slurm_client \<Rightarrow> string \<Rightarrow> string list \<Rightarrow> ('w, goerr, 'ns) act" where
  "sl_NodeSet L c token states =
     abind (Nodes L c token None states) (\<lambda>ns. alift (add_names L (ns_new L) (map nd_name ns)))"

section \<open>Checking a node set\<close>

definition refuseAll :: "('ns, 'z) nodeset_lib_scheme \<Rightarrow> 'ns \<Rightarrow> goerr option" where
  "refuseAll L ns =
     first_error (\<lambda>x. if equal_fold x ''all''
        then Some (errorf Usage ''%q means every node to Slurm, not a host'' [x]) else None) (ns_expand L ns)"

fun listed_nodes :: "('ns, 'z) nodeset_lib_scheme \<Rightarrow> 'ns \<Rightarrow> string list \<Rightarrow> goerr + 'ns" where
  "listed_nodes L got [] = Inr got"
| "listed_nodes L got (l # ls) =
     (let name = trim_space l in
      if \<not> hostName name then Inl (errorf TargetFailed ''sinfo printed %q where a node name belongs'' [name])
      else case ns_add L got name of
        Inl e \<Rightarrow> Inl (Coded TargetFailed e)
      | Inr got' \<Rightarrow> listed_nodes L got' ls)"

definition CheckNodes :: "('ns, 'z) nodeset_lib_scheme \<Rightarrow> 'w slurm_client \<Rightarrow> 'ns \<Rightarrow> 'w \<Rightarrow> goerr option \<times> 'w" where
  "CheckNodes L c ns w =
     (case refuseAll L ns of Some e \<Rightarrow> (Some e, w)
      | None \<Rightarrow>
        (case readLines c [''sinfo'', ''--all'', ''--noheader'', ''--Node'', ''--format'', ''%N'', ''--nodes'', ns_hostlist L ns] w of
           (Inl e, w') \<Rightarrow> (Some e, w')
         | (Inr ls, w') \<Rightarrow>
             (case listed_nodes L (ns_new L) ls of
                Inl e \<Rightarrow> (Some e, w')
              | Inr got \<Rightarrow>
                  let extra = ns_diff L got ns; missing = ns_diff L ns got in
                  if \<not> ns_is_empty L extra then
                    (Some (errorf Usage ''Slurm reads %s as more nodes than were named, among them %s''
                       [ns_string L ns, ns_string L extra]), w')
                  else if \<not> ns_is_empty L missing then
                    (Some (errorf Usage ''Slurm does not know %s; leave these out'' [ns_string L missing]), w')
                  else (None, w'))))"

section \<open>Partitions and jobs\<close>

record partition =
  pt_name :: string
  pt_default :: bool
  pt_available :: string
  pt_groups :: string
  pt_nodes :: string
  pt_node_count :: string
  pt_default_time :: string
  pt_max_time :: string
  pt_memory :: string
  pt_cpus :: string
  pt_cpu_state :: string

definition partition_of :: "string list \<Rightarrow> partition" where
  "partition_of f =
     (let (name, dflt) = (case cut_suffix (f ! 0) ''*'' of Some n \<Rightarrow> (n, True) | None \<Rightarrow> (f ! 0, False)) in
      \<lparr> pt_name = name, pt_default = dflt, pt_available = f ! 1, pt_groups = f ! 2, pt_nodes = f ! 9,
        pt_node_count = f ! 3, pt_default_time = f ! 5, pt_max_time = f ! 4, pt_memory = f ! 6,
        pt_cpus = f ! 7, pt_cpu_state = f ! 8 \<rparr>)"

fun first_partitions :: "string list \<Rightarrow> partition list \<Rightarrow> partition list" where
  "first_partitions seen [] = []"
| "first_partitions seen (p # ps) =
     (if pt_name p \<in> set seen then first_partitions seen ps
      else p # first_partitions (pt_name p # seen) ps)"

definition Partitions :: "'w slurm_client \<Rightarrow> string \<Rightarrow> ('w, goerr, partition list) act" where
  "Partitions c name =
     abind (readRecords c ([''sinfo'', ''--all'', ''--noheader'', ''--format'', ''%P|%a|%g|%D|%l|%L|%m|%c|%C|%N''] @
             (if name \<noteq> [] then [''--partition'', name] else [])) 10)
       (\<lambda>recs. alift (Inr (first_partitions [] (map partition_of recs))))"

record job =
  jb_id :: string
  jb_user :: string
  jb_account :: string
  jb_partition :: string
  jb_state :: string
  jb_nodes :: string
  jb_node_count :: string
  jb_cpus :: string
  jb_time_limit :: string
  jb_runtime :: string
  jb_priority :: string
  jb_reason :: string
  jb_work_dir :: string
  jb_command :: string

definition job_of :: "string list \<Rightarrow> job" where
  "job_of f = \<lparr> jb_id = f ! 0, jb_user = f ! 1, jb_account = f ! 2, jb_partition = f ! 3, jb_state = f ! 4,
     jb_nodes = f ! 5, jb_node_count = f ! 6, jb_cpus = f ! 7, jb_time_limit = f ! 8, jb_runtime = f ! 9,
     jb_priority = f ! 10, jb_reason = f ! 11, jb_work_dir = f ! 12, jb_command = f ! 13 \<rparr>"

text \<open>
  The counts of \<open>CountJobs\<close>, per user, account and partition. The code collects them in a map and
  sorts: most jobs first, then by user, account and partition, so the order of the map does
  not matter. The key of the order has the count negated.
\<close>

type_synonym job_key = "string \<times> string \<times> string"

definition job_key :: "job \<Rightarrow> job_key" where
  "job_key j = (jb_user j, jb_account j, jb_partition j)"

definition CountJobs :: "job list \<Rightarrow> (job_key \<times> nat) list" where
  "CountJobs jobs =
     (let keys = map job_key jobs
      in sort_key (\<lambda>(k, n). (- int n, k)) (map (\<lambda>k. (k, count_list keys k)) (remdups keys)))"

record 'ns job_filter =
  jf_states :: "string list"
  jf_users :: "string list"
  jf_nodes :: "'ns option"

definition filter_args :: "('ns, 'z) nodeset_lib_scheme \<Rightarrow> 'ns job_filter \<Rightarrow> string list" where
  "filter_args L f =
     (if jf_states f \<noteq> [] then [''--states'', join_str '','' (jf_states f)] else []) @
     (if jf_users f \<noteq> [] then [''--user'', join_str '','' (jf_users f)] else []) @
     (case jf_nodes f of None \<Rightarrow> [] | Some s \<Rightarrow> if ns_is_empty L s then [] else [''--nodelist'', ns_hostlist L s])"

definition squeue :: "('ns, 'z) nodeset_lib_scheme \<Rightarrow> 'w slurm_client \<Rightarrow> framed \<Rightarrow> 'ns job_filter \<Rightarrow> ('w, goerr, string list list) act" where
  "squeue L c format f =
     abind (sl_read c ([''squeue'', ''--noheader'', ''--format'', framed_format format] @ filter_args L f))
       (\<lambda>r. alift (framed_records format ''squeue'' (rs_stdout r)))"

definition JobCounts ::
  "('ns, 'z) nodeset_lib_scheme \<Rightarrow> 'w slurm_client \<Rightarrow> string \<Rightarrow> 'ns job_filter \<Rightarrow> ('w, goerr, (job_key \<times> nat) list \<times> nat) act" where
  "JobCounts L c token f =
     abind (squeue L c (newFramed token [''%u'', ''%a'', ''%P'']) f) (\<lambda>recs.
       let jobs = map (\<lambda>f. job_of ([[], f ! 0, f ! 1, f ! 2] @ replicate 10 [])) recs
       in alift (Inr (CountJobs jobs, length jobs)))"

definition Jobs :: "('ns, 'z) nodeset_lib_scheme \<Rightarrow> 'w slurm_client \<Rightarrow> string \<Rightarrow> 'ns job_filter \<Rightarrow> ('w, goerr, job list) act" where
  "Jobs L c token f =
     abind (squeue L c (newFramed token
       [''%i'', ''%u'', ''%a'', ''%P'', ''%T'', ''%N'', ''%D'', ''%C'', ''%l'', ''%M'', ''%Q'', ''%r'', ''%Z'', ''%o'']) f)
       (\<lambda>recs. alift (Inr (map job_of recs)))"

section \<open>The accounting database\<close>

record accounting =
  at_job_id :: string
  at_user :: string
  at_account :: string
  at_state :: string
  at_exit_code :: string
  at_nodes :: string
  at_elapsed :: string
  at_start :: string
  at_end :: string
  at_submit :: string
  at_partition :: string

definition accounting_of :: "string list \<Rightarrow> accounting" where
  "accounting_of f = \<lparr> at_job_id = f ! 0, at_user = f ! 1, at_account = f ! 2, at_state = f ! 3,
     at_exit_code = f ! 4, at_nodes = f ! 5, at_elapsed = f ! 6, at_start = f ! 7, at_end = f ! 8,
     at_submit = f ! 9, at_partition = f ! 10 \<rparr>"

record accounting_filter =
  af_states :: "string list"
  af_users :: "string list"
  af_job_ids :: "string list"
  af_since :: int
  af_all_users :: bool

text \<open>The window is relative to the clock of the host sacct runs on, in whole seconds rounded up.\<close>

definition history_argv :: "accounting_filter \<Rightarrow> string list" where
  "history_argv f =
     [''sacct'', ''--noheader'', ''--parsable2'', ''--allocations'', ''--format'',
      ''jobid,user,account,state,exitcode,nodelist,elapsed,start,end,submit,partition''] @
     (if af_job_ids f \<noteq> [] then [''--jobs'', join_str '','' (af_job_ids f)]
      else [''--starttime'', ''now-'' @ itoa (ceil_seconds (if af_since f \<le> 0 then 3600 * Second else af_since f))]) @
     (if af_states f \<noteq> [] then [''--state'', join_str '','' (af_states f)] else []) @
     (if af_users f \<noteq> [] then [''--user'', join_str '','' (af_users f)]
      else if af_all_users f then [''--allusers''] else [])"

definition History :: "'w slurm_client \<Rightarrow> accounting_filter \<Rightarrow> ('w, goerr, accounting list) act" where
  "History c f = abind (readRecords c (history_argv f) 11) (\<lambda>recs. alift (Inr (map accounting_of recs)))"

record association =
  as_account :: string
  as_user :: string
  as_default_account :: string
  as_coordinators :: string
  as_organization :: string
  as_description :: string
  as_fair_share :: string
  as_max_jobs :: string
  as_max_submit :: string
  as_max_nodes :: string
  as_max_cpus :: string
  as_max_wall :: string

definition no_association :: association where
  "no_association = \<lparr> as_account = [], as_user = [], as_default_account = [], as_coordinators = [],
     as_organization = [], as_description = [], as_fair_share = [], as_max_jobs = [], as_max_submit = [],
     as_max_nodes = [], as_max_cpus = [], as_max_wall = [] \<rparr>"

definition where_name :: "string \<Rightarrow> string list" where
  "where_name v = (if v \<noteq> [] then [''where'', ''name='' @ v] else [])"

definition Accounts :: "'w slurm_client \<Rightarrow> string \<Rightarrow> ('w, goerr, association list) act" where
  "Accounts c name =
     abind (readRecords c ([''sacctmgr'', ''--noheader'', ''--parsable2'', ''list'', ''account'', ''withcoordinator'',
             ''format=Account,Description,Organization,Coordinators''] @ where_name name) 4)
       (\<lambda>recs. alift (Inr (map (\<lambda>f. no_association\<lparr>as_account := f ! 0, as_description := f ! 1,
          as_organization := f ! 2, as_coordinators := f ! 3\<rparr>) recs)))"

definition AccountLimits :: "'w slurm_client \<Rightarrow> string \<Rightarrow> ('w, goerr, association list) act" where
  "AccountLimits c account =
     abind (readRecords c ([''sacctmgr'', ''--noheader'', ''--parsable2'', ''--associations'', ''list'', ''account'',
             ''format=Account,User,MaxSubmit,MaxJobs,MaxNodes,MaxCPUs,MaxWall,Fairshare''] @ where_name account) 8)
       (\<lambda>recs. alift (Inr (map (\<lambda>f. no_association\<lparr>as_account := f ! 0, as_user := f ! 1, as_max_submit := f ! 2,
          as_max_jobs := f ! 3, as_max_nodes := f ! 4, as_max_cpus := f ! 5, as_max_wall := f ! 6,
          as_fair_share := f ! 7\<rparr>) recs)))"

definition Users :: "'w slurm_client \<Rightarrow> string \<Rightarrow> ('w, goerr, association list) act" where
  "Users c user =
     abind (readRecords c ([''sacctmgr'', ''--noheader'', ''--parsable2'', ''show'', ''user'', ''withassoc'',
             ''format=User,Account,DefaultAccount,Fairshare''] @ where_name user) 4)
       (\<lambda>recs. alift (Inr (map (\<lambda>f. no_association\<lparr>as_user := f ! 0, as_account := f ! 1,
          as_default_account := f ! 2, as_fair_share := f ! 3\<rparr>) recs)))"

definition Shares :: "'w slurm_client \<Rightarrow> string \<Rightarrow> ('w, goerr, association list) act" where
  "Shares c account =
     abind (readRecords c ([''sacctmgr'', ''--noheader'', ''--parsable2'', ''list'', ''account'', ''withassoc'',
             ''format=Account,User,Fairshare''] @ where_name account) 3)
       (\<lambda>recs. alift (Inr (map (\<lambda>f. no_association\<lparr>as_account := f ! 0, as_user := f ! 1,
          as_fair_share := f ! 2\<rparr>) recs)))"

end
