(* ===== verification/SlurmChange.thy ===== *)
theory SlurmChange
  imports SlurmQuery
begin

text \<open>
  The changes of \<open>internal/slurm\<close>: draining and resuming nodes, reading back what a failed update
  did, and the changes of the accounting database, each of which is confined to the cluster of
  the login node. The client caches the name of that cluster, so the operations that ask for it
  return the client.
\<close>

section \<open>Draining and resuming\<close>

definition sl_is_are :: "('ns, 'z) nodeset_lib_scheme \<Rightarrow> 'ns \<Rightarrow> string" where
  "sl_is_are L ns = (if ns_len L ns = 1 then ''is'' else ''are'')"

definition readBack ::
  "('ns, 'z) nodeset_lib_scheme \<Rightarrow> 'w slurm_client \<Rightarrow> string \<Rightarrow> 'ns \<Rightarrow> goerr \<Rightarrow> string \<Rightarrow> (node \<Rightarrow> bool) \<Rightarrow> 'w \<Rightarrow> goerr \<times> 'w" where
  "readBack L c token ns failed state changed w =
     (case Nodes L c token (Some ns) [] w of
        (Inl e, w') \<Rightarrow> (Wrap ''%w; the nodes could not be read back'' [state] [failed, e], w')
      | (Inr nodes, w') \<Rightarrow>
          let fin = foldl (\<lambda>s n. if changed n then add_quiet L s (nd_name n) else s) (ns_new L) nodes;
              rest = ns_diff L ns fin
          in (if ns_is_empty L fin then Wrap ''%w; afterwards none of %s is %s'' [ns_string L ns, state] [failed]
              else if ns_is_empty L rest then Wrap ''%w; afterwards all of %s are %s'' [ns_string L ns, state] [failed]
              else Wrap ''%w; afterwards %s %s %s, %s %s not''
                     [ns_string L fin, sl_is_are L fin, state, ns_string L rest, sl_is_are L rest] [failed], w'))"

definition drain_argv :: "('ns, 'z) nodeset_lib_scheme \<Rightarrow> 'ns \<Rightarrow> string \<Rightarrow> string list" where
  "drain_argv L ns reason =
     [''scontrol'', ''update'', ''nodename='' @ ns_hostlist L ns, ''state=drain'', ''reason='' @ reason]"

definition drained_with :: "string \<Rightarrow> node \<Rightarrow> bool" where
  "drained_with reason n \<longleftrightarrow> has_prefix (BaseState n) ''drain'' \<and> nd_reason n = reason"

definition Drain ::
  "('ns, 'z) nodeset_lib_scheme \<Rightarrow> 'w slurm_client \<Rightarrow> string \<Rightarrow> 'ns \<Rightarrow> string \<Rightarrow> 'w \<Rightarrow> goerr option \<times> 'w" where
  "Drain L c token ns reason w =
     (case ValidateReason reason of Some e \<Rightarrow> (Some e, w)
      | None \<Rightarrow>
        (case refuseAll L ns of Some e \<Rightarrow> (Some e, w)
         | None \<Rightarrow>
           (case sl_run c (drain_argv L ns reason) w of
              (None, w') \<Rightarrow> (None, w')
            | (Some e, w') \<Rightarrow>
                (case readBack L c token ns e ''drained with this reason'' (drained_with reason) w' of
                   (e', w'') \<Rightarrow> (Some e', w'')))))"

definition resume_argv :: "('ns, 'z) nodeset_lib_scheme \<Rightarrow> 'ns \<Rightarrow> string list" where
  "resume_argv L ns = [''scontrol'', ''update'', ''nodename='' @ ns_hostlist L ns, ''state=resume'']"

definition in_production :: "node \<Rightarrow> bool" where
  "in_production n \<longleftrightarrow>
     \<not> (has_prefix (BaseState n) ''drain'' \<or> BaseState n = ''down'' \<or> has_prefix (BaseState n) ''fail'')"

definition Resume ::
  "('ns, 'z) nodeset_lib_scheme \<Rightarrow> 'w slurm_client \<Rightarrow> string \<Rightarrow> 'ns \<Rightarrow> 'w \<Rightarrow> goerr option \<times> 'w" where
  "Resume L c token ns w =
     (case refuseAll L ns of Some e \<Rightarrow> (Some e, w)
      | None \<Rightarrow>
        (case sl_run c (resume_argv L ns) w of
           (None, w') \<Rightarrow> (None, w')
         | (Some e, w') \<Rightarrow>
             (case readBack L c token ns e ''back in production'' in_production w' of
                (e', w'') \<Rightarrow> (Some e', w''))))"

section \<open>The cluster\<close>

fun cluster_line :: "string list \<Rightarrow> (goerr + string) option" where
  "cluster_line [] = None"
| "cluster_line (l # ls) =
     (case cut l ''='' of None \<Rightarrow> cluster_line ls
      | Some (key, v) \<Rightarrow>
          if \<not> equal_fold (trim_space key) ''ClusterName'' then cluster_line ls
          else let value = trim_space v in
            Some (case ValidateName ''cluster'' value of
                    Some e \<Rightarrow> Inl (errorf TargetFailed ''scontrol reports the cluster name %q'' [value])
                  | None \<Rightarrow> Inr value))"

definition Cluster :: "'w slurm_client \<Rightarrow> 'w \<Rightarrow> (goerr + string) \<times> 'w slurm_client \<times> 'w" where
  "Cluster c w =
     (if sl_cluster c \<noteq> [] then (Inr (sl_cluster c), c, w)
      else
        (case readLines c [''scontrol'', ''show'', ''config''] w of
           (Inl e, w') \<Rightarrow> (Inl e, c, w')
         | (Inr ls, w') \<Rightarrow>
             (case cluster_line ls of
                None \<Rightarrow> (Inl (errorf TargetFailed ''scontrol show config on %s names no ClusterName''
                           [target_string (sl_target c)]), c, w')
              | Some (Inl e) \<Rightarrow> (Inl e, c, w')
              | Some (Inr v) \<Rightarrow> (Inr v, c\<lparr>sl_cluster := v\<rparr>, w'))))"

definition Organization :: "'w slurm_client \<Rightarrow> string \<Rightarrow> string" where
  "Organization c organization = cmp_or [organization, sl_organization c, ''default'']"

text \<open>A change that needs the cluster: it is asked for first, and nothing is changed without it.\<close>

definition in_cluster ::
  "'w slurm_client \<Rightarrow> ('w slurm_client \<Rightarrow> string \<Rightarrow> 'w \<Rightarrow> goerr option \<times> 'w) \<Rightarrow> 'w \<Rightarrow> goerr option \<times> 'w slurm_client \<times> 'w" where
  "in_cluster c change w =
     (case Cluster c w of (Inl e, c', w') \<Rightarrow> (Some e, c', w')
      | (Inr cluster, c', w') \<Rightarrow> (case change c' cluster w' of (e, w'') \<Rightarrow> (e, c', w'')))"

definition add_account_argv :: "string \<Rightarrow> string \<Rightarrow> string \<Rightarrow> string \<Rightarrow> string list" where
  "add_account_argv name cluster description organization =
     [''sacctmgr'', ''--immediate'', ''add'', ''account'', name, ''cluster='' @ cluster,
      ''description='' @ description, ''organization='' @ organization]"

definition AddAccount ::
  "'w slurm_client \<Rightarrow> string \<Rightarrow> string \<Rightarrow> string \<Rightarrow> 'w \<Rightarrow> goerr option \<times> 'w slurm_client \<times> 'w" where
  "AddAccount c name organization description =
     in_cluster c (\<lambda>c' cluster. sl_run c' (add_account_argv name cluster
       (cmp_or [description, name]) (Organization c' organization)))"

definition AddCoordinators :: "'w slurm_client \<Rightarrow> string \<Rightarrow> string list \<Rightarrow> 'w \<Rightarrow> goerr option \<times> 'w" where
  "AddCoordinators c account users =
     sl_run c [''sacctmgr'', ''--immediate'', ''add'', ''coordinator'', ''account='' @ account,
       ''names='' @ join_str '','' users]"

definition SetFairShare :: "'w slurm_client \<Rightarrow> string \<Rightarrow> string \<Rightarrow> 'w \<Rightarrow> goerr option \<times> 'w slurm_client \<times> 'w" where
  "SetFairShare c account v =
     in_cluster c (\<lambda>c' cluster. sl_run c' [''sacctmgr'', ''--immediate'', ''modify'', ''account'', ''where'',
       ''name='' @ account, ''cluster='' @ cluster, ''set'', ''fairshare='' @ v])"

definition HasPosixUser :: "'w slurm_client \<Rightarrow> string \<Rightarrow> ('w, goerr, bool) act" where
  "HasPosixUser c user w =
     (case exec_pair c (reader c) [''getent'', ''passwd'', user] w of
        ((r, err), w') \<Rightarrow>
          (case r of
             Some res \<Rightarrow>
               if rs_exit_code res = 2 then (Inr False, w')
               else (case err of Some e \<Rightarrow> (Inl e, w')
                     | None \<Rightarrow>
                       let s = trim_space (rs_stdout res);
                           entry = (case cut s '':'' of Some (a, _) \<Rightarrow> a | None \<Rightarrow> s)
                       in (Inr (entry = user), w'))
           | None \<Rightarrow> (case err of Some e \<Rightarrow> (Inl e, w') | None \<Rightarrow> (Inl (Leaf ''no result'' []), w'))))"

section \<open>Adding a user\<close>

record user_addition =
  ua_user :: string
  ua_cluster :: string
  ua_account :: string
  ua_default_account :: string
  ua_exists :: bool
  ua_current :: string
  ua_associate :: "string list"

text \<open>What the records say of the user: his accounts, and his default account.\<close>

definition user_accounts :: "string \<Rightarrow> string list list \<Rightarrow> string list" where
  "user_accounts user recs = map (\<lambda>f. f ! 1) (filter (\<lambda>f. f ! 0 = user) recs)"

definition user_default :: "string \<Rightarrow> string list list \<Rightarrow> string" where
  "user_default user recs =
     foldl (\<lambda>cur f. if f ! 0 = user \<and> f ! 2 \<noteq> [] then f ! 2 else cur) [] recs"

definition plan_addition ::
  "string \<Rightarrow> string \<Rightarrow> string \<Rightarrow> string \<Rightarrow> string list list \<Rightarrow> user_addition" where
  "plan_addition user cluster account defaultAccount recs =
     (let associated = user_accounts user recs; current = user_default user recs;
          base = \<lparr> ua_user = user, ua_cluster = cluster, ua_account = account, ua_default_account = [],
                   ua_exists = (associated \<noteq> []), ua_current = current, ua_associate = [] \<rparr>
      in if associated = [] then
           (let d = cmp_or [defaultAccount, account]
            in base\<lparr>ua_default_account := d, ua_associate := account # (if d \<noteq> account then [d] else [])\<rparr>)
         else
           (let assoc1 = (if account \<in> set associated then [] else [account])
            in if defaultAccount \<noteq> [] \<and> defaultAccount \<noteq> current then
                 base\<lparr>ua_default_account := defaultAccount,
                      ua_associate := assoc1 @ (if defaultAccount \<noteq> account \<and> defaultAccount \<notin> set associated
                                                then [defaultAccount] else [])\<rparr>
               else base\<lparr>ua_associate := assoc1\<rparr>))"

definition PlanUserAdd ::
  "'w slurm_client \<Rightarrow> string \<Rightarrow> string \<Rightarrow> string \<Rightarrow> 'w \<Rightarrow> (goerr + user_addition) \<times> 'w slurm_client \<times> 'w" where
  "PlanUserAdd c user account defaultAccount w =
     (case Cluster c w of (Inl e, c', w') \<Rightarrow> (Inl e, c', w')
      | (Inr cluster, c', w') \<Rightarrow>
        let account = cmp_or [account, sl_default_account c', ''default''] in
        (case readRecords c' [''sacctmgr'', ''--noheader'', ''--parsable2'', ''show'', ''user'', ''withassoc'',
            ''format=User,Account,DefaultAccount'', ''where'', ''name='' @ user, ''cluster='' @ cluster] 3 w' of
           (Inl e, w'') \<Rightarrow> (Inl e, c', w'')
         | (Inr recs, w'') \<Rightarrow> (Inr (plan_addition user cluster account defaultAccount recs), c', w'')))"

definition addition_changes :: "user_addition \<Rightarrow> bool" where
  "addition_changes u \<longleftrightarrow> ua_associate u \<noteq> [] \<or> ua_default_account u \<noteq> []"

definition plural_word :: "nat \<Rightarrow> string \<Rightarrow> string" where
  "plural_word n w = (if n = 1 then w else w @ ''s'')"

definition and_words :: "string list \<Rightarrow> string" where
  "and_words ws =
     (if length ws \<le> 1 then concat ws else join_str '', '' (butlast ws) @ '' and '' @ last ws)"

definition addition_text :: "user_addition \<Rightarrow> string" where
  "addition_text u =
     (let accounts = plural_word (length (ua_associate u)) ''account'' @ '' '' @ and_words (ua_associate u) in
      (if ua_exists u then
         (if ua_associate u \<noteq> [] then ''associate '' @ ua_user u @ '' with the '' @ accounts
          else ''leave '' @ ua_user u @ '' associated with '' @ ua_account u) @
         (if ua_default_account u \<noteq> [] then
            '' and make '' @ ua_default_account u @ '' the default account of '' @ ua_user u @ '' instead of '' @ ua_current u
          else [])
       else
         ''create the Slurm user '' @ ua_user u @ '' with the '' @ accounts @
         (if length (ua_associate u) > 1 then '', '' @ ua_default_account u @ '' the default'' else [])) @
      '' in the Slurm cluster '' @ ua_cluster u)"

definition set_default_argv :: "string \<Rightarrow> string \<Rightarrow> string \<Rightarrow> string list" where
  "set_default_argv user account cluster =
     [''sacctmgr'', ''--immediate'', ''modify'', ''user'', ''where'', ''name='' @ user,
      ''cluster='' @ cluster, ''set'', ''defaultaccount='' @ account]"

definition add_user_argvs :: "user_addition \<Rightarrow> string list list" where
  "add_user_argvs u =
     (if \<not> ua_exists u then
        [[''sacctmgr'', ''--immediate'', ''add'', ''user'', ''names='' @ ua_user u,
          ''account='' @ join_str '','' (ua_associate u), ''defaultaccount='' @ ua_default_account u,
          ''cluster='' @ ua_cluster u]]
      else
        (if ua_associate u \<noteq> [] then
           [[''sacctmgr'', ''--immediate'', ''add'', ''user'', ''names='' @ ua_user u,
             ''account='' @ join_str '','' (ua_associate u), ''cluster='' @ ua_cluster u]] else []) @
        (if ua_default_account u \<noteq> [] then
           [set_default_argv (ua_user u) (ua_default_account u) (ua_cluster u)] else []))"

text \<open>The commands of an addition, one after the other, until one fails.\<close>

fun run_all :: "'w slurm_client \<Rightarrow> string list list \<Rightarrow> 'w \<Rightarrow> goerr option \<times> 'w" where
  "run_all c [] w = (None, w)"
| "run_all c (argv # argvs) w =
     (case sl_run c argv w of (Some e, w') \<Rightarrow> (Some e, w') | (None, w') \<Rightarrow> run_all c argvs w')"

definition AddUser :: "'w slurm_client \<Rightarrow> user_addition \<Rightarrow> 'w \<Rightarrow> goerr option \<times> 'w" where
  "AddUser c u = run_all c (add_user_argvs u)"

definition SetDefaultAccount :: "'w slurm_client \<Rightarrow> string \<Rightarrow> string \<Rightarrow> 'w \<Rightarrow> goerr option \<times> 'w slurm_client \<times> 'w" where
  "SetDefaultAccount c user account =
     in_cluster c (\<lambda>c' cluster. sl_run c' (set_default_argv user account cluster))"

end
