(* ===== verification/SlurmJobs.thy ===== *)
theory SlurmJobs
  imports SlurmQuery
begin

text \<open>
  \<open>internal/slurm/jobcheck.go\<close>: what Slurm says about the nodes that are to be powered off.
\<close>

section \<open>Verdicts\<close>

datatype jobVerdict = unreported | idle | strange | busy

definition verdict_rank :: "jobVerdict \<Rightarrow> nat" where
  "verdict_rank v = (case v of unreported \<Rightarrow> 0 | idle \<Rightarrow> 1 | strange \<Rightarrow> 2 | busy \<Rightarrow> 3)"

instantiation jobVerdict :: linorder
begin

definition less_eq_jobVerdict :: "jobVerdict \<Rightarrow> jobVerdict \<Rightarrow> bool" where
  "less_eq_jobVerdict v u \<longleftrightarrow> verdict_rank v \<le> verdict_rank u"

definition less_jobVerdict :: "jobVerdict \<Rightarrow> jobVerdict \<Rightarrow> bool" where
  "less_jobVerdict v u \<longleftrightarrow> verdict_rank v < verdict_rank u"

instance
  by standard (auto simp: less_eq_jobVerdict_def less_jobVerdict_def verdict_rank_def split: jobVerdict.splits)

end

definition busy_states :: "string list" where
  "busy_states = [''allocated'', ''alloc'', ''mixed'', ''mix'', ''completing'', ''comp'',
     ''draining'', ''drng'', ''failing'', ''failg'']"

definition idle_states :: "string list" where
  "idle_states = [''idle'', ''drained'', ''drain'', ''down'', ''future'', ''futr'', ''planned'', ''plnd'',
     ''reserved'', ''resv'', ''power_down'', ''powering_down'', ''powered_down'', ''pow_dn'']"

fun classify_parts :: "jobVerdict \<Rightarrow> string list \<Rightarrow> jobVerdict" where
  "classify_parts v [] = v"
| "classify_parts v (p # ps) =
     (if p \<in> set busy_states then busy
      else if p \<in> set idle_states then classify_parts v ps
      else classify_parts strange ps)"

definition state_base :: "string \<Rightarrow> string" where
  "state_base state = trim_right_set (stateFlags @ ''+'') (to_lower state)"

definition classifyState :: "string \<Rightarrow> jobVerdict" where
  "classifyState state =
     (if state_base state = [] then strange
      else classify_parts idle (split_char (CHR ''+'') (state_base state)))"

section \<open>Asking Slurm\<close>

record 'ns job_state =
  js_busy :: 'ns
  js_strange :: 'ns
  js_states :: "string list"
  js_missing :: 'ns

definition Idle :: "('ns, 'z) nodeset_lib_scheme \<Rightarrow> 'ns job_state \<Rightarrow> bool" where
  "Idle L s \<longleftrightarrow> ns_is_empty L (js_busy s) \<and> ns_is_empty L (js_strange s) \<and> ns_is_empty L (js_missing s)"

definition hostlistLimit :: nat where "hostlistLimit = 16 * 2 ^ 10"

text \<open>The verdict and the state kept for each name: the busiest line counts.\<close>

type_synonym verdicts = "(jobVerdict \<times> string) go_map"

definition verdict_of :: "verdicts \<Rightarrow> string \<Rightarrow> jobVerdict" where
  "verdict_of m x = (case find_key m x of None \<Rightarrow> unreported | Some (v, _) \<Rightarrow> v)"

definition state_of :: "verdicts \<Rightarrow> string \<Rightarrow> string" where
  "state_of m x = (case find_key m x of None \<Rightarrow> [] | Some (_, s) \<Rightarrow> s)"

definition note_line :: "(string \<Rightarrow> bool) \<Rightarrow> verdicts \<Rightarrow> string \<Rightarrow> verdicts" where
  "note_line member m line =
     (case go_fields line of [] \<Rightarrow> m
      | name # rest \<Rightarrow>
          if \<not> member name then m
          else let state = (case rest of [] \<Rightarrow> [] | s # _ \<Rightarrow> s); v = classifyState state
            in if v > verdict_of m name then (name, (v, state)) # m else m)"

text \<open>The nodes sorted by their verdict, in the order of the set.\<close>

fun sort_verdicts ::
  "('ns, 'z) nodeset_lib_scheme \<Rightarrow> verdicts \<Rightarrow> 'ns job_state \<Rightarrow> string list \<Rightarrow> 'ns job_state" where
  "sort_verdicts L m out [] = out"
| "sort_verdicts L m out (x # xs) =
     sort_verdicts L m
       (case verdict_of m x of
          unreported \<Rightarrow> out\<lparr>js_missing := add_quiet L (js_missing out) x\<rparr>
        | strange \<Rightarrow> out\<lparr>js_strange := add_quiet L (js_strange out) x,
             js_states := (if state_of m x \<in> set (js_states out) then js_states out else js_states out @ [state_of m x])\<rparr>
        | busy \<Rightarrow> out\<lparr>js_busy := add_quiet L (js_busy out) x\<rparr>
        | idle \<Rightarrow> out) xs"

definition job_state_of :: "('ns, 'z) nodeset_lib_scheme \<Rightarrow> 'ns \<Rightarrow> string list \<Rightarrow> 'ns job_state" where
  "job_state_of L nodes ls =
     sort_verdicts L (foldl (note_line (ns_contains L nodes)) [] ls)
       \<lparr> js_busy = ns_new L, js_strange = ns_new L, js_states = [], js_missing = ns_new L \<rparr>
       (ns_expand L nodes)"

definition jobcheck_argv :: "('ns, 'z) nodeset_lib_scheme \<Rightarrow> 'ns \<Rightarrow> string list" where
  "jobcheck_argv L nodes =
     [''sinfo'', ''--all'', ''-h'', ''-N'', ''-o'', ''%N %T''] @
     (if length (ns_hostlist L nodes) \<le> hostlistLimit then [''-n'', ns_hostlist L nodes] else [])"

definition JobCheck :: "('ns, 'z) nodeset_lib_scheme \<Rightarrow> 'w slurm_client \<Rightarrow> 'ns \<Rightarrow> ('w, goerr, 'ns job_state) act" where
  "JobCheck L c nodes =
     abind (sl_read (c\<lparr>sl_timeout := 30 * Second\<rparr>) (jobcheck_argv L nodes))
       (\<lambda>r. alift (Inr (job_state_of L nodes (Lines r))))"

definition job_state_text :: "('ns, 'z) nodeset_lib_scheme \<Rightarrow> (string \<Rightarrow> string) \<Rightarrow> 'ns job_state \<Rightarrow> string" where
  "job_state_text L quote_go s =
     join_str ''; ''
       ((if ns_is_empty L (js_busy s) then []
         else [ns_string L (js_busy s) @ '' '' @ (if ns_len L (js_busy s) = 1 then ''is'' else ''are'') @ '' running Slurm jobs'']) @
        (if ns_is_empty L (js_strange s) then []
         else [''Slurm reports '' @ ns_string L (js_strange s) @ '' in a state not known to be free of jobs ('' @
               join_str '', '' (map quote_go (js_states s)) @ '')'']) @
        (if ns_is_empty L (js_missing s) then []
         else [''Slurm did not report '' @ ns_string L (js_missing s) @ '', so whether '' @
               (if ns_len L (js_missing s) = 1 then ''it runs'' else ''they run'') @
               '' jobs is not known (check that the Slurm and inventory names agree)'']))"

end
