(* ===== verification/SlurmProps.thy ===== *)
theory SlurmProps
  imports SlurmChange SlurmJobs "HOL-Library.Multiset"
begin

text \<open>
  What the Slurm client promises: the nodes Slurm lists are read back exactly, a set is accepted
  only when Slurm reads it as that set, a node set counts as idle only when Slurm said so of every
  node, a reason that is accepted is seen again, and a change of the accounting database names
  the cluster it is confined to.
\<close>

section \<open>Reading back\<close>

lemma noReason_filled [simp]: "noReason [] = True"
  by (simp add: noReason_def trim_space_def trim_left_space.simps trim_right_space.simps)

lemma nodes_from_keeps:
  assumes "\<forall>r\<in>set recs. hostName (r ! 0)" and "distinct (map (\<lambda>r. r ! 0) recs)"
    and "\<forall>r\<in>set recs. r ! 0 \<notin> set seen"
  shows "nodes_from keep seen recs = Inr (filter keep (map node_of recs))"
  using assms
proof (induction recs arbitrary: seen)
  case (Cons r recs)
  then have "nodes_from keep (r ! 0 # seen) recs = Inr (filter keep (map node_of recs))"
    by (intro Cons.IH) (force simp: image_iff)+
  with Cons.prems show ?case by simp
qed simp

lemma sl_read_ok:
  assumes "reader c (sl_target c) (slurm_request c argv) w = (Inr r, w')"
    and "check_result (sl_escape c) (hd argv) r = None"
  shows "sl_read c argv w = (Inr r, w')"
  using assms by (simp add: sl_read_def exec_act_def exec_pair_def)


section \<open>Checking a node set\<close>

lemma hostName_plain: "hostName x \<Longrightarrow> plain_name x"
  by (auto simp: hostName_def plain_name_def list_all_iff)

lemma refuseAll_None: "refuseAll L ns = None \<longleftrightarrow> (\<forall>x\<in>set (ns_expand L ns). \<not> equal_fold x ''all'')"
  by (auto simp: refuseAll_def first_error_None split: if_splits)

context nodeset_contract
begin

lemma keys_listed:
  "listed_nodes L got ls = Inr u \<Longrightarrow>
     ns_keys L key u = ns_keys L key got \<union> key ` trim_space ` set ls \<and> (\<forall>l\<in>set ls. hostName (trim_space l))"
proof (induction ls arbitrary: got)
  case (Cons l ls)
  then obtain got' where g: "hostName (trim_space l)" "ns_add L got (trim_space l) = Inr got'"
      "listed_nodes L got' ls = Inr u"
    by (auto simp: Let_def split: if_splits sum.splits)
  with Cons.IH keys_add_plain [OF hostName_plain [OF g(1)] g(2)] show ?case by auto
qed simp

lemma CheckNodes_same:
  assumes "CheckNodes L c ns w = (None, w')"
  obtains ls where
    "readLines c [''sinfo'', ''--all'', ''--noheader'', ''--Node'', ''--format'', ''%N'', ''--nodes'', ns_hostlist L ns] w = (Inr ls, w')"
    and "refuseAll L ns = None" and "key ` trim_space ` set ls = ns_keys L key ns"
proof -
  from assms obtain ls got where *: "refuseAll L ns = None"
      "readLines c [''sinfo'', ''--all'', ''--noheader'', ''--Node'', ''--format'', ''%N'', ''--nodes'', ns_hostlist L ns] w = (Inr ls, w')"
      "listed_nodes L (ns_new L) ls = Inr got"
      "ns_is_empty L (ns_diff L got ns)" "ns_is_empty L (ns_diff L ns got)"
    by (auto simp: CheckNodes_def Let_def split: option.splits prod.splits sum.splits if_splits)
  have "key ` trim_space ` set ls = ns_keys L key ns"
    using keys_listed [OF *(3)] *(4,5) by (auto simp: diff_empty_iff keys_new)
  with * that show thesis by blast
qed

end

text \<open>
  C36. A node set is accepted only when Slurm, asked for it, lists the hosts of the set and no
  other, and no host of it is spelled like Slurm's word for every node.
\<close>
theorem CheckNodes_exact:
  assumes "nodeset_contract L key" and "CheckNodes L c ns w = (None, w')"
  shows "(\<forall>x\<in>set (ns_expand L ns). \<not> equal_fold x ''all'') \<and>
    (\<exists>ls. readLines c [''sinfo'', ''--all'', ''--noheader'', ''--Node'', ''--format'', ''%N'', ''--nodes'', ns_hostlist L ns] w = (Inr ls, w') \<and>
      key ` trim_space ` set ls = ns_keys L key ns)"
  using nodeset_contract.CheckNodes_same [OF assms] refuseAll_None by metis

section \<open>Free of jobs\<close>

text \<open>A line of sinfo about a node: its first word is the name, its second the state.\<close>

definition line_about :: "string \<Rightarrow> string \<Rightarrow> bool" where
  "line_about x line \<longleftrightarrow> (case go_fields line of [] \<Rightarrow> False | name # _ \<Rightarrow> name = x)"

definition line_state :: "string \<Rightarrow> string" where
  "line_state line = (case go_fields line of _ # s # _ \<Rightarrow> s | _ \<Rightarrow> [])"

lemma note_line_verdict:
  "verdict_of (note_line member m line) x =
     (if line_about x line \<and> member x then max (verdict_of m x) (classifyState (line_state line)) else verdict_of m x)"
  by (auto simp: note_line_def line_about_def line_state_def verdict_of_def find_key_def Let_def max_def
      split: list.splits option.splits)

lemma verdict_fold:
  "verdict_of (foldl (note_line member) m ls) x =
     foldl (\<lambda>v l. if line_about x l \<and> member x then max v (classifyState (line_state l)) else v) (verdict_of m x) ls"
  by (induction ls arbitrary: m) (simp_all add: note_line_verdict)

lemma unreported_least [simp]: "unreported \<le> v"
  by (cases v) (simp_all add: less_eq_jobVerdict_def verdict_rank_def)

lemma fold_max_idle:
  "foldl (\<lambda>v l. if P l then max v (f l) else v) v ls \<le> idle \<longleftrightarrow> v \<le> idle \<and> (\<forall>l\<in>set ls. P l \<longrightarrow> f l \<le> idle)"
  by (induction ls arbitrary: v) auto

lemma fold_max_unreported:
  "foldl (\<lambda>v l. if P l then max v (f l) else v) v ls = unreported \<longleftrightarrow>
     v = unreported \<and> (\<forall>l\<in>set ls. P l \<longrightarrow> f l = (unreported :: jobVerdict))"
  by (induction ls arbitrary: v) (auto simp: max_def antisym)

lemma classifyState_reported: "classifyState s \<noteq> unreported"
proof -
  have "v \<noteq> unreported \<Longrightarrow> classify_parts v ps \<noteq> unreported" for v ps
    by (induction v ps rule: classify_parts.induct) auto
  then show ?thesis by (simp add: classifyState_def)
qed

context nodeset_contract
begin

lemma sort_verdicts_clear:
  assumes "set xs \<subseteq> set (ns_expand L nodes)" and "Idle L (sort_verdicts L m out xs)"
  shows "Idle L out \<and> (\<forall>x\<in>set xs. verdict_of m x = idle)"
  using assms
proof (induction xs arbitrary: out)
  case (Cons x xs)
  have x: "x \<in> set (ns_expand L nodes)" using Cons.prems by simp
  note add = keys_add_quiet_expanded [OF x]
  let ?out = "case verdict_of m x of
      unreported \<Rightarrow> out\<lparr>js_missing := add_quiet L (js_missing out) x\<rparr>
    | strange \<Rightarrow> out\<lparr>js_strange := add_quiet L (js_strange out) x,
         js_states := (if state_of m x \<in> set (js_states out) then js_states out else js_states out @ [state_of m x])\<rparr>
    | busy \<Rightarrow> out\<lparr>js_busy := add_quiet L (js_busy out) x\<rparr>
    | idle \<Rightarrow> out"
  have "Idle L ?out \<and> (\<forall>x\<in>set xs. verdict_of m x = idle)"
    using Cons.prems by (intro Cons.IH) auto
  moreover from this have "verdict_of m x = idle"
    by (cases "verdict_of m x") (auto simp: Idle_def keys_empty_iff add)
  ultimately show ?case by simp
qed simp

lemma job_state_idle:
  assumes "Idle L (job_state_of L nodes ls)" and x: "x \<in> set (ns_expand L nodes)"
  shows "(\<exists>l\<in>set ls. line_about x l) \<and> (\<forall>l\<in>set ls. line_about x l \<longrightarrow> classifyState (line_state l) = idle)"
proof -
  let ?v = "verdict_of (foldl (note_line (ns_contains L nodes)) [] ls) x"
  have "?v = idle"
    using sort_verdicts_clear [OF order.refl assms(1) [unfolded job_state_of_def]] x by simp
  moreover have "ns_contains L nodes x" using keys_in [OF x] by (simp add: contains_keys)
  moreover have "verdict_of [] x = unreported" by (simp add: verdict_of_def find_key_def)
  ultimately have *: "foldl (\<lambda>v l. if line_about x l then max v (classifyState (line_state l)) else v) unreported ls = idle"
    by (simp add: verdict_fold)
  have "\<exists>l\<in>set ls. line_about x l"
    using * fold_max_unreported [of "line_about x" "\<lambda>l. classifyState (line_state l)" unreported ls] by auto
  moreover have "classifyState (line_state l) \<le> idle" if "l \<in> set ls" "line_about x l" for l
    using * fold_max_idle [of "line_about x" "\<lambda>l. classifyState (line_state l)" unreported ls] that by auto
  moreover have "v \<le> idle \<Longrightarrow> v \<noteq> unreported \<Longrightarrow> v = idle" for v :: jobVerdict
    by (cases v) (simp_all add: less_eq_jobVerdict_def verdict_rank_def)
  ultimately show ?thesis using classifyState_reported by blast
qed

end


section \<open>Counts\<close>

lemma CountJobs_entries: "set (CountJobs jobs) = (\<lambda>k. (k, count_list (map job_key jobs) k)) ` job_key ` set jobs"
  by (simp add: CountJobs_def Let_def)

lemma CountJobs_mset:
  "mset (CountJobs jobs) = image_mset (\<lambda>k. (k, count_list (map job_key jobs) k)) (mset (remdups (map job_key jobs)))"
  by (simp add: CountJobs_def Let_def)

lemma CountJobs_distinct: "distinct (map fst (CountJobs jobs))"
proof -
  have "mset (map fst (CountJobs jobs)) = mset (remdups (map job_key jobs))"
    by (simp only: mset_map CountJobs_mset image_mset.compositionality comp_def fst_conv image_mset.identity id_apply)
  then show ?thesis by (metis distinct_remdups mset_eq_imp_distinct_iff)
qed

lemma CountJobs_total: "sum_list (map snd (CountJobs jobs)) = length jobs"
proof -
  let ?ks = "map job_key jobs"
  have "mset (map snd (CountJobs jobs)) = mset (map (count_list ?ks) (remdups ?ks))"
    by (simp only: mset_map CountJobs_mset image_mset.compositionality comp_def snd_conv)
  then have "sum_list (map snd (CountJobs jobs)) = sum_list (map (count_list ?ks) (remdups ?ks))"
    by (metis sum_mset_sum_list)
  also have "\<dots> = sum (count_list ?ks) (set ?ks)"
    by (simp add: sum_list_distinct_conv_sum_set)
  also have "\<dots> = length jobs" using sum_count_set [of ?ks "set ?ks"] by simp
  finally show ?thesis .
qed

lemma CountJobs_sorted: "sorted (map (\<lambda>(k, n). (- int n, k)) (CountJobs jobs))"
  by (simp add: CountJobs_def Let_def)

text \<open>
  The counts of the jobs: one for each user, account and partition there is a job of, each the
  number of its jobs, every job in exactly one of them, the most jobs first and equal counts in
  the order of the names.
\<close>
theorem CountJobs_exact:
  shows "distinct (map fst (CountJobs jobs)) \<and>
    set (CountJobs jobs) = (\<lambda>k. (k, length (filter (\<lambda>j. job_key j = k) jobs))) ` job_key ` set jobs \<and>
    sum_list (map snd (CountJobs jobs)) = length jobs \<and>
    sorted (map (\<lambda>(k, n). (- int n, k)) (CountJobs jobs))"
proof -
  have "count_list (map job_key jobs) k = length (filter (\<lambda>j. job_key j = k) jobs)" for k
    by (induction jobs) auto
  then show ?thesis
    using CountJobs_distinct [of jobs] CountJobs_total [of jobs] CountJobs_entries [of jobs] CountJobs_sorted [of jobs]
    by simp
qed

section \<open>A reason is seen again\<close>

lemma noReason_trim: "noReason (trim_space r) = noReason r"
  by (simp add: noReason_def)

lemma check_runes_None:
  "check_runes control bar rs = None \<longleftrightarrow> (\<forall>r\<in>set rs. \<not> is_control r \<and> r \<noteq> Some 124)"
  by (induction rs) auto

lemma ValidateReason_None:
  assumes "ValidateReason reason = None"
  shows "\<not> noReason reason" and "valid_utf8 reason"
    and "length (runes (trim_space reason)) \<le> MaxReasonLength"
    and "\<forall>r\<in>set (runes reason). \<not> is_control r \<and> r \<noteq> Some 124"
  using assms by (auto simp: ValidateReason_def Let_def noReason_trim check_runes_None split: if_splits)

text \<open>An ASCII byte of a valid string is a rune of it.\<close>

lemma cont_high: "cont c \<Longrightarrow> 128 \<le> (of_char c :: nat)"
  by (simp add: cont_def byte_in_def)

lemma second_high: "second_ok b c \<Longrightarrow> 128 \<le> (of_char c :: nat)"
  by (auto simp: second_ok_def cont_def byte_in_def split: if_splits)

lemma first_rune_Some:
  assumes "first_rune s = (Some n, k)" and "s \<noteq> []"
  shows "0 < k \<and> (\<forall>c\<in>set (take k s). (of_char c :: nat) < 128 \<longrightarrow> n = of_char c)"
  using assms
  by (cases s) (auto simp: Let_def dest: cont_high second_high split: if_splits list.splits)

lemma ascii_rune:
  assumes "valid_utf8 s" and "c \<in> set s" and "(of_char c :: nat) < 128"
  shows "Some (of_char c) \<in> set (runes s)"
  using assms(1,2)
proof (induction s rule: runes.induct)
  case (1 s)
  have ne: "s \<noteq> []" using "1.prems" by auto
  obtain r k where f: "first_rune s = (r, k)" by force
  have rs: "runes s = r # runes (drop (max 1 k) s)" using ne f by (subst runes.simps) simp
  then have "r \<noteq> None" "valid_utf8 (drop (max 1 k) s)"
    using "1.prems"(1) unfolding valid_utf8_def by (metis list.set_intros(1), metis list.set_intros(2))
  from \<open>r \<noteq> None\<close> obtain n where n: "r = Some n" by (metis option.exhaust)
  have k: "0 < k" and low: "\<forall>c\<in>set (take k s). (of_char c :: nat) < 128 \<longrightarrow> n = of_char c"
    using first_rune_Some [OF f [unfolded n] ne] by auto
  then have mx: "max 1 k = k" by simp
  have "c \<in> set (take k s) \<or> c \<in> set (drop k s)"
    using "1.prems"(2) by (metis Un_iff append_take_drop_id set_append)
  then show ?case
  proof
    assume "c \<in> set (take k s)"
    then have "n = of_char c" using low assms(3) by blast
    then show ?thesis by (simp add: rs n)
  next
    assume "c \<in> set (drop k s)"
    then show ?thesis
      using "1.IH" [OF ne] \<open>valid_utf8 (drop (max 1 k) s)\<close> unfolding rs f snd_conv mx by auto
  qed
qed

text \<open>
  C37. A reason that is accepted is one line without a bar and says something: written to a node
  and printed again as its last field, the node counts as drained with this reason.
\<close>
theorem accepted_reason_is_seen:
  assumes "ValidateReason reason = None" and "length f = 9" and "has_prefix (BaseState (node_of (f @ [reason]))) ''drain''"
  shows "drained_with reason (node_of (f @ [reason])) \<and> CHR ''|'' \<notin> set reason \<and> CHR 0x0A \<notin> set reason \<and>
    length (runes (trim_space reason)) \<le> 200"
proof -
  note ok = ValidateReason_None [OF assms(1)]
  have "nd_reason (node_of (f @ [reason])) = reason"
    using ok(1) assms(2) by (simp add: node_of_def Let_def nth_append)
  moreover have "CHR ''|'' \<notin> set reason"
    using ascii_rune [OF ok(2), of "CHR ''|''"] ok(4) by auto
  moreover have "CHR 0x0A \<notin> set reason"
    using ascii_rune [OF ok(2), of "CHR 0x0A"] ok(4) by (force simp: is_control_def)
  ultimately show ?thesis using assms(3) ok(3) by (simp add: drained_with_def MaxReasonLength_def)
qed

section \<open>Changes are confined to the cluster\<close>

text \<open>
  The requests a client has changed something with: a runner that keeps what it was asked to run,
  beside one that only reads and keeps nothing.
\<close>

definition logging :: "'w runner \<Rightarrow> ('w \<times> string list list) runner" where
  "logging run t rq w = (case run t rq (fst w) of (r, v) \<Rightarrow> (r, (v, snd w @ [rq_argv rq])))"

definition silent :: "'w runner \<Rightarrow> ('w \<times> string list list) runner" where
  "silent run t rq w = (case run t rq (fst w) of (r, v) \<Rightarrow> (r, (v, snd w)))"

definition logs :: "('w \<times> string list list) slurm_client \<Rightarrow> bool" where
  "logs c \<longleftrightarrow> (\<exists>run. sl_runner c = logging run) \<and> (\<exists>run. sl_reader c = Some (silent run))"

lemma exec_log:
  "fst (exec_act c run argv w) = r \<Longrightarrow> snd (snd (exec_act c (silent run') argv v)) = snd v"
  by (auto simp: exec_act_def exec_pair_def silent_def split: prod.splits sum.splits option.splits)

lemma sl_read_log:
  assumes "logs c" and "sl_read c argv w = (r, w')"
  shows "snd w' = snd w"
  using assms by (auto simp: logs_def sl_read_def reader_def exec_act_def exec_pair_def silent_def
      split: prod.splits sum.splits option.splits)

lemma readLines_log:
  assumes "logs c" and "readLines c argv w = (r, w')"
  shows "snd w' = snd w"
  using assms(2) sl_read_log [OF assms(1)]
  by (auto simp: readLines_def abind_def alift_def split: prod.splits sum.splits)

lemma sl_run_log:
  assumes "logs c" and "sl_run c argv w = (e, w')"
  shows "snd w' = snd w @ [argv]"
  using assms by (auto simp: logs_def sl_run_def exec_act_def exec_pair_def logging_def slurm_request_def no_request_def
      split: prod.splits sum.splits option.splits)

lemma cluster_line_valid: "cluster_line ls = Some (Inr v) \<Longrightarrow> validName v"
  by (induction ls) (auto simp: Let_def ValidateName_def split: option.splits if_splits)

text \<open>What asking for the cluster does: it is known afterwards, and nothing was changed.\<close>

lemma Cluster_known:
  assumes "logs c" and "sl_cluster c = [] \<or> validName (sl_cluster c)" and "Cluster c w = (r, c', w')"
  shows "logs c' \<and> snd w' = snd w \<and> (\<forall>v. r = Inr v \<longrightarrow> sl_cluster c' = v \<and> validName v)"
proof (cases "sl_cluster c = []")
  case True
  then show ?thesis
    using assms readLines_log [OF assms(1)] cluster_line_valid
    by (auto simp: Cluster_def logs_def split: prod.splits sum.splits option.splits)
next
  case False
  then show ?thesis using assms by (auto simp: Cluster_def)
qed

lemma in_cluster_confined:
  assumes "logs c" and "sl_cluster c = [] \<or> validName (sl_cluster c)"
    and "in_cluster c (\<lambda>c' cluster. sl_run c' (f c' cluster)) w = (e, c', w')"
  shows "snd w' = snd w \<and> e \<noteq> None \<or> validName (sl_cluster c') \<and> snd w' = snd w @ [f c' (sl_cluster c')]"
proof -
  obtain r c1 w1 where C: "Cluster c w = (r, c1, w1)" by (metis prod_cases3)
  note K = Cluster_known [OF assms(1,2) C]
  show ?thesis
  proof (cases r)
    case (Inl err)
    with C K assms(3) show ?thesis by (auto simp: in_cluster_def)
  next
    case (Inr cluster)
    obtain e2 w2 where R: "sl_run c1 (f c1 cluster) w1 = (e2, w2)" by (metis prod.exhaust)
    with C Inr assms(3) have "c' = c1" "w' = w2" by (auto simp: in_cluster_def)
    with K Inr sl_run_log [OF _ R] show ?thesis by auto
  qed
qed


section \<open>Adding a user\<close>

lemma plan_new:
  "user_accounts user recs = [] \<Longrightarrow> plan_addition user cluster account dflt recs =
     \<lparr> ua_user = user, ua_cluster = cluster, ua_account = account, ua_default_account = cmp_or [dflt, account],
       ua_exists = False, ua_current = user_default user recs,
       ua_associate = account # (if cmp_or [dflt, account] \<noteq> account then [cmp_or [dflt, account]] else []) \<rparr>"
  by (simp add: plan_addition_def Let_def)

lemma plan_unchanged:
  assumes "account \<in> set (user_accounts user recs)" and "dflt = [] \<or> dflt = user_default user recs"
  shows "\<not> addition_changes (plan_addition user cluster account dflt recs)"
  using assms by (auto simp: plan_addition_def addition_changes_def Let_def)

lemma plan_associates:
  assumes "plan_addition user cluster account dflt recs = u"
  shows "set (ua_associate u) \<inter> set (user_accounts user recs) = {} \<and> distinct (ua_associate u) \<and>
    (account \<in> set (user_accounts user recs) \<or> account \<in> set (ua_associate u)) \<and>
    (dflt \<noteq> [] \<longrightarrow> cmp_or [ua_default_account u, ua_current u] = dflt)"
proof (cases "user_accounts user recs = []")
  case True
  then show ?thesis by (auto simp: assms [symmetric] plan_new [OF True])
next
  case False
  show ?thesis
  proof (cases "dflt \<noteq> [] \<and> dflt \<noteq> user_default user recs")
    case True
    then show ?thesis using False assms [symmetric] by (simp add: plan_addition_def Let_def)
  next
    case False
    with \<open>user_accounts user recs \<noteq> []\<close> show ?thesis
      using assms [symmetric] by (auto simp: plan_addition_def Let_def)
  qed
qed

text \<open>
  A user's plan is exact: what it associates is what was missing, so that afterwards, when the
  records show the associations and the default account it asks for, planning the same
  addition changes nothing.
\<close>
theorem plan_converges:
  assumes "plan_addition user cluster account dflt recs = u"
    and "set (user_accounts user recs') = set (user_accounts user recs) \<union> set (ua_associate u)"
    and "user_default user recs' = cmp_or [ua_default_account u, ua_current u]"
  shows "\<not> addition_changes (plan_addition user cluster account dflt recs') \<and>
    set (ua_associate u) \<inter> set (user_accounts user recs) = {} \<and> distinct (ua_associate u) \<and>
    account \<in> set (user_accounts user recs') \<and>
    (dflt \<noteq> [] \<longrightarrow> user_default user recs' = dflt)"
proof -
  note p = plan_associates [OF assms(1)]
  have a: "account \<in> set (user_accounts user recs')" using p assms(2) by auto
  have d: "dflt = [] \<or> dflt = user_default user recs'" using p assms(3) by auto
  from p plan_unchanged [OF a d] a d show ?thesis by auto
qed

section \<open>A login node\<close>

text \<open>A client whose runner gives one answer to everything.\<close>

definition answer_with :: "string \<Rightarrow> cmd_result" where
  "answer_with out = \<lparr> rs_target = no_target, rs_exit_code = 0, rs_stdout = out, rs_stderr = [],
     rs_truncated = False, rs_err = None \<rparr>"

definition sample_slurm :: "string \<Rightarrow> unit slurm_client" where
  "sample_slurm out = \<lparr> sl_runner = (\<lambda>t rq w. (Inr (answer_with out), w)), sl_reader = None,
     sl_target = no_target, sl_organization = [], sl_default_account = [], sl_timeout = 0,
     sl_cluster = [], sl_escape = (\<lambda>s. s) \<rparr>"

definition sample_record :: "string list" where
  "sample_record = [''n1'', ''idle'', ''main'', ''8'', ''64000'', ''f'', ''(null)'', ''root'', ''Unknown'', ''a | b'' @ [CHR 0x0A]]"


theorem CheckNodes_exact_witness:
  "fst (CheckNodes name_list (sample_slurm (''n1'' @ [CHR 0x0A])) [''n1''] ()) = None \<and> \<not> equal_fold ''n1'' ''all''"
proof -
  let ?c = "sample_slurm (''n1'' @ [CHR 0x0A])"
  have c: "fst (CheckNodes name_list ?c [''n1''] ()) = None" by code_simp
  then obtain w where C: "CheckNodes name_list ?c [''n1''] () = (None, w)" by (metis prod.collapse)
  have e: "''n1'' \<in> set (ns_expand name_list [''n1''])" by code_simp
  from CheckNodes_exact [OF names.nodeset_contract_axioms C] e c show ?thesis by blast
qed


theorem accepted_reason_is_seen_witness:
  "drained_with ''disk broken'' (node_of ([''n1'', ''drained'', [], [], [], [], [], [], []] @ [''disk broken'']))"
proof -
  have v: "ValidateReason ''disk broken'' = None" by code_simp
  have l: "length [''n1'', ''drained'', [], [], [], [], [], [], []] = 9" by simp
  have b: "has_prefix (BaseState (node_of ([''n1'', ''drained'', [], [], [], [], [], [], []] @ [''disk broken'']))) ''drain''"
    by code_simp
  show ?thesis using accepted_reason_is_seen [OF v l b] by blast
qed

text \<open>A client that keeps what it changed, on a login node of the cluster \<open>c1\<close>.\<close>

definition sample_logged :: "(unit \<times> string list list) slurm_client" where
  "sample_logged =
     \<lparr> sl_runner = logging (\<lambda>t rq w. (Inr (answer_with []), w)),
       sl_reader = Some (silent (\<lambda>t rq w. (Inr (answer_with ''ClusterName = c1''), w))),
       sl_target = no_target, sl_organization = [], sl_default_account = [], sl_timeout = 0,
       sl_cluster = [], sl_escape = (\<lambda>s. s) \<rparr>"

lemma sample_cluster_line: "cluster_line [''ClusterName = c1''] = Some (Inr ''c1'')"
proof -
  have "cut ''ClusterName = c1'' ''='' = Some (''ClusterName '', '' c1'')" by code_simp
  moreover have "trim_space '' c1'' = ''c1''" "trim_space ''ClusterName '' = ''ClusterName''" by code_simp+
  moreover have "equal_fold ''ClusterName'' ''ClusterName''" "ValidateName ''cluster'' ''c1'' = None" by code_simp+
  ultimately show ?thesis by simp
qed

lemmas sample_run_defs = sl_run_def sl_read_def exec_act_def exec_pair_def reader_def sample_logged_def
  silent_def logging_def check_result_def Failed_def slurm_request_def no_request_def

lemma sample_lines:
  "readLines sample_logged [''scontrol'', ''show'', ''config''] ((), []) = (Inr [''ClusterName = c1''], ((), []))"
proof -
  have l: "Lines (answer_with ''ClusterName = c1'') = [''ClusterName = c1'']" by code_simp
  show ?thesis
    by (simp add: readLines_def sample_run_defs abind_def alift_def l) (simp add: answer_with_def)
qed

lemma sample_Cluster:
  "Cluster sample_logged ((), []) = (Inr ''c1'', sample_logged\<lparr>sl_cluster := ''c1''\<rparr>, ((), []))"
  unfolding Cluster_def sample_lines prod.case sum.case sample_cluster_line option.case
  by (simp add: sample_logged_def)

lemma sample_run: "sl_run (sample_logged\<lparr>sl_cluster := v\<rparr>) argv ((), []) = (None, (), [argv])"
  by (simp add: sample_run_defs answer_with_def)


theorem plan_converges_witness:
  "\<not> addition_changes (plan_addition ''u1'' ''c1'' ''a1'' [] [[''u1'', ''a1'', ''a1'']])"
proof -
  let ?u = "plan_addition ''u1'' ''c1'' ''a1'' [] []"
  have a: "set (user_accounts ''u1'' [[''u1'', ''a1'', ''a1'']]) = set (user_accounts ''u1'' []) \<union> set (ua_associate ?u)"
    by code_simp
  have d: "user_default ''u1'' [[''u1'', ''a1'', ''a1'']] = cmp_or [ua_default_account ?u, ua_current ?u]"
    by code_simp
  from plan_converges [OF refl a d] show ?thesis by blast
qed

end
