(* ===== verification/Dhcp.thy ===== *)
theory Dhcp
  imports HostName ApiTypes "HOL-Library.AList"
begin

text \<open>
  \<open>internal/dhcp\<close>: reading an ISC dhcpd configuration. The file is split into tokens, the tokens
  are parsed, and an include is parsed in its place. A parser is the record \<open>parse_env\<close>, which
  does not change while a file is read, and \<open>parse_state\<close>, which does; the nesting depth is an
  argument. The content of an included file is a function of its name: the code reads each file
  once.
\<close>

section \<open>Tokens\<close>

datatype token_kind = TokWord | TokString | TokComment | TokSemicolon | TokOpen | TokClose | TokComma

record token =
  tk_kind :: token_kind
  tk_text :: string
  tk_line :: nat
  tk_first :: bool

abbreviation dq :: char where "dq \<equiv> CHR 0x22"
abbreviation backslash_c :: char where "backslash_c \<equiv> CHR 0x5C"
abbreviation nl :: char where "nl \<equiv> CHR 0x0A"

definition blank_char :: "char \<Rightarrow> bool" where
  "blank_char c \<longleftrightarrow> c \<in> {CHR '' '', CHR 0x09, CHR 0x0D, CHR 0x0C, CHR 0x0B}"

definition word_char :: "char \<Rightarrow> bool" where
  "word_char c \<longleftrightarrow> \<not> blank_char c \<and> c \<noteq> nl \<and> c \<noteq> CHR ''#'' \<and> c \<noteq> dq \<and>
     c \<notin> set '';{},''"

text \<open>What is left of a quoted string: its text, the newlines in it, and what follows it.\<close>

fun quoted :: "string \<Rightarrow> (string \<times> nat \<times> string) option" where
  "quoted [] = None"
| "quoted (c # s) =
     (if c = dq then Some ([], 0, s)
      else case s of [] \<Rightarrow> None
        | d # s' \<Rightarrow>
            if c = backslash_c \<and> (d = dq \<or> d = backslash_c)
            then map_option (\<lambda>(t, n, r). (d # t, n, r)) (quoted s')
            else map_option (\<lambda>(t, n, r). (c # t, if c = nl then Suc n else n, r)) (quoted s))"

declare quoted.simps [simp del]

lemma quoted_shorter: "quoted s = Some (t, n, r) \<Longrightarrow> length r < length s"
proof (induction s arbitrary: t n r rule: quoted.induct)
  case (2 c s)
  then show ?case
    by (fastforce simp: quoted.simps(2) [of c s] split: if_splits list.splits)
qed (simp add: quoted.simps)

definition punctuation :: "char \<Rightarrow> token_kind option" where
  "punctuation c =
     (if c = CHR '';'' then Some TokSemicolon else if c = CHR ''{'' then Some TokOpen
      else if c = CHR ''}'' then Some TokClose else if c = CHR '','' then Some TokComma else None)"

definition mk_token :: "token_kind \<Rightarrow> string \<Rightarrow> nat \<Rightarrow> bool \<Rightarrow> token" where
  "mk_token k t line first = \<lparr> tk_kind = k, tk_text = t, tk_line = line, tk_first = first \<rparr>"

function tokenize :: "nat \<Rightarrow> bool \<Rightarrow> string \<Rightarrow> goerr + token list" where
  "tokenize line first [] = Inr []"
| "tokenize line first (c # s) =
     (if c = nl then tokenize (Suc line) True s
      else if blank_char c then tokenize line first s
      else if c = CHR ''#'' then
        rbind (tokenize line False (dropWhile (\<lambda>d. d \<noteq> nl) s)) (\<lambda>ts.
          Inr (mk_token TokComment (trim_space (takeWhile (\<lambda>d. d \<noteq> nl) s)) line first # ts))
      else if c = dq then
        (case quoted s of
           None \<Rightarrow> Inl (Leaf ''line %d: a quoted string is not closed'' [nat_digits line])
         | Some (t, n, r) \<Rightarrow>
             rbind (tokenize (line + n) False r) (\<lambda>ts. Inr (mk_token TokString t line first # ts)))
      else case punctuation c of
        Some k \<Rightarrow> rbind (tokenize line False s) (\<lambda>ts. Inr (mk_token k [c] line first # ts))
      | None \<Rightarrow> rbind (tokenize line False (dropWhile word_char s)) (\<lambda>ts.
          Inr (mk_token TokWord (c # takeWhile word_char s) line first # ts)))"
  by pat_completeness auto
termination
  by (relation "measure (\<lambda>(line, first, s). length s)")
    (auto simp: le_imp_less_Suc length_dropWhile_le dest: quoted_shorter)

declare tokenize.simps(2) [simp del]

section \<open>Statements\<close>

record parse_env =
  pe_file :: string
  pe_chain :: "string list"
  pe_fetch :: "(string \<Rightarrow> goerr + string) option"

definition parse_error :: "parse_env \<Rightarrow> nat \<Rightarrow> string \<Rightarrow> string list \<Rightarrow> goerr" where
  "parse_error E line fmt fmt_args =
     Wrap ''%s: %w'' [if pe_file E \<noteq> [] then pe_file E @ '':'' @ nat_digits line else ''line '' @ nat_digits line]
       [Leaf fmt fmt_args]"

text \<open>\<open>join\<close> renders the words of a statement.\<close>

fun join_rest :: "token list \<Rightarrow> string" where
  "join_rest [] = []"
| "join_rest (t # ts) = (if tk_kind t = TokComma then '','' else '' '' @ tk_text t) @ join_rest ts"

definition join_tokens :: "token list \<Rightarrow> string" where
  "join_tokens ts = (case ts of [] \<Rightarrow> []
     | t # ts \<Rightarrow> (if tk_kind t = TokComma then '','' else tk_text t) @ join_rest ts)"

definition describe :: "token list \<Rightarrow> string" where
  "describe ts = (if ts = [] then ''(empty)'' else join_tokens ts)"

fun read_record :: "parse_env \<Rightarrow> nat \<Rightarrow> token list \<Rightarrow> goerr + (token list \<times> token list)" where
  "read_record E line [] = Inl (parse_error E line ''the record type opened here is not closed'' [])"
| "read_record E line (t # ts) =
     (if tk_kind t = TokClose then Inr ([t], ts)
      else if tk_kind t \<in> {TokWord, TokString, TokComma}
      then rbind (read_record E line ts) (\<lambda>(r, rest). Inr (t # r, rest))
      else if tk_kind t = TokComment then read_record E line ts
      else Inl (parse_error E (tk_line t) ''unexpected %q in a record type'' [tk_text t]))"

lemma read_record_shorter: "read_record E line ts = Inr (r, rest) \<Longrightarrow> length rest < length ts"
  by (induction ts arbitrary: r rest) (fastforce simp: rbind_Inr_iff split: if_splits)+

definition ends_with_equals :: "token list \<Rightarrow> bool" where
  "ends_with_equals ws \<longleftrightarrow> ws \<noteq> [] \<and> tk_kind (last ws) = TokWord \<and> tk_text (last ws) = ''=''"

function statement ::
  "parse_env \<Rightarrow> nat \<Rightarrow> token list \<Rightarrow> token list \<Rightarrow> goerr + (token list \<times> token_kind \<times> token list)" where
  "statement E start ws [] = Inl (parse_error E start ''the statement %s is not ended with ;'' [describe ws])"
| "statement E start ws (t # ts) =
     (case tk_kind t of
        TokComment \<Rightarrow> statement E start ws ts
      | TokSemicolon \<Rightarrow> Inr (ws, TokSemicolon, ts)
      | TokClose \<Rightarrow> Inl (parse_error E start ''the statement %s is not ended with ;'' [describe ws])
      | TokOpen \<Rightarrow>
          if ends_with_equals ws then
            (case read_record E (tk_line t) ts of Inl e \<Rightarrow> Inl e
             | Inr (r, rest) \<Rightarrow> statement E start (ws @ t # r) rest)
          else if ws = [] then Inl (parse_error E (tk_line t) ''a block opens without a statement'' [])
          else Inr (ws, TokOpen, ts)
      | _ \<Rightarrow> statement E start (ws @ [t]) ts)"
  by pat_completeness auto
termination
  by (relation "measure (\<lambda>(E, start, ws, ts). length ts)") (auto dest!: read_record_shorter)

declare statement.simps [simp del]

lemma statement_shorter: "statement E start ws ts = Inr (us, k, rest) \<Longrightarrow> length rest < length ts"
proof (induction ts arbitrary: ws rule: length_induct)
  case (1 ts)
  have IH: "statement E start ws' ts' = Inr (us, k, rest) \<Longrightarrow> length ts' < length ts \<Longrightarrow> length rest < length ts'" for ws' ts'
    using "1.IH" by blast
  show ?case
  proof (cases ts)
    case Nil
    with "1.prems" show ?thesis by (simp add: statement.simps)
  next
    case (Cons t r)
    have step: "length rest < length ts" if "statement E start ws' ts' = Inr (us, k, rest)" "length ts' \<le> length r" for ws' ts'
      using IH [OF that(1)] that(2) Cons by simp
    show ?thesis
      using "1.prems" step read_record_shorter [of E "tk_line t" r] unfolding Cons
      by (cases "tk_kind t")
        (auto simp: statement.simps(2) [of E start ws t r] less_imp_le split: if_splits sum.splits prod.splits)
  qed
qed

section \<open>Host declarations\<close>

record dhcp_host =
  ho_name :: string
  ho_macs :: "string list"
  ho_address :: string
  ho_filename :: string
  ho_client_identifier :: string
  ho_options :: "string go_map"
  ho_comments :: "string list"

definition set_option :: "string \<Rightarrow> string \<Rightarrow> dhcp_host \<Rightarrow> dhcp_host" where
  "set_option k v h = h\<lparr>ho_options := AList.update k v (ho_options h)\<rparr>"

text \<open>One statement of a host declaration; \<open>ws\<close> is not empty.\<close>

definition apply_statement :: "parse_env \<Rightarrow> dhcp_host \<Rightarrow> token list \<Rightarrow> goerr + dhcp_host" where
  "apply_statement E h ws =
     (let line = tk_line (hd ws); keyword = tk_text (hd ws); as = tl ws;
          vals = map tk_text (filter (\<lambda>t. tk_kind t \<noteq> TokComma) as)
      in if tk_kind (hd ws) \<noteq> TokWord then
           Inl (parse_error E line ''unexpected %s in the host declaration %q'' [describe ws, ho_name h])
         else if keyword = ''include'' then
           Inl (parse_error E line ''include inside the host declaration %q is not supported'' [ho_name h])
         else if keyword = ''hardware'' then
           (if length vals \<noteq> 2 \<or> length as \<noteq> 2 then
              Inl (parse_error E line ''hardware in the host declaration %q needs a type and an address, not %s''
                [ho_name h, describe as])
            else if vals ! 0 = ''ethernet'' then Inr (h\<lparr>ho_macs := ho_macs h @ [to_lower (vals ! 1)]\<rparr>)
            else Inr (set_option (''hardware '' @ vals ! 0) (vals ! 1) h))
         else if keyword = ''fixed-address'' then
           (if vals = [] then
              Inl (parse_error E line ''fixed-address in the host declaration %q names no address'' [ho_name h])
            else if ho_address h \<noteq> [] then
              Inl (parse_error E line ''the host declaration %q has more than one fixed-address'' [ho_name h])
            else Inr (h\<lparr>ho_address := join_str '', '' vals\<rparr>))
         else if keyword = ''filename'' then
           (if length as \<noteq> 1 then
              Inl (parse_error E line ''filename in the host declaration %q needs one value, not %s'' [ho_name h, describe as])
            else Inr (h\<lparr>ho_filename := tk_text (hd as)\<rparr>))
         else if keyword = ''option'' then
           (if length as < 2 \<or> tk_kind (hd as) \<noteq> TokWord then
              Inl (parse_error E line ''option in the host declaration %q needs a name and a value, not %s''
                [ho_name h, describe as])
            else if tk_text (hd as) = ''dhcp-client-identifier'' then
              Inr (h\<lparr>ho_client_identifier := join_tokens (tl as)\<rparr>)
            else Inr (set_option (tk_text (hd as)) (join_tokens (tl as)) h))
         else Inr (set_option keyword (join_tokens as) h))"

text \<open>The body of a host declaration, up to the brace that closes it.\<close>

function host_body :: "parse_env \<Rightarrow> nat \<Rightarrow> dhcp_host \<Rightarrow> token list \<Rightarrow> goerr + (dhcp_host \<times> token list)" where
  "host_body E line h [] = Inl (parse_error E line ''the host declaration %q is not closed'' [ho_name h])"
| "host_body E line h (t # ts) =
     (if tk_kind t \<in> {TokComment, TokSemicolon} then host_body E line h ts
      else if tk_kind t = TokClose then Inr (h, ts)
      else if tk_kind t = TokOpen then
        Inl (parse_error E (tk_line t) ''unexpected { in the host declaration %q'' [ho_name h])
      else
        (case statement E (tk_line t) [] (t # ts) of
           Inl e \<Rightarrow> Inl (Wrap ''in the host declaration %q: %w'' [ho_name h] [e])
         | Inr (ws, k, rest) \<Rightarrow>
             if tk_kind (hd ws) = TokWord \<and> tk_text (hd ws) = ''host'' then
               Inl (parse_error E (tk_line t) ''the host declaration %s is inside the host declaration %q''
                 [describe (tl ws), ho_name h])
             else if k = TokOpen then
               Inl (parse_error E (tk_line t) ''unexpected block %s in the host declaration %q'' [describe ws, ho_name h])
             else
               (case apply_statement E h ws of Inl e \<Rightarrow> Inl e
                | Inr h' \<Rightarrow> host_body E line h' rest)))"
  by pat_completeness auto
termination
  by (relation "measure (\<lambda>(E, line, h, ts). length ts)") (auto dest!: statement_shorter)

declare host_body.simps [simp del]

lemma host_body_shorter: "host_body E line h ts = Inr (h', rest) \<Longrightarrow> length rest < length ts"
proof (induction ts arbitrary: h rule: length_induct)
  case (1 ts)
  show ?case
  proof (cases ts)
    case Nil
    with "1.prems" show ?thesis by (simp add: host_body.simps)
  next
    case (Cons t r)
    have step: "length rest < length ts" if "host_body E line g ts' = Inr (h', rest)" "length ts' < length ts" for g ts'
      using "1.IH" that by (meson less_trans)
    show ?thesis
      using "1.prems" step statement_shorter [of E "tk_line t" "[]" "t # r"] unfolding Cons
      by (auto simp: host_body.simps(2) [of E line h t r] split: if_splits sum.splits prod.splits)
  qed
qed

definition new_host :: "string \<Rightarrow> string list \<Rightarrow> dhcp_host" where
  "new_host name comments = \<lparr> ho_name = name, ho_macs = [], ho_address = [], ho_filename = [],
     ho_client_identifier = [], ho_options = [], ho_comments = comments \<rparr>"

definition host_decl :: "parse_env \<Rightarrow> token list \<Rightarrow> string list \<Rightarrow> token list \<Rightarrow> goerr + (dhcp_host \<times> token list)" where
  "host_decl E ws comments ts =
     (let line = tk_line (hd ws) in
      if length ws \<noteq> 2 \<or> tk_kind (ws ! 1) \<notin> {TokWord, TokString} \<or> tk_text (ws ! 1) = [] then
        Inl (parse_error E line ''a host declaration needs exactly one name, not %s'' [describe (tl ws)])
      else host_body E line (new_host (tk_text (ws ! 1)) comments) ts)"

section \<open>Blocks and includes\<close>

record parse_state =
  ps_toks :: "token list"
  ps_comments :: "string list"
  ps_comment_line :: nat
  ps_hosts :: "dhcp_host list"
  ps_files :: nat

definition maxFiles :: nat where "maxFiles = 256"
definition maxDepth :: nat where "maxDepth = 64"

definition note_comment :: "token \<Rightarrow> parse_state \<Rightarrow> parse_state" where
  "note_comment t st =
     (if \<not> tk_first t then st
      else st\<lparr>ps_comments := (if ps_comments st = [] \<or> tk_line t \<noteq> ps_comment_line st + 1 then [] else ps_comments st) @ [tk_text t],
              ps_comment_line := tk_line t\<rparr>)"

definition keyword_of :: "token list \<Rightarrow> string" where
  "keyword_of ws = (if tk_kind (hd ws) = TokWord then tk_text (hd ws) else [])"

text \<open>The checks of an include, and the content of the file it names.\<close>

definition include_file :: "parse_env \<Rightarrow> nat \<Rightarrow> token list \<Rightarrow> nat \<Rightarrow> goerr + (string \<times> string)" where
  "include_file E depth ws files =
     (let line = tk_line (hd ws) in
      if length ws \<noteq> 2 \<or> tk_kind (ws ! 1) \<noteq> TokString then
        Inl (parse_error E line ''include needs one quoted file name, not %s'' [describe (tl ws)])
      else let file = tk_text (ws ! 1) in
        case pe_fetch E of
          None \<Rightarrow> Inl (parse_error E line ''include %q cannot be followed here'' [file])
        | Some fetch \<Rightarrow>
            if \<not> has_prefix file ''/'' then
              Inl (parse_error E line ''include %q is relative; name the file by its absolute path'' [file])
            else if file \<in> set (pe_chain E @ [pe_file E]) then
              Inl (parse_error E line ''include %q includes itself'' [file])
            else if Suc files > maxFiles then
              Inl (parse_error E line ''more than %d files are included'' [nat_digits maxFiles])
            else if depth > maxDepth then
              Inl (parse_error E line ''includes nest more than %d deep'' [nat_digits maxDepth])
            else case fetch file of
              Inl e \<Rightarrow> Inl (Wrap ''include %q: %w'' [file, nat_digits line] [e])
            | Inr data \<Rightarrow> Inr (file, data))"

definition tokenize_file :: "string \<Rightarrow> string \<Rightarrow> goerr + token list" where
  "tokenize_file file data =
     (case tokenize 1 True data of
        Inl e \<Rightarrow> Inl (if file \<noteq> [] then Wrap ''%s: %w'' [file] [e] else e)
      | Inr ts \<Rightarrow> Inr ts)"

text \<open>
  \<open>block\<close>, with \<open>open\<close> the line of the brace, 0 for a file, and \<open>run\<close> of an included file in
  its place. The argument \<open>k\<close> bounds the steps in one block; with more of it than there are tokens
  it is never used up.
\<close>

function block :: "nat \<Rightarrow> parse_env \<Rightarrow> nat \<Rightarrow> nat \<Rightarrow> parse_state \<Rightarrow> (goerr + parse_state) option" where
  "block k E depth open st =
     (if depth > maxDepth then
        Some (Inl (parse_error E open ''blocks nest more than %d deep'' [nat_digits maxDepth]))
      else case k of 0 \<Rightarrow> None | Suc k' \<Rightarrow>
        (case ps_toks st of
           [] \<Rightarrow> if open > 0 then Some (Inl (parse_error E open ''the block opened here is not closed'' []))
                 else Some (Inr st)
         | t # ts \<Rightarrow>
             if tk_kind t = TokComment then block k' E depth open (note_comment t st\<lparr>ps_toks := ts\<rparr>)
             else if tk_kind t = TokClose then
               (if open = 0 then Some (Inl (parse_error E (tk_line t) ''} without a matching {'' []))
                else Some (Inr (st\<lparr>ps_toks := ts\<rparr>)))
             else if tk_kind t = TokSemicolon then block k' E depth open (st\<lparr>ps_toks := ts\<rparr>)
             else
               let comments = (if ps_comments st \<noteq> [] \<and> tk_line t = ps_comment_line st + 1 then ps_comments st else []) in
               (case statement E (tk_line t) [] (t # ts) of
                  Inl e \<Rightarrow> Some (Inl e)
                | Inr (ws, end_kind, rest) \<Rightarrow>
                    let st = st\<lparr>ps_comments := [], ps_toks := rest\<rparr>; keyword = keyword_of ws in
                    if keyword = ''host'' \<and> end_kind = TokOpen then
                      (case host_decl E ws comments rest of Inl e \<Rightarrow> Some (Inl e)
                       | Inr (h, rest') \<Rightarrow>
                           block k' E depth open (st\<lparr>ps_toks := rest', ps_hosts := ps_hosts st @ [h]\<rparr>))
                    else if keyword = ''host'' then
                      Some (Inl (parse_error E (tk_line t) ''the host declaration %s has no body'' [describe (tl ws)]))
                    else if end_kind = TokOpen then
                      (case block (Suc (length rest)) E (Suc depth) (tk_line t) st of
                         Some (Inr st') \<Rightarrow> block k' E depth open st' | r \<Rightarrow> r)
                    else if keyword = ''include'' then
                      (case include_file E depth ws (ps_files st) of Inl e \<Rightarrow> Some (Inl e)
                       | Inr (file, data) \<Rightarrow>
                           (case tokenize_file file data of Inl e \<Rightarrow> Some (Inl e)
                            | Inr toks \<Rightarrow>
                                (case block (Suc (length toks))
                                    \<lparr> pe_file = file, pe_chain = pe_chain E @ [pe_file E], pe_fetch = pe_fetch E \<rparr>
                                    (Suc depth) 0
                                    \<lparr> ps_toks = toks, ps_comments = [], ps_comment_line = 0,
                                      ps_hosts = ps_hosts st, ps_files = Suc (ps_files st) \<rparr> of
                                   Some (Inr sub) \<Rightarrow>
                                     block k' E depth open (st\<lparr>ps_hosts := ps_hosts sub, ps_files := ps_files sub\<rparr>)
                                 | r \<Rightarrow> r)))
                    else block k' E depth open st)))"
  by pat_completeness auto
termination
  by (relation "measures [\<lambda>(k, E, depth, open, st). Suc maxDepth - depth, \<lambda>(k, E, depth, open, st). k]") auto

declare block.simps [simp del]

definition start_state :: "token list \<Rightarrow> parse_state" where
  "start_state toks = \<lparr> ps_toks = toks, ps_comments = [], ps_comment_line = 0, ps_hosts = [], ps_files = 1 \<rparr>"

definition parse_config :: "string \<Rightarrow> string \<Rightarrow> (string \<Rightarrow> goerr + string) option \<Rightarrow> (goerr + dhcp_host list) option" where
  "parse_config file data fetch =
     (case tokenize_file file data of Inl e \<Rightarrow> Some (Inl e)
      | Inr toks \<Rightarrow>
          (case block (Suc (length toks)) \<lparr> pe_file = file, pe_chain = [], pe_fetch = fetch \<rparr> 0 0 (start_state toks) of
             None \<Rightarrow> None | Some (Inl e) \<Rightarrow> Some (Inl e)
           | Some (Inr st) \<Rightarrow> Some (Inr (sort_key ho_name (ps_hosts st)))))"

definition Parse :: "string \<Rightarrow> (goerr + dhcp_host list) option" where
  "Parse data = parse_config [] data None"

definition ParseFile :: "string \<Rightarrow> (string \<Rightarrow> goerr + string) \<Rightarrow> (goerr + dhcp_host list) option" where
  "ParseFile file read =
     (case read file of Inl e \<Rightarrow> Some (Inl e) | Inr data \<Rightarrow> parse_config file data (Some read))"

end
