(* ===== verification/DhcpLookup.thy ===== *)
theory DhcpLookup
  imports Dhcp
begin

text \<open>
  The lookups of \<open>internal/dhcp\<close>: the declarations of a node by their names, by a binary search
  where they are sorted, those whose comments mention it, the address it boots with, and the GUID of
  an InfiniBand port. The lookups are shown to be what reading every declaration gives.
\<close>

section \<open>Matching a name\<close>

datatype match_kind = ByName | ByInterface | ByComment

definition matchName :: "string \<Rightarrow> string \<Rightarrow> match_kind option" where
  "matchName name node =
     (if node = [] then None
      else if name = node \<or> has_prefix name (node @ ''.'') then Some ByName
      else if has_prefix name node \<and> (hd (drop (length node) name) = CHR ''-'' \<or> hd (drop (length node) name) = CHR ''_'')
      then Some ByInterface else None)"

definition commentWords :: "string \<Rightarrow> string list" where
  "commentWords comment = fields_func (\<lambda>c. c \<in> set '' ,:;()'' \<or> c = CHR 0x09) comment"

section \<open>The index\<close>

text \<open>The words of the comments, each with the declarations it is above, in their order.\<close>

definition note_word :: "nat \<Rightarrow> nat list go_map \<Rightarrow> string \<Rightarrow> nat list go_map" where
  "note_word i m w =
     (let seen = (case find_key m w of None \<Rightarrow> [] | Some is \<Rightarrow> is)
      in if seen = [] \<or> last seen \<noteq> i then AList.update w (seen @ [i]) m else m)"

definition host_words :: "dhcp_host \<Rightarrow> string list" where
  "host_words h = concat (map commentWords (ho_comments h))"

fun mention_index :: "nat \<Rightarrow> nat list go_map \<Rightarrow> dhcp_host list \<Rightarrow> nat list go_map" where
  "mention_index i m [] = m"
| "mention_index i m (h # hs) = mention_index (Suc i) (foldl (note_word i) m (host_words h)) hs"

definition mentioned :: "dhcp_host list \<Rightarrow> string \<Rightarrow> nat list" where
  "mentioned hs w = (case find_key (mention_index 0 [] hs) w of None \<Rightarrow> [] | Some is \<Rightarrow> is)"

definition hosts_sorted :: "dhcp_host list \<Rightarrow> bool" where
  "hosts_sorted hs = sorted (map ho_name hs)"

section \<open>Lookups\<close>

text \<open>\<open>slices.BinarySearchFunc\<close>: the first position whose name is not less than the prefix.\<close>

function bin_search :: "string list \<Rightarrow> string \<Rightarrow> nat \<Rightarrow> nat \<Rightarrow> nat" where
  "bin_search ns p i j =
     (if i < j then let h = (i + j) div 2 in if ns ! h < p then bin_search ns p (Suc h) j else bin_search ns p i h
      else i)"
  by auto
termination by (relation "measure (\<lambda>(ns, p, i, j). j - i)") auto

declare bin_search.simps [simp del]

text \<open>The walk over the names that start with a prefix.\<close>

fun walk_from :: "string list \<Rightarrow> string \<Rightarrow> string \<Rightarrow> nat \<Rightarrow> nat list" where
  "walk_from [] node p i = []"
| "walk_from (n # ns) node p i =
     (if \<not> has_prefix n p \<or> (p = node \<and> n \<noteq> node) then []
      else (if matchName n node \<noteq> None then [i] else []) @ walk_from ns node p (Suc i))"

definition walk_prefix :: "string list \<Rightarrow> string \<Rightarrow> string \<Rightarrow> nat list" where
  "walk_prefix ns node p = (let i = bin_search ns p 0 (length ns) in walk_from (drop i ns) node p i)"

definition scan_names :: "string list \<Rightarrow> string \<Rightarrow> nat list" where
  "scan_names ns node = filter (\<lambda>i. matchName (ns ! i) node \<noteq> None) [0..<length ns]"

definition named :: "dhcp_host list \<Rightarrow> string \<Rightarrow> nat list" where
  "named hs node =
     (let ns = map ho_name hs in
      if \<not> hosts_sorted hs then scan_names ns node
      else sort (concat (map (walk_prefix ns node) [node, node @ ''-'', node @ ''.'', node @ ''_''])))"

definition Lookup :: "dhcp_host list \<Rightarrow> string \<Rightarrow> (dhcp_host \<times> match_kind option) list" where
  "Lookup hs node = map (\<lambda>i. (hs ! i, matchName (ho_name (hs ! i)) node)) (named hs node)"

definition Mentions :: "dhcp_host list \<Rightarrow> string \<Rightarrow> (dhcp_host \<times> match_kind option) list" where
  "Mentions hs node =
     (if node = [] then []
      else map (\<lambda>i. (hs ! i, Some ByComment))
             (filter (\<lambda>i. matchName (ho_name (hs ! i)) node = None) (mentioned hs node)))"

section \<open>Boot addresses and GUIDs\<close>

definition addressed :: "dhcp_host list \<Rightarrow> string \<Rightarrow> dhcp_host list" where
  "addressed hs node = map fst (filter (\<lambda>(h, by). by = Some ByName \<and> ho_address h \<noteq> []) (Lookup hs node))"

definition BootAddress :: "dhcp_host list \<Rightarrow> string \<Rightarrow> goerr + string" where
  "BootAddress hs node =
     (case addressed hs node of
        [] \<Rightarrow> Inl (Wrap ''%s: %w'' [node] [Sentinel ''no DHCP declaration named after the node carries an address''])
      | [h] \<Rightarrow>
          if contains_str (ho_address h) '','' then
            Inl (Wrap ''%s: %w: the declaration %s hands out several addresses'' [node, ho_name h] [Sentinel ''the DHCP address is ambiguous''])
          else if parse_ip (ho_address h) = None then
            Inl (Wrap ''%s: %w: the declaration %s has %q'' [node, ho_name h] [Sentinel ''the DHCP fixed-address is not an IP address''])
          else Inr (ho_address h)
      | _ \<Rightarrow> Inl (Wrap ''%s: %w: several declarations are named after it'' [node] [Sentinel ''the DHCP address is ambiguous'']))"

definition guid_clean :: "string \<Rightarrow> string" where
  "guid_clean mac = filter (\<lambda>c. c \<notin> set '':-.'') (trim_space mac)"

definition GUIDFromMAC :: "string \<Rightarrow> goerr + string" where
  "GUIDFromMAC mac =
     (let clean = guid_clean mac in
      if length clean \<noteq> 12 \<or> \<not> list_all is_hex clean then Inl (Leaf ''%q is not a hardware address'' [mac])
      else let c = to_lower clean in Inr (''0x'' @ take 6 c @ ''0300'' @ drop 6 c))"

section \<open>A binary search is a scan\<close>

lemma bin_search_bounds:
  assumes "sorted ns" and "i \<le> j" and "j \<le> length ns"
    and "\<forall>k<i. ns ! k < p" and "\<forall>k. j \<le> k \<longrightarrow> k < length ns \<longrightarrow> p \<le> ns ! k"
  shows "bin_search ns p i j \<le> length ns \<and> (\<forall>k<bin_search ns p i j. ns ! k < p) \<and>
    (\<forall>k. bin_search ns p i j \<le> k \<longrightarrow> k < length ns \<longrightarrow> p \<le> ns ! k)"
  using assms
proof (induction ns p i j rule: bin_search.induct)
  case (1 ns p i j)
  let ?h = "(i + j) div 2"
  show ?case
  proof (cases "i < j")
    case False
    with "1.prems" have "i = j" by simp
    with "1.prems" show ?thesis by (simp add: bin_search.simps [of ns p j j])
  next
    case True
    then have h: "i \<le> ?h" "?h < j" by auto
    show ?thesis
    proof (cases "ns ! ?h < p")
      case less: True
      have "\<forall>k<Suc ?h. ns ! k < p"
        using less h "1.prems"(1,3) by (auto simp: less_Suc_eq_le) (meson le_less_trans less_le_trans sorted_nth_mono)
      with "1.IH"(1) [OF True refl less] "1.prems" h True less show ?thesis
        by (simp add: bin_search.simps [of ns p i j])
    next
      case ge: False
      have "\<forall>k. ?h \<le> k \<longrightarrow> k < length ns \<longrightarrow> p \<le> ns ! k"
        using ge "1.prems"(1) by (meson leI order_trans sorted_nth_mono)
      with "1.IH"(2) [OF True refl ge] "1.prems" h True ge show ?thesis
        by (simp add: bin_search.simps [of ns p i j])
    qed
  qed
qed

lemma list_le_append: "(p :: 'a::linorder list) \<le> p @ r"
  by (induction p) auto

lemma prefix_convex: "(p :: string) \<le> x \<Longrightarrow> x \<le> p @ r \<Longrightarrow> \<exists>s. x = p @ s"
proof (induction p arbitrary: x)
  case (Cons c p)
  then obtain d y where x: "x = d # y" by (cases x) auto
  with Cons.prems have "d = c" by auto
  with Cons x show ?case by auto
qed simp

abbreviation walked :: "string \<Rightarrow> string \<Rightarrow> string \<Rightarrow> bool" where
  "walked node p n \<equiv> has_prefix n p \<and> (p = node \<longrightarrow> n = node)"

lemma walked_convex: "p \<le> x \<Longrightarrow> x \<le> y \<Longrightarrow> walked node p y \<Longrightarrow> walked node p x"
proof -
  assume le: "p \<le> x" "x \<le> y" and w: "walked node p y"
  from w obtain r where "y = p @ r" by (auto simp: has_prefix_iff)
  with le have "has_prefix x p" using prefix_convex by (metis has_prefix_iff)
  moreover have "p = node \<Longrightarrow> x = node" using w le by (metis order.antisym)
  ultimately show "walked node p x" by blast
qed

lemma walked_ge: "walked node p n \<Longrightarrow> p \<le> n"
  by (auto simp: has_prefix_iff list_le_append)

lemma walk_from_filter:
  "walk_from ns node p i =
     filter (\<lambda>k. matchName (ns ! (k - i)) node \<noteq> None) [i..<i + length (takeWhile (walked node p) ns)]"
proof (induction ns arbitrary: i)
  case (Cons n ns)
  let ?m = "length (takeWhile (walked node p) ns)"
  have "filter (\<lambda>k. matchName ((n # ns) ! (k - i)) node \<noteq> None) [Suc i..<Suc i + ?m] =
      filter (\<lambda>k. matchName (ns ! (k - Suc i)) node \<noteq> None) [Suc i..<Suc i + ?m]"
  proof (rule filter_cong [OF refl])
    fix k
    assume "k \<in> set [Suc i..<Suc i + ?m]"
    then have "k - i = Suc (k - Suc i)" by auto
    then show "(matchName ((n # ns) ! (k - i)) node \<noteq> None) = (matchName (ns ! (k - Suc i)) node \<noteq> None)" by simp
  qed
  note same = this
  show ?case
  proof (cases "walked node p n")
    case True
    then have u: "[i..<i + length (takeWhile (walked node p) (n # ns))] = i # [Suc i..<Suc i + ?m]"
      by (simp add: upt_conv_Cons del: upt_Suc)
    have "(\<not> has_prefix n p \<or> (p = node \<and> n \<noteq> node)) = False" using True by blast
    then have w: "walk_from (n # ns) node p i = (if matchName n node \<noteq> None then [i] else []) @ walk_from ns node p (Suc i)"
      by (simp only: walk_from.simps if_False)
    have "matchName ((n # ns) ! (i - i)) node = matchName n node" by simp
    then show ?thesis unfolding u w Cons.IH [of "Suc i"] filter.simps same by (simp del: upt_Suc)
  next
    case False
    then have "(\<not> has_prefix n p \<or> (p = node \<and> n \<noteq> node)) = True" by blast
    moreover have "takeWhile (walked node p) (n # ns) = []" using False by (subst takeWhile.simps) (simp only: if_False)
    ultimately show ?thesis by (simp only: walk_from.simps if_True) simp
  qed
qed simp

lemma walk_prefix_set:
  assumes "sorted ns"
  shows "set (walk_prefix ns node p) = {k. k < length ns \<and> walked node p (ns ! k) \<and> matchName (ns ! k) node \<noteq> None}"
    and "distinct (walk_prefix ns node p)"
proof -
  let ?b = "bin_search ns p 0 (length ns)" and ?w = "length (takeWhile (walked node p) (drop (bin_search ns p 0 (length ns)) ns))"
  have b: "?b \<le> length ns" "\<forall>k<?b. ns ! k < p" "\<forall>k. ?b \<le> k \<longrightarrow> k < length ns \<longrightarrow> p \<le> ns ! k"
    using bin_search_bounds [OF assms, of 0 "length ns" p] by auto
  have w: "?b + ?w \<le> length ns"
    using length_takeWhile_le [of "walked node p" "drop ?b ns"] b(1) by simp
  have "k < ?b + ?w \<and> ?b \<le> k \<longleftrightarrow> k < length ns \<and> walked node p (ns ! k)" for k
  proof
    assume k: "k < ?b + ?w \<and> ?b \<le> k"
    then have "takeWhile (walked node p) (drop ?b ns) ! (k - ?b) = ns ! k"
      using w by (subst takeWhile_nth) auto
    moreover have "takeWhile (walked node p) (drop ?b ns) ! (k - ?b) \<in> set (takeWhile (walked node p) (drop ?b ns))"
      using k by (intro nth_mem) auto
    ultimately show "k < length ns \<and> walked node p (ns ! k)" using k w set_takeWhileD by fastforce
  next
    assume k: "k < length ns \<and> walked node p (ns ! k)"
    then have bk: "?b \<le> k" using b(2) walked_ge [where node = node and p = p and n = "ns ! k"] by (metis leD leI)
    have all: "walked node p (ns ! j)" if "?b \<le> j" "j \<le> k" for j
      using walked_convex [of p "ns ! j" "ns ! k" node] that k b(3) sorted_nth_mono [OF assms] by auto
    have "k - ?b < ?w"
    proof (rule ccontr)
      assume n: "\<not> k - ?b < ?w"
      then have l: "?w < length (drop ?b ns)" using k bk by auto
      then have "\<not> walked node p (drop ?b ns ! ?w)" by (rule nth_length_takeWhile)
      moreover have "drop ?b ns ! ?w = ns ! (?b + ?w)" using b(1) by simp
      ultimately show False using all [of "?b + ?w"] n bk by simp
    qed
    with bk show "k < ?b + ?w \<and> ?b \<le> k" by auto
  qed
  then have iff: "k \<in> set [?b..<?b + ?w] \<longleftrightarrow> k < length ns \<and> walked node p (ns ! k)" for k by auto
  have "matchName (drop ?b ns ! (k - ?b)) node = matchName (ns ! k) node" if "k \<in> set [?b..<?b + ?w]" for k
    using that b(1) by simp
  then show "set (walk_prefix ns node p) = {k. k < length ns \<and> walked node p (ns ! k) \<and> matchName (ns ! k) node \<noteq> None}"
    using iff unfolding walk_prefix_def Let_def walk_from_filter by auto
  show "distinct (walk_prefix ns node p)" by (simp add: walk_prefix_def Let_def walk_from_filter)
qed

lemma matchName_cases:
  "matchName n node \<noteq> None \<longleftrightarrow> node \<noteq> [] \<and>
     (walked node node n \<or> walked node (node @ ''-'') n \<or> walked node (node @ ''.'') n \<or> walked node (node @ ''_'') n)"
proof (cases "has_prefix n node")
  case True
  then obtain r where "n = node @ r" by (auto simp: has_prefix_iff)
  then show ?thesis by (cases r) (auto simp: matchName_def has_prefix_iff)
next
  case False
  then have "n \<noteq> node" "\<not> has_prefix n (node @ s)" for s by (auto simp: has_prefix_iff)
  with False show ?thesis by (simp add: matchName_def)
qed

lemma named_is_scan: "named hs node = scan_names (map ho_name hs) node"
proof (cases "hosts_sorted hs")
  case False
  then show ?thesis by (simp add: named_def Let_def)
next
  case True
  let ?ns = "map ho_name hs"
  have srt: "sorted ?ns" using True by (simp add: hosts_sorted_def)
  let ?ps = "[node, node @ ''-'', node @ ''.'', node @ ''_'']"
  let ?out = "concat (map (walk_prefix ?ns node) ?ps)"
  have "set ?out = {k. k < length ?ns \<and> matchName (?ns ! k) node \<noteq> None}"
    using matchName_cases [of _ node] by (auto simp: walk_prefix_set(1) [OF srt])
  then have st: "set (sort ?out) = set (scan_names ?ns node)" by (auto simp: scan_names_def)
  have disj: "p \<noteq> q \<Longrightarrow> p \<in> set ?ps \<Longrightarrow> q \<in> set ?ps \<Longrightarrow> walked node p n \<Longrightarrow> \<not> walked node q n" for p q n
    by (auto simp: has_prefix_iff)
  have "distinct ?out"
    using disj [of node "node @ ''-''"] disj [of node "node @ ''.''"] disj [of node "node @ ''_''"]
      disj [of "node @ ''-''" "node @ ''.''"] disj [of "node @ ''-''" "node @ ''_''"] disj [of "node @ ''.''" "node @ ''_''"]
    by (simp add: walk_prefix_set [OF srt]) blast
  moreover have "sorted (scan_names ?ns node)" "distinct (scan_names ?ns node)"
    by (simp_all add: scan_names_def sorted_wrt_filter)
  ultimately have "sort ?out = scan_names ?ns node"
    using st by (intro sorted_distinct_set_unique) auto
  with True show ?thesis by (simp add: named_def Let_def)
qed

section \<open>The index of the comments is a scan\<close>

definition scan_words :: "dhcp_host list \<Rightarrow> string \<Rightarrow> nat list" where
  "scan_words hs w = filter (\<lambda>i. w \<in> set (host_words (hs ! i))) [0..<length hs]"

definition entry :: "nat list go_map \<Rightarrow> string \<Rightarrow> nat list" where
  "entry m w = (case find_key m w of None \<Rightarrow> [] | Some is \<Rightarrow> is)"

lemma entry_update: "entry (AList.update k v m) w = (if w = k then v else entry m w)"
  by (simp add: entry_def find_key_def update_conv')

lemma entry_note: "entry (note_word i m v) w =
    (if v = w \<and> (entry m w = [] \<or> last (entry m w) \<noteq> i) then entry m w @ [i] else entry m w)"
  by (auto simp: note_word_def Let_def entry_update) (auto simp: entry_def split: option.splits)

lemma entry_words:
  "\<forall>k\<in>set (entry m w). k < i \<Longrightarrow>
     entry (foldl (note_word i) m ws) w = (if w \<in> set ws then entry m w @ [i] else entry m w)"
proof (induction ws rule: rev_induct)
  case (snoc v ws)
  have "entry m w \<noteq> [] \<Longrightarrow> last (entry m w) \<noteq> i" using snoc.prems last_in_set by blast
  with snoc show ?case by (auto simp: entry_note)
qed simp

lemma entry_index:
  "\<forall>k\<in>set (entry m w). k < i \<Longrightarrow>
     entry (mention_index i m hs) w = entry m w @ filter (\<lambda>k. w \<in> set (host_words (hs ! (k - i)))) [i..<i + length hs]"
proof (induction hs arbitrary: i m)
  case (Cons h hs)
  have low: "\<forall>k\<in>set (entry (foldl (note_word i) m (host_words h)) w). k < Suc i"
    using Cons.prems by (auto simp: entry_words less_SucI)
  have shift: "filter (\<lambda>k. w \<in> set (host_words ((h # hs) ! (k - i)))) [Suc i..<Suc i + length hs] =
      filter (\<lambda>k. w \<in> set (host_words (hs ! (k - Suc i)))) [Suc i..<Suc i + length hs]"
  proof (rule filter_cong [OF refl])
    fix k
    assume "k \<in> set [Suc i..<Suc i + length hs]"
    then have "k - i = Suc (k - Suc i)" by auto
    then show "(w \<in> set (host_words ((h # hs) ! (k - i)))) = (w \<in> set (host_words (hs ! (k - Suc i))))" by simp
  qed
  have u: "[i..<i + length (h # hs)] = i # [Suc i..<Suc i + length hs]" by (simp add: upt_conv_Cons del: upt_Suc)
  show ?case
    unfolding u mention_index.simps Cons.IH [OF low] filter.simps shift using entry_words [OF Cons.prems, of "host_words h"]
    by (simp del: upt_Suc)
qed simp

lemma mentioned_is_scan: "mentioned hs w = scan_words hs w"
  using entry_index [of "[]" w 0 hs]
  by (simp add: mentioned_def scan_words_def entry_def [symmetric]) (simp add: entry_def find_key_def)

section \<open>Properties\<close>

lemma map_filter_upt: "map (\<lambda>i. (xs ! i, f (xs ! i))) (filter (\<lambda>i. P (xs ! i)) [0..<length xs]) = map (\<lambda>x. (x, f x)) (filter P xs)"
proof -
  have "filter P xs = map ((!) xs) (filter (P \<circ> (!) xs) [0..<length xs])"
    by (metis filter_map map_nth)
  then show ?thesis by (simp add: comp_def)
qed

lemma Lookup_scan: "Lookup hs node = map (\<lambda>h. (h, matchName (ho_name h) node)) (filter (\<lambda>h. matchName (ho_name h) node \<noteq> None) hs)"
proof -
  have "scan_names (map ho_name hs) node = filter (\<lambda>i. matchName (ho_name (hs ! i)) node \<noteq> None) [0..<length hs]"
    by (auto simp: scan_names_def intro: filter_cong)
  then show ?thesis unfolding Lookup_def named_is_scan
    by (simp only: map_filter_upt [where xs = hs and f = "\<lambda>h. matchName (ho_name h) node" and P = "\<lambda>h. matchName (ho_name h) node \<noteq> None"])
qed

text \<open>
  The lookups give what reading every declaration gives, in the order of the declarations:
  the binary search over sorted names and the index of the comments lose nothing and add nothing.
\<close>
theorem lookups_are_scans:
  "Lookup hs node =
     map (\<lambda>h. (h, matchName (ho_name h) node)) (filter (\<lambda>h. matchName (ho_name h) node \<noteq> None) hs) \<and>
   Mentions hs node =
     map (\<lambda>h. (h, Some ByComment)) (filter (\<lambda>h. node \<noteq> [] \<and> node \<in> set (host_words h) \<and> matchName (ho_name h) node = None) hs)"
proof
  show "Mentions hs node =
     map (\<lambda>h. (h, Some ByComment)) (filter (\<lambda>h. node \<noteq> [] \<and> node \<in> set (host_words h) \<and> matchName (ho_name h) node = None) hs)"
  proof (cases "node = []")
    case False
    let ?P = "\<lambda>h. node \<noteq> [] \<and> node \<in> set (host_words h) \<and> matchName (ho_name h) node = None"
    have "filter (\<lambda>i. matchName (ho_name (hs ! i)) node = None) (scan_words hs node) = filter (\<lambda>i. ?P (hs ! i)) [0..<length hs]"
      using False by (auto simp: scan_words_def intro: filter_cong)
    then have "Mentions hs node = map (\<lambda>i. (hs ! i, Some ByComment)) (filter (\<lambda>i. ?P (hs ! i)) [0..<length hs])"
      using False by (simp add: Mentions_def mentioned_is_scan)
    also have "\<dots> = map (\<lambda>h. (h, Some ByComment)) (filter ?P hs)" by (rule map_filter_upt)
    finally show ?thesis .
  qed (simp add: Mentions_def)
qed (rule Lookup_scan)

lemma matchName_ByName: "matchName n node = Some ByName \<longleftrightarrow> node \<noteq> [] \<and> (n = node \<or> has_prefix n (node @ ''.''))"
  by (simp add: matchName_def)

lemma addressed_scan: "addressed hs node = filter (\<lambda>h. matchName (ho_name h) node = Some ByName \<and> ho_address h \<noteq> []) hs"
  by (simp add: addressed_def Lookup_scan filter_map comp_def) (auto simp: conj_commute intro!: filter_cong)

text \<open>
  C17. A node boots with an address only when it is an IP address and exactly one declaration that
  carries an address is named after the node or its qualified name, and that one carries this
  address: no other interface, no comment and no neighbour ever gives it.
\<close>
theorem BootAddress_exact:
  "BootAddress hs node = Inr a \<longleftrightarrow>
     (\<exists>h. filter (\<lambda>h. node \<noteq> [] \<and> (ho_name h = node \<or> has_prefix (ho_name h) (node @ ''.'')) \<and> ho_address h \<noteq> []) hs = [h] \<and>
        ho_address h = a \<and> parse_ip a \<noteq> None)"
proof -
  have comma: "parse_ip b \<noteq> None \<Longrightarrow> \<not> contains_str b '',''" for b
    using parse_ip_chars [of b] by (auto simp: contains_str_sublist sublist_def ip_char_def is_hex_def char_class_defs)
  have "addressed hs node = filter (\<lambda>h. node \<noteq> [] \<and> (ho_name h = node \<or> has_prefix (ho_name h) (node @ ''.'')) \<and> ho_address h \<noteq> []) hs"
    by (simp add: addressed_scan matchName_ByName conj_assoc)
  with comma show ?thesis
    by (auto simp: BootAddress_def split: list.splits if_splits)
qed

end
