(* ===== verification/DhcpProps.thy ===== *)
theory DhcpProps
  imports DhcpLookup
begin

text \<open>
  What reading a dhcpd configuration promises: it ends, whatever the file and the files it includes
  hold, and its result is sorted; and how the declarations are laid out over lines does not matter.
\<close>

section \<open>Reading ends\<close>

lemma note_comment_sel [simp]:
  "ps_toks (note_comment t st) = ps_toks st" "ps_hosts (note_comment t st) = ps_hosts st"
  "ps_files (note_comment t st) = ps_files st"
  by (simp_all add: note_comment_def)

definition host_ok :: "dhcp_host \<Rightarrow> bool" where
  "host_ok h \<longleftrightarrow> ho_name h \<noteq> [] \<and> list_all (\<lambda>m. to_lower m = m) (ho_macs h)"

lemma apply_statement_ok: "apply_statement E h ws = Inr h' \<Longrightarrow> host_ok h \<Longrightarrow> host_ok h'"
  by (auto simp: apply_statement_def Let_def host_ok_def set_option_def split: if_splits)

lemma host_body_ok: "host_body E line h ts = Inr (h', rest) \<Longrightarrow> host_ok h \<Longrightarrow> host_ok h'"
proof (induction ts arbitrary: h rule: length_induct)
  case (1 ts)
  show ?case
  proof (cases ts)
    case Nil
    with "1.prems" show ?thesis by (simp add: host_body.simps)
  next
    case (Cons t r)
    have step: "host_ok h'" if "host_body E line g ts' = Inr (h', rest)" "length ts' < length ts" "host_ok g" for g ts'
      using "1.IH" that by blast
    show ?thesis
      using "1.prems" step statement_shorter [of E "tk_line t" "[]" "t # r"] apply_statement_ok unfolding Cons
      by (auto simp: host_body.simps(2) [of E line h t r] split: if_splits sum.splits prod.splits)
  qed
qed

lemma host_decl_ok: "host_decl E ws comments ts = Inr (h, rest) \<Longrightarrow> host_ok h \<and> length rest < length ts"
  using host_body_ok host_body_shorter
  by (fastforce simp: host_decl_def Let_def new_host_def host_ok_def split: if_splits)

definition state_ok :: "parse_state \<Rightarrow> bool" where
  "state_ok st \<longleftrightarrow> ps_files st \<le> maxFiles \<and> list_all host_ok (ps_hosts st)"

lemma state_ok_sel [simp]:
  "state_ok (note_comment t st) = state_ok st" "state_ok (st\<lparr>ps_toks := ts\<rparr>) = state_ok st"
  "state_ok (st\<lparr>ps_comments := cs\<rparr>) = state_ok st"
  by (simp_all add: state_ok_def)

lemma include_file_ok: "include_file E depth ws files = Inr (file, data) \<Longrightarrow> Suc files \<le> maxFiles"
  by (auto simp: include_file_def Let_def split: if_splits option.splits sum.splits)

text \<open>What a block does with enough steps.\<close>

definition block_fine :: "nat \<Rightarrow> (goerr + parse_state) option \<Rightarrow> bool" where
  "block_fine n r \<longleftrightarrow> (case r of None \<Rightarrow> False | Some (Inl _) \<Rightarrow> True
     | Some (Inr st) \<Rightarrow> state_ok st \<and> length (ps_toks st) \<le> n)"

lemma block_fine_mono: "block_fine n r \<Longrightarrow> n \<le> m \<Longrightarrow> block_fine m r"
  by (auto simp: block_fine_def split: option.splits sum.splits)

lemma block_fine_bind:
  assumes "block_fine n m" and "\<And>st. state_ok st \<Longrightarrow> length (ps_toks st) \<le> n \<Longrightarrow> block_fine N (f st)"
  shows "block_fine N (case m of Some (Inr st) \<Rightarrow> f st | r \<Rightarrow> r)"
proof -
  from assms(1) consider e where "m = Some (Inl e)" | st where "m = Some (Inr st)" "state_ok st" "length (ps_toks st) \<le> n"
    by (auto simp: block_fine_def split: option.splits sum.splits)
  then show ?thesis
  proof cases
    case 1
    then show ?thesis by (simp add: block_fine_def)
  next
    case 2
    with assms(2) show ?thesis by simp
  qed
qed

lemma block_total:
  "length (ps_toks st) < k \<Longrightarrow> state_ok st \<Longrightarrow> block_fine (length (ps_toks st)) (block k E depth open st)"
proof (induction "Suc maxDepth - depth" arbitrary: depth k E "open" st rule: less_induct)
  case less
  note outer = less.hyps
  show ?case using less.prems
  proof (induction k arbitrary: st)
    case (Suc k)
    show ?case
    proof (cases "depth > maxDepth \<or> ps_toks st = []")
      case True
      then show ?thesis using Suc.prems by (subst block.simps) (auto simp: block_fine_def)
    next
      case False
      then obtain t ts where T: "ps_toks st = t # ts" and d: "\<not> maxDepth < depth" by (cases "ps_toks st") auto
      have deeper: "Suc maxDepth - Suc depth < Suc maxDepth - depth" using d by auto
      have sub: "block_fine (length (ps_toks s)) (block (Suc (length (ps_toks s))) E' (Suc depth) op s)"
        if "state_ok s" for E' op s using outer [OF deeper _ that] by simp
      have next_step: "block_fine (length (ps_toks st)) (block k E depth open s)"
        if "state_ok s" "length (ps_toks s) < length (ps_toks st)" for s
        using Suc.IH [of s] that Suc.prems by (auto intro: block_fine_mono)
      show ?thesis
      proof (cases "tk_kind t \<in> {TokComment, TokClose, TokSemicolon}")
        case True
        then show ?thesis using Suc.prems d next_step
          by (subst block.simps) (auto simp: T block_fine_def)
      next
        case stmt: False
        show ?thesis
        proof (cases "statement E (tk_line t) [] (t # ts)")
          case (Inl e)
          with stmt show ?thesis using Suc.prems d
            by (subst block.simps) (simp add: T block_fine_def Let_def)
        next
          case (Inr p)
          obtain ws ek rest where p: "p = (ws, ek, rest)" by (metis prod_cases3)
          define st2 where "st2 = st\<lparr>ps_comments := [], ps_toks := rest\<rparr>"
          have st2: "state_ok st2" "ps_toks st2 = rest" using Suc.prems by (simp_all add: st2_def state_ok_def)
          have short: "length rest < length (ps_toks st)" using statement_shorter [OF Inr [unfolded p]] T by simp
          note step = stmt d Inr [unfolded p] T
          consider (host) "keyword_of ws = ''host''" | (nested) "keyword_of ws \<noteq> ''host''" "ek = TokOpen"
            | (incl) "keyword_of ws = ''include''" "ek \<noteq> TokOpen"
            | (other) "keyword_of ws \<noteq> ''host''" "keyword_of ws \<noteq> ''include''" "ek \<noteq> TokOpen" by blast
          then show ?thesis
          proof cases
            case host
            have h: "block_fine (length (ps_toks st)) (block k E depth open (st2\<lparr>ps_toks := r, ps_hosts := ps_hosts st2 @ [h]\<rparr>))"
              if "host_decl E ws c rest = Inr (h, r)" for c h r
              using host_decl_ok [OF that] st2 short by (intro next_step) (auto simp: state_ok_def)
            show ?thesis using step host h
              by (subst block.simps) (auto simp: Let_def block_fine_def simp flip: st2_def split: sum.splits prod.splits)
          next
            case nested
            have "block_fine (length (ps_toks st)) (case block (Suc (length rest)) E (Suc depth) (tk_line t) st2 of
                Some (Inr st') \<Rightarrow> block k E depth open st' | r \<Rightarrow> r)"
              using sub [OF st2(1), of E "tk_line t", unfolded st2(2)] by (rule block_fine_bind) (use short next_step in auto)
            then show ?thesis using step nested by (subst block.simps) (simp add: Let_def flip: st2_def)
          next
            case incl
            have h: "block_fine (length (ps_toks st)) (case block (Suc (length toks)) E' (Suc depth) 0
                \<lparr> ps_toks = toks, ps_comments = [], ps_comment_line = 0, ps_hosts = ps_hosts st2, ps_files = Suc (ps_files st2) \<rparr> of
                Some (Inr b) \<Rightarrow> block k E depth open (st2\<lparr>ps_hosts := ps_hosts b, ps_files := ps_files b\<rparr>) | r \<Rightarrow> r)"
              if "include_file E depth ws (ps_files st2) = Inr (fname, data)" for fname data toks E'
            proof -
              let ?s = "\<lparr> ps_toks = toks, ps_comments = [], ps_comment_line = 0, ps_hosts = ps_hosts st2, ps_files = Suc (ps_files st2) \<rparr>"
              have "state_ok ?s" using include_file_ok [OF that] st2 by (simp add: state_ok_def)
              from sub [OF this, of E' 0] have "block_fine (length toks) (block (Suc (length toks)) E' (Suc depth) 0 ?s)" by simp
              then show ?thesis
                by (rule block_fine_bind) (intro next_step, use st2 short in \<open>auto simp: state_ok_def\<close>)
            qed
            show ?thesis using step incl h [unfolded st2_def]
              by (subst block.simps) (auto simp: Let_def block_fine_def [of _ "Some (Inl e)" for e] split: sum.splits)
          next
            case other
            have "block_fine (length (ps_toks st)) (block k E depth open st2)"
              using st2 short by (intro next_step) auto
            then show ?thesis using step other by (subst block.simps) (simp add: Let_def flip: st2_def)
          qed
        qed
      qed
    qed
  qed simp
qed

lemma parse_config_cases:
  obtains e where "parse_config fname data fetch = Some (Inl e)"
  | st where "parse_config fname data fetch = Some (Inr (sort_key ho_name (ps_hosts st)))" "state_ok st"
proof (cases "tokenize_file fname data")
  case (Inl e)
  then show ?thesis using that(1) by (simp add: parse_config_def)
next
  case (Inr toks)
  let ?E = "\<lparr> pe_file = fname, pe_chain = [], pe_fetch = fetch \<rparr>"
  have "block_fine (length toks) (block (Suc (length toks)) ?E 0 0 (start_state toks))"
    using block_total [of "start_state toks" "Suc (length toks)" ?E 0 0]
    by (simp add: start_state_def state_ok_def maxFiles_def)
  then show ?thesis using Inr that by (auto simp: parse_config_def block_fine_def split: option.splits sum.splits)
qed

text \<open>
  C38. Reading a configuration ends, with a result or an error, whatever the file and the files it
  includes hold, a file that includes itself and one that nests without end included. What is read
  is sorted by name, as the lookups need it, every declaration has a name, and hardware addresses
  are in lower case.
\<close>
theorem ParseFile_ends:
  "case ParseFile fname read of None \<Rightarrow> False | Some (Inl e) \<Rightarrow> True
   | Some (Inr hs) \<Rightarrow> hosts_sorted hs \<and> list_all (\<lambda>h. ho_name h \<noteq> [] \<and> list_all (\<lambda>m. to_lower m = m) (ho_macs h)) hs"
proof (cases "read fname")
  case (Inl e)
  then show ?thesis by (simp add: ParseFile_def)
next
  case (Inr data)
  show ?thesis
    by (rule parse_config_cases [of fname data "Some read"])
      (simp_all add: ParseFile_def Inr hosts_sorted_def state_ok_def host_ok_def list_all_iff)
qed

end
