(* ===== verification/DhcpLayout.thy ===== *)
theory DhcpLayout
  imports DhcpProps
begin

text \<open>
  How a configuration is laid out does not matter: the declarations that are read are those that
  were written, over however many lines, in any nesting of groups and with the statements of a
  declaration in any order. What is written is given as \<open>item\<close>s, whose lexemes are spelled with
  any white space between them.
\<close>

section \<open>Lexemes and layouts\<close>

type_synonym lexeme = "token_kind \<times> string"

abbreviation lex_of :: "token \<Rightarrow> lexeme" where
  "lex_of t \<equiv> (tk_kind t, tk_text t)"

definition escape_quoted :: "string \<Rightarrow> string" where
  "escape_quoted t = concat (map (\<lambda>c. if c = dq \<or> c = backslash_c then [backslash_c, c] else [c]) t)"

fun spell :: "lexeme \<Rightarrow> string" where
  "spell (TokString, t) = dq # escape_quoted t @ [dq]"
| "spell (k, t) = t"

definition lexeme_ok :: "lexeme \<Rightarrow> bool" where
  "lexeme_ok l = (case l of
      (TokWord, t) \<Rightarrow> t \<noteq> [] \<and> list_all word_char t
    | (TokString, t) \<Rightarrow> True
    | (TokComment, t) \<Rightarrow> False
    | (TokSemicolon, t) \<Rightarrow> t = '';''
    | (TokOpen, t) \<Rightarrow> t = ''{''
    | (TokClose, t) \<Rightarrow> t = ''}''
    | (TokComma, t) \<Rightarrow> t = '','')"

definition gap :: "string \<Rightarrow> bool" where
  "gap g \<longleftrightarrow> list_all (\<lambda>c. blank_char c \<or> c = nl) g"

text \<open>White space before each lexeme, some of it between two words, and white space at the end.\<close>

fun layout_ok :: "(string \<times> lexeme) list \<Rightarrow> bool" where
  "layout_ok [] = True"
| "layout_ok [(g, l)] = (gap g \<and> lexeme_ok l)"
| "layout_ok ((g, l) # (g', l') # ls) =
     (gap g \<and> lexeme_ok l \<and> (fst l = TokWord \<and> fst l' = TokWord \<longrightarrow> g' \<noteq> []) \<and> layout_ok ((g', l') # ls))"

fun layout_text :: "(string \<times> lexeme) list \<Rightarrow> string \<Rightarrow> string" where
  "layout_text [] last_gap = last_gap"
| "layout_text ((g, l) # ls) last_gap = g @ spell l @ layout_text ls last_gap"

section \<open>Tokens of a layout\<close>

lemma quoted_escape: "\<exists>n. quoted (escape_quoted t @ dq # r) = Some (t, n, r)"
proof (induction t)
  case Nil
  show ?case by (simp add: escape_quoted_def quoted.simps)
next
  case (Cons c t)
  then obtain n where n: "quoted (escape_quoted t @ dq # r) = Some (t, n, r)" by blast
  show ?case
  proof (cases "c = dq \<or> c = backslash_c")
    case True
    then have e: "escape_quoted (c # t) @ dq # r = backslash_c # c # escape_quoted t @ dq # r"
      by (simp add: escape_quoted_def)
    from True n show ?thesis unfolding e by (auto simp: quoted.simps(2))
  next
    case False
    then have e: "escape_quoted (c # t) @ dq # r = c # escape_quoted t @ dq # r"
      by (simp add: escape_quoted_def)
    obtain d s where ds: "escape_quoted t @ dq # r = d # s" by (cases "escape_quoted t @ dq # r") auto
    from False n show ?thesis unfolding e ds by (auto simp: quoted.simps(2) [of c])
  qed
qed

definition stops :: "string \<Rightarrow> bool" where
  "stops s \<longleftrightarrow> (case s of [] \<Rightarrow> True | c # _ \<Rightarrow> \<not> word_char c)"

lemma gap_stops: "gap g \<Longrightarrow> g \<noteq> [] \<Longrightarrow> stops (g @ s)"
  by (cases g) (auto simp: gap_def stops_def word_char_def blank_char_def)

lemma tokenize_gap: "gap g \<Longrightarrow> \<exists>l' f'. line \<le> l' \<and> tokenize line first (g @ s) = tokenize l' f' s"
proof (induction g arbitrary: line first)
  case (Cons c g)
  then have c: "blank_char c \<or> c = nl" and g: "gap g" by (simp_all add: gap_def)
  show ?case
  proof (cases "c = nl")
    case True
    then show ?thesis using Cons.IH [OF g, of "Suc line" True] by (auto simp: tokenize.simps(2) intro: Suc_leD)
  next
    case False
    with c show ?thesis using Cons.IH [OF g, of line first] by (simp add: tokenize.simps(2))
  qed
qed auto

lemma tokenize_word:
  assumes "w \<noteq> []" and "list_all word_char w" and "stops s"
  shows "tokenize line first (w @ s) = rbind (tokenize line False s) (\<lambda>ts. Inr (mk_token TokWord w line first # ts))"
proof -
  obtain c v where w: "w = c # v" using assms(1) by (cases w) auto
  have c: "word_char c" and v: "\<forall>d\<in>set v. word_char d" using assms(2) by (auto simp: w list_all_iff)
  have s: "takeWhile word_char s = []" "dropWhile word_char s = s" using assms(3) by (cases s; simp add: stops_def)+
  have t: "takeWhile word_char (v @ s) = v" "dropWhile word_char (v @ s) = s"
    using v s by (simp_all add: takeWhile_append dropWhile_append)
  have n: "c \<noteq> nl" "\<not> blank_char c" "c \<noteq> CHR ''#''" "c \<noteq> dq" "punctuation c = None"
    using c by (auto simp: word_char_def punctuation_def)
  show ?thesis using n by (simp add: w tokenize.simps(2) t)
qed

lemma tokenize_spell:
  assumes "lexeme_ok l" and "fst l = TokWord \<longrightarrow> stops s"
  shows "\<exists>n. tokenize line first (spell l @ s) =
    rbind (tokenize (line + n) False s) (\<lambda>ts. Inr (mk_token (fst l) (snd l) line first # ts))"
proof -
  obtain k w where l: "l = (k, w)" by (metis prod.exhaust)
  show ?thesis
  proof (cases k)
    case TokWord
    then show ?thesis using assms tokenize_word [of w s line first]
      by (intro exI [of _ 0]) (simp add: l lexeme_ok_def)
  next
    case TokString
    obtain n where "quoted (escape_quoted w @ dq # s) = Some (w, n, s)" using quoted_escape by blast
    then show ?thesis using TokString by (intro exI [of _ n]) (simp add: l tokenize.simps(2) blank_char_def)
  qed (use assms in \<open>intro exI [of _ 0]; simp add: l lexeme_ok_def tokenize.simps(2) blank_char_def punctuation_def\<close>)+
qed

lemma layout_stops: "layout_ok ((g, l) # ls) \<Longrightarrow> gap e \<Longrightarrow> fst l = TokWord \<Longrightarrow> stops (layout_text ls e)"
proof (cases ls)
  case Nil
  assume "gap e"
  with Nil show ?thesis using gap_stops [of e "[]"] by (cases "e = []") (auto simp: stops_def)
next
  case (Cons gl ls')
  obtain g' l' where gl: "gl = (g', l')" by (metis prod.exhaust)
  assume a: "layout_ok ((g, l) # ls)" "fst l = TokWord"
  then have g': "gap g'" "lexeme_ok l'" "fst l' = TokWord \<longrightarrow> g' \<noteq> []"
    using Cons gl by (cases ls'; auto)+
  show ?thesis
  proof (cases "g' = []")
    case False
    with g' show ?thesis by (simp add: Cons gl gap_stops)
  next
    case True
    obtain k w where l': "l' = (k, w)" by (metis prod.exhaust)
    from True g' l' show ?thesis by (cases k) (auto simp: Cons gl stops_def lexeme_ok_def word_char_def)
  qed
qed

lemma tokenize_layout:
  assumes "layout_ok ls" and "gap e" and "0 < line"
  shows "\<exists>ts. tokenize line first (layout_text ls e) = Inr ts \<and> map lex_of ts = map snd ls \<and> list_all (\<lambda>t. 0 < tk_line t) ts"
  using assms(1,3)
proof (induction ls arbitrary: line first)
  case Nil
  obtain l' f' where "tokenize line first (e @ []) = tokenize l' f' []" using tokenize_gap [OF assms(2)] by blast
  then show ?case by simp
next
  case (Cons gl ls)
  obtain g l where gl: "gl = (g, l)" by (metis prod.exhaust)
  have ok: "gap g" "lexeme_ok l" "layout_ok ls" using Cons.prems(1) gl by (cases ls; auto)+
  obtain l1 f1 where 1: "line \<le> l1" "tokenize line first (g @ spell l @ layout_text ls e) = tokenize l1 f1 (spell l @ layout_text ls e)"
    using tokenize_gap [OF ok(1)] by blast
  have st: "fst l = TokWord \<longrightarrow> stops (layout_text ls e)" using layout_stops Cons.prems(1) assms(2) gl by blast
  have "0 < l1" using 1(1) Cons.prems(2) by simp
  from tokenize_spell [OF ok(2) st, of l1 f1] obtain n where 2:
      "tokenize l1 f1 (spell l @ layout_text ls e) =
        rbind (tokenize (l1 + n) False (layout_text ls e)) (\<lambda>ts. Inr (mk_token (fst l) (snd l) l1 f1 # ts))" by blast
  obtain ts where "tokenize (l1 + n) False (layout_text ls e) = Inr ts" "map lex_of ts = map snd ls" "list_all (\<lambda>t. 0 < tk_line t) ts"
    using Cons.IH [OF ok(3), of "l1 + n" False] \<open>0 < l1\<close> by auto
  with 1 2 \<open>0 < l1\<close> show ?case by (auto simp: gl mk_token_def)
qed

section \<open>What is written\<close>

datatype host_stmt =
    Hardware string
  | FixedAddress "string list"
  | Filename string
  | HostOption string string
  | Setting string string

datatype item =
    HostItem string "host_stmt list"
  | GroupItem "string list" "item list"
  | PlainItem "string list"

abbreviation word_lex :: "string \<Rightarrow> lexeme" where "word_lex w \<equiv> (TokWord, w)"

fun comma_list :: "string list \<Rightarrow> lexeme list" where
  "comma_list [] = []"
| "comma_list [a] = [word_lex a]"
| "comma_list (a # b # as) = word_lex a # (TokComma, '','') # comma_list (b # as)"

fun stmt_lex :: "host_stmt \<Rightarrow> lexeme list" where
  "stmt_lex (Hardware m) = [word_lex ''hardware'', word_lex ''ethernet'', word_lex m]"
| "stmt_lex (FixedAddress as) = word_lex ''fixed-address'' # comma_list as"
| "stmt_lex (Filename f) = [word_lex ''filename'', (TokString, f)]"
| "stmt_lex (HostOption n v) = [word_lex ''option'', word_lex n, (TokString, v)]"
| "stmt_lex (Setting k v) = [word_lex k, (TokString, v)]"

fun items_lex :: "item list \<Rightarrow> lexeme list" where
  "items_lex [] = []"
| "items_lex (HostItem n ss # is) =
     [word_lex ''host'', word_lex n, (TokOpen, ''{'')] @
     concat (map (\<lambda>s. stmt_lex s @ [(TokSemicolon, '';'')]) ss) @ [(TokClose, ''}'')] @ items_lex is"
| "items_lex (GroupItem ws js # is) =
     map word_lex ws @ [(TokOpen, ''{'')] @ items_lex js @ [(TokClose, ''}'')] @ items_lex is"
| "items_lex (PlainItem ws # is) = map word_lex ws @ [(TokSemicolon, '';'')] @ items_lex is"

text \<open>What a statement says of a host, and the hosts that are written.\<close>

fun stmt_says :: "host_stmt \<Rightarrow> dhcp_host \<Rightarrow> dhcp_host" where
  "stmt_says (Hardware m) h = h\<lparr>ho_macs := ho_macs h @ [to_lower m]\<rparr>"
| "stmt_says (FixedAddress as) h = h\<lparr>ho_address := join_str '', '' as\<rparr>"
| "stmt_says (Filename f) h = h\<lparr>ho_filename := f\<rparr>"
| "stmt_says (HostOption n v) h =
     (if n = ''dhcp-client-identifier'' then h\<lparr>ho_client_identifier := v\<rparr> else set_option n v h)"
| "stmt_says (Setting k v) h = set_option k v h"

definition host_says :: "string \<Rightarrow> host_stmt list \<Rightarrow> dhcp_host" where
  "host_says n ss = foldl (\<lambda>h s. stmt_says s h) (new_host n []) ss"

fun items_hosts :: "item list \<Rightarrow> dhcp_host list" where
  "items_hosts [] = []"
| "items_hosts (HostItem n ss # is) = host_says n ss # items_hosts is"
| "items_hosts (GroupItem ws js # is) = items_hosts js @ items_hosts is"
| "items_hosts (PlainItem ws # is) = items_hosts is"

definition addresses :: "host_stmt list \<Rightarrow> nat" where
  "addresses ss = length (filter (\<lambda>s. case s of FixedAddress _ \<Rightarrow> True | _ \<Rightarrow> False) ss)"

fun stmt_ok :: "host_stmt \<Rightarrow> bool" where
  "stmt_ok (FixedAddress as) = (as \<noteq> [] \<and> list_all (\<lambda>a. a \<noteq> []) as)"
| "stmt_ok (Setting k v) = (k \<notin> {''host'', ''include'', ''hardware'', ''fixed-address'', ''filename'', ''option''})"
| "stmt_ok s = True"

fun items_ok :: "item list \<Rightarrow> bool" where
  "items_ok [] = True"
| "items_ok (HostItem n ss # is) = (n \<notin> {[], ''=''} \<and> list_all stmt_ok ss \<and> addresses ss \<le> 1 \<and> items_ok is)"
| "items_ok (GroupItem ws js # is) =
     (ws \<noteq> [] \<and> hd ws \<noteq> ''host'' \<and> last ws \<noteq> ''='' \<and> items_ok js \<and> items_ok is)"
| "items_ok (PlainItem ws # is) = (ws \<noteq> [] \<and> hd ws \<notin> {''host'', ''include''} \<and> items_ok is)"

fun items_depth :: "item list \<Rightarrow> nat" where
  "items_depth [] = 0"
| "items_depth (HostItem n ss # is) = items_depth is"
| "items_depth (GroupItem ws js # is) = max (Suc (items_depth js)) (items_depth is)"
| "items_depth (PlainItem ws # is) = items_depth is"

section \<open>Reading them\<close>

definition arg_kinds :: "token list \<Rightarrow> bool" where
  "arg_kinds ts \<longleftrightarrow> list_all (\<lambda>t. tk_kind t \<in> {TokWord, TokString, TokComma}) ts"

lemma statement_args: "arg_kinds ws \<Longrightarrow> statement E start us (ws @ ts) = statement E start (us @ ws) ts"
proof (induction ws arbitrary: us)
  case (Cons w ws)
  then have "statement E start us ((w # ws) @ ts) = statement E start (us @ [w]) (ws @ ts)"
    by (auto simp: statement.simps(2) arg_kinds_def)
  with Cons show ?case by (simp add: arg_kinds_def)
qed simp

lemma statement_semi:
  "arg_kinds ws \<Longrightarrow> tk_kind c = TokSemicolon \<Longrightarrow> statement E start [] (ws @ c # ts) = Inr (ws, TokSemicolon, ts)"
  by (simp add: statement_args statement.simps(2))

lemma statement_open:
  "arg_kinds ws \<Longrightarrow> tk_kind c = TokOpen \<Longrightarrow> ws \<noteq> [] \<Longrightarrow> \<not> ends_with_equals ws \<Longrightarrow>
     statement E start [] (ws @ c # ts) = Inr (ws, TokOpen, ts)"
  by (simp add: statement_args statement.simps(2))

lemma lexemes_args: "map lex_of ts = map word_lex ws \<Longrightarrow> arg_kinds ts \<and> map tk_text ts = ws"
proof (induction ts arbitrary: ws)
  case (Cons t ts)
  then obtain w vs where "ws = w # vs" by (cases ws) auto
  with Cons show ?case by (auto simp: arg_kinds_def)
qed (auto simp: arg_kinds_def)

lemma comma_list_values:
  "map lex_of ts = comma_list as \<Longrightarrow>
     arg_kinds ts \<and> map tk_text (filter (\<lambda>t. tk_kind t \<noteq> TokComma) ts) = as"
proof (induction as arbitrary: ts rule: comma_list.induct)
  case (3 a b as)
  then obtain t u vs where "ts = t # u # vs" "lex_of t = word_lex a" "lex_of u = (TokComma, '','')"
      "map lex_of vs = comma_list (b # as)"
    by (auto simp: map_eq_Cons_conv)
  with "3.IH" [of vs] show ?case by (auto simp: arg_kinds_def)
qed (auto simp: arg_kinds_def map_eq_Cons_conv)

lemma apply_stmt:
  assumes "map lex_of ws = stmt_lex s" and "stmt_ok s"
    and "case s of FixedAddress _ \<Rightarrow> ho_address h = [] | _ \<Rightarrow> True"
  shows "arg_kinds ws \<and> ws \<noteq> [] \<and> tk_kind (hd ws) = TokWord \<and> tk_text (hd ws) \<noteq> ''host'' \<and>
    apply_statement E h ws = Inr (stmt_says s h)"
proof (cases s)
  case (Hardware m)
  with assms obtain t u v where ws: "ws = [t, u, v]" and k: "lex_of t = word_lex ''hardware''"
      "lex_of u = word_lex ''ethernet''" "lex_of v = word_lex m" by (auto simp: map_eq_Cons_conv)
  from k have "apply_statement E h [t, u, v] = Inr (h\<lparr>ho_macs := ho_macs h @ [to_lower m]\<rparr>)"
    by (simp add: apply_statement_def)
  with k show ?thesis by (simp add: ws Hardware arg_kinds_def)
next
  case (FixedAddress as)
  with assms obtain t ts where ws: "ws = t # ts" and k: "lex_of t = word_lex ''fixed-address''"
      and l: "map lex_of ts = comma_list as" by (auto simp: map_eq_Cons_conv)
  from comma_list_values [OF l] k assms FixedAddress
  have "apply_statement E h (t # ts) = Inr (h\<lparr>ho_address := join_str '', '' as\<rparr>)"
    by (simp add: apply_statement_def Let_def)
  with k comma_list_values [OF l] show ?thesis by (simp add: ws FixedAddress arg_kinds_def)
next
  case (Filename f)
  with assms obtain t u where ws: "ws = [t, u]" and k: "lex_of t = word_lex ''filename''" "lex_of u = (TokString, f)"
    by (auto simp: map_eq_Cons_conv)
  from k have "apply_statement E h [t, u] = Inr (h\<lparr>ho_filename := f\<rparr>)" by (simp add: apply_statement_def)
  with k show ?thesis by (simp add: ws Filename arg_kinds_def)
next
  case (HostOption n v)
  with assms obtain t u x where ws: "ws = [t, u, x]" and k: "lex_of t = word_lex ''option''"
      "lex_of u = word_lex n" "lex_of x = (TokString, v)" by (auto simp: map_eq_Cons_conv)
  from k have "apply_statement E h [t, u, x] = Inr (stmt_says s h)"
    by (simp add: apply_statement_def HostOption join_tokens_def)
  with k show ?thesis by (simp add: ws arg_kinds_def)
next
  case (Setting n v)
  with assms obtain t u where ws: "ws = [t, u]" and k: "lex_of t = word_lex n" "lex_of u = (TokString, v)"
    by (auto simp: map_eq_Cons_conv)
  from assms(2) Setting have n: "n \<noteq> ''include''" "n \<noteq> ''hardware''" "n \<noteq> ''fixed-address''" "n \<noteq> ''filename''"
      "n \<noteq> ''option''" "n \<noteq> ''host''" by simp_all
  from k n have "apply_statement E h [t, u] = Inr (set_option n v h)"
    by (simp add: apply_statement_def join_tokens_def)
  with k n show ?thesis by (simp add: ws Setting arg_kinds_def)
qed

lemma stmt_address: "ho_address (stmt_says s h) \<noteq> [] \<Longrightarrow> stmt_ok s \<Longrightarrow> (case s of FixedAddress _ \<Rightarrow> True | _ \<Rightarrow> ho_address h \<noteq> [])"
  by (cases s) (auto simp: set_option_def split: if_splits)

lemma host_body_reads:
  assumes "map lex_of us = concat (map (\<lambda>s. stmt_lex s @ [(TokSemicolon, '';'')]) ss)" and "list_all stmt_ok ss"
    and "addresses ss \<le> (if ho_address h = [] then 1 else 0)" and "tk_kind c = TokClose"
  shows "host_body E line h (us @ c # ts) = Inr (foldl (\<lambda>h s. stmt_says s h) h ss, ts)"
  using assms(1-3)
proof (induction ss arbitrary: us h)
  case Nil
  then show ?case using assms(4) by (simp add: host_body.simps)
next
  case (Cons s ss)
  then obtain ws semi vs where us: "us = ws @ semi # vs" "map lex_of ws = stmt_lex s" "tk_kind semi = TokSemicolon"
      "map lex_of vs = concat (map (\<lambda>s. stmt_lex s @ [(TokSemicolon, '';'')]) ss)"
    by (auto simp: map_eq_append_conv map_eq_Cons_conv)
  have ok: "stmt_ok s" "list_all stmt_ok ss" using Cons.prems(2) by simp_all
  have fx: "case s of FixedAddress _ \<Rightarrow> ho_address h = [] | _ \<Rightarrow> True"
    using Cons.prems(3) by (cases s) (auto simp: addresses_def split: if_splits)
  have ap: "arg_kinds ws" "ws \<noteq> []" "tk_kind (hd ws) = TokWord" "tk_text (hd ws) \<noteq> ''host''"
      "apply_statement E h ws = Inr (stmt_says s h)"
    using apply_stmt [OF us(2) ok(1) fx, of E] by blast+
  have "addresses ss \<le> (if ho_address (stmt_says s h) = [] then 1 else 0)"
    using Cons.prems(3) stmt_address [of s h] ok(1) by (cases s) (auto simp: addresses_def split: if_splits)
  note IH = Cons.IH [OF us(4) ok(2) this]
  obtain w wr where w: "ws = w # wr" using ap(2) by (cases ws) auto
  have "statement E (tk_line w) [] (ws @ semi # vs @ c # ts) = Inr (ws, TokSemicolon, vs @ c # ts)"
    using ap(1) us(3) by (rule statement_semi)
  then have "statement E (tk_line w) [] (w # wr @ semi # vs @ c # ts) = Inr (ws, TokSemicolon, vs @ c # ts)"
    by (simp add: w)
  moreover have "tk_kind w = TokWord" "tk_text w \<noteq> ''host''" using ap w by auto
  moreover have "host_body E line h (us @ c # ts) = host_body E line h (w # wr @ semi # vs @ c # ts)" by (simp add: us(1) w)
  ultimately show ?case using ap(5) IH by (simp add: host_body.simps(2) [of E line h w] w)
qed

text \<open>One step of a block, for each kind of statement.\<close>

lemma no_comments: "ps_comments st = [] \<Longrightarrow> st\<lparr>ps_comments := []\<rparr> = st"
  by (cases st) simp

lemma block_host:
  assumes "depth \<le> maxDepth" and "ps_toks st = t # ts" and "tk_kind t = TokWord" and "ps_comments st = []"
    and "statement E (tk_line t) [] (t # ts) = Inr (ws, TokOpen, rest)" and "keyword_of ws = ''host''"
    and "host_decl E ws [] rest = Inr (h, r)"
  shows "block (Suc k) E depth open st = block k E depth open (st\<lparr>ps_toks := r, ps_hosts := ps_hosts st @ [h]\<rparr>)"
  using assms by (subst block.simps) (simp add: Let_def no_comments)

lemma block_plain:
  assumes "depth \<le> maxDepth" and "ps_toks st = t # ts" and "tk_kind t = TokWord" and "ps_comments st = []"
    and "statement E (tk_line t) [] (t # ts) = Inr (ws, TokSemicolon, rest)"
    and "keyword_of ws \<noteq> ''host''" and "keyword_of ws \<noteq> ''include''"
  shows "block (Suc k) E depth open st = block k E depth open (st\<lparr>ps_toks := rest\<rparr>)"
  using assms by (subst block.simps) (simp add: Let_def no_comments)

lemma block_group:
  assumes "depth \<le> maxDepth" and "ps_toks st = t # ts" and "tk_kind t = TokWord" and "ps_comments st = []"
    and "statement E (tk_line t) [] (t # ts) = Inr (ws, TokOpen, rest)" and "keyword_of ws \<noteq> ''host''"
    and "block (Suc (length rest)) E (Suc depth) (tk_line t) (st\<lparr>ps_toks := rest\<rparr>) = Some (Inr st')"
  shows "block (Suc k) E depth open st = block k E depth open st'"
  using assms by (subst block.simps) (simp add: Let_def no_comments)

definition closes :: "nat \<Rightarrow> token list \<Rightarrow> token list \<Rightarrow> bool" where
  "closes line ts r \<longleftrightarrow> (if line = 0 then ts = [] \<and> r = [] else (\<exists>c. ts = c # r \<and> tk_kind c = TokClose))"

lemma block_closes:
  "closes line (ps_toks st) r \<Longrightarrow> depth \<le> maxDepth \<Longrightarrow> block (Suc k) E depth line st = Some (Inr (st\<lparr>ps_toks := r\<rparr>))"
  by (subst block.simps) (auto simp: closes_def split: if_splits)

lemma block_reads:
  assumes "map lex_of us = items_lex is" and "items_ok is" and "depth + items_depth is \<le> maxDepth"
    and "list_all (\<lambda>t. 0 < tk_line t) us" and "ps_toks st = us @ tl_toks" and "ps_comments st = []"
    and "length us < k" and "closes line tl_toks r"
  shows "block k E depth line st = Some (Inr (st\<lparr>ps_toks := r, ps_hosts := ps_hosts st @ items_hosts is\<rparr>))"
  using assms
proof (induction "is" arbitrary: us tl_toks st k line depth r rule: items_lex.induct)
  case 1
  then obtain k' where "k = Suc k'" by (cases k) auto
  with 1 show ?case using block_closes [of line st r depth k' E] by simp
next
  case (2 n ss "is")
  obtain h nm op body c vs where us: "us = h # nm # op # body @ c # vs" and
      k: "lex_of h = word_lex ''host''" "lex_of nm = word_lex n" "lex_of op = (TokOpen, ''{'')" "tk_kind c = TokClose"
      and body: "map lex_of body = concat (map (\<lambda>s. stmt_lex s @ [(TokSemicolon, '';'')]) ss)"
      and vs: "map lex_of vs = items_lex is"
    using "2.prems"(1) by (auto simp: map_eq_append_conv map_eq_Cons_conv)
  obtain k' where k': "k = Suc k'" using "2.prems"(7) by (cases k) auto
  let ?ts = "nm # op # body @ c # vs @ tl_toks" and ?h = "host_says n ss"
  have "statement E (tk_line h) [] ([h, nm] @ op # body @ c # vs @ tl_toks) = Inr ([h, nm], TokOpen, body @ c # vs @ tl_toks)"
    using k "2.prems"(2) by (intro statement_open) (auto simp: arg_kinds_def ends_with_equals_def)
  then have st: "statement E (tk_line h) [] (h # ?ts) = Inr ([h, nm], TokOpen, body @ c # vs @ tl_toks)" by simp
  have "host_body E (tk_line h) (new_host n []) (body @ c # vs @ tl_toks) = Inr (?h, vs @ tl_toks)"
    unfolding host_says_def using body "2.prems"(2) k(4) by (intro host_body_reads) (auto simp: new_host_def)
  then have d: "host_decl E [h, nm] [] (body @ c # vs @ tl_toks) = Inr (?h, vs @ tl_toks)"
    using k "2.prems"(2) by (simp add: host_decl_def Let_def)
  have kw: "keyword_of [h, nm] = ''host''" using k by (simp add: keyword_of_def)
  have "block (Suc k') E depth line st = block k' E depth line (st\<lparr>ps_toks := vs @ tl_toks, ps_hosts := ps_hosts st @ [?h]\<rparr>)"
    using "2.prems" k st d kw by (intro block_host) (auto simp: us)
  also have "\<dots> = Some (Inr (st\<lparr>ps_toks := vs @ tl_toks, ps_hosts := ps_hosts st @ [?h]\<rparr>
      \<lparr>ps_toks := r, ps_hosts := (ps_hosts st @ [?h]) @ items_hosts is\<rparr>))"
    using "2.IH" [OF vs, of depth "st\<lparr>ps_toks := vs @ tl_toks, ps_hosts := ps_hosts st @ [?h]\<rparr>" tl_toks k' line r] "2.prems" k'
    by (simp add: us)
  finally show ?case by (simp add: k')
next
  case (3 ws js "is")
  obtain hs op gs c vs where us: "us = hs @ op # gs @ c # vs" and
      k: "map lex_of hs = map word_lex ws" "tk_kind op = TokOpen" "tk_kind c = TokClose"
      and gs: "map lex_of gs = items_lex js" and vs: "map lex_of vs = items_lex is"
    using "3.prems"(1) by (auto simp: map_eq_append_conv map_eq_Cons_conv append_eq_map_conv Cons_eq_map_conv)
  obtain k' where k': "k = Suc k'" using "3.prems"(7) by (cases k) auto
  have hs: "arg_kinds hs" "map tk_text hs = ws" using lexemes_args [OF k(1)] by auto
  then obtain h hr where h: "hs = h # hr" using "3.prems"(2) by (cases hs) auto
  have hk: "tk_kind h = TokWord" "tk_text h = hd ws" "0 < tk_line h"
    using k(1) h hs "3.prems"(2,4) us by (auto simp: map_eq_Cons_conv)
  let ?rest = "gs @ c # vs @ tl_toks"
  have le: "tk_text (last hs) = last ws" using hs(2) h by (metis last_map list.distinct(1))
  have "statement E (tk_line h) [] (hs @ op # ?rest) = Inr (hs, TokOpen, ?rest)"
    using hs(1) k(2) le "3.prems"(2) h by (intro statement_open) (auto simp: ends_with_equals_def)
  then have st: "statement E (tk_line h) [] (h # hr @ op # ?rest) = Inr (hs, TokOpen, ?rest)" by (simp add: h)
  have kw: "keyword_of hs \<noteq> ''host''" using hk h "3.prems"(2) by (simp add: keyword_of_def)
  have nested: "block (Suc (length ?rest)) E (Suc depth) (tk_line h) (st\<lparr>ps_toks := ?rest\<rparr>) =
      Some (Inr (st\<lparr>ps_toks := ?rest\<rparr>\<lparr>ps_toks := vs @ tl_toks, ps_hosts := ps_hosts st @ items_hosts js\<rparr>))"
    using "3.IH"(1) [OF gs, of "Suc depth" "st\<lparr>ps_toks := ?rest\<rparr>" "c # vs @ tl_toks" "Suc (length ?rest)" "tk_line h" "vs @ tl_toks"]
      "3.prems" hk k(3) by (simp add: us closes_def)
  have "block (Suc k') E depth line st = block k' E depth line
      (st\<lparr>ps_toks := ?rest\<rparr>\<lparr>ps_toks := vs @ tl_toks, ps_hosts := ps_hosts st @ items_hosts js\<rparr>)"
    using "3.prems" hk st kw nested by (intro block_group) (auto simp: us h)
  also have "\<dots> = Some (Inr (st\<lparr>ps_toks := r, ps_hosts := ps_hosts st @ items_hosts js @ items_hosts is\<rparr>))"
    using "3.IH"(2) [OF vs, of depth "st\<lparr>ps_toks := vs @ tl_toks, ps_hosts := ps_hosts st @ items_hosts js\<rparr>" tl_toks k' line r] "3.prems" k'
    by (simp add: us)
  finally show ?case by (simp add: k')
next
  case (4 ws "is")
  obtain hs sc vs where us: "us = hs @ sc # vs" and
      k: "map lex_of hs = map word_lex ws" "tk_kind sc = TokSemicolon" and vs: "map lex_of vs = items_lex is"
    using "4.prems"(1) by (auto simp: map_eq_append_conv map_eq_Cons_conv)
  obtain k' where k': "k = Suc k'" using "4.prems"(7) by (cases k) auto
  have hs: "arg_kinds hs" "map tk_text hs = ws" using lexemes_args [OF k(1)] by auto
  then obtain h hr where h: "hs = h # hr" using "4.prems"(2) by (cases hs) auto
  have hk: "tk_kind h = TokWord" "tk_text h = hd ws" using k(1) h hs by (auto simp: map_eq_Cons_conv)
  have "statement E (tk_line h) [] (hs @ sc # vs @ tl_toks) = Inr (hs, TokSemicolon, vs @ tl_toks)"
    using hs(1) k(2) by (rule statement_semi)
  then have st: "statement E (tk_line h) [] (h # hr @ sc # vs @ tl_toks) = Inr (hs, TokSemicolon, vs @ tl_toks)" by (simp add: h)
  have kw: "keyword_of hs \<noteq> ''host''" "keyword_of hs \<noteq> ''include''" using hk h "4.prems"(2) by (simp_all add: keyword_of_def)
  have "block (Suc k') E depth line st = block k' E depth line (st\<lparr>ps_toks := vs @ tl_toks\<rparr>)"
    using "4.prems" hk st kw by (intro block_plain) (auto simp: us h)
  also have "\<dots> = Some (Inr (st\<lparr>ps_toks := r, ps_hosts := ps_hosts st @ items_hosts is\<rparr>))"
    using "4.IH" [OF vs, of depth "st\<lparr>ps_toks := vs @ tl_toks\<rparr>" tl_toks k' line r] "4.prems" k' by (simp add: us)
  finally show ?case by (simp add: k')
qed

text \<open>
  C16. The declarations read are those written, whatever the layout: over any lines, with any white
  space, in any nesting of groups within the bound and among any other statements, with the
  statements of a declaration in any order. No declaration takes anything of its neighbour.
\<close>
theorem Parse_reads_what_is_written:
  assumes "layout_ok ls" and "gap e" and "map snd ls = items_lex is" and "items_ok is" and "items_depth is \<le> 64"
  shows "Parse (layout_text ls e) = Some (Inr (sort_key ho_name (items_hosts is)))"
proof -
  obtain ts where ts: "tokenize 1 True (layout_text ls e) = Inr ts" "map lex_of ts = items_lex is" "list_all (\<lambda>t. 0 < tk_line t) ts"
    using tokenize_layout [OF assms(1,2), of 1 True] assms(3) by auto
  have "block (Suc (length ts)) \<lparr> pe_file = [], pe_chain = [], pe_fetch = None \<rparr> 0 0 (start_state ts) =
      Some (Inr (start_state ts\<lparr>ps_toks := [], ps_hosts := ps_hosts (start_state ts) @ items_hosts is\<rparr>))"
    using ts(3) assms(5) by (intro block_reads [OF ts(2) assms(4)]) (simp_all add: start_state_def closes_def maxDepth_def)
  with ts(1) show ?thesis by (simp add: Parse_def parse_config_def tokenize_file_def start_state_def)
qed

text \<open>A node and its BMC on one line, in a group.\<close>

definition sample_items :: "item list" where
  "sample_items = [GroupItem [''group''] [HostItem ''n1'' [FixedAddress [''10.0.0.1''], Hardware ''AA:BB'']],
     HostItem ''n1-bmc'' [Hardware ''AA:CC'']]"

definition sample_layout :: "(string \<times> lexeme) list" where
  "sample_layout = map (\<lambda>l. ('' '', l)) (items_lex sample_items)"

theorem Parse_reads_what_is_written_witness:
  "Parse (layout_text sample_layout []) = Some (Inr (sort_key ho_name
     [host_says ''n1'' [FixedAddress [''10.0.0.1''], Hardware ''AA:BB''], host_says ''n1-bmc'' [Hardware ''AA:CC'']]))"
proof -
  have l: "layout_ok sample_layout" by code_simp
  have g: "gap []" by code_simp
  have m: "map snd sample_layout = items_lex sample_items" by (simp add: sample_layout_def comp_def)
  have o: "items_ok sample_items" by code_simp
  have d: "items_depth sample_items \<le> 64" by code_simp
  from Parse_reads_what_is_written [OF l g m o d] show ?thesis by (simp add: sample_items_def)
qed

end
