(* ===== verification/HostSlots.thy ===== *)
theory HostSlots
  imports GoStrings
begin

text \<open>
  \<open>internal/fanout/hosts.go\<close>: how many callers work on a host at once. The channel of a host holds as
  many tokens as there are callers on it, so its state is read off the callers: a caller is
  waiting for places, holds them all, has given them back, or was refused because its context
  ended. A step is one thing one caller does; any order of steps is possible.
\<close>

section \<open>The state and its steps\<close>

definition PerHost :: nat where "PerHost = 4"

definition slot_limit :: "int \<Rightarrow> nat" where
  "slot_limit limit = (if limit < 1 then PerHost else nat limit)"

text \<open>The places a caller takes, in this order.\<close>

definition slot_names :: "string list \<Rightarrow> string list" where
  "slot_names hosts = filter (\<lambda>n. n \<noteq> []) (remdups_adj (sort hosts))"

datatype caller =
    Acquiring "string list" "string list"
  | Holding "string list"
  | Released
  | Refused

fun held :: "caller \<Rightarrow> string list" where
  "held (Acquiring hs ws) = hs"
| "held (Holding hs) = hs"
| "held Released = []"
| "held Refused = []"

definition in_use :: "caller list \<Rightarrow> string \<Rightarrow> nat" where
  "in_use cs n = length (filter (\<lambda>c. n \<in> set (held c)) cs)"

inductive slot_progress :: "nat \<Rightarrow> caller list \<Rightarrow> caller list \<Rightarrow> bool" for limit where
  take_place: "i < length cs \<Longrightarrow> cs ! i = Acquiring hs (n # ws) \<Longrightarrow> in_use cs n < limit \<Longrightarrow>
     slot_progress limit cs (cs[i := Acquiring (hs @ [n]) ws])"
| have_all: "i < length cs \<Longrightarrow> cs ! i = Acquiring hs [] \<Longrightarrow> slot_progress limit cs (cs[i := Holding hs])"
| give_back: "i < length cs \<Longrightarrow> cs ! i = Holding hs \<Longrightarrow> slot_progress limit cs (cs[i := Released])"

text \<open>The context of a caller that has asked for a place may end at any time: all is given back.\<close>

inductive slot_step :: "nat \<Rightarrow> caller list \<Rightarrow> caller list \<Rightarrow> bool" for limit where
  go_on: "slot_progress limit cs cs' \<Longrightarrow> slot_step limit cs cs'"
| ctx_ended: "i < length cs \<Longrightarrow> cs ! i = Acquiring hs ws \<Longrightarrow> hs @ ws \<noteq> [] \<Longrightarrow> slot_step limit cs (cs[i := Refused])"

inductive_cases slot_progressE: "slot_progress limit cs cs'"
inductive_cases slot_stepE: "slot_step limit cs cs'"

definition start_callers :: "string list list \<Rightarrow> caller list" where
  "start_callers wants = map (\<lambda>hosts. Acquiring [] (slot_names hosts)) wants"

definition slot_reachable :: "nat \<Rightarrow> string list list \<Rightarrow> caller list \<Rightarrow> bool" where
  "slot_reachable limit wants cs \<longleftrightarrow> (slot_step limit)\<^sup>*\<^sup>* (start_callers wants) cs"

definition finished :: "caller \<Rightarrow> bool" where
  "finished c \<longleftrightarrow> c = Released \<or> c = Refused"

section \<open>Invariants\<close>

fun caller_ok :: "caller \<Rightarrow> bool" where
  "caller_ok (Acquiring hs ws) = sorted_wrt (<) (hs @ ws)"
| "caller_ok c = True"

definition slots_ok :: "nat \<Rightarrow> caller list \<Rightarrow> bool" where
  "slots_ok limit cs \<longleftrightarrow> list_all caller_ok cs \<and> (\<forall>n. in_use cs n \<le> limit)"

lemma sorted_names: "sorted_wrt (<) (slot_names hosts)"
proof -
  have "sorted_wrt (<) (remdups_adj xs)" if "sorted xs" for xs :: "string list"
    using that by (induction xs rule: remdups_adj.induct) (auto simp: less_le_not_le dest: order.antisym)
  then show ?thesis by (simp add: slot_names_def sorted_wrt_filter)
qed

lemma in_use_update:
  assumes "i < length cs"
  shows "in_use (cs[i := c]) n + (if n \<in> set (held (cs ! i)) then 1 else 0) = in_use cs n + (if n \<in> set (held c) then 1 else 0)"
proof -
  have cs: "cs = take i cs @ cs ! i # drop (Suc i) cs" using assms by (rule id_take_nth_drop)
  have "cs[i := c] = take i cs @ c # drop (Suc i) cs" using assms by (rule upd_conv_take_nth_drop)
  then show ?thesis by (subst (3) cs) (simp add: in_use_def)
qed

lemma in_use_less: "i < length cs \<Longrightarrow> held c = [] \<Longrightarrow> in_use (cs[i := c]) n \<le> in_use cs n"
  using in_use_update [of i cs c n] by (simp split: if_splits)

lemma start_ok: "slots_ok limit (start_callers wants)"
  by (auto simp: slots_ok_def start_callers_def in_use_def list_all_iff sorted_names)

lemma list_all_update: "list_all P cs \<Longrightarrow> P c \<Longrightarrow> list_all P (cs[i := c])"
  using set_update_subset_insert [of cs i c] by (auto simp: list_all_iff)

lemma step_ok:
  assumes "slot_step limit cs cs'" and "slots_ok limit cs"
  shows "slots_ok limit cs'"
  using assms(1)
proof cases
  case go_on
  then show ?thesis
  proof cases
    case (take_place i hs n ws)
    have "caller_ok (cs ! i)" using assms(2) take_place(2) by (simp add: slots_ok_def list_all_length)
    then have ok: "caller_ok (Acquiring (hs @ [n]) ws)" by (simp add: take_place(3))
    have "in_use cs' m \<le> limit" for m
      using in_use_update [OF take_place(2), of "Acquiring (hs @ [n]) ws" m] assms(2) take_place
      by (cases "m = n") (auto simp: slots_ok_def split: if_splits)
    moreover have "list_all caller_ok cs'" unfolding take_place(1)
      using assms(2) ok by (intro list_all_update) (auto simp: slots_ok_def)
    ultimately show ?thesis by (simp add: slots_ok_def)
  next
    case (have_all i hs)
    have "in_use cs' m \<le> limit" for m
      using in_use_update [OF have_all(2), of "Holding hs" m] assms(2) have_all by (auto simp: slots_ok_def)
    moreover have "list_all caller_ok cs'" unfolding have_all(1)
      using assms(2) by (intro list_all_update) (auto simp: slots_ok_def)
    ultimately show ?thesis by (simp add: slots_ok_def)
  next
    case (give_back i hs)
    have "in_use cs' m \<le> limit" for m
      using in_use_less [OF give_back(2), of Released m] assms(2) unfolding give_back(1) slots_ok_def by (meson held.simps(3) le_trans)
    moreover have "list_all caller_ok cs'" unfolding give_back(1)
      using assms(2) by (intro list_all_update) (auto simp: slots_ok_def)
    ultimately show ?thesis by (simp add: slots_ok_def)
  qed
next
  case (ctx_ended i hs ws)
  have "in_use cs' m \<le> limit" for m
    using in_use_less [OF ctx_ended(2), of Refused m] assms(2) unfolding ctx_ended(1) slots_ok_def by (meson held.simps(4) le_trans)
  moreover have "list_all caller_ok cs'" unfolding ctx_ended(1)
    using assms(2) by (intro list_all_update) (auto simp: slots_ok_def)
  ultimately show ?thesis by (simp add: slots_ok_def)
qed

lemma reachable_ok: "slot_reachable limit wants cs \<Longrightarrow> slots_ok limit cs"
  unfolding slot_reachable_def
  by (induction rule: rtranclp_induct) (auto simp: start_ok step_ok)

section \<open>No deadlock\<close>

lemma stuck_waits_further:
  assumes "slots_ok limit cs" and "0 < limit" and "\<nexists>cs'. slot_progress limit cs cs'"
    and "i < length cs" and "cs ! i = Acquiring hs (n # ws)"
  shows "\<exists>j hs' m ws'. j < length cs \<and> cs ! j = Acquiring hs' (m # ws') \<and> n < m"
proof -
  have "\<not> in_use cs n < limit" using assms(3-5) slot_progress.take_place by blast
  then have "filter (\<lambda>c. n \<in> set (held c)) cs \<noteq> []" using assms(2) by (auto simp: in_use_def)
  then obtain c where c: "c \<in> set cs" "n \<in> set (held c)" by (auto simp: filter_empty_conv)
  then obtain j where j: "j < length cs" "cs ! j = c" by (auto simp: in_set_conv_nth)
  show ?thesis
  proof (cases c)
    case (Acquiring hs' ws')
    with j assms(3) have "ws' \<noteq> []" using slot_progress.have_all by blast
    then obtain m us where ws': "ws' = m # us" by (cases ws') auto
    have "caller_ok c" using assms(1) c(1) by (simp add: slots_ok_def list_all_iff)
    with Acquiring c(2) ws' have "n < m" by (auto simp: sorted_wrt_append)
    with j Acquiring ws' show ?thesis by blast
  next
    case (Holding hs')
    with j assms(3) slot_progress.give_back show ?thesis by blast
  qed (use c in auto)
qed

lemma progress_or_finished:
  assumes "slots_ok limit cs" and "0 < limit" and "\<not> list_all finished cs"
  shows "\<exists>cs'. slot_progress limit cs cs'"
proof (rule ccontr)
  assume stuck: "\<nexists>cs'. slot_progress limit cs cs'"
  let ?N = "{n. \<exists>i hs ws. i < length cs \<and> cs ! i = Acquiring hs (n # ws)}"
  have "?N \<subseteq> (\<lambda>c. case c of Acquiring hs (n # ws) \<Rightarrow> n | _ \<Rightarrow> []) ` set cs"
    by (force simp: image_iff in_set_conv_nth)
  then have fin: "finite ?N" using finite_surj by blast
  from assms(3) obtain i where i: "i < length cs" "\<not> finished (cs ! i)" by (auto simp: list_all_length)
  then have "?N \<noteq> {}"
  proof (cases "cs ! i")
    case (Acquiring hs ws)
    then show ?thesis using i stuck slot_progress.have_all by (cases ws) blast+
  next
    case (Holding hs)
    then show ?thesis using i stuck slot_progress.give_back by blast
  qed (auto simp: finished_def)
  with fin have "Max ?N \<in> ?N" by (rule Max_in)
  then obtain j hs ws where j: "j < length cs" "cs ! j = Acquiring hs (Max ?N # ws)" by blast
  from stuck_waits_further [OF assms(1,2) stuck j] obtain m where "m \<in> ?N" "Max ?N < m" by blast
  with fin show False using Max_ge leD by blast
qed

fun caller_rank :: "caller \<Rightarrow> nat" where
  "caller_rank (Acquiring hs ws) = length ws + 2"
| "caller_rank (Holding hs) = 1"
| "caller_rank c = 0"

definition slots_rank :: "caller list \<Rightarrow> nat" where
  "slots_rank cs = sum_list (map caller_rank cs)"

lemma slots_rank_update: "i < length cs \<Longrightarrow> slots_rank (cs[i := c]) + caller_rank (cs ! i) = slots_rank cs + caller_rank c"
proof -
  assume i: "i < length cs"
  have cs: "cs = take i cs @ cs ! i # drop (Suc i) cs" using i by (rule id_take_nth_drop)
  have "cs[i := c] = take i cs @ c # drop (Suc i) cs" using i by (rule upd_conv_take_nth_drop)
  then show ?thesis by (subst (3) cs) (simp add: slots_rank_def)
qed

lemma progress_rank: "slot_progress limit cs cs' \<Longrightarrow> slots_rank cs' < slots_rank cs"
proof (erule slot_progressE)
  fix i hs n ws
  assume "cs' = cs[i := Acquiring (hs @ [n]) ws]" "i < length cs" "cs ! i = Acquiring hs (n # ws)"
  then show ?thesis using slots_rank_update [of i cs "Acquiring (hs @ [n]) ws"] by simp
next
  fix i hs
  assume "cs' = cs[i := Holding hs]" "i < length cs" "cs ! i = Acquiring hs []"
  then show ?thesis using slots_rank_update [of i cs "Holding hs"] by simp
next
  fix i hs
  assume "cs' = cs[i := Released]" "i < length cs" "cs ! i = Holding hs"
  then show ?thesis using slots_rank_update [of i cs Released] by simp
qed

lemma progress_finishes:
  assumes "slots_ok limit cs" and "0 < limit"
  shows "\<exists>cs'. (slot_progress limit)\<^sup>*\<^sup>* cs cs' \<and> list_all finished cs'"
  using assms(1)
proof (induction "slots_rank cs" arbitrary: cs rule: less_induct)
  case less
  show ?case
  proof (cases "list_all finished cs")
    case False
    then obtain c1 where c1: "slot_progress limit cs c1" using progress_or_finished [OF less.prems assms(2)] by blast
    have "slots_ok limit c1" using c1 less.prems step_ok slot_step.go_on by blast
    with less.hyps [OF progress_rank [OF c1]] c1 show ?thesis by (meson converse_rtranclp_into_rtranclp)
  qed blast
qed

lemma slot_limit_pos: "0 < slot_limit limit"
  by (simp add: slot_limit_def PerHost_def)

lemma finished_free: "list_all finished cs \<Longrightarrow> in_use cs n = 0"
  by (auto simp: in_use_def list_all_iff finished_def filter_empty_conv)


text \<open>
  C18. Callers that need the same hosts never wait for each other for ever: from wherever any order of
  steps has led, as long as not every caller is finished some caller can go on without any
  context ending, every such step brings the end nearer, and at the end every place is free.
\<close>
theorem callers_never_deadlock:
  assumes "slot_reachable (slot_limit limit) wants cs"
  shows "(list_all finished cs \<or> (\<exists>cs'. slot_progress (slot_limit limit) cs cs')) \<and>
    (\<forall>cs'. slot_progress (slot_limit limit) cs cs' \<longrightarrow> slots_rank cs' < slots_rank cs) \<and>
    (\<exists>cs'. (slot_progress (slot_limit limit))\<^sup>*\<^sup>* cs cs' \<and> list_all finished cs' \<and> (\<forall>n. in_use cs' n = 0))"
  using progress_or_finished [OF reachable_ok [OF assms] slot_limit_pos]
    progress_finishes [OF reachable_ok [OF assms] slot_limit_pos] progress_rank finished_free by blast

text \<open>Two callers that name the same two hosts in opposite orders, the first holding one of them.\<close>

definition sample_callers :: "caller list" where
  "sample_callers = [Acquiring [''a''] [''b''], Acquiring [] [''a'', ''b'']]"

lemma sample_reachable: "slot_reachable (slot_limit 1) [[''a'', ''b''], [''b'', ''a'']] sample_callers"
proof -
  have s: "start_callers [[''a'', ''b''], [''b'', ''a'']] = [Acquiring [] [''a'', ''b''], Acquiring [] [''a'', ''b'']]"
    by code_simp
  have "slot_progress (slot_limit 1) [Acquiring [] [''a'', ''b''], Acquiring [] [''a'', ''b'']]
      ([Acquiring [] [''a'', ''b''], Acquiring [] [''a'', ''b'']][0 := Acquiring ([] @ [''a'']) [''b'']])"
    by (intro slot_progress.take_place) (simp_all add: in_use_def slot_limit_def)
  then show ?thesis unfolding slot_reachable_def s sample_callers_def by (auto intro: slot_step.go_on)
qed


theorem callers_never_deadlock_witness:
  "\<exists>cs'. (slot_progress (slot_limit 1))\<^sup>*\<^sup>* sample_callers cs' \<and> list_all finished cs' \<and> in_use cs' ''a'' = 0"
  using callers_never_deadlock [OF sample_reachable] by blast

end
