(* ===== verification/Fanout.thy ===== *)
theory Fanout
  imports Outcome NodeSet "HOL-Library.Product_Lexorder"
begin

text \<open>
  \<open>internal/fanout\<close>: running a request on many targets and summing up what came back. The worker
  pool is a module the program calls; it is the parameter \<open>pool\<close>, which works on each item and
  gives one outcome for each, in their order: what the work returned, or nothing for an item it
  never worked on, with the error. Whether an error is a worker's panic is that module's, too.
\<close>

section \<open>Running\<close>

type_synonym 'w both_runner = "target \<Rightarrow> request \<Rightarrow> 'w \<Rightarrow> (cmd_result option \<times> goerr option) \<times> 'w"
type_synonym outcome = "cmd_result option \<times> goerr option"
type_synonym 'w pool = "nat \<Rightarrow> (target \<Rightarrow> 'w \<Rightarrow> outcome \<times> 'w) \<Rightarrow> target list \<Rightarrow> 'w \<Rightarrow> outcome list \<times> 'w"

record 'w executor =
  ex_runner :: "'w both_runner"
  ex_max :: nat
  ex_answers :: bool

definition target_label :: "target \<Rightarrow> string" where
  "target_label t = cmp_or [tg_name t, tg_host t]"

definition blank_result :: "target \<Rightarrow> goerr option \<Rightarrow> cmd_result" where
  "blank_result t err = \<lparr> rs_target = t, rs_exit_code = -1, rs_stdout = [], rs_stderr = [],
     rs_truncated = False, rs_err = err \<rparr>"

definition resultError :: "cmd_result \<Rightarrow> goerr option" where
  "resultError r =
     (if rs_err r \<noteq> None \<or> \<not> Failed r then rs_err r
      else Some (Leaf ''%s: command exited %d'' [target_label (rs_target r), itoa (rs_exit_code r)]))"

text \<open>The work on one target. \<open>ctx_err\<close> is the context's error once it is done.\<close>

definition work_on :: "'w executor \<Rightarrow> (target \<Rightarrow> request) \<Rightarrow> ('w \<Rightarrow> goerr option) \<Rightarrow> target \<Rightarrow> 'w \<Rightarrow> outcome \<times> 'w" where
  "work_on e build ctx_err t w =
     (case ex_runner e t (build t) w of
        ((result, err), w') \<Rightarrow>
          let r = (case result of None \<Rightarrow> blank_result t None | Some r \<Rightarrow> r);
              r = (if err \<noteq> None \<and> rs_err r = None then r\<lparr>rs_err := err\<rparr> else r)
          in ((Some r, if ex_answers e \<and> ctx_err w' = None then None else resultError r), w'))"

definition mark_panic :: "(goerr \<Rightarrow> bool) \<Rightarrow> outcome \<Rightarrow> outcome" where
  "mark_panic is_panic out =
     (case out of (v, Some e) \<Rightarrow> (v, Some (if is_panic e then default_err TargetFailed e else e)) | _ \<Rightarrow> out)"

definition fan_map :: "'w pool \<Rightarrow> (goerr \<Rightarrow> bool) \<Rightarrow> nat \<Rightarrow> (target \<Rightarrow> 'w \<Rightarrow> outcome \<times> 'w) \<Rightarrow> target list \<Rightarrow> 'w \<Rightarrow> outcome list \<times> 'w" where
  "fan_map pool is_panic limit f ts w =
     (case pool limit f ts w of (os, w') \<Rightarrow> (map (mark_panic is_panic) os, w'))"

definition result_of :: "target \<Rightarrow> outcome \<Rightarrow> cmd_result" where
  "result_of t out = (case out of (Some r, _) \<Rightarrow> r | (None, err) \<Rightarrow> blank_result t err)"

definition RunEach ::
  "'w pool \<Rightarrow> (goerr \<Rightarrow> bool) \<Rightarrow> ('w \<Rightarrow> goerr option) \<Rightarrow> 'w executor \<Rightarrow> target list \<Rightarrow> (target \<Rightarrow> request) \<Rightarrow> 'w \<Rightarrow> cmd_result list \<times> 'w" where
  "RunEach pool is_panic ctx_err e ts build w =
     (case fan_map pool is_panic (ex_max e) (work_on e build ctx_err) ts w of
        (os, w') \<Rightarrow> (map2 result_of ts os, w'))"

definition fan_run ::
  "'w pool \<Rightarrow> (goerr \<Rightarrow> bool) \<Rightarrow> ('w \<Rightarrow> goerr option) \<Rightarrow> 'w executor \<Rightarrow> target list \<Rightarrow> request \<Rightarrow> 'w \<Rightarrow> cmd_result list \<times> 'w" where
  "fan_run pool is_panic ctx_err e ts req = RunEach pool is_panic ctx_err e ts (\<lambda>_. req)"

section \<open>Summing up\<close>

definition Failures :: "cmd_result list \<Rightarrow> cmd_result list" where
  "Failures rs = filter Failed rs"

definition Status :: "(goerr \<Rightarrow> bool) \<Rightarrow> cmd_result option \<Rightarrow> string" where
  "Status is_usage result =
     (case result of None \<Rightarrow> ''no result''
      | Some r \<Rightarrow>
          if (case rs_err r of None \<Rightarrow> False | Some e \<Rightarrow> errors_is e ''context canceled'') then ''interrupted''
          else if from_err is_usage (rs_err r) = Transport then ''unreachable''
          else if \<not> Failed r then ''ok''
          else if rs_exit_code r > 0 then ''exit '' @ itoa (rs_exit_code r)
          else ''failed'')"

record fan_summary =
  fs_total :: nat
  fs_failed :: "(string \<times> goerr option) list"
  fs_canceled :: bool

text \<open>The error of a fan-out: an exit code, the progress class and what failed.\<close>

record fan_error =
  fe_code :: int
  fe_class :: progress_class
  fe_summary :: fan_summary

definition Summarize :: "(goerr \<Rightarrow> bool) \<Rightarrow> fan_summary \<Rightarrow> fan_error option" where
  "Summarize is_usage s =
     (if fs_failed s = [] then None
      else let w = worst is_usage (map snd (fs_failed s)); code = (if w \<noteq> 0 then w else TargetFailed)
        in Some \<lparr> fe_code = code, fe_class = (if fs_canceled s then ClassCanceled else code_class code), fe_summary = s \<rparr>)"

definition FailureError :: "(goerr \<Rightarrow> bool) \<Rightarrow> cmd_result list \<Rightarrow> fan_error option" where
  "FailureError is_usage rs =
     Summarize is_usage \<lparr> fs_total = length rs,
       fs_failed = map (\<lambda>r. (tg_name (rs_target r), rs_err r)) (Failures rs), fs_canceled = False \<rparr>"

section \<open>Grouping by output\<close>

record 'ns out_group =
  og_nodes :: 'ns
  og_output :: string
  og_exit_code :: int
  og_status :: string

type_synonym group_key = "string \<times> string \<times> int"

definition group_key :: "(goerr \<Rightarrow> bool) \<Rightarrow> cmd_result \<Rightarrow> group_key" where
  "group_key is_usage r = (rs_stdout r, Status is_usage (Some r), rs_exit_code r)"

text \<open>The groups so far, with their nodes, in the order they were first seen in.\<close>

definition group_add ::
  "('ns, 'z) nodeset_lib_scheme \<Rightarrow> string \<Rightarrow> group_key \<Rightarrow> (group_key \<times> 'ns) list \<Rightarrow> goerr + (group_key \<times> 'ns) list" where
  "group_add L name k gs =
     (let nodes = (case map_of gs k of None \<Rightarrow> ns_new L | Some s \<Rightarrow> s) in
      case Check name of
        Some e \<Rightarrow> Inl (Wrap ''the output of %q cannot be grouped: %w'' [name] [e])
      | None \<Rightarrow>
          (case ns_add L nodes name of
             Inl e \<Rightarrow> Inl (Wrap ''the output of %q cannot be grouped: %w'' [name] [e])
           | Inr nodes' \<Rightarrow>
               Inr (if map_of gs k = None then gs @ [(k, nodes')]
                    else map (\<lambda>(k', s). if k' = k then (k', nodes') else (k', s)) gs)))"

fun group_all ::
  "('ns, 'z) nodeset_lib_scheme \<Rightarrow> (goerr \<Rightarrow> bool) \<Rightarrow> (group_key \<times> 'ns) list \<Rightarrow> cmd_result list \<Rightarrow> goerr + (group_key \<times> 'ns) list" where
  "group_all L is_usage gs [] = Inr gs"
| "group_all L is_usage gs (r # rs) =
     rbind (group_add L (target_label (rs_target r)) (group_key is_usage r) gs) (\<lambda>gs'. group_all L is_usage gs' rs)"

definition group_of :: "group_key \<times> 'ns \<Rightarrow> 'ns out_group" where
  "group_of g = (case g of ((out, status, code), s) \<Rightarrow>
     \<lparr> og_nodes = s, og_output = out, og_exit_code = code, og_status = status \<rparr>)"

text \<open>The largest group first, groups of one size by their nodes.\<close>

definition GroupByOutput ::
  "('ns, 'z) nodeset_lib_scheme \<Rightarrow> (goerr \<Rightarrow> bool) \<Rightarrow> cmd_result list \<Rightarrow> goerr + 'ns out_group list" where
  "GroupByOutput L is_usage rs =
     rbind (group_all L is_usage [] rs) (\<lambda>gs.
       Inr (sort_key (\<lambda>g. (- int (ns_len L (og_nodes g)), ns_string L (og_nodes g))) (map group_of gs)))"

section \<open>Every target is reported\<close>

lemma work_on_result:
  assumes "work_on e build ctx_err t w = (out, w')"
  shows "\<exists>r. fst out = Some r \<and> (ctx_err w' \<noteq> None \<or> \<not> ex_answers e \<longrightarrow> (snd out = None \<longleftrightarrow> \<not> Failed r))"
  using assms by (auto simp: work_on_def Let_def resultError_def Failed_def split: prod.splits option.splits if_splits)


section \<open>Grouping loses nothing\<close>

lemma Check_plain: "Check name = None \<Longrightarrow> plain_name name"
  using Check_chars [of name] by (auto simp: plain_name_def list_all_iff isHostChar_def is_alnum_def)

definition groups_of ::
  "('ns, 'z) nodeset_lib_scheme \<Rightarrow> (string \<Rightarrow> string) \<Rightarrow> (goerr \<Rightarrow> bool) \<Rightarrow> (group_key \<times> 'ns) list \<Rightarrow> cmd_result list \<Rightarrow> bool" where
  "groups_of L key is_usage gs rs \<longleftrightarrow>
     distinct (map fst gs) \<and> fst ` set gs = group_key is_usage ` set rs \<and>
     (\<forall>(k, s)\<in>set gs. ns_keys L key s = key ` (\<lambda>r. target_label (rs_target r)) ` {r \<in> set rs. group_key is_usage r = k})"

context nodeset_contract
begin

lemma group_add_step:
  assumes "groups_of L key is_usage gs rs"
    and "group_add L (target_label (rs_target r)) (group_key is_usage r) gs = Inr gs'"
  shows "groups_of L key is_usage gs' (rs @ [r])"
proof -
  let ?k = "group_key is_usage r" and ?n = "target_label (rs_target r)"
  have d: "distinct (map fst gs)" and f: "fst ` set gs = group_key is_usage ` set rs"
    and m: "\<forall>(k, s)\<in>set gs. ns_keys L key s = key ` (\<lambda>r. target_label (rs_target r)) ` {r \<in> set rs. group_key is_usage r = k}"
    using assms(1) by (auto simp: groups_of_def)
  define nodes where "nodes = (case map_of gs ?k of None \<Rightarrow> ns_new L | Some s \<Rightarrow> s)"
  obtain nodes' where a: "Check ?n = None" "ns_add L nodes ?n = Inr nodes'"
      "gs' = (if map_of gs ?k = None then gs @ [(?k, nodes')] else map (\<lambda>(k', s). if k' = ?k then (k', nodes') else (k', s)) gs)"
    using assms(2) unfolding nodes_def by (auto simp: group_add_def Let_def split: option.splits sum.splits)
  have keys': "ns_keys L key nodes' = insert (key ?n) (ns_keys L key nodes)"
    by (rule keys_add_plain [OF Check_plain [OF a(1)] a(2)])
  have nodes: "ns_keys L key nodes = key ` (\<lambda>r. target_label (rs_target r)) ` {q \<in> set rs. group_key is_usage q = ?k}"
  proof (cases "map_of gs ?k")
    case None
    then have "?k \<notin> group_key is_usage ` set rs" using f by (simp add: map_of_eq_None_iff)
    then have "{q \<in> set rs. group_key is_usage q = ?k} = {}" by (metis (mono_tags, lifting) Collect_empty_eq image_eqI)
    with None show ?thesis by (simp add: nodes_def keys_new)
  next
    case (Some s)
    then have "(?k, s) \<in> set gs" by (rule map_of_SomeD)
    with m Some show ?thesis by (auto simp: nodes_def)
  qed
  have new: "{q \<in> set (rs @ [r]). group_key is_usage q = ?k} = insert r {q \<in> set rs. group_key is_usage q = ?k}" by auto
  have old: "k \<noteq> ?k \<Longrightarrow> {q \<in> set (rs @ [r]). group_key is_usage q = k} = {q \<in> set rs. group_key is_usage q = k}" for k by auto
  have n': "ns_keys L key nodes' = key ` (\<lambda>r. target_label (rs_target r)) ` {q \<in> set (rs @ [r]). group_key is_usage q = ?k}"
    unfolding new keys' nodes by simp
  show ?thesis
  proof (cases "map_of gs ?k")
    case None
    then have gs': "gs' = gs @ [(?k, nodes')]" and nin: "?k \<notin> fst ` set gs" using a(3) by (auto simp: map_of_eq_None_iff)
    have "ns_keys L key s = key ` (\<lambda>r. target_label (rs_target r)) ` {q \<in> set (rs @ [r]). group_key is_usage q = k}" if "(k, s) \<in> set gs" for k s
    proof -
      have "k \<noteq> ?k" using that nin by force
      moreover have "ns_keys L key s = key ` (\<lambda>r. target_label (rs_target r)) ` {q \<in> set rs. group_key is_usage q = k}"
        using m that by blast
      ultimately show ?thesis using old [of k] by simp
    qed
    with d f nin n' show ?thesis by (auto simp: groups_of_def gs')
  next
    case (Some s0)
    then have gs': "gs' = map (\<lambda>(k', s). if k' = ?k then (k', nodes') else (k', s)) gs" using a(3) by simp
    have fst': "map fst gs' = map fst gs" by (auto simp: gs')
    have kin: "?k \<in> group_key is_usage ` set rs" using map_of_SomeD [OF Some] f by force
    have "ns_keys L key s = key ` (\<lambda>r. target_label (rs_target r)) ` {q \<in> set (rs @ [r]). group_key is_usage q = k}" if "(k, s) \<in> set gs'" for k s
    proof (cases "k = ?k")
      case True
      then have "s = nodes'" using that by (auto simp: gs' split: if_splits)
      with n' True show ?thesis by simp
    next
      case False
      then have "(k, s) \<in> set gs" using that by (auto simp: gs' split: if_splits)
      with m old [OF False] show ?thesis by auto
    qed
    moreover have "fst ` set gs' = group_key is_usage ` set (rs @ [r])"
    proof -
      have "fst ` set gs' = fst ` set gs" using fst' by (metis list.set_map)
      then show ?thesis using f kin by (simp add: insert_absorb)
    qed
    ultimately show ?thesis using d fst' by (auto simp: groups_of_def)
  qed
qed

lemma group_all_steps:
  "groups_of L key is_usage gs seen \<Longrightarrow> group_all L is_usage gs rs = Inr gs' \<Longrightarrow> groups_of L key is_usage gs' (seen @ rs)"
proof (induction rs arbitrary: gs seen)
  case (Cons r rs)
  then obtain gs1 where "group_add L (target_label (rs_target r)) (group_key is_usage r) gs = Inr gs1"
      "group_all L is_usage gs1 rs = Inr gs'" by (auto simp: rbind_Inr_iff)
  with Cons.IH [of gs1 "seen @ [r]"] group_add_step [OF Cons.prems(1)] show ?case by simp
qed simp

end

definition out_key :: "'ns out_group \<Rightarrow> group_key" where
  "out_key g = (og_output g, og_status g, og_exit_code g)"

lemma out_key_group_of [simp]: "out_key (group_of g) = fst g" and og_nodes_group_of [simp]: "og_nodes (group_of g) = snd g"
  by (auto simp: out_key_def group_of_def split: prod.splits)

lemma inj_group_of: "inj group_of"
  by (rule injI) (metis out_key_group_of og_nodes_group_of prod.expand)

text \<open>
  Grouping the results loses none and mixes none: there is one group for each output, status and
  exit code that occurs, its hosts are those of the results that have them, and the groups are
  in order of their sizes, the largest first.
\<close>
theorem GroupByOutput_partitions:
  assumes "nodeset_contract L key" and "GroupByOutput L is_usage rs = Inr gs"
  shows "distinct (map out_key gs) \<and> out_key ` set gs = group_key is_usage ` set rs \<and>
    (\<forall>g\<in>set gs. ns_keys L key (og_nodes g) = key ` (\<lambda>r. target_label (rs_target r)) ` {r \<in> set rs. group_key is_usage r = out_key g}) \<and>
    sorted (map (\<lambda>g. - int (ns_len L (og_nodes g))) gs)"
proof -
  let ?o = "\<lambda>g. (- int (ns_len L (og_nodes g)), ns_string L (og_nodes g))"
  from assms(2) obtain hs where hs: "group_all L is_usage [] rs = Inr hs" "gs = sort_key ?o (map group_of hs)"
    by (auto simp: GroupByOutput_def rbind_Inr_iff)
  have "groups_of L key is_usage [] []" by (simp add: groups_of_def)
  from nodeset_contract.group_all_steps [OF assms(1) this hs(1)] have g: "groups_of L key is_usage hs rs" by simp
  have st: "set gs = group_of ` set hs" by (simp add: hs(2))
  have "distinct (map fst hs)" using g by (simp add: groups_of_def)
  then have "distinct hs" "inj_on fst (set hs)" by (auto simp: distinct_map)
  then have "distinct gs" using inj_on_subset [OF inj_group_of] by (simp add: hs(2) distinct_map)
  moreover have "inj_on out_key (set gs)"
    using \<open>inj_on fst (set hs)\<close> by (auto simp: st inj_on_def)
  ultimately have "distinct (map out_key gs)" by (simp add: distinct_map)
  moreover have "out_key ` set gs = group_key is_usage ` set rs" using g by (simp add: st image_image groups_of_def)
  moreover have "\<forall>g\<in>set gs. ns_keys L key (og_nodes g) = key ` (\<lambda>r. target_label (rs_target r)) ` {r \<in> set rs. group_key is_usage r = out_key g}"
    using g by (auto simp: st groups_of_def)
  moreover have "sorted (map ?o gs)" by (simp add: hs(2))
  then have "sorted (map (\<lambda>g. - int (ns_len L (og_nodes g))) gs)"
    by (auto simp: sorted_wrt_map elim!: sorted_wrt_mono_rel [rotated])
  ultimately show ?thesis by blast
qed

section \<open>The code a fan-out exits with\<close>

text \<open>
  A fan-out exits with 0 only when every target succeeded: otherwise there is an error, its
  code is not 0, and no failed target's code comes before it in the order that says which tells
  most.
\<close>
theorem FailureError_code:
  "(case FailureError is_usage rs of
      None \<Rightarrow> list_all (\<lambda>r. \<not> Failed r) rs
    | Some e \<Rightarrow> fe_code e \<noteq> 0 \<and> list_ex Failed rs \<and>
        list_all (\<lambda>r. precedence (counted_code is_usage (rs_err r)) \<le> precedence (fe_code e)) (Failures rs))"
proof (cases "Failures rs = []")
  case True
  then show ?thesis by (auto simp: FailureError_def Summarize_def Failures_def filter_empty_conv list_all_iff)
next
  case False
  let ?errs = "map rs_err (Failures rs)"
  have "list_ex Failed rs" using False by (auto simp: Failures_def filter_empty_conv list_ex_iff)
  moreover have ge: "\<forall>e\<in>set ?errs. precedence (counted_code is_usage e) \<le> precedence (worst is_usage ?errs)"
    using worst_from_ge [of OK is_usage ?errs] by (simp add: worst_def)
  moreover have "precedence (worst is_usage ?errs) \<le> precedence (if worst is_usage ?errs \<noteq> 0 then worst is_usage ?errs else TargetFailed)"
    by (simp add: precedence_def)
  ultimately show ?thesis using False
    by (auto simp: FailureError_def Summarize_def Let_def list_all_iff comp_def intro: le_trans)
qed

section \<open>Examples\<close>

text \<open>A pool that works on one target after the other, and a runner that reaches the first of two.\<close>

fun one_by_one :: "nat \<Rightarrow> (target \<Rightarrow> 'w \<Rightarrow> outcome \<times> 'w) \<Rightarrow> target list \<Rightarrow> 'w \<Rightarrow> outcome list \<times> 'w" where
  "one_by_one limit f [] w = ([], w)"
| "one_by_one limit f (t # ts) w =
     (case f t w of (out, w') \<Rightarrow> case one_by_one limit f ts w' of (outs, w'') \<Rightarrow> (out # outs, w''))"

definition two_targets :: "target list" where
  "two_targets = [no_target\<lparr>tg_name := ''n1''\<rparr>, no_target\<lparr>tg_name := ''n2''\<rparr>]"

definition sample_executor :: "unit executor" where
  "sample_executor = \<lparr> ex_runner = (\<lambda>t rq w. ((Some (exit_result (\<lambda>s. s) t (if tg_name t = ''n1'' then 0 else 1) ''yes'' []), None), w)),
     ex_max = 4, ex_answers = False \<rparr>"


definition sample_results :: "cmd_result list" where
  "sample_results = map (\<lambda>t. exit_result (\<lambda>s. s) t 0 ''yes'' []) two_targets"

theorem GroupByOutput_partitions_witness:
  "case GroupByOutput name_list (\<lambda>e. False) sample_results of Inl e \<Rightarrow> False
   | Inr gs \<Rightarrow> out_key ` set gs = {(''yes'', ''ok'', 0)}"
proof -
  have g: "group_all name_list (\<lambda>e. False) [] sample_results = Inr [((''yes'', ''ok'', 0), [''n1'', ''n2''])]"
    by code_simp
  then obtain gs where gs: "GroupByOutput name_list (\<lambda>e. False) sample_results = Inr gs"
    by (simp add: GroupByOutput_def)
  have k: "map (group_key (\<lambda>e. False)) sample_results = [(''yes'', ''ok'', 0), (''yes'', ''ok'', 0)]" by code_simp
  have "group_key (\<lambda>e. False) ` set sample_results = {(''yes'', ''ok'', 0)}"
    unfolding set_map [symmetric] k by simp
  with GroupByOutput_partitions [OF names.nodeset_contract_axioms gs] gs show ?thesis by simp
qed

end
