(* ===== verification/Plans.thy ===== *)
theory Plans
  imports Safety
begin

text \<open>
  The plan store of \<open>internal/mcpserver/plan.go\<close>. A plan is an object that a caller may still hold
  after the store has forgotten it, so plans live in a heap, the store maps ids to places in it, and
  a held plan is a place. Each operation runs under the store's lock, so concurrent calls are a
  sequence of operations; the clock and the random part of a question are arguments.
\<close>

section \<open>Plans and their store\<close>

record 'ns plan =
  pl_id :: string
  pl_action :: string
  pl_nodes :: 'ns
  pl_reason :: string
  pl_preview :: preview
  pl_cluster :: string
  pl_commands :: "string list"
  pl_expires :: int
  pl_asked :: string
  pl_used :: bool

record 'ns plan_store =
  st_ttl :: int
  st_objs :: "'ns plan list"
  st_live :: "string \<Rightarrow> nat option"

definition newPlanStore :: "int \<Rightarrow> 'ns plan_store" where
  "newPlanStore ttl = \<lparr> st_ttl = ttl, st_objs = [], st_live = (\<lambda>_. None) \<rparr>"

definition set_plan :: "nat \<Rightarrow> ('ns plan \<Rightarrow> 'ns plan) \<Rightarrow> 'ns plan_store \<Rightarrow> 'ns plan_store" where
  "set_plan i f s = s\<lparr>st_objs := (st_objs s)[i := f (st_objs s ! i)]\<rparr>"

definition ps_prune :: "int \<Rightarrow> 'ns plan_store \<Rightarrow> 'ns plan_store" where
  "ps_prune now s = s\<lparr>st_live := (\<lambda>ident. case st_live s ident of None \<Rightarrow> None
       | Some i \<Rightarrow> if now > pl_expires (st_objs s ! i) then None else Some i)\<rparr>"

definition ps_add :: "int \<Rightarrow> 'ns plan \<Rightarrow> 'ns plan_store \<Rightarrow> 'ns plan_store" where
  "ps_add now p s =
     (let s = ps_prune now s
      in s\<lparr>st_objs := st_objs s @ [p\<lparr>pl_expires := now + st_ttl s\<rparr>],
           st_live := (st_live s)(pl_id p \<mapsto> length (st_objs s))\<rparr>)"

definition ps_get :: "int \<Rightarrow> string \<Rightarrow> 'ns plan_store \<Rightarrow> (goerr + nat) \<times> 'ns plan_store" where
  "ps_get now ident s =
     (let s = ps_prune now s
      in (case st_live s ident of
            None \<Rightarrow> Inl (errorf Usage ''there is no plan %q'' [ident])
          | Some i \<Rightarrow> Inr i, s))"

definition ps_ask :: "nat \<Rightarrow> string \<Rightarrow> 'ns plan_store \<Rightarrow> string \<times> 'ns plan_store" where
  "ps_ask i random s =
     (let state = pl_id (st_objs s ! i) @ ''.'' @ random in (state, set_plan i (\<lambda>p. p\<lparr>pl_asked := state\<rparr>) s))"

definition ps_answered :: "nat \<Rightarrow> string \<Rightarrow> 'ns plan_store \<Rightarrow> bool \<times> 'ns plan_store" where
  "ps_answered i state s =
     (let asked = pl_asked (st_objs s ! i)
      in (asked \<noteq> [] \<and> state = asked, set_plan i (\<lambda>p. p\<lparr>pl_asked := []\<rparr>) s))"

definition ps_take :: "nat \<Rightarrow> 'ns plan_store \<Rightarrow> bool \<times> 'ns plan_store" where
  "ps_take i s =
     (if pl_used (st_objs s ! i) then (False, s)
      else (True, (set_plan i (\<lambda>p. p\<lparr>pl_used := True\<rparr>) s)\<lparr>st_live := (st_live s)(pl_id (st_objs s ! i) := None)\<rparr>))"

section \<open>Sequences of operations\<close>

text \<open>What concurrent calls do to the store, in the order they take its lock, and what they learn.\<close>

datatype 'ns store_op =
    OpAdd int "'ns plan"
  | OpGet int string
  | OpAsk nat string
  | OpAnswered nat string
  | OpTake nat

datatype store_event = Added | Got int nat | NotGot | Asked nat | Answered nat | NotAnswered nat | Took nat | NotTook nat

fun store_step :: "'ns store_op \<Rightarrow> 'ns plan_store \<Rightarrow> store_event \<times> 'ns plan_store" where
  "store_step (OpAdd now p) s = (Added, ps_add now p s)"
| "store_step (OpGet now ident) s =
     (case ps_get now ident s of (Inl _, s') \<Rightarrow> (NotGot, s') | (Inr i, s') \<Rightarrow> (Got now i, s'))"
| "store_step (OpAsk i random) s = (Asked i, snd (ps_ask i random s))"
| "store_step (OpAnswered i state) s =
     (case ps_answered i state s of (ok, s') \<Rightarrow> (if ok then Answered i else NotAnswered i, s'))"
| "store_step (OpTake i) s = (case ps_take i s of (ok, s') \<Rightarrow> (if ok then Took i else NotTook i, s'))"

fun run_ops :: "'ns store_op list \<Rightarrow> 'ns plan_store \<Rightarrow> store_event list \<times> 'ns plan_store" where
  "run_ops [] s = ([], s)"
| "run_ops (op # ops) s =
     (case store_step op s of (e, s') \<Rightarrow> case run_ops ops s' of (es, s'') \<Rightarrow> (e # es, s''))"

text \<open>A plan is handed over unused and unasked, and a caller holds a place it was given.\<close>

definition op_ok :: "'ns plan_store \<Rightarrow> 'ns store_op \<Rightarrow> bool" where
  "op_ok s op = (case op of
      OpAdd now p \<Rightarrow> \<not> pl_used p \<and> pl_asked p = []
    | OpGet now ident \<Rightarrow> True
    | OpAsk i r \<Rightarrow> i < length (st_objs s)
    | OpAnswered i st \<Rightarrow> i < length (st_objs s)
    | OpTake i \<Rightarrow> i < length (st_objs s))"

fun ops_ok :: "'ns store_op list \<Rightarrow> 'ns plan_store \<Rightarrow> bool" where
  "ops_ok [] s = True"
| "ops_ok (op # ops) s = (op_ok s op \<and> ops_ok ops (snd (store_step op s)))"

section \<open>Invariants\<close>

definition store_ok :: "'ns plan_store \<Rightarrow> bool" where
  "store_ok s \<longleftrightarrow> (\<forall>ident i. st_live s ident = Some i \<longrightarrow>
     i < length (st_objs s) \<and> pl_id (st_objs s ! i) = ident \<and> \<not> pl_used (st_objs s ! i))"

lemma set_plan_sel [simp]:
  "st_live (set_plan i f s) = st_live s" "st_ttl (set_plan i f s) = st_ttl s"
  "st_objs (set_plan i f s) = (st_objs s)[i := f (st_objs s ! i)]"
  by (simp_all add: set_plan_def)

lemma prune_sel [simp]: "st_objs (ps_prune now s) = st_objs s" "st_ttl (ps_prune now s) = st_ttl s"
  by (simp_all add: ps_prune_def)

lemma prune_live: "st_live (ps_prune now s) ident = Some i \<longleftrightarrow> st_live s ident = Some i \<and> now \<le> pl_expires (st_objs s ! i)"
  by (auto simp: ps_prune_def split: option.splits if_splits)

lemma prune_ok: "store_ok s \<Longrightarrow> store_ok (ps_prune now s)"
  unfolding store_ok_def prune_live prune_sel by blast

lemma nth_updated: "j < length xs \<Longrightarrow> xs[i := x] ! j = (if i = j then x else xs ! j)"
  by (cases "i < length xs") auto

lemma set_plan_ok:
  assumes "store_ok s" and "\<And>p. pl_id (f p) = pl_id p \<and> pl_used (f p) = pl_used p"
  shows "store_ok (set_plan i f s)"
  unfolding store_ok_def
proof (intro allI impI)
  fix ident j
  assume "st_live (set_plan i f s) ident = Some j"
  then have "j < length (st_objs s)" "pl_id (st_objs s ! j) = ident" "\<not> pl_used (st_objs s ! j)"
    using assms(1) by (auto simp: store_ok_def)
  then show "j < length (st_objs (set_plan i f s)) \<and> pl_id (st_objs (set_plan i f s) ! j) = ident \<and>
      \<not> pl_used (st_objs (set_plan i f s) ! j)"
    using assms(2) by (simp add: nth_updated)
qed

lemma store_step_ok:
  assumes "store_ok s" and "op_ok s op"
  shows "store_ok (snd (store_step op s))"
proof (cases op)
  case (OpAdd now p)
  then show ?thesis using prune_ok [OF assms(1), of now] assms(2)
    by (auto simp: ps_add_def Let_def store_ok_def op_ok_def nth_append less_SucI)
next
  case (OpGet now ident)
  then show ?thesis using prune_ok [OF assms(1), of now] by (auto simp: ps_get_def Let_def split: option.splits)
next
  case (OpAsk i r)
  then show ?thesis using assms(1) by (simp add: ps_ask_def Let_def set_plan_ok)
next
  case (OpAnswered i st)
  then show ?thesis using assms(1) by (simp add: ps_answered_def Let_def set_plan_ok)
next
  case (OpTake i)
  then show ?thesis using assms
    by (auto simp: ps_take_def store_ok_def op_ok_def nth_updated split: if_splits)
qed

text \<open>What is used stays used, and what is used is never handed out or taken again.\<close>

definition used_at :: "nat \<Rightarrow> 'ns plan_store \<Rightarrow> bool" where
  "used_at i s \<longleftrightarrow> i < length (st_objs s) \<and> pl_used (st_objs s ! i)"

lemma used_stays: "used_at i s \<Longrightarrow> used_at i (snd (store_step op s))"
  by (cases op) (auto simp: used_at_def ps_add_def ps_get_def ps_ask_def ps_answered_def ps_take_def Let_def
      nth_append nth_updated split: option.splits)

lemma used_not_again:
  "store_ok s \<Longrightarrow> used_at i s \<Longrightarrow> fst (store_step op s) \<noteq> Took i \<and> fst (store_step op s) \<noteq> Got now i"
  by (cases op) (auto simp: used_at_def store_ok_def ps_get_def ps_answered_def ps_take_def Let_def prune_live
      split: option.splits if_splits)

lemma took_used: "op_ok s op \<Longrightarrow> fst (store_step op s) = Took i \<Longrightarrow> used_at i (snd (store_step op s))"
  by (cases op) (auto simp: used_at_def op_ok_def ps_get_def ps_answered_def ps_take_def Let_def
      split: option.splits if_splits)

lemma run_ops_Cons:
  "run_ops (op # ops) s = (fst (store_step op s) # fst (run_ops ops (snd (store_step op s))), snd (run_ops ops (snd (store_step op s))))"
  by (simp add: case_prod_unfold)

lemma used_never:
  "store_ok s \<Longrightarrow> ops_ok ops s \<Longrightarrow> used_at i s \<Longrightarrow>
     Took i \<notin> set (fst (run_ops ops s)) \<and> Got now i \<notin> set (fst (run_ops ops s))"
proof (induction ops arbitrary: s)
  case (Cons op ops)
  let ?s = "snd (store_step op s)"
  have "store_ok ?s" "ops_ok ops ?s" "used_at i ?s" using Cons.prems by (simp_all add: store_step_ok used_stays)
  from Cons.IH [OF this] used_not_again [OF Cons.prems(1,3)] show ?case by (metis fst_conv run_ops_Cons set_ConsD)
qed simp

lemma taken_at_most_once:
  "store_ok s \<Longrightarrow> ops_ok ops s \<Longrightarrow> fst (run_ops ops s) = pre @ Took i # post \<Longrightarrow>
     Took i \<notin> set post \<and> Got now i \<notin> set post"
proof (induction ops arbitrary: s pre)
  case (Cons op ops)
  let ?s = "snd (store_step op s)"
  have ok: "store_ok ?s" "ops_ok ops ?s" "op_ok s op" using Cons.prems by (simp_all add: store_step_ok)
  have ev: "fst (store_step op s) # fst (run_ops ops ?s) = pre @ Took i # post" using Cons.prems(3) by (simp only: run_ops_Cons fst_conv)
  show ?case
  proof (cases pre)
    case Nil
    with ev have "fst (store_step op s) = Took i" "post = fst (run_ops ops ?s)" by auto
    with used_never [OF ok(1,2)] took_used [OF ok(3)] show ?thesis by simp
  next
    case (Cons e pre')
    with ev have "fst (run_ops ops ?s) = pre' @ Took i # post" by simp
    with Cons.IH ok show ?thesis by blast
  qed
qed simp

text \<open>Answers that counted, against the questions asked and the one still open.\<close>

definition open_question :: "nat \<Rightarrow> 'ns plan_store \<Rightarrow> nat" where
  "open_question i s = (if i < length (st_objs s) \<and> pl_asked (st_objs s ! i) \<noteq> [] then 1 else 0)"

lemma answers_bounded:
  "ops_ok ops s \<Longrightarrow> count_list (fst (run_ops ops s)) (Answered i) + open_question i (snd (run_ops ops s))
     \<le> open_question i s + count_list (fst (run_ops ops s)) (Asked i)"
proof (induction ops arbitrary: s)
  case (Cons op ops)
  let ?s = "snd (store_step op s)"
  have "op_ok s op" using Cons.prems by simp
  then have "(if fst (store_step op s) = Answered i then 1 else 0) + open_question i ?s
      \<le> open_question i s + (if fst (store_step op s) = Asked i then 1 else 0)"
    by (cases op) (auto simp: open_question_def op_ok_def ps_add_def ps_get_def ps_ask_def ps_answered_def ps_take_def
        Let_def nth_append nth_updated split: option.splits if_splits)
  moreover have "count_list (fst (run_ops ops ?s)) (Answered i) + open_question i (snd (run_ops ops ?s))
      \<le> open_question i ?s + count_list (fst (run_ops ops ?s)) (Asked i)"
    using Cons.IH [of ?s] Cons.prems by simp
  ultimately show ?case unfolding run_ops_Cons fst_conv snd_conv count_list.simps
    by (auto split: if_splits)
qed simp

text \<open>
  C12. Whatever calls race on the store: a plan is taken at most once, is never handed out again
  once it was taken, and at most one answer counts for each time its question was put.
\<close>
theorem plan_taken_once:
  assumes "ops_ok ops (newPlanStore ttl)" and "run_ops ops (newPlanStore ttl) = (evs, s)"
  shows "count_list evs (Took i) \<le> 1 \<and> count_list evs (Answered i) \<le> count_list evs (Asked i) \<and>
    (\<forall>pre post now. evs = pre @ Took i # post \<longrightarrow> Got now i \<notin> set post)"
proof -
  have ok: "store_ok (newPlanStore ttl :: 'a plan_store)" by (simp add: store_ok_def newPlanStore_def)
  have evs: "fst (run_ops ops (newPlanStore ttl)) = evs" using assms(2) by simp
  have once: "evs = pre @ Took i # post \<Longrightarrow> Took i \<notin> set post \<and> Got now i \<notin> set post" for pre post now
    using taken_at_most_once [OF ok assms(1)] evs by blast
  have "count_list evs (Took i) \<le> 1"
  proof (cases "Took i \<in> set evs")
    case True
    then obtain pre post where e: "evs = pre @ Took i # post" "Took i \<notin> set pre" by (metis split_list_first)
    with once have "Took i \<notin> set post" by blast
    with e show ?thesis by (simp add: count_list_0_iff)
  qed (simp add: count_list_0_iff)
  moreover have "count_list evs (Answered i) \<le> count_list evs (Asked i)"
    using answers_bounded [OF assms(1), of i] evs by (simp add: open_question_def newPlanStore_def)
  ultimately show ?thesis using once by blast
qed

text \<open>Two callers that race for one plan.\<close>

definition sample_plan :: "string list plan" where
  "sample_plan = \<lparr> pl_id = ''p1'', pl_action = ''resume'', pl_nodes = [''n1''], pl_reason = [],
     pl_preview = \<lparr> pv_verb = ''resume'', pv_targets = ''n1'', pv_count = 1, pv_detail = [], pv_forced = [],
       pv_count_required = False, pv_confirm_above = 10 \<rparr>,
     pl_cluster = ''c1'', pl_commands = [], pl_expires = 0, pl_asked = [], pl_used = False \<rparr>"

theorem plan_taken_once_witness:
  "count_list (fst (run_ops [OpAdd 0 sample_plan, OpGet 1 ''p1'', OpGet 1 ''p1'', OpTake 0, OpTake 0] (newPlanStore 300))) (Took 0) \<le> 1"
proof -
  let ?ops = "[OpAdd 0 sample_plan, OpGet 1 ''p1'', OpGet 1 ''p1'', OpTake 0, OpTake 0]"
  have ok: "ops_ok ?ops (newPlanStore 300)" by code_simp
  obtain evs s where r: "run_ops ?ops (newPlanStore 300) = (evs, s)" by (rule prod.exhaust)
  from plan_taken_once [OF ok r] r show ?thesis by simp
qed

end
