(* ===== verification/PlanApply.thy ===== *)
theory PlanApply
  imports Plans SlurmChange "HOL-Library.AList"
begin

text \<open>
  The tools of \<open>internal/mcpserver/plan.go\<close>: planning a change and applying it. The configuration is
  read anew in each call, which is the parameter \<open>sv_open\<close>; the audit log, the request's context
  and the rendering of errors are parameters, too. What a call reads side by side is read here one
  after the other. The token of a framed format and random ids are arguments.
\<close>

section \<open>Changes\<close>

datatype change = ChangeDrain | ChangeResume

definition change_of :: "string \<Rightarrow> change option" where
  "change_of action =
     (if action = ''drain'' then Some ChangeDrain else if action = ''resume'' then Some ChangeResume else None)"

definition change_verb :: "change \<Rightarrow> string" where
  "change_verb ch = (case ch of ChangeDrain \<Rightarrow> ''drain'' | ChangeResume \<Rightarrow> ''resume'')"

definition needs_reason :: "change \<Rightarrow> bool" where
  "needs_reason ch \<longleftrightarrow> ch = ChangeDrain"

definition change_run ::
  "('ns, 'z) nodeset_lib_scheme \<Rightarrow> string \<Rightarrow> change \<Rightarrow> 'w slurm_client \<Rightarrow> 'ns \<Rightarrow> string \<Rightarrow> 'w \<Rightarrow> goerr option \<times> 'w" where
  "change_run L token ch c ns reason =
     (case ch of ChangeDrain \<Rightarrow> Drain L c token ns reason | ChangeResume \<Rightarrow> Resume L c token ns)"

definition change_argv :: "('ns, 'z) nodeset_lib_scheme \<Rightarrow> change \<Rightarrow> 'ns \<Rightarrow> string \<Rightarrow> string list" where
  "change_argv L ch ns reason =
     (case ch of
        ChangeDrain \<Rightarrow> [''clusterctl'', ''slurm'', ''node'', ''drain'', reason, ''-n'', ns_string L ns]
      | ChangeResume \<Rightarrow> [''clusterctl'', ''slurm'', ''node'', ''resume'', ''-n'', ns_string L ns])"

definition nodesWithJobs :: "('ns, 'z) nodeset_lib_scheme \<Rightarrow> job list \<Rightarrow> 'ns \<Rightarrow> 'ns" where
  "nodesWithJobs L jobs ns =
     foldl (\<lambda>out j. case ns_parse L (jb_nodes j) of Inl _ \<Rightarrow> out
       | Inr on \<Rightarrow> let hit = ns_inter L on ns in if ns_is_empty L hit then out else add_quiet L out (ns_string L hit))
       (ns_new L) jobs"

definition change_warn ::
  "('ns, 'z) nodeset_lib_scheme \<Rightarrow> (string \<Rightarrow> string) \<Rightarrow> change \<Rightarrow> node list \<Rightarrow> job list \<Rightarrow> 'ns \<Rightarrow> string list" where
  "change_warn L quote_go ch nodes jobs ns =
     (case ch of
        ChangeDrain \<Rightarrow>
          (let running = nodesWithJobs L jobs ns;
               already = foldl (\<lambda>s n. if has_prefix (BaseState n) ''drain'' then add_quiet L s (nd_name n) else s) (ns_new L) nodes
           in (if ns_is_empty L running then []
               else [ns_string L running @ '' run jobs; they keep running and the nodes stay draining until the jobs end'']) @
              (if ns_is_empty L already then []
               else [ns_string L already @ '' are already draining or drained; their reason is replaced'']))
      | ChangeResume \<Rightarrow>
          map (\<lambda>n. nd_name n @ '' was taken out with the reason '' @ quote_go (nd_reason n))
            (filter (\<lambda>n. nd_reason n \<noteq> []) nodes))"

definition planReason :: "change \<Rightarrow> string \<Rightarrow> goerr + string" where
  "planReason ch given =
     (let reason = trim_space given in
      if \<not> needs_reason ch then
        (if reason \<noteq> [] then Inl (errorf Usage ''%s takes no reason; leave it out'' [change_verb ch]) else Inr [])
      else if reason = [] then
        Inl (errorf Usage ''%s needs a reason: say what is wrong and where it is tracked'' [change_verb ch])
      else case ValidateReason reason of Some e \<Rightarrow> Inl e | None \<Rightarrow> Inr reason)"

section \<open>The server\<close>

text \<open>What an audit entry says of how a call ended.\<close>

datatype audit_outcome =
    NoOutcome | Planned | RefusedWith goerr | DeclinedWith goerr | Applying | NotApplied goerr | FailedWith goerr | AppliedOk

record audit_entry =
  ae_event :: string
  ae_context :: string
  ae_plan :: string
  ae_action :: string
  ae_nodes :: string
  ae_count :: int
  ae_detail :: string
  ae_outcome :: audit_outcome

record ('ns, 'w) app_parts =
  ap_cluster :: string
  ap_gate :: "('ns, 'w) gate"
  ap_slurm :: "'w \<Rightarrow> (goerr + 'w slurm_client) \<times> 'w"
  ap_select :: "string \<Rightarrow> 'w \<Rightarrow> (goerr + 'ns) \<times> 'w"
  ap_config_path :: "'w \<Rightarrow> goerr option \<times> 'w"

record ('ns, 'w) server =
  sv_context :: string
  sv_elicit :: bool
  sv_open :: "'w \<Rightarrow> (goerr + ('ns, 'w) app_parts) \<times> 'w"
  sv_record :: "audit_entry \<Rightarrow> 'w \<Rightarrow> goerr option \<times> 'w"
  sv_yes :: "string \<Rightarrow> bool"
  sv_quote :: "string \<Rightarrow> string"
  sv_err_text :: "goerr \<Rightarrow> string"

definition refusal :: "('ns, 'w) server \<Rightarrow> audit_entry \<Rightarrow> goerr \<Rightarrow> 'w \<Rightarrow> goerr \<times> 'w" where
  "refusal sv entry err w =
     (case sv_record sv entry w of
        (Some e, w') \<Rightarrow> (Wrap ''%w (%w)'' [] [err, e], w') | (None, w') \<Rightarrow> (err, w'))"

text \<open>
  A change run against a recorder: the runner is the recorder, and what reads still reads. The
  lines are what the recorder was asked to send.
\<close>

definition new_recorder :: recorder where
  "new_recorder = \<lparr> rec_responses = [], rec_by_target = [], rec_reply = None, rec_calls = [], rec_next = 0 \<rparr>"

definition record_runner :: "('w \<times> recorder) runner" where
  "record_runner t rq w = (case answer (snd w) t rq of (a, r) \<Rightarrow> (a, (fst w, r)))"

definition beside :: "'w runner \<Rightarrow> ('w \<times> 's) runner" where
  "beside run t rq w = (case run t rq (fst w) of (a, v) \<Rightarrow> (a, (v, snd w)))"

definition dry_client :: "'w slurm_client \<Rightarrow> ('w \<times> recorder) slurm_client" where
  "dry_client c = \<lparr> sl_runner = record_runner, sl_reader = map_option beside (sl_reader c), sl_target = sl_target c,
     sl_organization = sl_organization c, sl_default_account = sl_default_account c, sl_timeout = sl_timeout c,
     sl_cluster = sl_cluster c, sl_escape = sl_escape c \<rparr>"

definition describeCalls :: "recorder \<Rightarrow> string list" where
  "describeCalls r = map describe_call (rec_calls r)"

definition dry_run ::
  "('ns, 'z) nodeset_lib_scheme \<Rightarrow> string \<Rightarrow> change \<Rightarrow> 'w slurm_client \<Rightarrow> 'ns \<Rightarrow> string \<Rightarrow> 'w \<Rightarrow> (goerr + string list) \<times> 'w" where
  "dry_run L token ch c ns reason w =
     (case change_run L token ch (dry_client c) ns reason (w, new_recorder) of
        (Some e, (w', r)) \<Rightarrow> (Inl (Coded Usage e), w')
      | (None, (w', r)) \<Rightarrow> (Inr (describeCalls r), w'))"

section \<open>Planning\<close>

record plan_input =
  pi_action :: string
  pi_nodes :: string
  pi_reason :: string

record plan_output =
  po_plan_id :: string
  po_action :: string
  po_nodes :: string
  po_count :: nat
  po_summary :: string
  po_detail :: string
  po_state :: "string go_map"
  po_warnings :: "string list"
  po_commands :: "string list"
  po_command_line :: string
  po_count_required :: bool

text \<open>The nodes by their Slurm state.\<close>

definition statesOf :: "('ns, 'z) nodeset_lib_scheme \<Rightarrow> node list \<Rightarrow> string go_map" where
  "statesOf L nodes =
     map (\<lambda>(st, s). (st, ns_string L s))
       (foldl (\<lambda>m n. let st = BaseState n; s = (case find_key m st of None \<Rightarrow> ns_new L | Some s \<Rightarrow> s)
               in AList.update st (add_quiet L s (nd_name n)) m) [] nodes)"

text \<open>What the plan says of the nodes now: their state and warnings, or that it could not be read.\<close>

definition current_state ::
  "('ns, 'z) nodeset_lib_scheme \<Rightarrow> ('ns, 'w) server \<Rightarrow> change \<Rightarrow> 'ns \<Rightarrow> goerr + node list \<Rightarrow> goerr + job list \<Rightarrow> string go_map \<times> string list" where
  "current_state L sv ch ns nodes jobs =
     (case (nodes, jobs) of
        (Inr nds, Inr jbs) \<Rightarrow> (statesOf L nds, change_warn L (sv_quote sv) ch nds jbs ns)
      | _ \<Rightarrow> ([], [''the current state could not be read: '' @
           sv_err_text sv (Wrap ''join'' [] ((case nodes of Inl e \<Rightarrow> [e] | _ \<Rightarrow> []) @ (case jobs of Inl e \<Rightarrow> [e] | _ \<Rightarrow> [])))]))"

definition plan_from ::
  "'ns nodeset_lib \<Rightarrow> ('ns, 'w) server \<Rightarrow> string \<Rightarrow> string \<Rightarrow> plan_input \<Rightarrow> change \<Rightarrow> string \<Rightarrow> ('ns, 'w) app_parts \<Rightarrow> 'ns \<Rightarrow> preview \<Rightarrow> 'w
   \<Rightarrow> (goerr + 'ns plan \<times> plan_output) \<times> 'w" where
  "plan_from L sv token ident inp ch reason a ns p w =
     (case ap_slurm a w of (Inl e, w) \<Rightarrow> (Inl e, w)
      | (Inr c, w) \<Rightarrow>
        (case CheckNodes L c ns w of (check, w) \<Rightarrow>
         (case Nodes L c token (Some ns) [] w of (nodes, w) \<Rightarrow>
          (case Jobs L c token \<lparr> jf_states = [], jf_users = [], jf_nodes = Some ns \<rparr> w of (jobs, w) \<Rightarrow>
           (case check of Some e \<Rightarrow> (Inl e, w)
            | None \<Rightarrow>
              (case dry_run L token ch c ns reason w of (Inl e, w) \<Rightarrow> (Inl e, w)
               | (Inr commands, w) \<Rightarrow>
                 (case current_state L sv ch ns nodes jobs of (states, warnings) \<Rightarrow>
                   (Inr (\<lparr> pl_id = ident, pl_action = pi_action inp, pl_nodes = ns, pl_reason = reason, pl_preview = p,
                           pl_cluster = ap_cluster a, pl_commands = commands, pl_expires = 0, pl_asked = [], pl_used = False \<rparr>,
                         \<lparr> po_plan_id = ident, po_action = pi_action inp, po_nodes = pv_targets p, po_count = pv_count p,
                           po_summary = Summary p, po_detail = pv_detail p, po_state = states, po_warnings = warnings,
                           po_commands = commands, po_command_line = join_words (change_argv L ch ns reason),
                           po_count_required = pv_count_required p \<rparr>), w))))))))"

definition preparePlan ::
  "'ns nodeset_lib \<Rightarrow> ('ns, 'w) server \<Rightarrow> string \<Rightarrow> string \<Rightarrow> plan_input \<Rightarrow> audit_entry \<Rightarrow> 'w
   \<Rightarrow> (goerr + 'ns plan \<times> plan_output) \<times> audit_entry \<times> 'w" where
  "preparePlan L sv token ident inp entry w =
     (case change_of (pi_action inp) of
        None \<Rightarrow> (Inl (errorf Usage ''unknown action %q'' [pi_action inp]), entry, w)
      | Some ch \<Rightarrow>
        (case planReason ch (pi_reason inp) of Inl e \<Rightarrow> (Inl e, entry, w)
         | Inr reason \<Rightarrow>
           (case sv_open sv w of (Inl e, w) \<Rightarrow> (Inl e, entry, w)
            | (Inr a, w) \<Rightarrow>
              (case ap_select a (pi_nodes inp) w of (Inl e, w) \<Rightarrow> (Inl e, entry, w)
               | (Inr ns, w) \<Rightarrow>
                 let detail = (if reason \<noteq> [] then ''reason: '' @ sv_quote sv reason else []);
                     entry = entry\<lparr>ae_nodes := ns_string L ns, ae_count := int (ns_len L ns), ae_detail := detail\<rparr> in
                 (case Preview L (ap_gate a) \<lparr> ac_verb = change_verb ch, ac_targets = Some ns, ac_detail = detail, ac_not_nodes = False \<rparr> w of
                    (Inl e, _, w) \<Rightarrow> (Inl e, entry, w)
                  | (Inr p, _, w) \<Rightarrow>
                    (case plan_from L sv token ident inp ch reason a ns p w of
                       (Inl e, w) \<Rightarrow> (Inl e, entry, w)
                     | (Inr r, w) \<Rightarrow>
                         (Inr r, entry\<lparr>ae_nodes := pv_targets p, ae_count := int (pv_count p), ae_detail := pv_detail p\<rparr>, w)))))))"

definition planChange ::
  "'ns nodeset_lib \<Rightarrow> ('ns, 'w) server \<Rightarrow> string \<Rightarrow> string \<Rightarrow> int \<Rightarrow> plan_input \<Rightarrow> 'ns plan_store \<Rightarrow> 'w
   \<Rightarrow> (goerr + plan_output) \<times> 'ns plan_store \<times> 'w" where
  "planChange L sv token ident now inp s w =
     (let entry = \<lparr> ae_event = ''plan'', ae_context = sv_context sv, ae_plan = [], ae_action = pi_action inp,
                    ae_nodes = pi_nodes inp, ae_count = 0, ae_detail = [], ae_outcome = NoOutcome \<rparr> in
      case preparePlan L sv token ident inp entry w of
        (Inl e, entry, w) \<Rightarrow>
          (case refusal sv (entry\<lparr>ae_outcome := RefusedWith e\<rparr>) e w of (e', w) \<Rightarrow> (Inl e', s, w))
      | (Inr (p, out), entry, w) \<Rightarrow>
          (case sv_record sv (entry\<lparr>ae_plan := pl_id p, ae_outcome := Planned\<rparr>) w of
             (Some e, w) \<Rightarrow> (Inl e, s, w)
           | (None, w) \<Rightarrow> (Inr out, ps_add now p s, w)))"

section \<open>Confirming\<close>

text \<open>A value of a form: a number by the text it is formatted as.\<close>

datatype form_value = FormNumber string | FormInt int | FormString string | FormBool bool | FormOther

record elicit_result =
  el_action :: string
  el_content :: "form_value go_map"

text \<open>The request: whether its client can ask, the answer it carries, of which kind, and its state.\<close>

record apply_request =
  ar_elicits :: bool
  ar_answer :: "elicit_result option option"
  ar_state :: string

record question =
  qn_message :: string
  qn_field :: string

definition make_question :: "('ns, 'w) server \<Rightarrow> preview \<Rightarrow> string \<Rightarrow> question" where
  "make_question sv p cluster =
     (let message = (if pv_detail p \<noteq> [] then pv_detail p @ [CHR 0x0A] else []) @
            ''Context '' @ sv_context sv @ '', cluster '' @ cluster @ ''.'' @ [CHR 0x0A] @
            ''About to '' @ Summary p @ [CHR 0x0A]
      in if pv_count_required p then \<lparr> qn_message = message @ Question p, qn_field = ''count'' \<rparr>
         else \<lparr> qn_message = message @ ''Continue?'', qn_field = ''confirm'' \<rparr>)"

definition answerText :: "preview \<Rightarrow> form_value go_map \<Rightarrow> string" where
  "answerText p content =
     (if pv_count_required p then
        (case find_key content ''count'' of
           Some (FormNumber t) \<Rightarrow> t | Some (FormInt n) \<Rightarrow> itoa n | Some (FormString t) \<Rightarrow> t | _ \<Rightarrow> [])
      else (case find_key content ''confirm'' of Some (FormBool True) \<Rightarrow> ''yes'' | _ \<Rightarrow> ''no''))"

text \<open>\<open>Inr None\<close> lets the plan go ahead; \<open>Inr (Some q)\<close> puts the question first.\<close>

definition plan_confirm ::
  "('ns, 'z) nodeset_lib_scheme \<Rightarrow> ('ns, 'w) server \<Rightarrow> string \<Rightarrow> apply_request \<Rightarrow> nat \<Rightarrow> change \<Rightarrow> preview \<Rightarrow> string \<Rightarrow> 'ns plan_store
   \<Rightarrow> (goerr + (question \<times> string) option) \<times> 'ns plan_store" where
  "plan_confirm L sv random req i ch p cluster s =
     (let pl = st_objs s ! i in
      if \<not> ar_elicits req then
        (Inl (errorf Usage ''this client cannot ask the user to confirm'' [join_words (change_argv L ch (pl_nodes pl) (pl_reason pl))]), s)
      else case ar_answer req of
        None \<Rightarrow> (case ps_ask i random s of (state, s') \<Rightarrow> (Inr (Some (make_question sv p cluster, state)), s'))
      | Some given \<Rightarrow>
          (case ps_answered i (ar_state req) s of
             (False, s') \<Rightarrow> (Inl (errorf Usage ''the confirmation does not belong to this plan's question'' []), s')
           | (True, s') \<Rightarrow>
               (case given of
                  None \<Rightarrow> (Inl (errorf Interrupted ''the user did not confirm, nothing was done'' []), s')
                | Some r \<Rightarrow>
                    if el_action r \<noteq> ''accept'' then
                      (Inl (errorf Interrupted ''the user did not confirm, nothing was done'' []), s')
                    else (case Accept (sv_yes sv) p (answerText p (el_content r)) of
                            Some e \<Rightarrow> (Inl e, s') | None \<Rightarrow> (Inr None, s')))))"

section \<open>Applying\<close>

record apply_input =
  ai_plan_id :: string
  ai_nodes :: string
  ai_count :: int

datatype apply_result = AskFirst question string | AppliedWith "goerr option"

text \<open>What must still hold: the configuration means what was planned. The client is the one to use.\<close>

definition plan_recheck ::
  "'ns nodeset_lib \<Rightarrow> ('ns, 'w) server \<Rightarrow> string \<Rightarrow> 'ns plan \<Rightarrow> change \<Rightarrow> ('ns, 'w) app_parts \<Rightarrow> 'w
   \<Rightarrow> (goerr + preview \<times> 'w slurm_client) \<times> 'w" where
  "plan_recheck L sv token pl ch a w =
     (if ap_cluster a \<noteq> pl_cluster pl then
        (Inl (errorf Usage ''plan %s was made for cluster %s'' [pl_id pl, pl_cluster pl, ap_cluster a]), w)
      else
        (case Preview L (ap_gate a) \<lparr> ac_verb = change_verb ch, ac_targets = Some (pl_nodes pl),
                ac_detail = pv_detail (pl_preview pl), ac_not_nodes = False \<rparr> w of
           (Inl e, _, w) \<Rightarrow> (Inl e, w)
         | (Inr p, _, w) \<Rightarrow>
             if pv_targets p \<noteq> pv_targets (pl_preview pl) \<or> pv_count p \<noteq> pv_count (pl_preview pl) then
               (Inl (errorf Usage ''plan %s is for %d hosts %s, but the gate now reads %d hosts %s'' [pl_id pl]), w)
             else
               (case ap_slurm a w of (Inl e, w) \<Rightarrow> (Inl e, w)
                | (Inr c, w) \<Rightarrow>
                    (case dry_run L token ch c (pl_nodes pl) (pl_reason pl) w of
                       (Inl e, w) \<Rightarrow> (Inl e, w)
                     | (Inr commands, w) \<Rightarrow>
                         if commands \<noteq> pl_commands pl then
                           (Inl (errorf Usage ''plan %s would send %s, but the configuration now sends %s'' [pl_id pl]), w)
                         else (Inr (p, c), w)))))"

text \<open>
  Taking the plan, recording it, and sending it. The context of the sending is not that of the
  call, so a client that gives up does not stop it.
\<close>

definition plan_execute ::
  "'ns nodeset_lib \<Rightarrow> ('ns, 'w) server \<Rightarrow> string \<Rightarrow> nat \<Rightarrow> change \<Rightarrow> 'w slurm_client \<Rightarrow> audit_entry \<Rightarrow> 'ns plan_store \<Rightarrow> 'w
   \<Rightarrow> (goerr + apply_result) \<times> audit_entry \<times> 'ns plan_store \<times> 'w" where
  "plan_execute L sv token i ch c entry s w =
     (case ps_take i s of
        (False, s) \<Rightarrow> (Inl (errorf Usage ''plan %s was applied already'' [pl_id (st_objs s ! i)]), entry, s, w)
      | (True, s) \<Rightarrow>
          let pl = st_objs s ! i; entry = entry\<lparr>ae_outcome := Applying\<rparr> in
          (case sv_record sv entry w of
             (Some e, w) \<Rightarrow> (Inl (Wrap ''nothing was sent, and plan %s is used up: %w'' [pl_id pl] [e]),
                            entry\<lparr>ae_outcome := NotApplied e\<rparr>, s, w)
           | (None, w) \<Rightarrow>
               (case change_run L token ch c (pl_nodes pl) (pl_reason pl) w of
                  (Some e, w) \<Rightarrow> (Inl (Coded TargetFailed e), entry\<lparr>ae_outcome := FailedWith (Coded TargetFailed e)\<rparr>, s, w)
                | (None, w) \<Rightarrow>
                    let entry = entry\<lparr>ae_outcome := AppliedOk\<rparr> in
                    (case sv_record sv entry w of (lost, w) \<Rightarrow> (Inr (AppliedWith lost), entry, s, w)))))"

text \<open>The end of \<open>apply\<close>: the confirmation, where the server asks for one, and the command.\<close>

definition apply_confirmed ::
  "'ns nodeset_lib \<Rightarrow> ('ns, 'w) server \<Rightarrow> string \<Rightarrow> string \<Rightarrow> apply_request \<Rightarrow> nat \<Rightarrow> change \<Rightarrow> ('ns, 'w) app_parts \<Rightarrow>
   preview \<Rightarrow> 'w slurm_client \<Rightarrow> audit_entry \<Rightarrow> 'ns plan_store \<Rightarrow> 'w
   \<Rightarrow> (goerr + apply_result) \<times> audit_entry \<times> 'ns plan_store \<times> 'w" where
  "apply_confirmed L sv token random req i ch a p c entry s w =
     (case (if sv_elicit sv then plan_confirm L sv random req i ch p (ap_cluster a) s else (Inr None, s)) of
        (Inl e, s) \<Rightarrow> (Inl e, entry\<lparr>ae_outcome := DeclinedWith e\<rparr>, s, w)
      | (Inr (Some (q, state)), s) \<Rightarrow> (Inr (AskFirst q state), entry, s, w)
      | (Inr None, s) \<Rightarrow>
          (case ap_config_path a w of
             (Some e, w) \<Rightarrow> (Inl e, entry, s, w)
           | (None, w) \<Rightarrow> plan_execute L sv token i ch c entry s w))"

text \<open>What comes before it, for a plan that was repeated exactly.\<close>

definition apply_held ::
  "'ns nodeset_lib \<Rightarrow> ('ns, 'w) server \<Rightarrow> string \<Rightarrow> string \<Rightarrow> apply_request \<Rightarrow> nat \<Rightarrow> audit_entry \<Rightarrow> 'ns plan_store \<Rightarrow> 'w
   \<Rightarrow> (goerr + apply_result) \<times> audit_entry \<times> 'ns plan_store \<times> 'w" where
  "apply_held L sv token random req i entry s w =
     (let pl = st_objs s ! i in
      case change_of (pl_action pl) of
        None \<Rightarrow> (Inl (Leaf ''no change'' []), entry, s, w)
      | Some ch \<Rightarrow>
          (case sv_open sv w of (Inl e, w) \<Rightarrow> (Inl e, entry, s, w)
           | (Inr a, w) \<Rightarrow>
             (case plan_recheck L sv token pl ch a w of (Inl e, w) \<Rightarrow> (Inl e, entry, s, w)
              | (Inr (p, c), w) \<Rightarrow> apply_confirmed L sv token random req i ch a p c entry s w)))"

definition apply_plan ::
  "'ns nodeset_lib \<Rightarrow> ('ns, 'w) server \<Rightarrow> string \<Rightarrow> string \<Rightarrow> int \<Rightarrow> apply_request \<Rightarrow> apply_input \<Rightarrow> audit_entry \<Rightarrow> 'ns plan_store \<Rightarrow> 'w
   \<Rightarrow> (goerr + apply_result) \<times> audit_entry \<times> 'ns plan_store \<times> 'w" where
  "apply_plan L sv token random now req inp entry s w =
     (case ps_get now (ai_plan_id inp) s of
        (Inl e, s) \<Rightarrow> (Inl e, entry, s, w)
      | (Inr i, s) \<Rightarrow>
          let pl = st_objs s ! i; entry = entry\<lparr>ae_action := pl_action pl\<rparr> in
          if ai_nodes inp \<noteq> pv_targets (pl_preview pl) \<or> ai_count inp \<noteq> int (pv_count (pl_preview pl)) then
            (Inl (errorf Usage ''plan %s is for %d hosts %s, not %d hosts %s; repeat the plan exactly'' [pl_id pl]), entry, s, w)
          else
            apply_held L sv token random req i
              (entry\<lparr>ae_nodes := pv_targets (pl_preview pl), ae_count := int (pv_count (pl_preview pl)),
                     ae_detail := pv_detail (pl_preview pl)\<rparr>) s w)"

definition applyPlan ::
  "'ns nodeset_lib \<Rightarrow> ('ns, 'w) server \<Rightarrow> string \<Rightarrow> string \<Rightarrow> int \<Rightarrow> apply_request \<Rightarrow> apply_input \<Rightarrow> 'ns plan_store \<Rightarrow> 'w
   \<Rightarrow> (goerr + apply_result) \<times> 'ns plan_store \<times> 'w" where
  "applyPlan L sv token random now req inp s w =
     (let entry = \<lparr> ae_event = ''apply'', ae_context = sv_context sv, ae_plan = ai_plan_id inp, ae_action = [],
                    ae_nodes = ai_nodes inp, ae_count = ai_count inp, ae_detail = [], ae_outcome = NoOutcome \<rparr> in
      case apply_plan L sv token random now req inp entry s w of
        (Inl e, entry, s, w) \<Rightarrow>
          (case refusal sv (if ae_outcome entry = NoOutcome then entry\<lparr>ae_outcome := RefusedWith e\<rparr> else entry) e w of
             (e', w) \<Rightarrow> (Inl e', s, w))
      | (Inr r, entry, s, w) \<Rightarrow> (Inr r, s, w))"

end
