(* ===== verification/PlanProps.thy ===== *)
theory PlanProps
  imports PlanApply
begin

text \<open>
  What applying a plan sends: nothing, or exactly the one command the plan showed, and that only
  for a live plan that was repeated and confirmed. What is sent is kept beside the world, by a
  runner that notes every request; what only reads is not noted.
\<close>

section \<open>What a client may do to the world\<close>

text \<open>A relation both runners of a client respect is respected by every operation of it.\<close>

definition keeps_to :: "('w \<Rightarrow> 'w \<Rightarrow> bool) \<Rightarrow> 'w slurm_client \<Rightarrow> bool" where
  "keeps_to P c \<longleftrightarrow> (\<forall>w. P w w) \<and> (\<forall>u v w. P u v \<longrightarrow> P v w \<longrightarrow> P u w) \<and>
     (\<forall>t rq w. P w (snd (sl_runner c t rq w))) \<and> (\<forall>t rq w. P w (snd (reader c t rq w)))"

lemma respects_trans: "keeps_to P c \<Longrightarrow> P u v \<Longrightarrow> P v w \<Longrightarrow> P u w"
  unfolding keeps_to_def by blast

lemma exec_act_respects:
  assumes "\<And>t rq w. P w (snd (run t rq w))"
  shows "P w (snd (exec_act c run argv w))"
  using assms [of w "sl_target c" "slurm_request c argv"]
  by (auto simp: exec_act_def exec_pair_def split: prod.splits sum.splits option.splits)

lemma sl_run_respects: "keeps_to P c \<Longrightarrow> P w (snd (sl_run c argv w))"
  using exec_act_respects [of P "sl_runner c" w c argv]
  by (auto simp: keeps_to_def sl_run_def split: prod.splits sum.splits)

lemma sl_read_respects: "keeps_to P c \<Longrightarrow> P w (snd (sl_read c argv w))"
  unfolding sl_read_def by (rule exec_act_respects) (simp add: keeps_to_def)

lemma Nodes_respects: "keeps_to P c \<Longrightarrow> P w (snd (Nodes L c token ns states w))"
  using sl_read_respects [of P c w]
  by (auto simp: Nodes_def Let_def abind_def alift_def split: prod.splits sum.splits) (metis snd_conv)+

lemma readBack_respects: "keeps_to P c \<Longrightarrow> P w (snd (readBack L c token ns e st ch w))"
  using Nodes_respects [of P c w L token "Some ns" "[]"]
  by (auto simp: readBack_def Let_def split: prod.splits sum.splits)

text \<open>The one command of a change.\<close>

definition change_command :: "('ns, 'z) nodeset_lib_scheme \<Rightarrow> change \<Rightarrow> 'ns \<Rightarrow> string \<Rightarrow> string list" where
  "change_command L ch ns reason = (case ch of ChangeDrain \<Rightarrow> drain_argv L ns reason | ChangeResume \<Rightarrow> resume_argv L ns)"

text \<open>A change is refused with nothing done, or runs its command and, when it failed, only reads.\<close>

lemma change_run_cases:
  assumes "change_run L token ch c ns reason w = (e, w')"
  obtains "e \<noteq> None" "w' = w"
  | w1 where "sl_run c (change_command L ch ns reason) w = (None, w1)" "e = None" "w' = w1"
  | x w1 st changed where "sl_run c (change_command L ch ns reason) w = (Some x, w1)" "e \<noteq> None"
      "w' = snd (readBack L c token ns x st changed w1)"
proof (cases ch)
  case ChangeDrain
  with assms that show ?thesis
    by (auto simp: change_run_def change_command_def Drain_def split: option.splits prod.splits) (metis snd_conv option.distinct(1))+
next
  case ChangeResume
  with assms that show ?thesis
    by (auto simp: change_run_def change_command_def Resume_def split: option.splits prod.splits) (metis snd_conv option.distinct(1))+
qed

lemma change_run_respects:
  assumes "keeps_to P c"
  shows "P w (snd (change_run L token ch c ns reason w))"
proof -
  obtain e w' where r: "change_run L token ch c ns reason w = (e, w')" by (rule prod.exhaust)
  have refl: "P w w" using assms by (simp add: keeps_to_def)
  note run = sl_run_respects [OF assms, of w "change_command L ch ns reason"]
  show ?thesis
  proof (rule change_run_cases [OF r])
    fix x w1 st changed
    assume *: "sl_run c (change_command L ch ns reason) w = (Some x, w1)" "w' = snd (readBack L c token ns x st changed w1)"
    then have "P w w1" "P w1 w'" using run readBack_respects [OF assms] by auto
    then show ?thesis using respects_trans [OF assms] r by simp
  qed (use run refl r in auto)
qed

section \<open>What is sent\<close>

definition sending :: "'w runner \<Rightarrow> ('w \<times> (target \<times> request) list) runner" where
  "sending run t rq w = (case run t rq (fst w) of (a, v) \<Rightarrow> (a, (v, snd w @ [(t, rq)])))"

definition watched :: "('w \<times> (target \<times> request) list) slurm_client \<Rightarrow> bool" where
  "watched c \<longleftrightarrow> (\<exists>run. sl_runner c = sending run) \<and> (\<exists>run. sl_reader c = Some (beside run))"

lemma watched_read: "watched c \<Longrightarrow> snd (snd (reader c t rq w)) = snd w"
  by (auto simp: watched_def reader_def beside_def split: prod.splits)

lemma watched_run: "watched c \<Longrightarrow> snd (snd (sl_run c argv w)) = snd w @ [(sl_target c, slurm_request c argv)]"
  by (auto simp: watched_def sl_run_def exec_act_def exec_pair_def sending_def split: prod.splits sum.splits option.splits)

lemma watched_readBack:
  assumes "watched c"
  shows "snd (snd (readBack L c token ns x st changed w)) = snd w"
proof -
  let ?c = "c\<lparr>sl_runner := reader c\<rparr>"
  have rc: "reader ?c = reader c" using assms by (auto simp: watched_def reader_def)
  have "keeps_to (\<lambda>u v. snd v = snd u) ?c" unfolding keeps_to_def rc using watched_read [OF assms] by simp
  from readBack_respects [OF this] have "snd (snd (readBack L ?c token ns x st changed w)) = snd w" .
  moreover have "sl_read ?c = sl_read c"
    by (intro ext) (simp add: sl_read_def rc exec_act_def exec_pair_def slurm_request_def slurm_timeout_def
        split: prod.splits sum.splits option.splits)
  then have "readBack L ?c token ns x st changed = readBack L c token ns x st changed"
    by (intro ext) (simp add: readBack_def Nodes_def)
  ultimately show ?thesis by simp
qed

lemma watched_change:
  assumes "watched c" and "change_run L token ch c ns reason w = (e, w')"
  shows "snd w' = snd w \<and> e \<noteq> None \<or> snd w' = snd w @ [(sl_target c, slurm_request c (change_command L ch ns reason))]"
proof (rule change_run_cases [OF assms(2)])
  assume "e \<noteq> None" "w' = w"
  then show ?thesis by simp
next
  fix w1
  assume "sl_run c (change_command L ch ns reason) w = (None, w1)" "w' = w1"
  then show ?thesis using watched_run [OF assms(1), of "change_command L ch ns reason" w] by simp
next
  fix x w1 st changed
  assume "sl_run c (change_command L ch ns reason) w = (Some x, w1)" "w' = snd (readBack L c token ns x st changed w1)"
  then show ?thesis using watched_run [OF assms(1), of "change_command L ch ns reason" w]
      watched_readBack [OF assms(1), of L token ns x st changed w1] by simp
qed

text \<open>What a dry run shows is that one command, rendered.\<close>

lemma dry_run_shows:
  assumes "dry_run L token ch c ns reason w = (Inr commands, w')"
  shows "\<exists>line. RemoteCommand (slurm_request c (change_command L ch ns reason)) = Inr line \<and>
    commands = [describe_call \<lparr> ca_target = sl_target c, ca_request = slurm_request c (change_command L ch ns reason), ca_command = line \<rparr>]"
proof -
  let ?rq = "slurm_request c (change_command L ch ns reason)"
  obtain v r where run: "change_run L token ch (dry_client c) ns reason (w, new_recorder) = (None, (v, r))"
      and commands: "commands = describeCalls r"
    using assms by (auto simp: dry_run_def split: prod.splits option.splits)
  have rq: "slurm_request (dry_client c) argv = slurm_request c argv" for argv
    by (simp add: slurm_request_def slurm_timeout_def dry_client_def)
  have dry: "sl_runner (dry_client c) = record_runner" "sl_target (dry_client c) = sl_target c"
    by (simp_all add: dry_client_def)
  have "sl_run (dry_client c) (change_command L ch ns reason) (w, new_recorder) = (None, (v, r))"
    by (rule change_run_cases [OF run]) auto
  then obtain a where a: "answer new_recorder (sl_target c) ?rq = (Inr a, r)"
    by (auto simp: sl_run_def exec_act_def exec_pair_def rq dry record_runner_def split: prod.splits sum.splits option.splits)
  then obtain line where line: "RemoteCommand ?rq = Inr line"
    by (cases "RemoteCommand ?rq") (auto simp: answer_def)
  moreover have "rec_calls r = [\<lparr> ca_target = sl_target c, ca_request = ?rq, ca_command = line \<rparr>]"
    using answer_calls [of new_recorder "sl_target c" ?rq] a line by (simp add: new_recorder_def)
  ultimately show ?thesis by (simp add: commands describeCalls_def)
qed

lemma dry_run_quiet:
  assumes "watched c"
  shows "snd (snd (dry_run L token ch c ns reason w)) = snd w"
proof -
  have "keeps_to (\<lambda>u v. snd (fst v) = snd (fst u)) (dry_client c)"
    using assms by (auto simp: keeps_to_def dry_client_def record_runner_def reader_def watched_def beside_def split: prod.splits)
  from change_run_respects [OF this, where w = "(w, new_recorder)" and L = L and token = token and ch = ch and ns = ns and reason = reason]
  show ?thesis
    by (auto simp: dry_run_def split: prod.splits option.splits)
qed

section \<open>What applying a plan sends\<close>

text \<open>Opening the configuration, recording and resolving the protected hosts send nothing.\<close>

type_synonym 'w traced = "'w \<times> (target \<times> request) list"

definition app_quiet :: "('ns, 'w traced) app_parts \<Rightarrow> bool" where
  "app_quiet a \<longleftrightarrow> (\<forall>e w. snd (snd (gt_resolve (ap_gate a) e w)) = snd w) \<and>
     (\<forall>w. snd (snd (ap_slurm a w)) = snd w) \<and> (\<forall>w. snd (snd (ap_config_path a w)) = snd w) \<and>
     (\<forall>w c. fst (ap_slurm a w) = Inr c \<longrightarrow> watched c)"

definition server_quiet :: "('ns, 'w traced) server \<Rightarrow> bool" where
  "server_quiet sv \<longleftrightarrow> (\<forall>w. snd (snd (sv_open sv w)) = snd w) \<and> (\<forall>e w. snd (snd (sv_record sv e w)) = snd w) \<and>
     (\<forall>w a. fst (sv_open sv w) = Inr a \<longrightarrow> app_quiet a)"

lemma resolve_entries_quiet:
  "(\<And>e w. snd (snd (resolve e w)) = snd w) \<Longrightarrow> snd (snd (resolve_entries L resolve acc es w)) = snd w"
  by (induction es arbitrary: acc w) (auto split: prod.splits sum.splits, (metis snd_conv)+)

lemma Preview_quiet:
  assumes "app_quiet a" and "Preview L (ap_gate a) ac w = (r, g, w')"
  shows "snd w' = snd w"
  using assms resolve_entries_quiet [of "gt_resolve (ap_gate a)" L "ns_new L" "gt_protected_hosts (ap_gate a)" w]
  by (auto simp: Preview_def gate_check_def ProtectedIn_def Protected_def app_quiet_def Let_def
      split: prod.splits sum.splits option.splits if_splits)

text \<open>The plan still means what it showed: the command it would send is the one it showed.\<close>

definition still_shows :: "('ns, 'z) nodeset_lib_scheme \<Rightarrow> 'ns plan \<Rightarrow> change \<Rightarrow> 'w slurm_client \<Rightarrow> bool" where
  "still_shows L pl ch c \<longleftrightarrow>
     (case RemoteCommand (slurm_request c (change_command L ch (pl_nodes pl) (pl_reason pl))) of
        Inl _ \<Rightarrow> False
      | Inr line \<Rightarrow> pl_commands pl = [describe_call \<lparr> ca_target = sl_target c,
          ca_request = slurm_request c (change_command L ch (pl_nodes pl) (pl_reason pl)), ca_command = line \<rparr>])"

definition same_hosts :: "preview \<Rightarrow> preview \<Rightarrow> bool" where
  "same_hosts p q \<longleftrightarrow> pv_targets p = pv_targets q \<and> pv_count p = pv_count q"

lemma dry_run_still_shows: "dry_run L token ch c (pl_nodes pl) (pl_reason pl) w = (Inr (pl_commands pl), w') \<Longrightarrow> still_shows L pl ch c"
  using dry_run_shows [of L token ch c "pl_nodes pl" "pl_reason pl" w "pl_commands pl" w'] by (auto simp: still_shows_def)

lemma plan_recheck_quiet:
  assumes "app_quiet a" and "plan_recheck L sv token pl ch a w = (r, w')"
  shows "snd w' = snd w"
proof (cases "ap_cluster a \<noteq> pl_cluster pl")
  case True
  then show ?thesis using assms(2) by (simp add: plan_recheck_def)
next
  case False
  let ?ac = "\<lparr> ac_verb = change_verb ch, ac_targets = Some (pl_nodes pl), ac_detail = pv_detail (pl_preview pl), ac_not_nodes = False \<rparr>"
  obtain q g w1 where P: "Preview L (ap_gate a) ?ac w = (q, g, w1)" by (metis prod_cases3)
  obtain x w2 where S: "ap_slurm a w1 = (x, w2)" by (rule prod.exhaust)
  have "snd w1 = snd w" by (rule Preview_quiet [OF assms(1) P])
  moreover have "snd w2 = snd w1" "\<And>c. x = Inr c \<Longrightarrow> watched c"
    using assms(1) S unfolding app_quiet_def by (metis fst_conv snd_conv)+
  moreover have "w' = w1 \<or> w' = w2 \<or> (\<exists>c. x = Inr c \<and> w' = snd (dry_run L token ch c (pl_nodes pl) (pl_reason pl) w2))"
    using assms(2) False P S by (auto simp: plan_recheck_def split: prod.splits sum.splits if_splits)
  ultimately show ?thesis using dry_run_quiet by metis
qed

lemma plan_recheck_ok:
  assumes "app_quiet a" and "plan_recheck L sv token pl ch a w = (Inr (p, c), w')"
  shows "watched c \<and> same_hosts p (pl_preview pl) \<and> still_shows L pl ch c"
proof -
  have "same_hosts p (pl_preview pl) \<and> (\<exists>w1 w2. ap_slurm a w1 = (Inr c, w2) \<and>
      dry_run L token ch c (pl_nodes pl) (pl_reason pl) w2 = (Inr (pl_commands pl), w'))"
    using assms(2) by (auto simp: plan_recheck_def same_hosts_def split: prod.splits sum.splits if_splits)
  then obtain w1 w2 where "ap_slurm a w1 = (Inr c, w2)" "same_hosts p (pl_preview pl)"
      "dry_run L token ch c (pl_nodes pl) (pl_reason pl) w2 = (Inr (pl_commands pl), w')"
    by blast
  then have "fst (ap_slurm a w1) = Inr c" "same_hosts p (pl_preview pl)" "still_shows L pl ch c"
    using dry_run_still_shows by simp_all
  then show ?thesis using assms(1) unfolding app_quiet_def by blast
qed

text \<open>What the answer must be for the change to go ahead.\<close>

definition confirmed :: "('ns, 'w) server \<Rightarrow> apply_request \<Rightarrow> 'ns plan \<Rightarrow> bool" where
  "confirmed sv req pl \<longleftrightarrow>
     ar_elicits req \<and> pl_asked pl \<noteq> [] \<and> ar_state req = pl_asked pl \<and>
     (\<exists>res p. ar_answer req = Some (Some res) \<and> el_action res = ''accept'' \<and> same_hosts p (pl_preview pl) \<and>
       Accept (sv_yes sv) p (answerText p (el_content res)) = None)"

lemma plan_confirm_store:
  assumes "plan_confirm L sv random req i ch p cl s = (r, s')" and "i < length (st_objs s)"
  shows "st_live s' = st_live s \<and> length (st_objs s') = length (st_objs s) \<and> (\<exists>q. st_objs s' ! i = (st_objs s ! i)\<lparr>pl_asked := q\<rparr>)"
proof -
  have same: "\<exists>q. x = x\<lparr>pl_asked := q\<rparr>" for x :: "'a plan" by (rule exI [of _ "pl_asked x"]) simp
  show ?thesis using assms
    by (auto simp: plan_confirm_def ps_ask_def ps_answered_def Let_def intro: same
        split: prod.splits sum.splits option.splits if_splits bool.splits)
qed

lemma plan_confirm_confirmed:
  "plan_confirm L sv random req i ch p cl s = (Inr None, s') \<Longrightarrow> same_hosts p (pl_preview (st_objs s ! i)) \<Longrightarrow>
     confirmed sv req (st_objs s ! i)"
  by (auto simp: plan_confirm_def ps_answered_def confirmed_def Let_def split: prod.splits sum.splits option.splits if_splits bool.splits)

lemma plan_execute_sends:
  assumes "server_quiet sv" and "watched c" and "i < length (st_objs s)"
    and "plan_execute L sv token i ch c entry s w = (r, entry', s', w')"
  shows "snd w' = snd w \<and> (\<forall>x. r \<noteq> Inr (AppliedWith x)) \<or>
    (let pl = st_objs s ! i in \<not> pl_used pl \<and> pl_used (st_objs s' ! i) \<and> st_live s' (pl_id pl) = None \<and>
      snd w' = snd w @ [(sl_target c, slurm_request c (change_command L ch (pl_nodes pl) (pl_reason pl)))])"
proof (cases "pl_used (st_objs s ! i)")
  case True
  then show ?thesis using assms(4) by (auto simp: plan_execute_def ps_take_def)
next
  case False
  have rec: "sv_record sv e v = (x, v') \<Longrightarrow> snd v' = snd v" for e v x v'
    using assms(1) unfolding server_quiet_def by (metis snd_conv)
  obtain x w1 where R: "sv_record sv (entry\<lparr>ae_outcome := Applying\<rparr>) w = (x, w1)" by (rule prod.exhaust)
  obtain e w2 where C: "change_run L token ch c (pl_nodes (st_objs s ! i)) (pl_reason (st_objs s ! i)) w1 = (e, w2)" by (rule prod.exhaust)
  obtain y w3 where R': "sv_record sv (entry\<lparr>ae_outcome := AppliedOk\<rparr>) w2 = (y, w3)" by (rule prod.exhaust)
  have logs: "snd w1 = snd w" "snd w3 = snd w2" using rec [OF R] rec [OF R'] by simp_all
  show ?thesis using assms(3,4) False R C R' logs watched_change [OF assms(2) C]
    by (auto simp: plan_execute_def ps_take_def Let_def split: option.splits)
qed

lemma ps_get_plan:
  assumes "ps_get now ident s = (Inr i, s1)" and "store_ok s"
  shows "st_live s ident = Some i \<and> i < length (st_objs s) \<and> now \<le> pl_expires (st_objs s ! i) \<and> \<not> pl_used (st_objs s ! i) \<and>
    pl_id (st_objs s ! i) = ident \<and> st_objs s1 = st_objs s"
  using assms prune_live [of now s ident] by (auto simp: ps_get_def Let_def store_ok_def split: option.splits)

text \<open>
  The one way to a sent command: the plan is unused, its confirmation (where the server asks) was
  given, and it is used up.
\<close>

definition sends_plan :: "('ns, 'z) nodeset_lib_scheme \<Rightarrow> ('ns, 'v) server \<Rightarrow> apply_request \<Rightarrow> nat \<Rightarrow> change \<Rightarrow> 'w slurm_client \<Rightarrow>
    'ns plan_store \<Rightarrow> 'ns plan_store \<Rightarrow> (target \<times> request) list \<Rightarrow> (target \<times> request) list \<Rightarrow> bool" where
  "sends_plan L sv req i ch c s s' log log' \<longleftrightarrow>
     (let pl = st_objs s ! i in
       \<not> pl_used pl \<and> pl_used (st_objs s' ! i) \<and> st_live s' (pl_id pl) = None \<and> (sv_elicit sv \<longrightarrow> confirmed sv req pl) \<and>
       log' = log @ [(sl_target c, slurm_request c (change_command L ch (pl_nodes pl) (pl_reason pl)))])"

lemma apply_confirmed_sends:
  assumes "server_quiet sv" "app_quiet a" "watched c" "i < length (st_objs s)" "same_hosts p (pl_preview (st_objs s ! i))"
    and "apply_confirmed L sv token random req i ch a p c entry s w = (r, entry', s', w')"
  shows "snd w' = snd w \<and> (\<forall>x. r \<noteq> Inr (AppliedWith x)) \<or> sends_plan L sv req i ch c s s' (snd w) (snd w')"
proof -
  obtain k s2 where K: "(if sv_elicit sv then plan_confirm L sv random req i ch p (ap_cluster a) s else (Inr None, s)) = (k, s2)"
    by (rule prod.exhaust)
  obtain cf w3 where F: "ap_config_path a w = (cf, w3)" by (rule prod.exhaust)
  have q3: "snd w3 = snd w" using assms(2) F unfolding app_quiet_def by (metis snd_conv)
  consider "snd w' = snd w" "\<forall>x. r \<noteq> Inr (AppliedWith x)"
    | "k = Inr None" "plan_execute L sv token i ch c entry s2 w3 = (r, entry', s', w')"
    using assms(6) K F q3 by (auto simp: apply_confirmed_def split: prod.splits sum.splits option.splits)
  then show ?thesis
  proof cases
    case 2
    have same: "\<exists>q. x = x\<lparr>pl_asked := q\<rparr>" for x :: "'a plan" by (rule exI [of _ "pl_asked x"]) simp
    have held: "\<exists>q. st_objs s2 ! i = (st_objs s ! i)\<lparr>pl_asked := q\<rparr>" "length (st_objs s2) = length (st_objs s)"
      "sv_elicit sv \<longrightarrow> confirmed sv req (st_objs s ! i)"
      using K 2(1) plan_confirm_store [of L sv random req i ch p "ap_cluster a" s k s2] assms(4)
        plan_confirm_confirmed [of L sv random req i ch p "ap_cluster a" s s2, OF _ assms(5)] same [of "st_objs s ! i"]
      by (auto split: if_splits)
    have "i < length (st_objs s2)" using held(2) assms(4) by simp
    from plan_execute_sends [OF assms(1,3) this 2(2)] held(1,3) q3 show ?thesis
      by (auto simp: sends_plan_def Let_def)
  qed simp
qed

lemma apply_held_sends:
  fixes w :: "'w traced"
  assumes "server_quiet sv" "i < length (st_objs s)"
    and "apply_held L sv token random req i entry s w = (r, entry', s', w')"
  shows "snd w' = snd w \<and> (\<forall>x. r \<noteq> Inr (AppliedWith x)) \<or>
    (\<exists>ch (c :: 'w traced slurm_client). change_of (pl_action (st_objs s ! i)) = Some ch \<and> still_shows L (st_objs s ! i) ch c \<and>
       sends_plan L sv req i ch c s s' (snd w) (snd w'))"
proof -
  obtain oa w1 where A: "sv_open sv w = (oa, w1)" by (rule prod.exhaust)
  have q1: "snd w1 = snd w" and qa: "\<And>a. oa = Inr a \<Longrightarrow> app_quiet a"
    using assms(1) A unfolding server_quiet_def by (metis snd_conv fst_conv)+
  consider "snd w' = snd w" "\<forall>x. r \<noteq> Inr (AppliedWith x)"
    | ch a rc w2 where "change_of (pl_action (st_objs s ! i)) = Some ch" "oa = Inr a"
        "plan_recheck L sv token (st_objs s ! i) ch a w1 = (rc, w2)"
    using assms(3) A q1 by (cases "change_of (pl_action (st_objs s ! i))"; cases oa) (auto simp: apply_held_def Let_def split: prod.splits)
  then show ?thesis
  proof cases
    case (2 ch a rc w2)
    have q2: "snd w2 = snd w" using plan_recheck_quiet [OF qa [OF 2(2)] 2(3)] q1 by simp
    show ?thesis
    proof (cases rc)
      case (Inl e)
      then show ?thesis using assms(3) A 2 q2 by (auto simp: apply_held_def Let_def)
    next
      case (Inr pc)
      then obtain p c where pc: "rc = Inr (p, c)" by (cases pc) auto
      note ok = plan_recheck_ok [OF qa [OF 2(2)] 2(3) [unfolded pc]]
      have "apply_confirmed L sv token random req i ch a p c entry s w2 = (r, entry', s', w')"
        using assms(3) A 2 pc by (simp add: apply_held_def Let_def)
      from apply_confirmed_sends [OF assms(1) qa [OF 2(2)] _ assms(2) _ this] ok 2(1) q2 show ?thesis by auto
    qed
  qed simp
qed

text \<open>
  C11. Applying sends nothing and does not say it was applied, or sends one command: that of a live,
  unexpired, unused plan whose hosts and count the call repeats, the very line the plan showed,
  confirmed by the answer to the plan's own question where the server asks, and the plan is used up.
\<close>
theorem apply_sends_what_was_planned:
  fixes w :: "'w traced"
  assumes "server_quiet sv" and "store_ok s"
    and "applyPlan L sv token random now req inp s w = (r, s', w')"
  shows "snd w' = snd w \<and> (\<forall>x. r \<noteq> Inr (AppliedWith x)) \<or>
    (\<exists>i ch (c :: 'w traced slurm_client). st_live s (ai_plan_id inp) = Some i \<and> now \<le> pl_expires (st_objs s ! i) \<and>
       ai_nodes inp = pv_targets (pl_preview (st_objs s ! i)) \<and> ai_count inp = int (pv_count (pl_preview (st_objs s ! i))) \<and>
       change_of (pl_action (st_objs s ! i)) = Some ch \<and> still_shows L (st_objs s ! i) ch c \<and>
       sends_plan L sv req i ch c s s' (snd w) (snd w'))"
proof -
  define entry where "entry = \<lparr> ae_event = ''apply'', ae_context = sv_context sv, ae_plan = ai_plan_id inp, ae_action = [],
     ae_nodes = ai_nodes inp, ae_count = ai_count inp, ae_detail = [], ae_outcome = NoOutcome \<rparr>"
  obtain r0 e0 s0 w0 where P: "apply_plan L sv token random now req inp entry s w = (r0, e0, s0, w0)" by (metis prod_cases4)
  have rec: "sv_record sv e v = (x, v') \<Longrightarrow> snd v' = snd v" for e v x v'
    using assms(1) unfolding server_quiet_def by (metis snd_conv)
  have out: "s' = s0" "snd w' = snd w0" "\<And>x. r = Inr x \<Longrightarrow> r0 = Inr x"
    using assms(3) P rec by (auto simp: applyPlan_def refusal_def entry_def Let_def split: sum.splits prod.splits option.splits if_splits)
  obtain g s1 where G: "ps_get now (ai_plan_id inp) s = (g, s1)" by (rule prod.exhaust)
  show ?thesis
  proof (cases g)
    case (Inl e)
    then show ?thesis using P G out by (auto simp: apply_plan_def)
  next
    case (Inr i)
    note g = ps_get_plan [OF G [unfolded Inr] assms(2)]
    consider "w0 = w" "\<forall>x. r0 \<noteq> Inr x" | e where "apply_held L sv token random req i e s1 w = (r0, e0, s0, w0)"
        "ai_nodes inp = pv_targets (pl_preview (st_objs s ! i))" "ai_count inp = int (pv_count (pl_preview (st_objs s ! i)))"
      using P G Inr g by (auto simp: apply_plan_def Let_def split: if_splits)
    then show ?thesis
    proof cases
      case 1
      then show ?thesis using out by auto
    next
      case (2 e)
      have "i < length (st_objs s1)" using g by simp
      from apply_held_sends [OF assms(1) this 2(1)] 2(2,3) g out show ?thesis
        unfolding sends_plan_def by auto
    qed
  qed
qed

text \<open>A server whose one plan resumes \<open>n1\<close>.\<close>

definition answers_ok :: "unit runner" where
  "answers_ok tg rq w = (Inr \<lparr> rs_target = tg, rs_exit_code = 0, rs_stdout = [], rs_stderr = [], rs_truncated = False, rs_err = None \<rparr>, w)"

definition sample_watched :: "unit traced slurm_client" where
  "sample_watched = \<lparr> sl_runner = sending answers_ok, sl_reader = Some (beside answers_ok), sl_target = no_target,
     sl_organization = [], sl_default_account = [], sl_timeout = 0, sl_cluster = ''c1'', sl_escape = (\<lambda>s. s) \<rparr>"

definition sample_server :: "(string list, unit traced) server" where
  "sample_server = \<lparr> sv_context = ''prod'', sv_elicit = True,
     sv_open = Pair (Inr \<lparr> ap_cluster = ''c1'',
       ap_gate = \<lparr> gt_protected_hosts = [], gt_resolve = parse_resolve name_list, gt_known = None, gt_confirm_above = 10,
         gt_assume_yes = False, gt_force = False, gt_dry_run = False, gt_interactive = False, gt_has_in = False, gt_memo = None \<rparr>,
       ap_slurm = Pair (Inr sample_watched), ap_select = parse_resolve name_list, ap_config_path = Pair None \<rparr>),
     sv_record = (\<lambda>e. Pair None), sv_yes = (\<lambda>s. s = ''yes''), sv_quote = (\<lambda>s. s), sv_err_text = (\<lambda>e. []) \<rparr>"

definition sample_commands :: "string list" where
  "sample_commands = (let rq = slurm_request sample_watched (resume_argv name_list [''n1'']) in
     case RemoteCommand rq of Inl _ \<Rightarrow> []
     | Inr line \<Rightarrow> [describe_call \<lparr> ca_target = no_target, ca_request = rq, ca_command = line \<rparr>])"

definition sample_store :: "string list plan_store" where
  "sample_store = \<lparr> st_ttl = 300, st_objs = [sample_plan\<lparr>pl_expires := 300, pl_asked := ''p1.x'', pl_commands := sample_commands\<rparr>],
     st_live = [''p1'' \<mapsto> 0] \<rparr>"

definition sample_answer :: apply_request where
  "sample_answer = \<lparr> ar_elicits = True, ar_answer = Some (Some \<lparr> el_action = ''accept'', el_content = [(''confirm'', FormBool True)] \<rparr>),
     ar_state = ''p1.x'' \<rparr>"

abbreviation sample_apply :: "(goerr + apply_result) \<times> string list plan_store \<times> unit traced" where
  "sample_apply \<equiv> applyPlan name_list sample_server ''t1'' ''r'' 1 sample_answer
     \<lparr> ai_plan_id = ''p1'', ai_nodes = ''n1'', ai_count = 1 \<rparr> sample_store ((), [])"

lemma sample_applied: "(case sample_apply of (Inr (AppliedWith None), s, w) \<Rightarrow> length (snd w) | _ \<Rightarrow> 7) = 1"
  by code_simp

theorem apply_sends_what_was_planned_witness:
  "\<exists>i ch (c :: unit traced slurm_client). st_live sample_store ''p1'' = Some i \<and> still_shows name_list (st_objs sample_store ! i) ch c \<and>
     sends_plan name_list sample_server sample_answer i ch c sample_store (fst (snd sample_apply)) [] (snd (snd (snd sample_apply)))"
proof -
  obtain r s' w' where R: "sample_apply = (r, s', w')" by (metis prod_cases3)
  have "watched sample_watched" by (auto simp: watched_def sample_watched_def)
  then have q: "server_quiet sample_server" by (simp add: server_quiet_def app_quiet_def sample_server_def parse_resolve_def)
  have k: "store_ok sample_store" by (simp add: store_ok_def sample_store_def sample_plan_def)
  have "r = Inr (AppliedWith None)" using sample_applied R by (auto split: sum.splits apply_result.splits option.splits)
  with apply_sends_what_was_planned [OF q k R] R show ?thesis by fastforce
qed

end
