(* ===== verification/KnownHosts.thy ===== *)
theory KnownHosts
  imports ExitCode GoNumbers "HOL-Library.Product_Lexorder"
begin

text \<open>
  The known_hosts files of \<open>internal/hostkeys/hostkeys.go\<close>: reading and writing them, which keys a
  host has, and replacing them. The keyed hash of a hashed name, HMAC-SHA1, is the parameter \<open>mac\<close>.
  Collecting keys over the network is not modelled.
\<close>

section \<open>Entries\<close>

record known_entry =
  ke_marker :: string
  ke_hosts :: "string list"
  ke_type :: string
  ke_key :: string
  ke_comment :: string
  ke_notes :: "string list"

definition MarkerRevoked :: string where "MarkerRevoked = ''@revoked''"

definition MarkerCertAuthority :: string where "MarkerCertAuthority = ''@cert-authority''"

definition entry_string :: "known_entry \<Rightarrow> string" where
  "entry_string e =
     (let line = join_str '','' (ke_hosts e) @ '' '' @ ke_type e @ '' '' @ ke_key e;
          line = (if ke_marker e \<noteq> [] then ke_marker e @ '' '' @ line else line)
      in if ke_comment e \<noteq> [] then line @ '' '' @ ke_comment e else line)"

definition IsHostKey :: "known_entry \<Rightarrow> bool" where
  "IsHostKey e \<longleftrightarrow> ke_marker e = []"

section \<open>Patterns\<close>

text \<open>\<open>base64.StdEncoding.DecodeString\<close>: line ends are passed over, padding is required.\<close>

definition base64_value :: "char \<Rightarrow> nat option" where
  "base64_value c =
     (if is_upper c then Some (of_char c - 65) else if is_lower c then Some (of_char c - 71)
      else if is_digit c then Some (of_char c + 4) else if c = CHR ''+'' then Some 62
      else if c = CHR ''/'' then Some 63 else None)"

fun base64_groups :: "string \<Rightarrow> string option" where
  "base64_groups [] = Some []"
| "base64_groups [a, b, c, d] =
     (case (base64_value a, base64_value b) of
        (Some x, Some y) \<Rightarrow>
          (if c = CHR ''='' \<and> d = CHR ''='' then Some [char_of (x * 4 + y div 16)]
           else case base64_value c of None \<Rightarrow> None
             | Some z \<Rightarrow>
                 (if d = CHR ''='' then Some [char_of (x * 4 + y div 16), char_of (y mod 16 * 16 + z div 4)]
                  else case base64_value d of None \<Rightarrow> None
                    | Some v \<Rightarrow> Some [char_of (x * 4 + y div 16), char_of (y mod 16 * 16 + z div 4), char_of (z mod 4 * 64 + v)]))
      | _ \<Rightarrow> None)"
| "base64_groups (a # b # c # d # e # s) =
     (case (base64_value a, base64_value b, base64_value c, base64_value d, base64_groups (e # s)) of
        (Some x, Some y, Some z, Some v, Some rest) \<Rightarrow>
          Some (char_of (x * 4 + y div 16) # char_of (y mod 16 * 16 + z div 4) # char_of (z mod 4 * 64 + v) # rest)
      | _ \<Rightarrow> None)"
| "base64_groups _ = None"

definition base64_decode :: "string \<Rightarrow> string option" where
  "base64_decode s = base64_groups (filter (\<lambda>c. c \<noteq> CHR 0x0A \<and> c \<noteq> CHR 0x0D) s)"

definition hashPrefix :: string where "hashPrefix = ''|1|''"

definition matchHashed :: "(string \<Rightarrow> string \<Rightarrow> string) \<Rightarrow> string \<Rightarrow> string \<Rightarrow> bool" where
  "matchHashed mac pattern host =
     (case cut (drop (length hashPrefix) pattern) ''|'' of
        None \<Rightarrow> False
      | Some (salt64, hash64) \<Rightarrow>
          (case (base64_decode salt64, base64_decode hash64) of
             (Some salt, Some want) \<Rightarrow> mac salt host = want
           | _ \<Rightarrow> False))"

text \<open>A run of stars is one star; it takes any part of what is left.\<close>

function matchWildcard :: "string \<Rightarrow> string \<Rightarrow> bool" where
  "matchWildcard [] s = (s = [])"
| "matchWildcard (c # p) s =
     (if c = CHR ''*'' then
        (let p' = dropWhile (\<lambda>d. d = CHR ''*'') p
         in p' = [] \<or> list_ex (\<lambda>i. matchWildcard p' (drop i s)) [0..<Suc (length s)])
      else (case s of [] \<Rightarrow> False | d # t \<Rightarrow> (c = CHR ''?'' \<or> c = d) \<and> matchWildcard p t))"
  by pat_completeness auto
termination
  by (relation "measure (\<lambda>(p, s). length p)") (auto simp: le_imp_less_Suc length_dropWhile_le)

definition matchPattern :: "(string \<Rightarrow> string \<Rightarrow> string) \<Rightarrow> string \<Rightarrow> string \<Rightarrow> bool" where
  "matchPattern mac pattern host =
     (if has_prefix pattern hashPrefix then matchHashed mac pattern host
      else matchWildcard (to_lower pattern) host)"

definition is_wild :: "string \<Rightarrow> bool" where
  "is_wild pattern \<longleftrightarrow> CHR ''*'' \<in> set pattern \<or> CHR ''?'' \<in> set pattern"

text \<open>The patterns in their order: a negated one that matches ends the search.\<close>

fun match_all :: "(string \<Rightarrow> string \<Rightarrow> string) \<Rightarrow> bool \<Rightarrow> string list \<Rightarrow> string \<Rightarrow> bool" where
  "match_all mac hit [] host = hit"
| "match_all mac hit (p # ps) host =
     (if \<not> matchPattern mac (if has_prefix p ''!'' then tl p else p) host then match_all mac hit ps host
      else if has_prefix p ''!'' then False else match_all mac True ps host)"

definition Matches :: "(string \<Rightarrow> string \<Rightarrow> string) \<Rightarrow> known_entry \<Rightarrow> string \<Rightarrow> bool" where
  "Matches mac e host = match_all mac False (ke_hosts e) (to_lower host)"

definition names_host :: "(string \<Rightarrow> string \<Rightarrow> string) \<Rightarrow> string \<Rightarrow> string \<Rightarrow> bool" where
  "names_host mac pattern host \<longleftrightarrow>
     \<not> (has_prefix pattern ''!'' \<or> is_wild pattern) \<and> matchPattern mac pattern (to_lower host)"

section \<open>Files\<close>

record known_file =
  kf_header :: "string list"
  kf_entries :: "known_entry list"
  kf_trailer :: "string list"

definition entry_of_line :: "nat \<Rightarrow> string \<Rightarrow> string list \<Rightarrow> string list \<Rightarrow> goerr + known_entry" where
  "entry_of_line i raw notes ws =
     (let marked = has_prefix (hd ws) ''@''; marker = (if marked then hd ws else []); fs = (if marked then tl ws else ws)
      in if marked \<and> marker \<noteq> MarkerRevoked \<and> marker \<noteq> MarkerCertAuthority then
           Inl (Leaf ''line %d has an unknown marker %q'' [nat_digits (i + 1), marker])
         else if length fs < 3 then Inl (Leaf ''line %d is not a host key: %q'' [nat_digits (i + 1), raw])
         else Inr \<lparr> ke_marker = marker, ke_hosts = split_char (CHR '','') (fs ! 0), ke_type = fs ! 1, ke_key = fs ! 2,
                    ke_comment = join_str '' '' (drop 3 fs), ke_notes = notes \<rparr>)"

text \<open>The lines from number \<open>i\<close> on, with the comments seen since the last entry, once there was one.\<close>

fun parse_known :: "nat \<Rightarrow> string list option \<Rightarrow> string list \<Rightarrow> goerr + known_file" where
  "parse_known i notes [] =
     Inr \<lparr> kf_header = [], kf_entries = [], kf_trailer = (case notes of None \<Rightarrow> [] | Some ns \<Rightarrow> ns) \<rparr>"
| "parse_known i notes (raw # raws) =
     (let line = trim_space raw in
      if line = [] then parse_known (i + 1) notes raws
      else if has_prefix line ''#'' then
        (case notes of
           Some ns \<Rightarrow> parse_known (i + 1) (Some (ns @ [line])) raws
         | None \<Rightarrow> rbind (parse_known (i + 1) None raws) (\<lambda>f. Inr (f\<lparr>kf_header := line # kf_header f\<rparr>)))
      else
        rbind (entry_of_line i raw (case notes of None \<Rightarrow> [] | Some ns \<Rightarrow> ns) (go_fields line)) (\<lambda>e.
          rbind (parse_known (i + 1) (Some []) raws) (\<lambda>f. Inr (f\<lparr>kf_entries := e # kf_entries f\<rparr>))))"

definition ParseKnown :: "string \<Rightarrow> goerr + known_file" where
  "ParseKnown data = parse_known 0 None (split_char (CHR 0x0A) data)"

definition entry_order :: "known_entry \<Rightarrow> string \<times> string \<times> string" where
  "entry_order e = (join_str '','' (ke_hosts e), ke_marker e, ke_type e)"

definition known_lines :: "known_file \<Rightarrow> string list" where
  "known_lines f =
     kf_header f @ concat (map (\<lambda>e. ke_notes e @ [entry_string e]) (sort_key entry_order (kf_entries f))) @ kf_trailer f"

definition RenderKnown :: "known_file \<Rightarrow> string" where
  "RenderKnown f = concat (map (\<lambda>l. l @ [CHR 0x0A]) (known_lines f))"

definition FindKeys :: "(string \<Rightarrow> string \<Rightarrow> string) \<Rightarrow> known_file \<Rightarrow> string \<Rightarrow> known_entry list" where
  "FindKeys mac f host = filter (\<lambda>e. IsHostKey e \<and> Matches mac e host) (kf_entries f)"

definition Revoked :: "(string \<Rightarrow> string \<Rightarrow> string) \<Rightarrow> known_file \<Rightarrow> string \<Rightarrow> known_entry \<Rightarrow> bool" where
  "Revoked mac f host key =
     list_ex (\<lambda>e. ke_marker e = MarkerRevoked \<and> ke_key e = ke_key key \<and> Matches mac e host) (kf_entries f)"

end
