(* ===== verification/KnownHostsChange.thy ===== *)
theory KnownHostsChange
  imports KnownHosts
begin

text \<open>
  Changing a known_hosts file in one pass: \<open>removeAll\<close>, \<open>Add\<close> and \<open>ReplaceAll\<close> of
  \<open>internal/hostkeys/hostkeys.go\<close>, and its \<open>Index\<close>. A host is known by its place in the list the
  caller gives, the first one where it is given twice.
\<close>

section \<open>Removing\<close>

fun index_of :: "'a \<Rightarrow> 'a list \<Rightarrow> nat option" where
  "index_of x [] = None"
| "index_of x (y # ys) = (if y = x then Some 0 else map_option Suc (index_of x ys))"

text \<open>The hosts in lower case, each once, in the order they were first given in.\<close>

definition hashed_hosts :: "string list \<Rightarrow> string list" where
  "hashed_hosts hosts = rev (remdups (rev (map to_lower hosts)))"

definition named_at :: "(string \<Rightarrow> string \<Rightarrow> string) \<Rightarrow> string list \<Rightarrow> string \<Rightarrow> nat option" where
  "named_at mac hosts pattern =
     (if has_prefix pattern ''!'' \<or> is_wild pattern then None
      else if has_prefix pattern hashPrefix then
        (case find (matchHashed mac pattern) (hashed_hosts hosts) of
           None \<Rightarrow> None | Some h \<Rightarrow> index_of h (map to_lower hosts))
      else index_of (to_lower pattern) (map to_lower hosts))"

text \<open>How many lines each host changed, and the notes of those that went with it.\<close>

record removal =
  rm_counts :: "nat list"
  rm_notes :: "string list list"

definition no_removal :: "nat \<Rightarrow> removal" where
  "no_removal n = \<lparr> rm_counts = replicate n 0, rm_notes = replicate n [] \<rparr>"

text \<open>The hosts a line names, in the order of its patterns, each once.\<close>

definition line_hits :: "(string \<Rightarrow> string \<Rightarrow> string) \<Rightarrow> string list \<Rightarrow> known_entry \<Rightarrow> nat list" where
  "line_hits mac hosts e = rev (remdups (rev (List.map_filter (named_at mac hosts) (ke_hosts e))))"

definition line_rest :: "(string \<Rightarrow> string \<Rightarrow> string) \<Rightarrow> string list \<Rightarrow> known_entry \<Rightarrow> string list" where
  "line_rest mac hosts e = filter (\<lambda>p. named_at mac hosts p = None) (ke_hosts e)"

definition bump :: "nat list \<Rightarrow> nat \<Rightarrow> nat list" where
  "bump counts i = counts[i := Suc (counts ! i)]"

definition remove_line ::
  "(string \<Rightarrow> string \<Rightarrow> string) \<Rightarrow> string list \<Rightarrow> known_entry \<Rightarrow> removal \<Rightarrow> known_entry option \<times> removal" where
  "remove_line mac hosts e r =
     (let hit = line_hits mac hosts e; rest = line_rest mac hosts e in
      if \<not> IsHostKey e \<or> hit = [] then (Some e, r)
      else
        let r = r\<lparr>rm_counts := foldl bump (rm_counts r) hit\<rparr>; at = Max (set hit) in
        if rest = [] then (None, r\<lparr>rm_notes := (rm_notes r)[at := rm_notes r ! at @ ke_notes e]\<rparr>)
        else (Some (e\<lparr>ke_hosts := rest\<rparr>), r))"

fun remove_lines ::
  "(string \<Rightarrow> string \<Rightarrow> string) \<Rightarrow> string list \<Rightarrow> known_entry list \<Rightarrow> removal \<Rightarrow> known_entry list \<times> removal" where
  "remove_lines mac hosts [] r = ([], r)"
| "remove_lines mac hosts (e # es) r =
     (case remove_line mac hosts e r of (kept, r') \<Rightarrow>
       (case remove_lines mac hosts es r' of (es', r'') \<Rightarrow>
         ((case kept of None \<Rightarrow> es' | Some e' \<Rightarrow> e' # es'), r'')))"

definition remove_all :: "(string \<Rightarrow> string \<Rightarrow> string) \<Rightarrow> string list \<Rightarrow> known_file \<Rightarrow> known_file \<times> removal" where
  "remove_all mac hosts f =
     (case remove_lines mac hosts (kf_entries f) (no_removal (length hosts)) of
        (es, r) \<Rightarrow> (f\<lparr>kf_entries := es\<rparr>, r))"

definition RemoveAll :: "(string \<Rightarrow> string \<Rightarrow> string) \<Rightarrow> string list \<Rightarrow> known_file \<Rightarrow> known_file \<times> nat list" where
  "RemoveAll mac hosts f = (case remove_all mac hosts f of (f', r) \<Rightarrow> (f', rm_counts r))"

definition RemoveHost :: "(string \<Rightarrow> string \<Rightarrow> string) \<Rightarrow> string \<Rightarrow> known_file \<Rightarrow> known_file \<times> nat" where
  "RemoveHost mac host f = (case RemoveAll mac [host] f of (f', counts) \<Rightarrow> (f', counts ! 0))"

section \<open>Adding and replacing\<close>

definition takes_place :: "(string \<Rightarrow> string \<Rightarrow> string) \<Rightarrow> known_entry \<Rightarrow> known_entry \<Rightarrow> bool" where
  "takes_place mac e existing \<longleftrightarrow>
     IsHostKey existing \<and> ke_type existing = ke_type e \<and> length (ke_hosts existing) = 1 \<and> ke_hosts e \<noteq> [] \<and>
     names_host mac (hd (ke_hosts existing)) (hd (ke_hosts e))"

definition keep_notes :: "known_entry \<Rightarrow> known_entry \<Rightarrow> known_entry" where
  "keep_notes e existing = (if ke_notes e = [] then e\<lparr>ke_notes := ke_notes existing\<rparr> else e)"

fun add_entry :: "(string \<Rightarrow> string \<Rightarrow> string) \<Rightarrow> known_entry \<Rightarrow> known_entry list \<Rightarrow> known_entry list" where
  "add_entry mac e [] = [e]"
| "add_entry mac e (x # xs) =
     (if takes_place mac e x then keep_notes e x # xs else x # add_entry mac e xs)"

definition AddKey :: "(string \<Rightarrow> string \<Rightarrow> string) \<Rightarrow> known_entry \<Rightarrow> known_file \<Rightarrow> known_file" where
  "AddKey mac e f = f\<lparr>kf_entries := add_entry mac e (kf_entries f)\<rparr>"

text \<open>The last place of each host, and the notes of an earlier place put before those of the last.\<close>

definition last_at :: "string list \<Rightarrow> string \<Rightarrow> nat option" where
  "last_at hosts x = (case index_of x (rev (map to_lower hosts)) of None \<Rightarrow> None | Some i \<Rightarrow> Some (length hosts - Suc i))"

definition last_place :: "string list \<Rightarrow> nat \<Rightarrow> nat" where
  "last_place hosts i = (case last_at hosts (to_lower (hosts ! i)) of None \<Rightarrow> i | Some j \<Rightarrow> j)"

definition move_notes :: "string list \<Rightarrow> string list list \<Rightarrow> string list list" where
  "move_notes hosts notes =
     foldl (\<lambda>ns i. let j = last_place hosts i in if j = i then ns else ns[j := ns ! i @ ns ! j]) notes [0..<length hosts]"

text \<open>The entries while keys are added, and where a key of a listed host was put.\<close>

type_synonym adding = "known_entry list \<times> (string \<times> string \<Rightarrow> nat option)"

definition replace_key ::
  "(string \<Rightarrow> string \<Rightarrow> string) \<Rightarrow> string list \<Rightarrow> string list \<Rightarrow> nat \<Rightarrow> known_entry \<Rightarrow> adding \<Rightarrow> adding" where
  "replace_key mac hosts notes j e st =
     (case st of (es, added) \<Rightarrow>
       let e = (if j = 0 \<and> ke_notes e = [] then e\<lparr>ke_notes := notes\<rparr> else e) in
       if ke_hosts e = [] then (es @ [e], added)
       else
         let name = to_lower (hd (ke_hosts e)); key = (name, ke_type e) in
         if last_at hosts name = None then (add_entry mac e es, added)
         else case added key of
           Some k \<Rightarrow> (es[k := keep_notes e (es ! k)], added)
         | None \<Rightarrow> (es @ [e], added(key \<mapsto> length es)))"

definition replace_host ::
  "(string \<Rightarrow> string \<Rightarrow> string) \<Rightarrow> string list \<Rightarrow> string list list \<Rightarrow> (string \<Rightarrow> known_entry list) \<Rightarrow> nat \<Rightarrow> adding \<Rightarrow> adding" where
  "replace_host mac hosts notes keys i st =
     (if last_place hosts i \<noteq> i then st
      else foldl (\<lambda>st (j, e). replace_key mac hosts (notes ! i) j e st) st (enumerate 0 (keys (hosts ! i))))"

definition ReplaceAll ::
  "(string \<Rightarrow> string \<Rightarrow> string) \<Rightarrow> string list \<Rightarrow> (string \<Rightarrow> known_entry list) \<Rightarrow> known_file \<Rightarrow> known_file" where
  "ReplaceAll mac hosts keys f =
     (case remove_all mac hosts f of (f', r) \<Rightarrow>
       f'\<lparr>kf_entries := fst (foldl (\<lambda>st i. replace_host mac hosts (move_notes hosts (rm_notes r)) keys i st)
          (kf_entries f', \<lambda>_. None) [0..<length hosts])\<rparr>)"

definition ReplaceHost ::
  "(string \<Rightarrow> string \<Rightarrow> string) \<Rightarrow> string \<Rightarrow> known_entry list \<Rightarrow> known_file \<Rightarrow> known_file" where
  "ReplaceHost mac host entries f = ReplaceAll mac [host] (\<lambda>_. entries) f"

text \<open>A file that is not there is empty; a change is made to what the file holds and written back.\<close>

definition LoadKnown :: "goerr + string option \<Rightarrow> goerr + known_file" where
  "LoadKnown read =
     (case read of Inl e \<Rightarrow> Inl e
      | Inr None \<Rightarrow> Inr \<lparr> kf_header = [], kf_entries = [], kf_trailer = [] \<rparr>
      | Inr (Some d) \<Rightarrow> ParseKnown d)"

definition ModifyKnown :: "(known_file \<Rightarrow> goerr + known_file) \<Rightarrow> string \<Rightarrow> goerr + string" where
  "ModifyKnown change current = rbind (ParseKnown current) (\<lambda>f. rbind (change f) (\<lambda>f'. Inr (RenderKnown f')))"

section \<open>The index\<close>

record known_index =
  kx_entries :: "known_entry list"
  kx_literal :: "string \<Rightarrow> nat list"
  kx_other :: "nat list"

definition plain_pattern :: "string \<Rightarrow> bool" where
  "plain_pattern p \<longleftrightarrow> \<not> (has_prefix p ''!'' \<or> has_prefix p hashPrefix \<or> is_wild p)"

definition note_literal :: "nat \<Rightarrow> (string \<Rightarrow> nat list) \<Rightarrow> string \<Rightarrow> (string \<Rightarrow> nat list)" where
  "note_literal i m p =
     (if \<not> plain_pattern p then m
      else let name = to_lower p; seen = m name
        in if seen = [] \<or> last seen \<noteq> i then m(name := seen @ [i]) else m)"

fun index_entries :: "nat \<Rightarrow> known_entry list \<Rightarrow> (string \<Rightarrow> nat list) \<times> nat list \<Rightarrow> (string \<Rightarrow> nat list) \<times> nat list" where
  "index_entries i [] m = m"
| "index_entries i (e # es) (m, other) =
     index_entries (Suc i) es
       (foldl (note_literal i) m (ke_hosts e), if list_all plain_pattern (ke_hosts e) then other else other @ [i])"

definition IndexOf :: "known_file \<Rightarrow> known_index" where
  "IndexOf f = (case index_entries 0 (kf_entries f) (\<lambda>_. [], []) of
     (m, other) \<Rightarrow> \<lparr> kx_entries = kf_entries f, kx_literal = m, kx_other = other \<rparr>)"

text \<open>Two ascending lists as one, what is in both once.\<close>

fun merge_places :: "nat list \<Rightarrow> nat list \<Rightarrow> nat list" where
  "merge_places [] js = js"
| "merge_places ks [] = ks"
| "merge_places (i # ks) (j # js) =
     (if i < j then i # merge_places ks (j # js) else if j < i then j # merge_places (i # ks) js
      else i # merge_places ks js)"

definition candidates :: "known_index \<Rightarrow> string \<Rightarrow> nat list" where
  "candidates x host = merge_places (kx_literal x (to_lower host)) (kx_other x)"

definition index_find :: "(string \<Rightarrow> string \<Rightarrow> string) \<Rightarrow> known_index \<Rightarrow> string \<Rightarrow> known_entry list" where
  "index_find mac x host =
     filter (\<lambda>e. IsHostKey e \<and> Matches mac e host) (map (\<lambda>i. kx_entries x ! i) (candidates x host))"

definition index_revoked :: "(string \<Rightarrow> string \<Rightarrow> string) \<Rightarrow> known_index \<Rightarrow> string \<Rightarrow> known_entry \<Rightarrow> bool" where
  "index_revoked mac x host key =
     list_ex (\<lambda>i. let e = kx_entries x ! i in ke_marker e = MarkerRevoked \<and> ke_key e = ke_key key \<and> Matches mac e host)
       (candidates x host)"

end
