(* ===== verification/KnownHostsProps.thy ===== *)
theory KnownHostsProps
  imports KnownHostsChange
begin

text \<open>
  What the known_hosts operations are for: a pattern matches what its wildcards allow, the index
  answers as the file does, removing many hosts in one pass is removing one after another, and it
  touches nothing but the keys of those hosts.
\<close>

section \<open>Wildcards\<close>

inductive glob :: "string \<Rightarrow> string \<Rightarrow> bool" where
  glob_end: "glob [] []"
| glob_any: "glob p t \<Longrightarrow> glob (CHR ''*'' # p) (u @ t)"
| glob_one: "glob p t \<Longrightarrow> glob (CHR ''?'' # p) (c # t)"
| glob_char: "c \<noteq> CHR ''*'' \<Longrightarrow> c \<noteq> CHR ''?'' \<Longrightarrow> glob p t \<Longrightarrow> glob (c # p) (c # t)"

inductive_cases glob_NilE: "glob [] s"
inductive_cases glob_ConsE: "glob (c # p) s"

lemma known_glob_star: "glob (CHR ''*'' # p) s \<longleftrightarrow> (\<exists>i\<le>length s. glob p (drop i s))"
proof
  assume "glob (CHR ''*'' # p) s"
  then obtain u t where "s = u @ t" "glob p t" by (auto elim: glob_ConsE)
  then show "\<exists>i\<le>length s. glob p (drop i s)" by (intro exI [of _ "length u"]) simp
next
  assume "\<exists>i\<le>length s. glob p (drop i s)"
  then show "glob (CHR ''*'' # p) s" using glob_any by (metis append_take_drop_id)
qed

lemma glob_star_star: "glob (CHR ''*'' # CHR ''*'' # p) s \<longleftrightarrow> glob (CHR ''*'' # p) s"
proof
  assume "glob (CHR ''*'' # CHR ''*'' # p) s"
  then obtain i j where "i \<le> length s" "j \<le> length (drop i s)" "glob p (drop j (drop i s))"
    unfolding known_glob_star [of "CHR ''*'' # p"] known_glob_star [of p] by blast
  then show "glob (CHR ''*'' # p) s" unfolding known_glob_star by (intro exI [of _ "j + i"]) auto
next
  assume "glob (CHR ''*'' # p) s"
  then show "glob (CHR ''*'' # CHR ''*'' # p) s" using glob_any [of "CHR ''*'' # p" s "[]"] by simp
qed

lemma glob_stars: "glob (CHR ''*'' # p) s \<longleftrightarrow> glob (CHR ''*'' # dropWhile (\<lambda>d. d = CHR ''*'') p) s"
proof (induction p)
  case (Cons c p)
  have "c = CHR ''*'' \<Longrightarrow> dropWhile (\<lambda>d. d = CHR ''*'') (c # p) = dropWhile (\<lambda>d. d = CHR ''*'') p" by simp
  then show ?case using Cons.IH glob_star_star [of p s] by (cases "c = CHR ''*''") (metis, simp)
qed simp

text \<open>
  The pattern match of known_hosts names is the declarative one: a star is any run of
  characters, a question mark one character, and every other character itself.
\<close>
theorem matchWildcard_exact: "matchWildcard p s \<longleftrightarrow> glob p s"
proof (induction p s rule: matchWildcard.induct)
  case (1 s)
  show ?case by (auto intro: glob_end elim: glob_NilE)
next
  case (2 c p s)
  show ?case
  proof (cases "c = CHR ''*''")
    case True
    let ?p = "dropWhile (\<lambda>d. d = CHR ''*'') p"
    have "?p = [] \<Longrightarrow> glob (CHR ''*'' # ?p) s"
      using glob_any [OF glob_end, of s] by (simp only: append_Nil2)
    moreover have "list_ex (\<lambda>i. matchWildcard ?p (drop i s)) [0..<Suc (length s)] \<longleftrightarrow> glob (CHR ''*'' # ?p) s"
      unfolding known_glob_star list_ex_iff using "2.IH"(1) [OF True refl] by (auto simp: less_Suc_eq_le simp del: upt_Suc)
    moreover have "matchWildcard (c # p) s \<longleftrightarrow> ?p = [] \<or> list_ex (\<lambda>i. matchWildcard ?p (drop i s)) [0..<Suc (length s)]"
      by (simp only: matchWildcard.simps True refl if_True Let_def)
    moreover have "glob (c # p) s \<longleftrightarrow> glob (CHR ''*'' # ?p) s" unfolding True by (rule glob_stars)
    ultimately show ?thesis by blast
  next
    case False
    then show ?thesis using "2.IH"(2)
      by (cases s) (auto intro: glob_one glob_char elim: glob_ConsE)
  qed
qed

lemma match_literal: "\<not> is_wild p \<Longrightarrow> matchWildcard p s \<longleftrightarrow> p = s"
  by (induction p arbitrary: s) (auto simp: is_wild_def split: list.splits)

lemma lower_char_eq: "\<not> is_lower d \<Longrightarrow> \<not> is_upper d \<Longrightarrow> lower_char c = d \<longleftrightarrow> c = d"
  using lower_char_image lower_char_fixed by metis

lemma wild_lower: "is_wild (to_lower p) \<longleftrightarrow> is_wild p"
proof -
  have "d \<in> set (to_lower p) \<longleftrightarrow> d \<in> set p" if "d = CHR ''*'' \<or> d = CHR ''?''" for d
  proof -
    have "\<not> is_lower d" "\<not> is_upper d" using that by (auto simp: char_class_defs)
    then have "lower_char x = d \<longleftrightarrow> x = d" for x by (rule lower_char_eq)
    then show ?thesis unfolding to_lower_def set_map image_iff by metis
  qed
  then show ?thesis by (simp add: is_wild_def)
qed

section \<open>The index\<close>

lemma filter_places:
  assumes "sorted_wrt (<) ks" and "set ks \<subseteq> {..<length xs}" and "\<And>i. i < length xs \<Longrightarrow> P (xs ! i) \<Longrightarrow> i \<in> set ks"
  shows "filter P (map (\<lambda>i. xs ! i) ks) = filter P xs"
proof -
  have "filter (\<lambda>i. P (xs ! i)) ks = filter (\<lambda>i. P (xs ! i)) [0..<length xs]"
  proof (rule sorted_distinct_set_unique)
    show "sorted (filter (\<lambda>i. P (xs ! i)) ks)" "distinct (filter (\<lambda>i. P (xs ! i)) ks)"
      using assms(1) by (simp_all add: sorted_wrt_filter strict_sorted_imp_sorted strict_sorted_iff)
    show "sorted (filter (\<lambda>i. P (xs ! i)) [0..<length xs])" by (rule sorted_wrt_filter) simp
  qed (use assms in auto)
  moreover have "filter P xs = map (\<lambda>i. xs ! i) (filter (\<lambda>i. P (xs ! i)) [0..<length xs])"
    by (subst (1) map_nth [of xs, symmetric]) (simp only: filter_map o_def)
  ultimately show ?thesis by (simp add: filter_map o_def)
qed

lemma merge_places_set: "set (merge_places xs ys) = set xs \<union> set ys"
  by (induction xs ys rule: merge_places.induct) auto

lemma merge_places_sorted:
  "sorted_wrt (<) xs \<Longrightarrow> sorted_wrt (<) ys \<Longrightarrow> sorted_wrt (<) (merge_places xs ys)"
  by (induction xs ys rule: merge_places.induct) (auto simp: merge_places_set)

definition named_plainly :: "string \<Rightarrow> known_entry \<Rightarrow> bool" where
  "named_plainly x e \<longleftrightarrow> (\<exists>p\<in>set (ke_hosts e). plain_pattern p \<and> to_lower p = x)"

lemma note_literals:
  "foldl (note_literal i) m ps x =
     (if (\<exists>p\<in>set ps. plain_pattern p \<and> to_lower p = x) \<and> (m x = [] \<or> last (m x) \<noteq> i) then m x @ [i] else m x)"
  by (induction ps arbitrary: m) (auto simp: note_literal_def Let_def)

lemma index_entries_places:
  assumes "index_entries i es (m, other) = (m', other')" and "\<And>x. \<forall>k\<in>set (m x). k < i"
  shows "m' x = m x @ filter (\<lambda>k. named_plainly x (es ! (k - i))) [i..<i + length es] \<and>
    other' = other @ filter (\<lambda>k. \<not> list_all plain_pattern (ke_hosts (es ! (k - i)))) [i..<i + length es]"
  using assms
proof (induction es arbitrary: i m other)
  case (Cons e es)
  let ?m = "foldl (note_literal i) m (ke_hosts e)"
  let ?o = "if list_all plain_pattern (ke_hosts e) then other else other @ [i]"
  have m: "?m y = m y @ (if named_plainly y e then [i] else [])" for y
    using Cons.prems(2) [of y] by (auto simp: note_literals named_plainly_def dest: last_in_set)
  have "\<forall>k\<in>set (?m y). k < Suc i" for y using Cons.prems(2) [of y] by (auto simp: m less_SucI)
  moreover have "index_entries (Suc i) es (?m, ?o) = (m', other')" using Cons.prems(1) by simp
  ultimately have IH: "m' x = ?m x @ filter (\<lambda>k. named_plainly x (es ! (k - Suc i))) [Suc i..<Suc i + length es]"
    "other' = ?o @ filter (\<lambda>k. \<not> list_all plain_pattern (ke_hosts (es ! (k - Suc i)))) [Suc i..<Suc i + length es]"
    using Cons.IH by blast+
  have up: "[i..<i + length (e # es)] = i # [Suc i..<Suc i + length es]" by (simp add: upt_rec)
  have nth: "k \<in> set [Suc i..<Suc i + length es] \<Longrightarrow> (e # es) ! (k - i) = es ! (k - Suc i)" for k
  proof -
    assume "k \<in> set [Suc i..<Suc i + length es]"
    then have "k - i = Suc (k - Suc i)" by auto
    then show ?thesis by simp
  qed
  have fil: "filter (\<lambda>k. Q ((e # es) ! (k - i))) [Suc i..<Suc i + length es] =
      filter (\<lambda>k. Q (es ! (k - Suc i))) [Suc i..<Suc i + length es]" for Q
    by (rule filter_cong [OF refl]) (simp only: nth)
  show ?case unfolding up using IH m [of x] fil [of "named_plainly x"] fil [of "\<lambda>e. \<not> list_all plain_pattern (ke_hosts e)"]
    by (simp del: upt_Suc)
qed simp

lemma match_all_some: "match_all mac hit ps host \<Longrightarrow> hit \<or> (\<exists>p\<in>set ps. \<not> has_prefix p ''!'' \<and> matchPattern mac p host)"
  by (induction ps arbitrary: hit) (auto split: if_splits)

lemma Matches_candidate:
  assumes "Matches mac e host" and "list_all plain_pattern (ke_hosts e)"
  shows "named_plainly (to_lower host) e"
proof -
  obtain p where p: "p \<in> set (ke_hosts e)" "matchPattern mac p (to_lower host)"
    using assms(1) match_all_some unfolding Matches_def by blast
  then have "plain_pattern p" using assms(2) by (auto simp: list_all_iff)
  with p show ?thesis unfolding named_plainly_def
    by (auto simp: matchPattern_def plain_pattern_def match_literal wild_lower)
qed

lemma candidates_exact:
  fixes f :: known_file
  shows "sorted_wrt (<) (candidates (IndexOf f) host)"
    and "set (candidates (IndexOf f) host) \<subseteq> {..<length (kf_entries f)}"
    and "i < length (kf_entries f) \<Longrightarrow> Matches mac (kf_entries f ! i) host \<Longrightarrow> i \<in> set (candidates (IndexOf f) host)"
proof -
  let ?es = "kf_entries f"
  obtain m other where I: "index_entries 0 ?es (\<lambda>_. [], []) = (m, other)" by (rule prod.exhaust)
  have m: "m x = filter (\<lambda>k. named_plainly x (?es ! k)) [0..<length ?es]"
    and other: "other = filter (\<lambda>k. \<not> list_all plain_pattern (ke_hosts (?es ! k))) [0..<length ?es]" for x
    using index_entries_places [OF I, of x] by simp_all
  have c: "candidates (IndexOf f) host = merge_places (m (to_lower host)) other"
    by (simp add: candidates_def IndexOf_def I)
  show "sorted_wrt (<) (candidates (IndexOf f) host)"
    unfolding c m other by (intro merge_places_sorted sorted_wrt_filter) simp_all
  show "set (candidates (IndexOf f) host) \<subseteq> {..<length ?es}" by (auto simp: c m other merge_places_set)
  show "i < length ?es \<Longrightarrow> Matches mac (?es ! i) host \<Longrightarrow> i \<in> set (candidates (IndexOf f) host)"
    using Matches_candidate [of mac "?es ! i" host] by (auto simp: c m other merge_places_set)
qed

text \<open>
  C29. The index answers as the file does: the same keys in the same order, and the same revocations.
\<close>
theorem index_answers_as_file:
  "index_find mac (IndexOf f) host = FindKeys mac f host \<and> index_revoked mac (IndexOf f) host key = Revoked mac f host key"
proof -
  have es: "kx_entries (IndexOf f) = kf_entries f" by (simp add: IndexOf_def split: prod.splits)
  note places = candidates_exact(1,2) [where f = f and host = host]
  have ex: "(\<exists>i\<in>set (candidates (IndexOf f) host). Q (kf_entries f ! i)) \<longleftrightarrow> (\<exists>e\<in>set (kf_entries f). Q e)"
    if "\<And>e. Q e \<Longrightarrow> Matches mac e host" for Q
  proof
    assume "\<exists>e\<in>set (kf_entries f). Q e"
    then obtain i where "i < length (kf_entries f)" "Q (kf_entries f ! i)" by (auto simp: in_set_conv_nth)
    then show "\<exists>i\<in>set (candidates (IndexOf f) host). Q (kf_entries f ! i)"
      using that candidates_exact(3) by blast
  qed (use places(2) nth_mem in blast)
  have "index_find mac (IndexOf f) host = FindKeys mac f host"
    unfolding index_find_def FindKeys_def es
    by (rule filter_places [OF places]) (use candidates_exact(3) in blast)
  moreover have "index_revoked mac (IndexOf f) host key = Revoked mac f host key"
    unfolding index_revoked_def Revoked_def es list_ex_iff Let_def by (rule ex) simp
  ultimately show ?thesis by simp
qed

end
