(* ===== verification/KnownHostsRemoval.thy ===== *)
theory KnownHostsRemoval
  imports KnownHostsProps
begin

text \<open>
  Removing keys: one pass over the file for many hosts is one pass for each of them, and exactly
  the keys of those hosts go.
\<close>

section \<open>One host after another\<close>

lemma index_of_Some: "index_of x xs = Some i \<Longrightarrow> i < length xs \<and> xs ! i = x"
  by (induction xs arbitrary: i) (auto split: if_splits)

lemma index_of_None: "index_of x xs = None \<longleftrightarrow> x \<notin> set xs"
  by (induction xs) auto

lemma remdups_snoc: "remdups (xs @ [x]) = filter (\<lambda>y. y \<noteq> x) (remdups xs) @ [x]"
  by (induction xs) auto

lemma find_remdups_rev: "find P (rev (remdups (rev xs))) = find P xs"
proof (induction xs)
  case (Cons x xs)
  have "find P (filter (\<lambda>y. y \<noteq> x) ys) = find P ys" if "\<not> P x" for ys
    using that by (induction ys) auto
  with Cons show ?case by (simp add: remdups_snoc rev_filter)
qed simp

lemma named_at_simp:
  "named_at mac hosts p =
     (if has_prefix p ''!'' \<or> is_wild p then None
      else if has_prefix p hashPrefix then
        (case find (matchHashed mac p) (map to_lower hosts) of None \<Rightarrow> None | Some h \<Rightarrow> index_of h (map to_lower hosts))
      else index_of (to_lower p) (map to_lower hosts))"
  by (simp add: named_at_def hashed_hosts_def find_remdups_rev)

lemma named_at_Cons:
  "named_at mac (h # hs) p = (if named_at mac [h] p \<noteq> None then Some 0 else map_option Suc (named_at mac hs p))"
proof (cases "matchHashed mac p (to_lower h)")
  case True
  then show ?thesis by (auto simp: named_at_simp)
next
  case False
  then have "find (matchHashed mac p) (map to_lower hs) = Some x \<Longrightarrow> to_lower h \<noteq> x" for x
    by (auto simp: find_Some_iff)
  with False show ?thesis by (auto simp: named_at_simp split: option.splits)
qed

lemma named_at_lt: "named_at mac hosts p = Some i \<Longrightarrow> i < length hosts"
  using index_of_Some by (fastforce simp: named_at_simp split: if_splits option.splits)

lemma named_at_single: "named_at mac [h] p = None \<or> named_at mac [h] p = Some 0"
  using named_at_lt [of mac "[h]" p] by (cases "named_at mac [h] p") auto

text \<open>The hosts a line names, and what is left of it, when the first host is taken out first.\<close>

lemma set_line_hits: "i \<in> set (line_hits mac hosts e) \<longleftrightarrow> (\<exists>p\<in>set (ke_hosts e). named_at mac hosts p = Some i)"
  by (force simp: line_hits_def List.map_filter_def)

lemma line_rest_Cons: "line_rest mac (h # hs) e = line_rest mac hs (e\<lparr>ke_hosts := line_rest mac [h] e\<rparr>)"
  by (auto simp: line_rest_def named_at_Cons [of mac h hs] conj_commute intro: filter_cong)

lemma line_hits_Cons:
  "set (line_hits mac (h # hs) e) =
     (if line_rest mac [h] e = ke_hosts e then {} else {0}) \<union>
     Suc ` set (line_hits mac hs (e\<lparr>ke_hosts := line_rest mac [h] e\<rparr>))"
proof (rule set_eqI)
  have all: "line_rest mac [h] e = ke_hosts e \<longleftrightarrow> (\<forall>p\<in>set (ke_hosts e). named_at mac [h] p = None)"
    by (simp add: line_rest_def filter_id_conv)
  have rest: "p \<in> set (line_rest mac [h] e) \<longleftrightarrow> p \<in> set (ke_hosts e) \<and> named_at mac [h] p = None" for p
    by (simp add: line_rest_def)
  fix i
  show "i \<in> set (line_hits mac (h # hs) e) \<longleftrightarrow> i \<in> (if line_rest mac [h] e = ke_hosts e then {} else {0}) \<union>
      Suc ` set (line_hits mac hs (e\<lparr>ke_hosts := line_rest mac [h] e\<rparr>))"
  proof (cases i)
    case 0
    then show ?thesis by (auto simp: all set_line_hits rest named_at_Cons [of mac h hs])
  next
    case (Suc n)
    have suc: "Suc n \<in> (if line_rest mac [h] e = ke_hosts e then {} else {0}) \<union> Suc ` A \<longleftrightarrow> n \<in> A" for A by auto
    have "n \<in> set (line_hits mac hs (e\<lparr>ke_hosts := line_rest mac [h] e\<rparr>)) \<longleftrightarrow>
        (\<exists>p\<in>set (ke_hosts e). named_at mac [h] p = None \<and> named_at mac hs p = Some n)"
      unfolding set_line_hits by (simp add: line_rest_def) blast
    moreover have "named_at mac (h # hs) p = Some (Suc n) \<longleftrightarrow> named_at mac [h] p = None \<and> named_at mac hs p = Some n" for p
      unfolding named_at_Cons [of mac h hs] by simp
    ultimately show ?thesis unfolding Suc suc set_line_hits [of _ mac "h # hs"] by blast
  qed
qed

lemma line_hits_none: "line_hits mac [] e = []"
proof -
  have "named_at mac [] p = None" for p by (simp add: named_at_simp)
  then show ?thesis using set_line_hits [of _ mac "[]" e] by (cases "line_hits mac [] e") force+
qed

lemma line_hits_single: "line_hits mac [h] e = (if line_rest mac [h] e = ke_hosts e then [] else [0])"
proof -
  have "set (line_hits mac [h] e) = (if line_rest mac [h] e = ke_hosts e then {} else {0})"
    using line_hits_Cons [of mac h "[]" e] by (simp add: line_hits_none)
  moreover have "distinct (line_hits mac [h] e)" by (simp add: line_hits_def)
  ultimately show ?thesis by (cases "line_hits mac [h] e" rule: remdups_adj.cases) (auto split: if_splits)
qed

text \<open>How often each host is counted depends only on which hosts the lines name.\<close>

lemma bumps: "distinct is \<Longrightarrow> i < length cs \<Longrightarrow> foldl bump cs is ! i = (if i \<in> set is then Suc (cs ! i) else cs ! i)"
  by (induction "is" arbitrary: cs) (auto simp: bump_def nth_list_update intro!: nth_list_update_neq)

lemma bumps_length: "length (foldl bump cs is) = length cs"
  by (induction "is" arbitrary: cs) (auto simp: bump_def)

lemma bumps_Cons:
  assumes "distinct is" "distinct js" and "set is = (if b then {0} else {}) \<union> Suc ` set js"
  shows "foldl bump (c # cs) is = (if b then Suc c else c) # foldl bump cs js"
proof (rule nth_equalityI)
  fix i assume "i < length (foldl bump (c # cs) is)"
  then have i: "i < Suc (length cs)" by (simp add: bumps_length)
  then show "foldl bump (c # cs) is ! i = ((if b then Suc c else c) # foldl bump cs js) ! i"
    using bumps [OF assms(1), of i "c # cs"] bumps [OF assms(2), of "i - 1" cs] assms(3)
    by (cases i) (auto simp: bumps_length)
qed (simp add: bumps_length)

lemma distinct_line_hits: "distinct (line_hits mac hosts e)"
  by (simp add: line_hits_def)

lemma Max_Suc: "finite A \<Longrightarrow> A \<noteq> {} \<Longrightarrow> Max (B \<union> Suc ` A) = Suc (Max A)" if "B \<subseteq> {0}" for A B
proof (rule Max_eqI)
  assume "finite A" "A \<noteq> {}"
  then show "finite (B \<union> Suc ` A)" "Suc (Max A) \<in> B \<union> Suc ` A" using that finite_subset [OF that] by auto
  show "y \<in> B \<union> Suc ` A \<Longrightarrow> y \<le> Suc (Max A)" for y using \<open>finite A\<close> that by auto
qed

text \<open>One line: taking out the first host and then the others is taking out all of them.\<close>

lemma remove_line_Cons:
  assumes "length cs = length hs" "length ns = length hs"
  shows "remove_line mac (h # hs) e \<lparr> rm_counts = c # cs, rm_notes = n # ns \<rparr> =
    (case remove_line mac [h] e \<lparr> rm_counts = [c], rm_notes = [n] \<rparr> of
       (None, r1) \<Rightarrow> (None, \<lparr> rm_counts = rm_counts r1 @ cs, rm_notes = rm_notes r1 @ ns \<rparr>)
     | (Some e1, r1) \<Rightarrow>
         (case remove_line mac hs e1 \<lparr> rm_counts = cs, rm_notes = ns \<rparr> of (k, r2) \<Rightarrow>
           (k, \<lparr> rm_counts = rm_counts r1 @ rm_counts r2, rm_notes = rm_notes r1 @ rm_notes r2 \<rparr>)))"
proof (cases "IsHostKey e")
  case False
  then show ?thesis by (simp add: remove_line_def)
next
  case True
  let ?r1 = "line_rest mac [h] e"
  let ?e1 = "e\<lparr>ke_hosts := ?r1\<rparr>"
  let ?js = "line_hits mac hs ?e1"
  let ?b = "?r1 \<noteq> ke_hosts e"
  have hits: "set (line_hits mac (h # hs) e) = (if ?b then {0} else {}) \<union> Suc ` set ?js"
    using line_hits_Cons [of mac h hs e] by auto
  have counts: "foldl bump (c # cs) (line_hits mac (h # hs) e) = (if ?b then Suc c else c) # foldl bump cs ?js"
    by (rule bumps_Cons [OF distinct_line_hits distinct_line_hits hits])
  have none: "line_hits mac (h # hs) e = [] \<longleftrightarrow> \<not> ?b \<and> ?js = []" using hits by (auto simp flip: set_empty split: if_splits)
  have rest: "line_rest mac (h # hs) e = line_rest mac hs ?e1" by (rule line_rest_Cons)
  have key: "IsHostKey ?e1" using True by (simp add: IsHostKey_def)
  have at: "?js \<noteq> [] \<Longrightarrow> Max (set (line_hits mac (h # hs) e)) = Suc (Max (set ?js))"
    unfolding hits by (intro Max_Suc) auto
  have gone: "?r1 = [] \<Longrightarrow> ?js = [] \<and> line_rest mac hs ?e1 = []" by (simp add: line_hits_def line_rest_def List.map_filter_def)
  have same: "\<not> ?b \<Longrightarrow> ?e1 = e" by simp
  show ?thesis
  proof (cases "?js = []")
    case True
    then have all: "line_rest mac hs ?e1 = ?r1"
      using set_line_hits [of _ mac hs ?e1] by (auto simp: line_rest_def [of mac hs] filter_id_conv) (metis option.exhaust)
    show ?thesis
    proof (cases ?b)
      case True
      have "set (line_hits mac (h # hs) e) = {0}" using hits True \<open>?js = []\<close> by simp
      with True \<open>?js = []\<close> all \<open>IsHostKey e\<close> key none counts rest show ?thesis
        by (auto simp: remove_line_def [of mac "h # hs"] remove_line_def [of mac "[h]"] remove_line_def [of mac hs]
            line_hits_single Let_def bump_def)
    next
      case False
      then have "line_hits mac (h # hs) e = []" "line_hits mac hs e = []" "line_hits mac [h] e = []"
        using same none \<open>?js = []\<close> by (simp_all add: line_hits_single)
      then show ?thesis by (simp add: remove_line_def)
    qed
  next
    case False
    with gone have "?r1 \<noteq> []" by blast
    with False \<open>IsHostKey e\<close> key none counts rest at same assms show ?thesis
      by (cases ?b) (auto simp: remove_line_def [of mac "h # hs"] remove_line_def [of mac "[h]"] remove_line_def [of mac hs]
          line_hits_single Let_def bump_def)
  qed
qed

lemma remove_line_sizes:
  "length (rm_counts (snd (remove_line mac hosts e r))) = length (rm_counts r) \<and>
   length (rm_notes (snd (remove_line mac hosts e r))) = length (rm_notes r)"
  by (simp add: remove_line_def bumps_length Let_def)

lemma remove_lines_sizes:
  "remove_lines mac hosts es r = (es', r') \<Longrightarrow>
     length (rm_counts r') = length (rm_counts r) \<and> length (rm_notes r') = length (rm_notes r)"
proof (induction es arbitrary: r es' r')
  case (Cons e es)
  then show ?case using remove_line_sizes [of mac hosts e r] by (fastforce split: prod.splits)
qed simp

lemma remove_lines_Cons:
  assumes "length cs = length hs" "length ns = length hs"
  shows "remove_lines mac (h # hs) es \<lparr> rm_counts = c # cs, rm_notes = n # ns \<rparr> =
    (case remove_lines mac [h] es \<lparr> rm_counts = [c], rm_notes = [n] \<rparr> of (es1, r1) \<Rightarrow>
      (case remove_lines mac hs es1 \<lparr> rm_counts = cs, rm_notes = ns \<rparr> of (es2, r2) \<Rightarrow>
        (es2, \<lparr> rm_counts = rm_counts r1 @ rm_counts r2, rm_notes = rm_notes r1 @ rm_notes r2 \<rparr>)))"
  using assms
proof (induction es arbitrary: c cs n ns)
  case (Cons e es)
  obtain k r1 where R1: "remove_line mac [h] e \<lparr> rm_counts = [c], rm_notes = [n] \<rparr> = (k, r1)" by (rule prod.exhaust)
  have "length (rm_counts r1) = 1" "length (rm_notes r1) = 1"
    using remove_line_sizes [of mac "[h]" e "\<lparr> rm_counts = [c], rm_notes = [n] \<rparr>"] R1 by simp_all
  then obtain c' n' where r1: "r1 = \<lparr> rm_counts = [c'], rm_notes = [n'] \<rparr>"
    by (cases r1) (auto simp: length_Suc_conv)
  show ?case
  proof (cases k)
    case None
    then show ?thesis using R1 r1 Cons.IH [of cs ns c' n'] Cons.prems
      by (simp add: remove_line_Cons [where hs = hs and h = h] split: prod.splits)
  next
    case (Some e1)
    obtain k2 c2 n2 where R2: "remove_line mac hs e1 \<lparr> rm_counts = cs, rm_notes = ns \<rparr> = (k2, \<lparr> rm_counts = c2, rm_notes = n2 \<rparr>)"
      by (metis prod.exhaust removal.cases)
    have "length c2 = length hs" "length n2 = length hs"
      using remove_line_sizes [of mac hs e1 "\<lparr> rm_counts = cs, rm_notes = ns \<rparr>"] R2 Cons.prems by simp_all
    then show ?thesis using Some R1 R2 r1 Cons.IH [of c2 n2 c' n'] Cons.prems
      by (simp add: remove_line_Cons [where hs = hs and h = h] split: prod.splits)
  qed
qed simp

text \<open>The reference: a pass for each host.\<close>

fun remove_each :: "(string \<Rightarrow> string \<Rightarrow> string) \<Rightarrow> string list \<Rightarrow> known_file \<Rightarrow> known_file \<times> removal" where
  "remove_each mac [] f = (f, \<lparr> rm_counts = [], rm_notes = [] \<rparr>)"
| "remove_each mac (h # hs) f =
     (case remove_all mac [h] f of (f1, r1) \<Rightarrow>
       (case remove_each mac hs f1 of (f2, r2) \<Rightarrow>
         (f2, \<lparr> rm_counts = rm_counts r1 @ rm_counts r2, rm_notes = rm_notes r1 @ rm_notes r2 \<rparr>)))"

lemma remove_lines_none: "remove_lines mac [] es r = (es, r)"
  by (induction es) (auto simp: remove_line_def line_hits_none)

text \<open>
  Removing the keys of many hosts in one pass over the file is removing them one host after
  another: the same lines are left, as many went for each host, and the notes of the lines that
  went are those of the same host.
\<close>
theorem remove_all_is_one_by_one: "remove_all mac hosts f = remove_each mac hosts f"
proof (induction hosts arbitrary: f)
  case Nil
  show ?case by (simp add: remove_all_def remove_lines_none no_removal_def)
next
  case (Cons h hs)
  have r: "no_removal (length (h # hs)) = \<lparr> rm_counts = 0 # rm_counts (no_removal (length hs)), rm_notes = [] # rm_notes (no_removal (length hs)) \<rparr>"
    "no_removal (length [h]) = \<lparr> rm_counts = [0], rm_notes = [[]] \<rparr>"
    by (simp_all add: no_removal_def)
  have "remove_all mac (h # hs) f = (case remove_all mac [h] f of (f1, r1) \<Rightarrow>
      (case remove_all mac hs f1 of (f2, r2) \<Rightarrow>
        (f2, \<lparr> rm_counts = rm_counts r1 @ rm_counts r2, rm_notes = rm_notes r1 @ rm_notes r2 \<rparr>)))"
    unfolding remove_all_def r by (subst remove_lines_Cons) (simp_all add: no_removal_def split: prod.splits)
  then show ?case by (simp add: Cons.IH)
qed

section \<open>Exactly the keys of the hosts go\<close>

lemma named_at_iff: "named_at mac hosts p = None \<longleftrightarrow> (\<forall>h\<in>set hosts. \<not> names_host mac p h)"
proof -
  have "matchPattern mac p (to_lower h) \<longleftrightarrow> to_lower p = to_lower h" if "\<not> is_wild p" "\<not> has_prefix p hashPrefix" for h
    using that by (simp add: matchPattern_def match_literal wild_lower)
  then show ?thesis
    by (auto simp: named_at_simp names_host_def matchPattern_def find_None_iff index_of_None find_Some_iff split: option.splits)
qed

lemma match_all_rest:
  assumes "\<forall>p\<in>set ps. \<forall>h\<in>set hosts. names_host mac p h \<longrightarrow> \<not> matchPattern mac p x"
  shows "match_all mac hit (filter (\<lambda>p. named_at mac hosts p = None) ps) x = match_all mac hit ps x"
  using assms
proof (induction ps arbitrary: hit)
  case (Cons p ps)
  then have IH: "match_all mac b (filter (\<lambda>p. named_at mac hosts p = None) ps) x = match_all mac b ps x" for b by simp
  show ?case
  proof (cases "named_at mac hosts p = None")
    case False
    then obtain h where "h \<in> set hosts" "names_host mac p h" by (auto simp: named_at_iff)
    with Cons.prems have "\<not> has_prefix p ''!''" "\<not> matchPattern mac p x" by (auto simp: names_host_def)
    with False IH show ?thesis by simp
  qed (simp add: IH)
qed simp

text \<open>One line, and then the file.\<close>

definition key_of :: "known_entry \<Rightarrow> string \<times> string" where
  "key_of e = (ke_type e, ke_key e)"

lemma remove_line_exact:
  assumes "remove_line mac hosts e r = (k, r')"
  shows "\<not> IsHostKey e \<Longrightarrow> k = Some e"
    and "IsHostKey e \<Longrightarrow> k = Some e' \<Longrightarrow> IsHostKey e' \<and> key_of e' = key_of e \<and> ke_hosts e' = line_rest mac hosts e"
    and "IsHostKey e \<Longrightarrow> k = None \<Longrightarrow> line_rest mac hosts e = []"
proof -
  have "line_hits mac hosts e = [] \<Longrightarrow> line_rest mac hosts e = ke_hosts e"
    using set_line_hits [of _ mac hosts e] by (auto simp: line_rest_def filter_id_conv) (metis option.exhaust)
  then show "\<not> IsHostKey e \<Longrightarrow> k = Some e"
    and "IsHostKey e \<Longrightarrow> k = Some e' \<Longrightarrow> IsHostKey e' \<and> key_of e' = key_of e \<and> ke_hosts e' = line_rest mac hosts e"
    and "IsHostKey e \<Longrightarrow> k = None \<Longrightarrow> line_rest mac hosts e = []"
    using assms by (auto simp: remove_line_def Let_def IsHostKey_def key_of_def split: if_splits)
qed

lemma remove_lines_exact:
  "remove_lines mac hosts es r = (es', r') \<Longrightarrow>
    filter (\<lambda>e. \<not> IsHostKey e) es' = filter (\<lambda>e. \<not> IsHostKey e) es \<and>
    (\<forall>e\<in>set es'. IsHostKey e \<longrightarrow> (\<forall>p\<in>set (ke_hosts e). named_at mac hosts p = None)) \<and>
    ((\<forall>e\<in>set es. \<forall>p\<in>set (ke_hosts e). \<forall>h\<in>set hosts. names_host mac p h \<longrightarrow> \<not> matchPattern mac p (to_lower x)) \<longrightarrow>
      map key_of (filter (\<lambda>e. IsHostKey e \<and> Matches mac e x) es') = map key_of (filter (\<lambda>e. IsHostKey e \<and> Matches mac e x) es))"
proof (induction es arbitrary: r es' r')
  case (Cons e0 es)
  obtain k r1 where K: "remove_line mac hosts e0 r = (k, r1)" by (rule prod.exhaust)
  obtain es1 r2 where R: "remove_lines mac hosts es r1 = (es1, r2)" by (rule prod.exhaust)
  have es': "es' = (case k of None \<Rightarrow> es1 | Some e1 \<Rightarrow> e1 # es1)" using Cons.prems K R by simp
  note line = remove_line_exact [OF K]
  note IH = Cons.IH [OF R]
  have m: "match_all mac False (line_rest mac hosts e0) (to_lower x) = Matches mac e0 x"
    if "\<forall>p\<in>set (ke_hosts e0). \<forall>h\<in>set hosts. names_host mac p h \<longrightarrow> \<not> matchPattern mac p (to_lower x)"
    using match_all_rest [OF that, of False] by (simp add: line_rest_def Matches_def)
  show ?case
  proof (cases "IsHostKey e0")
    case False
    then show ?thesis using line(1) es' IH by simp
  next
    case True
    have rest: "\<forall>p\<in>set (line_rest mac hosts e0). named_at mac hosts p = None" by (simp add: line_rest_def)
    show ?thesis
    proof (cases k)
      case None
      then have "line_rest mac hosts e0 = []" by (rule line(3) [OF True])
      then show ?thesis using None True es' IH m by (auto simp: Matches_def)
    next
      case (Some e1)
      then have "IsHostKey e1" "key_of e1 = key_of e0" "ke_hosts e1 = line_rest mac hosts e0" using line(2) [OF True] by blast+
      then show ?thesis using Some True es' IH m rest by (auto simp: Matches_def)
    qed
  qed
qed simp

text \<open>
  C24. Removing keeps every revocation and certificate authority, leaves no host key that names one of
  the hosts, and changes the keys of no other host: one that no pattern naming a removed host
  matches has the same keys as before.
\<close>
theorem remove_all_exact:
  assumes "remove_all mac hosts f = (f', r)"
    and "\<forall>e\<in>set (kf_entries f). \<forall>p\<in>set (ke_hosts e). \<forall>h\<in>set hosts. names_host mac p h \<longrightarrow> \<not> matchPattern mac p (to_lower x)"
  shows "filter (\<lambda>e. \<not> IsHostKey e) (kf_entries f') = filter (\<lambda>e. \<not> IsHostKey e) (kf_entries f) \<and>
    (\<forall>e\<in>set (kf_entries f'). IsHostKey e \<longrightarrow> (\<forall>p\<in>set (ke_hosts e). \<forall>h\<in>set hosts. \<not> names_host mac p h)) \<and>
    map key_of (FindKeys mac f' x) = map key_of (FindKeys mac f x) \<and>
    kf_header f' = kf_header f \<and> kf_trailer f' = kf_trailer f"
proof -
  obtain es where R: "remove_lines mac hosts (kf_entries f) (no_removal (length hosts)) = (es, r)" and f': "f' = f\<lparr>kf_entries := es\<rparr>"
    using assms(1) by (auto simp: remove_all_def split: prod.splits)
  from remove_lines_exact [OF R, of x] assms(2) f' show ?thesis by (simp add: FindKeys_def named_at_iff)
qed

text \<open>A line of two hosts, a revocation, and a mac that is the host itself.\<close>

definition sample_known :: known_file where
  "sample_known = \<lparr> kf_header = [], kf_entries =
     [\<lparr> ke_marker = [], ke_hosts = [''n1'', ''n2''], ke_type = ''ssh-rsa'', ke_key = ''K1'', ke_comment = [], ke_notes = [] \<rparr>,
      \<lparr> ke_marker = MarkerRevoked, ke_hosts = [''*''], ke_type = ''ssh-rsa'', ke_key = ''K2'', ke_comment = [], ke_notes = [] \<rparr>], kf_trailer = [] \<rparr>"

theorem remove_all_exact_witness:
  "map key_of (FindKeys (\<lambda>s h. h) (fst (remove_all (\<lambda>s h. h) [''N1''] sample_known)) ''n2'') = [(''ssh-rsa'', ''K1'')]"
proof -
  obtain f' r where R: "remove_all (\<lambda>s h. h) [''N1''] sample_known = (f', r)" by (rule prod.exhaust)
  have "\<forall>e\<in>set (kf_entries sample_known). \<forall>p\<in>set (ke_hosts e). \<forall>h\<in>set [''N1''].
      names_host (\<lambda>s h. h) p h \<longrightarrow> \<not> matchPattern (\<lambda>s h. h) p (to_lower ''n2'')"
    by code_simp
  from remove_all_exact [OF R this] have "map key_of (FindKeys (\<lambda>s h. h) f' ''n2'') = map key_of (FindKeys (\<lambda>s h. h) sample_known ''n2'')"
    by blast
  moreover have "map key_of (FindKeys (\<lambda>s h. h) sample_known ''n2'') = [(''ssh-rsa'', ''K1'')]" by code_simp
  ultimately show ?thesis using R by simp
qed

section \<open>The new keys\<close>

definition key_slot :: "known_entry \<Rightarrow> string \<times> string" where
  "key_slot e = (to_lower (hd (ke_hosts e)), ke_type e)"

text \<open>The entries are those left and new ones, which are found by their slots.\<close>

definition adds :: "known_entry list \<Rightarrow> adding \<Rightarrow> known_entry list \<Rightarrow> bool" where
  "adds base st new \<longleftrightarrow> fst st = base @ new \<and> distinct (map key_slot new) \<and>
     (\<forall>s k. snd st s = Some k \<longleftrightarrow> (\<exists>j<length new. k = length base + j \<and> key_slot (new ! j) = s))"

definition same_key :: "known_entry \<Rightarrow> known_entry \<Rightarrow> bool" where
  "same_key x e \<longleftrightarrow> e = x\<lparr>ke_notes := ke_notes e\<rparr>"

lemma same_keyI [simp]: "same_key (e\<lparr>ke_notes := ns\<rparr>) e" "same_key e e" "same_key (keep_notes e x) e"
  by (simp_all add: same_key_def keep_notes_def)

lemma same_key_slot: "same_key x e \<Longrightarrow> key_slot x = key_slot e \<and> ke_hosts x = ke_hosts e"
  by (cases x; cases e) (simp add: same_key_def key_slot_def)

lemma same_key_trans: "same_key x y \<Longrightarrow> same_key y z \<Longrightarrow> same_key x z"
  by (cases x; cases y; cases z) (simp add: same_key_def)

lemma replace_key_adds:
  assumes "adds base st new" and "ke_hosts e \<noteq> []" and "to_lower (hd (ke_hosts e)) \<in> to_lower ` set hosts"
  obtains new' where "adds base (replace_key mac hosts ns j e st) new'"
    and "key_slot ` set new' = insert (key_slot e) (key_slot ` set new)"
    and "\<And>x. x \<in> set new' \<Longrightarrow> x \<in> set new \<or> same_key x e"
proof -
  obtain es added where st: "st = (es, added)" by (rule prod.exhaust)
  let ?e = "if j = 0 \<and> ke_notes e = [] then e\<lparr>ke_notes := ns\<rparr> else e"
  have e: "same_key ?e e" "ke_hosts ?e = ke_hosts e" "key_slot ?e = key_slot e" by (simp_all add: key_slot_def)
  have known: "last_at hosts (to_lower (hd (ke_hosts e))) \<noteq> None"
    using assms(3) by (auto simp: last_at_def index_of_None split: option.splits)
  have inv: "es = base @ new" "distinct (map key_slot new)"
    "added s = Some k \<longleftrightarrow> (\<exists>j<length new. k = length base + j \<and> key_slot (new ! j) = s)" for s k
    using assms(1) unfolding adds_def st fst_conv snd_conv by blast+
  have r: "replace_key mac hosts ns j e st = (case added (key_slot e) of
      Some k \<Rightarrow> (es[k := keep_notes ?e (es ! k)], added) | None \<Rightarrow> (es @ [?e], added(key_slot e \<mapsto> length es)))"
    using known assms(2) e by (simp add: replace_key_def st Let_def key_slot_def split: option.splits if_splits)
  show thesis
  proof (cases "added (key_slot e)")
    case None
    then have fresh: "key_slot e \<notin> key_slot ` set new"
      using inv(3) [of "key_slot e"] by (auto simp: in_set_conv_nth) (metis option.distinct(1))
    show thesis
    proof (rule that [of "new @ [?e]"])
      have "adds base (es @ [?e], added(key_slot e \<mapsto> length es)) (new @ [?e])"
        unfolding adds_def fst_conv snd_conv
      proof (intro conjI allI)
        fix s k
        have "key_slot (new ! n) \<noteq> key_slot e" if "n < length new" for n using fresh that by (metis imageI nth_mem)
        then show "(added(key_slot e \<mapsto> length es)) s = Some k \<longleftrightarrow>
            (\<exists>n<length (new @ [?e]). k = length base + n \<and> key_slot ((new @ [?e]) ! n) = s)"
          using inv(1) inv(3) [of s k] e(3) by (cases "s = key_slot e") (auto simp: nth_append less_Suc_eq)
      qed (use inv fresh e in auto)
      then show "adds base (replace_key mac hosts ns j e st) (new @ [?e])" using r None by simp
    qed (use e in auto)
  next
    case (Some k)
    then obtain i where i: "i < length new" "k = length base + i" "key_slot (new ! i) = key_slot e" using inv(3) by blast
    let ?x = "keep_notes ?e (es ! k)"
    have x: "same_key ?x e" using e(1) same_keyI(3) same_key_trans by blast
    then have slot: "key_slot ?x = key_slot (new ! i)" using i(3) same_key_slot by simp
    have slots: "map key_slot (new[i := ?x]) = map key_slot new" using slot i(1) by (metis list_update_id map_update nth_map)
    show thesis
    proof (rule that [of "new[i := ?x]"])
      have "key_slot (new[i := ?x] ! n) = key_slot (new ! n)" if "n < length new" for n
        using slots that by (metis length_list_update nth_map)
      then have "adds base (es[k := ?x], added) (new[i := ?x])"
        unfolding adds_def slots using inv i by (auto simp: list_update_append)
      then show "adds base (replace_key mac hosts ns j e st) (new[i := ?x])" using r Some by simp
      have "key_slot ` set (new[i := ?x]) = set (map key_slot new)" using slots by (metis set_map)
      moreover have "key_slot e \<in> key_slot ` set new" using i by (metis imageI nth_mem)
      ultimately show "key_slot ` set (new[i := ?x]) = insert (key_slot e) (key_slot ` set new)" by (simp add: insert_absorb)
      show "y \<in> set (new[i := ?x]) \<Longrightarrow> y \<in> set new \<or> same_key y e" for y
        using set_update_subset_insert [of new i ?x] x by blast
    qed
  qed
qed

lemma replace_keys_adds:
  assumes "adds base st new" and "\<forall>e\<in>snd ` set jes. ke_hosts e \<noteq> [] \<and> to_lower (hd (ke_hosts e)) \<in> to_lower ` set hosts"
  obtains new' where "adds base (foldl (\<lambda>st (j, e). replace_key mac hosts ns j e st) st jes) new'"
    and "key_slot ` set new' = key_slot ` snd ` set jes \<union> key_slot ` set new"
    and "\<And>x. x \<in> set new' \<Longrightarrow> x \<in> set new \<or> (\<exists>e\<in>snd ` set jes. same_key x e)"
  using assms
proof (induction jes arbitrary: st new thesis)
  case Nil
  then show ?case by simp
next
  case (Cons je jes)
  obtain j e where je: "je = (j, e)" by (rule prod.exhaust)
  have e: "ke_hosts e \<noteq> []" "to_lower (hd (ke_hosts e)) \<in> to_lower ` set hosts" using Cons.prems(3) je by auto
  obtain new1 where 1: "adds base (replace_key mac hosts ns j e st) new1" "key_slot ` set new1 = insert (key_slot e) (key_slot ` set new)"
    "\<And>x. x \<in> set new1 \<Longrightarrow> x \<in> set new \<or> same_key x e"
    using replace_key_adds [OF Cons.prems(2) e, of mac ns j] by blast
  have jes: "\<forall>e\<in>snd ` set jes. ke_hosts e \<noteq> [] \<and> to_lower (hd (ke_hosts e)) \<in> to_lower ` set hosts" using Cons.prems(3) by auto
  obtain new2 where 2: "adds base (foldl (\<lambda>st (j, e). replace_key mac hosts ns j e st) (replace_key mac hosts ns j e st) jes) new2"
    "key_slot ` set new2 = key_slot ` snd ` set jes \<union> key_slot ` set new1"
    "\<And>x. x \<in> set new2 \<Longrightarrow> x \<in> set new1 \<or> (\<exists>e\<in>snd ` set jes. same_key x e)"
    using Cons.IH [OF _ 1(1) jes] by blast
  show ?case
  proof (rule Cons.prems(1) [of new2])
    show "adds base (foldl (\<lambda>st (j, e). replace_key mac hosts ns j e st) st (je # jes)) new2" using 2(1) by (simp add: je)
    show "key_slot ` set new2 = key_slot ` snd ` set (je # jes) \<union> key_slot ` set new" using 2(2) 1(2) by (auto simp: je)
    show "x \<in> set new2 \<Longrightarrow> x \<in> set new \<or> (\<exists>e\<in>snd ` set (je # jes). same_key x e)" for x
      using 2(3) [of x] 1(3) [of x] by (auto simp: je)
  qed
qed

text \<open>The keys that count: of a host given twice, those of its last place.\<close>

definition given_keys :: "string list \<Rightarrow> (string \<Rightarrow> known_entry list) \<Rightarrow> nat list \<Rightarrow> known_entry set" where
  "given_keys hosts keys places = {e. \<exists>i\<in>set places. last_place hosts i = i \<and> e \<in> set (keys (hosts ! i))}"

lemma snd_enumerate: "snd ` set (enumerate n xs) = set xs"
  by (metis list.set_map map_snd_enumerate)

lemma replace_hosts_adds:
  assumes "adds base st new"
    and "\<forall>e\<in>given_keys hosts keys places. ke_hosts e \<noteq> [] \<and> to_lower (hd (ke_hosts e)) \<in> to_lower ` set hosts"
  obtains new' where "adds base (foldl (\<lambda>st i. replace_host mac hosts ns keys i st) st places) new'"
    and "key_slot ` set new' = key_slot ` given_keys hosts keys places \<union> key_slot ` set new"
    and "\<And>x. x \<in> set new' \<Longrightarrow> x \<in> set new \<or> (\<exists>e\<in>given_keys hosts keys places. same_key x e)"
  using assms
proof (induction places arbitrary: st new thesis)
  case Nil
  then show ?case by (simp add: given_keys_def)
next
  case (Cons i places)
  have split: "given_keys hosts keys (i # places) = (if last_place hosts i = i then set (keys (hosts ! i)) else {}) \<union> given_keys hosts keys places"
    by (auto simp: given_keys_def)
  have rest: "\<forall>e\<in>given_keys hosts keys places. ke_hosts e \<noteq> [] \<and> to_lower (hd (ke_hosts e)) \<in> to_lower ` set hosts"
    using Cons.prems(3) by (simp add: split)
  obtain new1 where 1: "adds base (replace_host mac hosts ns keys i st) new1"
    "key_slot ` set new1 = key_slot ` (if last_place hosts i = i then set (keys (hosts ! i)) else {}) \<union> key_slot ` set new"
    "\<And>x. x \<in> set new1 \<Longrightarrow> x \<in> set new \<or> (\<exists>e\<in>(if last_place hosts i = i then set (keys (hosts ! i)) else {}). same_key x e)"
  proof (cases "last_place hosts i = i")
    case True
    have "\<forall>e\<in>snd ` set (enumerate 0 (keys (hosts ! i))). ke_hosts e \<noteq> [] \<and> to_lower (hd (ke_hosts e)) \<in> to_lower ` set hosts"
      using Cons.prems(3) True by (simp add: split snd_enumerate)
    from replace_keys_adds [OF Cons.prems(2) this, of mac "ns ! i"] that True show thesis
      by (auto simp: replace_host_def snd_enumerate)
  next
    case False
    then show thesis using that [of new] Cons.prems(2) by (simp add: replace_host_def)
  qed
  obtain new2 where 2: "adds base (foldl (\<lambda>st i. replace_host mac hosts ns keys i st) (replace_host mac hosts ns keys i st) places) new2"
    "key_slot ` set new2 = key_slot ` given_keys hosts keys places \<union> key_slot ` set new1"
    "\<And>x. x \<in> set new2 \<Longrightarrow> x \<in> set new1 \<or> (\<exists>e\<in>given_keys hosts keys places. same_key x e)"
    using Cons.IH [OF _ 1(1) rest] by blast
  show ?case
  proof (rule Cons.prems(1) [of new2])
    show "adds base (foldl (\<lambda>st i. replace_host mac hosts ns keys i st) st (i # places)) new2" using 2(1) by simp
    show "key_slot ` set new2 = key_slot ` given_keys hosts keys (i # places) \<union> key_slot ` set new"
      unfolding split image_Un 2(2) 1(2) by auto
    show "x \<in> set new2 \<Longrightarrow> x \<in> set new \<or> (\<exists>e\<in>given_keys hosts keys (i # places). same_key x e)" for x
      using 2(3) [of x] 1(3) [of x] unfolding split by blast
  qed
qed

text \<open>
  C25. Replacing the keys of hosts leaves what removing them leaves, in its order, and adds after it
  the keys given and no other: one for each host name and key type that was given, as it was given
  except for its notes.
\<close>
theorem ReplaceAll_exact:
  assumes "\<forall>e\<in>given_keys hosts keys [0..<length hosts]. ke_hosts e \<noteq> [] \<and> to_lower (hd (ke_hosts e)) \<in> to_lower ` set hosts"
  shows "\<exists>new. kf_entries (ReplaceAll mac hosts keys f) = kf_entries (fst (remove_all mac hosts f)) @ new \<and>
    distinct (map key_slot new) \<and> key_slot ` set new = key_slot ` given_keys hosts keys [0..<length hosts] \<and>
    (\<forall>x\<in>set new. \<exists>e\<in>given_keys hosts keys [0..<length hosts]. same_key x e)"
proof -
  obtain f1 r where R: "remove_all mac hosts f = (f1, r)" by (rule prod.exhaust)
  have "adds (kf_entries f1) (kf_entries f1, \<lambda>_. None) []" by (simp add: adds_def)
  from replace_hosts_adds [OF this assms, of mac "move_notes hosts (rm_notes r)"] obtain new where
    new: "adds (kf_entries f1) (foldl (\<lambda>st i. replace_host mac hosts (move_notes hosts (rm_notes r)) keys i st)
        (kf_entries f1, \<lambda>_. None) [0..<length hosts]) new"
      "key_slot ` set new = key_slot ` given_keys hosts keys [0..<length hosts] \<union> key_slot ` set []"
      "\<And>x. x \<in> set new \<Longrightarrow> x \<in> set [] \<or> (\<exists>e\<in>given_keys hosts keys [0..<length hosts]. same_key x e)"
    by blast
  have "kf_entries (ReplaceAll mac hosts keys f) = kf_entries f1 @ new" "distinct (map key_slot new)"
    using new(1) R unfolding adds_def by (simp_all add: ReplaceAll_def)
  then show ?thesis using new(2,3) R by (intro exI [of _ new]) auto
qed

text \<open>A scan that found a new key for a host named twice.\<close>

definition scanned_key :: "string \<Rightarrow> known_entry list" where
  "scanned_key h = [(hd (kf_entries sample_known))\<lparr>ke_hosts := [''n1''], ke_key := h\<rparr>]"

lemma scanned_keys: "e \<in> given_keys [''n1'', ''N1''] scanned_key [0..<length [''n1'', ''N1'']] \<Longrightarrow> ke_hosts e = [''n1''] \<and> ke_key e = ''N1''"
proof -
  have "last_place [''n1'', ''N1''] 0 = 1" by code_simp
  then show "e \<in> given_keys [''n1'', ''N1''] scanned_key [0..<length [''n1'', ''N1'']] \<Longrightarrow> ?thesis"
    by (auto simp: given_keys_def scanned_key_def less_Suc_eq)
qed

theorem ReplaceAll_exact_witness:
  "\<exists>new. kf_entries (ReplaceAll (\<lambda>s h. h) [''n1'', ''N1''] scanned_key sample_known) =
     kf_entries (fst (remove_all (\<lambda>s h. h) [''n1'', ''N1''] sample_known)) @ new \<and> (\<forall>x\<in>set new. ke_key x = ''N1'')"
proof -
  let ?given = "given_keys [''n1'', ''N1''] scanned_key [0..<length [''n1'', ''N1'']]"
  have "ke_hosts e \<noteq> [] \<and> to_lower (hd (ke_hosts e)) \<in> to_lower ` set [''n1'', ''N1'']" if "e \<in> ?given" for e
    using scanned_keys [OF that] by simp
  then have "\<forall>e\<in>?given. ke_hosts e \<noteq> [] \<and> to_lower (hd (ke_hosts e)) \<in> to_lower ` set [''n1'', ''N1'']" by (rule ballI)
  note all = ReplaceAll_exact [OF this, of "\<lambda>s h. h" sample_known]
  have "ke_key x = ''N1''" if "same_key x e" "e \<in> ?given" for x e
    using scanned_keys [OF that(2)] that(1) by (cases x; cases e) (simp add: same_key_def)
  with all show ?thesis by (elim exE conjE) (rule exI, rule conjI, assumption, blast)
qed

end
