(* ===== verification/GoFields.thy ===== *)
theory GoFields
  imports GoStrings
begin

text \<open>
  Words between white space: \<open>strings.Fields\<close> of words joined by one space gives the words, and
  every word it gives is free of white space.
\<close>

definition spaceless :: "string \<Rightarrow> bool" where
  "spaceless w \<longleftrightarrow> (\<forall>q\<in>set space_seqs. \<not> sublist q w)"

definition word_ok :: "string \<Rightarrow> bool" where
  "word_ok w \<longleftrightarrow> w \<noteq> [] \<and> spaceless w"

lemma space_seq_blank: "q \<in> set space_seqs \<Longrightarrow> CHR '' '' \<in> set q \<Longrightarrow> q = '' ''"
proof -
  have "list_all (\<lambda>q. CHR '' '' \<notin> set q \<or> q = '' '') space_seqs" by code_simp
  then show "q \<in> set space_seqs \<Longrightarrow> CHR '' '' \<in> set q \<Longrightarrow> q = '' ''" by (auto simp: list_all_iff)
qed

lemma blank_seqs: "c \<in> set ascii_spaces \<Longrightarrow> [c] \<in> set space_seqs"
  by (simp add: space_seqs_def)

lemma spaceless_char: "spaceless w \<Longrightarrow> c \<in> set ascii_spaces \<Longrightarrow> c \<notin> set w"
  unfolding spaceless_def using blank_seqs by (metis append_Cons append_Nil in_set_conv_decomp sublist_appendI)

lemma space_at_blank: "space_at (CHR '' '' # s) = 1"
  by (simp add: space_at_def space_seqs_def ascii_spaces_def)

text \<open>No white space begins inside a word, whatever follows after a blank.\<close>

lemma no_space_in_word:
  assumes "spaceless (u @ v)" "v \<noteq> []" "s = [] \<or> hd s = CHR '' ''"
  shows "space_at (v @ s) = 0"
  unfolding space_at_0
proof (intro ballI notI)
  fix q assume q: "q \<in> set space_seqs" and "has_prefix (v @ s) q"
  then obtain r where r: "v @ s = q @ r" by (auto simp: has_prefix_iff)
  show False
  proof (cases "length q \<le> length v")
    case True
    with r have "v = q @ drop (length q) v" by (metis append_eq_append_conv_if append_take_drop_id)
    then have "sublist q (u @ v)" by (metis sublist_appendI)
    with q assms(1) show False by (simp add: spaceless_def)
  next
    case False
    with r obtain t where t: "q = v @ t" "s = t @ r" "t \<noteq> []" by (auto simp: append_eq_append_conv2)
    then have "CHR '' '' \<in> set q" using assms(3) by (cases t) auto
    then have "q = '' ''" using space_seq_blank q by blast
    with t assms(2) show False by (cases v) auto
  qed
qed

lemma fields_space_word:
  assumes "spaceless (u @ v)" "s = [] \<or> hd s = CHR '' ''"
  shows "fields_space acc (v @ s) = fields_space (rev v @ acc) s"
  using assms(1)
proof (induction v arbitrary: u acc)
  case (Cons c v)
  have "space_at (c # v @ s) = 0" using no_space_in_word [OF Cons.prems _ assms(2)] by simp
  then have "fields_space acc (c # v @ s) = fields_space (c # acc) (v @ s)" by (subst fields_space.simps) simp
  also have "\<dots> = fields_space (rev v @ c # acc) s" using Cons.IH [of "u @ [c]" "c # acc"] Cons.prems by simp
  finally show ?case by simp
qed simp

lemma go_fields_join: "list_all word_ok ws \<Longrightarrow> go_fields (join_str '' '' ws) = ws"
proof (induction ws)
  case Nil
  show ?case by (simp add: go_fields_def fields_space.simps)
next
  case (Cons w ws)
  then have w: "w \<noteq> []" "spaceless ([] @ w)" and IH: "go_fields (join_str '' '' ws) = ws" by (auto simp: word_ok_def)
  show ?case
  proof (cases "ws = []")
    case True
    then show ?thesis using fields_space_word [OF w(2), of "[]" "[]"] w(1) by (simp add: go_fields_def fields_space.simps [of _ "[]"])
  next
    case False
    let ?s = "CHR '' '' # join_str '' '' ws"
    have "go_fields (w @ ?s) = fields_space (rev w) ?s" using fields_space_word [OF w(2), of ?s "[]"] by (simp add: go_fields_def)
    also have "\<dots> = w # go_fields (join_str '' '' ws)"
      using w(1) by (subst fields_space.simps) (simp add: space_at_blank go_fields_def)
    finally show ?thesis using False IH by (simp add: join_str_Cons)
  qed
qed

text \<open>Every field is a word.\<close>

lemma prefix_word:
  assumes "\<forall>i<length a. space_at (drop i (a @ s)) = 0"
  shows "spaceless a"
  unfolding spaceless_def
proof (intro ballI notI)
  fix q assume q: "q \<in> set space_seqs" and "sublist q a"
  then obtain x y where a: "a = x @ q @ y" by (auto simp: sublist_def)
  have "q \<noteq> []" using q space_seqs_filled by blast
  then have "length x < length a" by (simp add: a)
  then have "space_at (drop (length x) (a @ s)) = 0" using assms by blast
  then have "space_at (q @ y @ s) = 0" by (simp add: a)
  with q show False by (auto simp: space_at_0)
qed

lemma fields_space_words:
  assumes "\<forall>i<length acc. space_at (drop i (rev acc @ s)) = 0"
  shows "list_all word_ok (fields_space acc s)"
  using assms
proof (induction acc s rule: fields_space.induct)
  case (1 acc s)
  have word: "acc \<noteq> [] \<Longrightarrow> word_ok (rev acc)" using prefix_word [of "rev acc" s] "1.prems" by (simp add: word_ok_def)
  show ?case
  proof (cases "s = [] \<or> space_at s \<noteq> 0")
    case True
    then show ?thesis using word "1.IH"(2) by (subst fields_space.simps) auto
  next
    case False
    then obtain c t where s: "s = c # t" by (cases s) auto
    have "\<forall>i<length (c # acc). space_at (drop i (rev (c # acc) @ t)) = 0"
    proof (intro allI impI)
      fix i assume "i < length (c # acc)"
      then show "space_at (drop i (rev (c # acc) @ t)) = 0"
        using "1.prems" False s by (cases "i = length acc") auto
    qed
    then show ?thesis using "1.IH"(1) False s by (subst fields_space.simps) simp
  qed
qed

lemma go_fields_words: "list_all word_ok (go_fields s)"
  by (simp add: go_fields_def fields_space_words)

lemma fields_space_first: "acc \<noteq> [] \<Longrightarrow> \<exists>w ws. fields_space acc s = (rev acc @ w) # ws"
proof (induction acc s rule: fields_space.induct)
  case (1 acc s)
  show ?case
  proof (cases "s = [] \<or> space_at s \<noteq> 0")
    case True
    then show ?thesis using "1.prems" by (subst fields_space.simps) auto
  next
    case False
    then have "\<exists>w ws. fields_space (hd s # acc) (tl s) = (rev (hd s # acc) @ w) # ws" using "1.IH"(1) by simp
    then show ?thesis using False by (subst fields_space.simps) auto
  qed
qed

lemma go_fields_first: "s \<noteq> [] \<Longrightarrow> space_at s = 0 \<Longrightarrow> \<exists>w ws. go_fields s = (hd s # w) # ws"
  using fields_space_first [of "[hd s]" "tl s"] by (simp add: go_fields_def fields_space.simps [of "[]" s])

section \<open>Trimming words\<close>

lemma join_last: "ws \<noteq> [] \<Longrightarrow> \<exists>x. join_str '' '' ws = x @ last ws \<and> (x = [] \<or> last x = CHR '' '')"
proof (induction ws)
  case (Cons w ws)
  show ?case
  proof (cases "ws = []")
    case False
    then obtain x where "join_str '' '' ws = x @ last ws" "x = [] \<or> last x = CHR '' ''" using Cons.IH by blast
    with False show ?thesis by (intro exI [of _ "w @ '' '' @ x"]) (auto simp: join_str_Cons)
  qed simp
qed simp

lemma trim_space_words:
  assumes "list_all word_ok ws" "ws \<noteq> []"
  shows "trim_space (join_str '' '' ws) = join_str '' '' ws"
proof -
  let ?s = "join_str '' '' ws"
  obtain w vs where ws: "ws = w # vs" using assms(2) by (cases ws) auto
  have w: "spaceless ([] @ w)" "w \<noteq> []" using assms(1) ws by (auto simp: word_ok_def)
  have "space_at (w @ (if vs = [] then [] else CHR '' '' # join_str '' '' vs)) = 0"
    by (rule no_space_in_word [OF w]) auto
  then have l: "trim_left_space ?s = ?s" by (subst trim_left_space.simps) (auto simp: ws join_str_Cons)
  obtain x where x: "?s = x @ last ws" "x = [] \<or> last x = CHR '' ''" using join_last [OF assms(2)] by blast
  have "last ws \<in> set ws" using assms(2) by simp
  then have last: "spaceless (last ws)" "last ws \<noteq> []" using assms(1) by (auto simp: list_all_iff word_ok_def)
  have "\<not> has_suffix ?s q" if q: "q \<in> set space_seqs" for q
  proof
    assume "has_suffix ?s q"
    then obtain r where r: "x @ last ws = r @ q" using x(1) by (auto simp: has_suffix_iff)
    show False
    proof (cases "length q \<le> length (last ws)")
      case True
      obtain t where "x = r @ t \<and> t @ last ws = q \<or> x @ t = r \<and> last ws = t @ q"
        using r unfolding append_eq_append_conv2 by blast
      with True have "last ws = (if t = [] then [] else t) @ q" by auto
      then obtain t where "last ws = t @ q" by blast
      then show False using last(1) q by (auto simp: spaceless_def)
    next
      case False
      obtain t where "x = r @ t \<and> t @ last ws = q \<or> x @ t = r \<and> last ws = t @ q"
        using r unfolding append_eq_append_conv2 by blast
      with False have t: "q = t @ last ws" "x = r @ t" "t \<noteq> []" by auto
      then have "last t = CHR '' ''" using x(2) by auto
      then have "CHR '' '' \<in> set q" using t(1,3) by (metis last_in_set in_set_conv_decomp append_assoc Un_iff set_append)
      then have "q = '' ''" using space_seq_blank q by blast
      with False last(2) show False by (cases "last ws") auto
    qed
  qed
  then have "space_at_end ?s = 0" using space_seqs_filled
    by (auto simp: space_at_end_def find_Some_iff split: option.splits)
  then have "trim_right_space ?s = ?s" by (subst trim_right_space.simps) simp
  with l show ?thesis by (simp add: trim_space_def)
qed

end
