(* ===== verification/KnownHostsText.thy ===== *)
theory KnownHostsText
  imports KnownHostsChange GoFields
begin

text \<open>
  Writing a known_hosts file and reading it back. A note above the entry that sorts first is read
  back as part of the header, so what is read back is the file with that note moved.
\<close>

section \<open>What a file that was read holds\<close>

definition comment_line :: "string \<Rightarrow> bool" where
  "comment_line l \<longleftrightarrow> trim_space l = l \<and> has_prefix l ''#'' \<and> CHR 0x0A \<notin> set l"

definition entry_ok :: "known_entry \<Rightarrow> bool" where
  "entry_ok e \<longleftrightarrow>
     ke_marker e \<in> {[], MarkerRevoked, MarkerCertAuthority} \<and>
     ke_hosts e \<noteq> [] \<and> (\<forall>h\<in>set (ke_hosts e). CHR '','' \<notin> set h) \<and> word_ok (join_str '','' (ke_hosts e)) \<and>
     (ke_marker e = [] \<longrightarrow> hd (join_str '','' (ke_hosts e)) \<noteq> CHR ''#'' \<and> hd (join_str '','' (ke_hosts e)) \<noteq> CHR ''@'') \<and>
     word_ok (ke_type e) \<and> word_ok (ke_key e) \<and> (\<exists>ws. list_all word_ok ws \<and> ke_comment e = join_str '' '' ws) \<and>
     list_all comment_line (ke_notes e)"

definition file_ok :: "known_file \<Rightarrow> bool" where
  "file_ok f \<longleftrightarrow> list_all comment_line (kf_header f) \<and> list_all entry_ok (kf_entries f) \<and> list_all comment_line (kf_trailer f) \<and>
     (kf_entries f = [] \<longrightarrow> kf_trailer f = [])"

lemma word_blank: "word_ok w \<Longrightarrow> c \<in> set ascii_spaces \<Longrightarrow> c \<notin> set w"
  using spaceless_char by (auto simp: word_ok_def)

lemma entry_of_line_ok:
  assumes "entry_of_line i raw notes (go_fields line) = Inr e" "list_all comment_line notes"
    and "line = trim_space raw" "line \<noteq> []" "\<not> has_prefix line ''#''"
  shows "entry_ok e"
proof -
  let ?ws = "go_fields line"
  obtain w vs where first: "?ws = (hd line # w) # vs"
    using go_fields_first [OF assms(4)] assms(3) trim_space_idem
    by (metis trim_space_def trim_left_space_0 space_at_take trim_right_space_take)
  have ok: "list_all word_ok ?ws" by (rule go_fields_words)
  have hash: "hd line \<noteq> CHR ''#''" using assms(4,5) by (cases line) auto
  let ?fs = "if has_prefix (hd ?ws) ''@'' then tl ?ws else ?ws"
  have fs: "list_all word_ok ?fs" "3 \<le> length ?fs" using assms(1) ok first by (auto simp: entry_of_line_def Let_def split: if_splits)
  have nth: "word_ok (?fs ! k)" if "k < 3" for k using fs that unfolding list_all_length by (meson less_le_trans)
  have words: "word_ok (?fs ! 0)" "word_ok (?fs ! 1)" "word_ok (?fs ! 2)" by (rule nth, simp)+
  have drop: "list_all word_ok (drop 3 ?fs)" using fs(1) by (auto simp: list_all_iff dest: in_set_dropD)
  have e: "e = \<lparr> ke_marker = (if has_prefix (hd ?ws) ''@'' then hd ?ws else []), ke_hosts = split_char (CHR '','') (?fs ! 0),
      ke_type = ?fs ! 1, ke_key = ?fs ! 2, ke_comment = join_str '' '' (drop 3 ?fs), ke_notes = notes \<rparr>"
    and marker: "has_prefix (hd ?ws) ''@'' \<Longrightarrow> hd ?ws \<in> {MarkerRevoked, MarkerCertAuthority}"
    using assms(1) by (auto simp: entry_of_line_def Let_def split: if_splits)
  show ?thesis using words drop marker first hash assms(2) unfolding e entry_ok_def
    by (auto simp: join_split_char split_char_parts)
qed

lemma comment_line_trim: "has_prefix (trim_space raw) ''#'' \<Longrightarrow> CHR 0x0A \<notin> set raw \<Longrightarrow> comment_line (trim_space raw)"
  using trim_space_subset [of raw] by (auto simp: comment_line_def)

lemma parse_known_ok:
  assumes "parse_known i seen raws = Inr f" "\<forall>r\<in>set raws. CHR 0x0A \<notin> set r"
    and "\<And>ns. seen = Some ns \<Longrightarrow> list_all comment_line ns"
  shows "list_all comment_line (kf_header f) \<and> list_all entry_ok (kf_entries f) \<and> list_all comment_line (kf_trailer f) \<and>
    (seen = None \<and> kf_entries f = [] \<longrightarrow> kf_trailer f = [])"
  using assms
proof (induction i seen raws arbitrary: f rule: parse_known.induct)
  case (2 i seen raw raws)
  let ?line = "trim_space raw"
  have raws: "\<forall>r\<in>set raws. CHR 0x0A \<notin> set r" "CHR 0x0A \<notin> set raw" using "2.prems"(2) by auto
  consider "?line = []" | "?line \<noteq> []" "has_prefix ?line ''#''" | "?line \<noteq> []" "\<not> has_prefix ?line ''#''" by blast
  then show ?case
  proof cases
    case 1
    then show ?thesis using "2.IH"(1) [OF refl 1 _ raws(1) "2.prems"(3)] "2.prems"(1) by (simp add: Let_def)
  next
    case 2
    note c = comment_line_trim [OF 2(2) raws(2)]
    show ?thesis
    proof (cases seen)
      case None
      then obtain g where "parse_known (i + 1) None raws = Inr g" "f = g\<lparr>kf_header := ?line # kf_header g\<rparr>"
        using "2.prems"(1) 2 by (auto simp: Let_def result_simps)
      then show ?thesis using "2.IH"(2) [OF refl 2(1,2) None _ raws(1)] c None by auto
    next
      case (Some ns)
      then show ?thesis using "2.IH"(3) [OF refl 2(1,2) Some _ raws(1)] "2.prems"(1,3) 2 c by (simp add: Let_def)
    qed
  next
    case 3
    let ?ns = "case seen of None \<Rightarrow> [] | Some ns \<Rightarrow> ns"
    obtain e g where e: "entry_of_line i raw ?ns (go_fields ?line) = Inr e" and g: "parse_known (i + 1) (Some []) raws = Inr g"
      and f: "f = g\<lparr>kf_entries := e # kf_entries g\<rparr>"
      using "2.prems"(1) 3 by (auto simp: Let_def result_simps)
    have "list_all comment_line ?ns" using "2.prems"(3) by (cases seen) auto
    from entry_of_line_ok [OF e this refl 3(1,2)] "2.IH"(4) [OF refl 3 e g raws(1)] f show ?thesis by simp
  qed
qed (auto split: option.splits)

lemma ParseKnown_ok: "ParseKnown d = Inr f \<Longrightarrow> file_ok f"
  using parse_known_ok [of 0 None "split_char (CHR 0x0A) d" f] split_char_parts
  by (auto simp: ParseKnown_def file_ok_def)

section \<open>Reading back what was written\<close>

definition comment_words :: "known_entry \<Rightarrow> string list" where
  "comment_words e = go_fields (ke_comment e)"

definition entry_words :: "known_entry \<Rightarrow> string list" where
  "entry_words e = (if ke_marker e \<noteq> [] then [ke_marker e] else []) @
     [join_str '','' (ke_hosts e), ke_type e, ke_key e] @ comment_words e"

lemma join_str_append: "us \<noteq> [] \<Longrightarrow> vs \<noteq> [] \<Longrightarrow> join_str sep (us @ vs) = join_str sep us @ sep @ join_str sep vs"
  by (induction us) (auto simp: join_str_Cons)

lemma markers_words: "word_ok MarkerRevoked" "word_ok MarkerCertAuthority" by code_simp+

lemma entry_words_ok:
  assumes "entry_ok e"
  shows "list_all word_ok (entry_words e) \<and> entry_string e = join_str '' '' (entry_words e) \<and>
    ke_comment e = join_str '' '' (comment_words e)"
proof -
  obtain ws where ws: "list_all word_ok ws" "ke_comment e = join_str '' '' ws" using assms by (auto simp: entry_ok_def)
  then have c: "comment_words e = ws" by (simp add: comment_words_def go_fields_join)
  have "join_str '' '' ws = [] \<longleftrightarrow> ws = []" using ws(1) by (cases ws) (auto simp: join_str_Cons word_ok_def)
  moreover have "list_all word_ok (entry_words e)"
    using assms ws c markers_words by (auto simp: entry_ok_def entry_words_def)
  ultimately show ?thesis using ws c by (auto simp: entry_string_def entry_words_def join_str_append join_str_Cons Let_def)
qed

lemma entry_line_ok:
  assumes "entry_ok e"
  shows "trim_space (entry_string e) = entry_string e" "entry_string e \<noteq> []" "\<not> has_prefix (entry_string e) ''#''"
    "CHR 0x0A \<notin> set (entry_string e)"
proof -
  have w: "list_all word_ok (entry_words e)" "entry_words e \<noteq> []" "entry_string e = join_str '' '' (entry_words e)"
    using entry_words_ok [OF assms] by (auto simp: entry_words_def)
  then show "trim_space (entry_string e) = entry_string e" by (simp add: trim_space_words)
  obtain v vs where v: "entry_words e = v # vs" using w(2) by (cases "entry_words e") auto
  then have "v \<noteq> []" using w(1) by (simp add: word_ok_def)
  moreover have "hd v \<noteq> CHR ''#''"
    using assms v by (auto simp: entry_ok_def entry_words_def MarkerRevoked_def MarkerCertAuthority_def split: if_splits)
  ultimately show "entry_string e \<noteq> []" "\<not> has_prefix (entry_string e) ''#''"
    using w(3) v by (cases v; auto simp: join_str_Cons)+
  have "CHR 0x0A \<notin> set x" if "x \<in> set (entry_words e)" for x
    using w(1) that word_blank [of x "CHR 0x0A"] by (auto simp: list_all_iff ascii_spaces_def)
  then have "CHR 0x0A \<notin> set (join_str '' '' xs)" if "set xs \<subseteq> set (entry_words e)" for xs
    using that by (induction xs) (auto simp: join_str_Cons)
  then show "CHR 0x0A \<notin> set (entry_string e)" using w(3) by simp
qed

lemma entry_read_back:
  assumes "entry_ok e"
  shows "entry_of_line i raw ns (go_fields (entry_string e)) = Inr (e\<lparr>ke_notes := ns\<rparr>)"
proof -
  have w: "go_fields (entry_string e) = entry_words e" "ke_comment e = join_str '' '' (comment_words e)"
    using entry_words_ok [OF assms] by (simp_all add: go_fields_join)
  have hosts: "split_char (CHR '','') (join_str '','' (ke_hosts e)) = ke_hosts e"
    using assms by (intro split_join_char) (auto simp: entry_ok_def)
  have first: "ke_marker e = [] \<Longrightarrow> \<not> has_prefix (join_str '','' (ke_hosts e)) ''@''"
    using assms by (cases "join_str '','' (ke_hosts e)") (auto simp: entry_ok_def word_ok_def)
  have marked: "ke_marker e \<noteq> [] \<Longrightarrow> has_prefix (ke_marker e) ''@'' \<and> (ke_marker e = MarkerRevoked \<or> ke_marker e = MarkerCertAuthority)"
    using assms by (auto simp: entry_ok_def MarkerRevoked_def MarkerCertAuthority_def)
  have "drop 3 ([join_str '','' (ke_hosts e), ke_type e, ke_key e] @ comment_words e) = comment_words e" by simp
  then show ?thesis unfolding w(1)
    using hosts first marked w(2) by (cases "ke_marker e = []") (auto simp: entry_of_line_def entry_words_def Let_def)
qed

lemma parse_comments:
  "list_all comment_line cs \<Longrightarrow> parse_known i (Some ns) (cs @ raws) = parse_known (i + length cs) (Some (ns @ cs)) raws"
  by (induction cs arbitrary: i ns) (auto simp: comment_line_def has_prefix_iff Let_def)

lemma parse_header:
  "list_all comment_line cs \<Longrightarrow> parse_known i None (cs @ raws) =
     rbind (parse_known (i + length cs) None raws) (\<lambda>f. Inr (f\<lparr>kf_header := cs @ kf_header f\<rparr>))"
proof (induction cs arbitrary: i)
  case Nil
  show ?case by (cases "parse_known i None raws") auto
next
  case (Cons c cs)
  then have c: "trim_space c = c" "has_prefix c ''#''" "c \<noteq> []" by (auto simp: comment_line_def has_prefix_iff)
  have IH: "parse_known (Suc i) None (cs @ raws) =
      rbind (parse_known (Suc i + length cs) None raws) (\<lambda>f. Inr (f\<lparr>kf_header := cs @ kf_header f\<rparr>))"
    using Cons by simp
  show ?case using c by (cases "parse_known (Suc i + length cs) None raws") (auto simp: IH Let_def)
qed

lemma parse_entry:
  "entry_ok e \<Longrightarrow> parse_known i seen (entry_string e # raws) =
     rbind (parse_known (i + 1) (Some []) raws) (\<lambda>f. Inr (f\<lparr>kf_entries := e\<lparr>ke_notes := (case seen of None \<Rightarrow> [] | Some ns \<Rightarrow> ns)\<rparr> # kf_entries f\<rparr>))"
  using entry_line_ok [of e] entry_read_back [of e] by (simp add: Let_def)

definition entry_lines :: "known_entry list \<Rightarrow> string list" where
  "entry_lines es = concat (map (\<lambda>e. ke_notes e @ [entry_string e]) es)"

lemma parse_entries:
  "list_all entry_ok es \<Longrightarrow> list_all comment_line trailer \<Longrightarrow>
     parse_known i (Some []) (entry_lines es @ trailer @ [[]]) = Inr \<lparr> kf_header = [], kf_entries = es, kf_trailer = trailer \<rparr>"
proof (induction es arbitrary: i)
  case Nil
  have "trim_space [] = []" by code_simp
  with Nil show ?case by (simp add: entry_lines_def parse_comments Let_def)
next
  case (Cons e es)
  then have "list_all comment_line (ke_notes e)" by (simp add: entry_ok_def)
  then have "parse_known i (Some []) (ke_notes e @ entry_string e # entry_lines es @ trailer @ [[]]) =
      parse_known (i + length (ke_notes e)) (Some (ke_notes e)) (entry_string e # entry_lines es @ trailer @ [[]])"
    by (simp add: parse_comments)
  also have "\<dots> = Inr \<lparr> kf_header = [], kf_entries = e # es, kf_trailer = trailer \<rparr>"
    using Cons by (simp add: parse_entry del: parse_known.simps)
  finally show ?case by (simp add: entry_lines_def)
qed

text \<open>The file as it is read back: sorted, and the notes of the first entry part of the header.\<close>

definition settled :: "known_file \<Rightarrow> known_file" where
  "settled f = (case sort_key entry_order (kf_entries f) of [] \<Rightarrow> f
     | e # es \<Rightarrow> f\<lparr> kf_header := kf_header f @ ke_notes e, kf_entries := e\<lparr>ke_notes := []\<rparr> # es \<rparr>)"

lemma split_lines: "list_all (\<lambda>l. CHR 0x0A \<notin> set l) ls \<Longrightarrow> split_char (CHR 0x0A) (concat (map (\<lambda>l. l @ [CHR 0x0A]) ls)) = ls @ [[]]"
  by (induction ls) (auto simp: split_char_append)

lemma known_lines_plain:
  assumes "file_ok f"
  shows "list_all (\<lambda>l. CHR 0x0A \<notin> set l) (known_lines f)"
  using assms entry_line_ok(4)
  by (auto simp: file_ok_def known_lines_def list_all_iff comment_line_def entry_ok_def)

lemma parse_file:
  assumes "list_all comment_line header" "list_all entry_ok (e # es)" "list_all comment_line trailer"
  shows "parse_known i None (header @ entry_lines (e # es) @ trailer @ [[]]) =
    Inr \<lparr> kf_header = header @ ke_notes e, kf_entries = e\<lparr>ke_notes := []\<rparr> # es, kf_trailer = trailer \<rparr>"
proof -
  have e: "entry_ok e" "list_all entry_ok es" "list_all comment_line (header @ ke_notes e)"
    using assms by (auto simp: entry_ok_def)
  have "header @ entry_lines (e # es) @ trailer @ [[]] = (header @ ke_notes e) @ entry_string e # entry_lines es @ trailer @ [[]]"
    by (simp add: entry_lines_def)
  then show ?thesis by (simp only: parse_header [OF e(3)] parse_entry [OF e(1)] parse_entries [OF e(2) assms(3)]) simp
qed

lemma read_back:
  assumes "file_ok f"
  shows "ParseKnown (RenderKnown f) = Inr (settled f)"
proof -
  let ?es = "sort_key entry_order (kf_entries f)"
  have ok: "list_all entry_ok ?es" "list_all comment_line (kf_header f)" "list_all comment_line (kf_trailer f)"
    using assms by (simp_all add: file_ok_def list_all_iff)
  have lines: "ParseKnown (RenderKnown f) = parse_known 0 None (kf_header f @ entry_lines ?es @ kf_trailer f @ [[]])"
    unfolding ParseKnown_def RenderKnown_def split_lines [OF known_lines_plain [OF assms]]
    by (simp add: known_lines_def entry_lines_def)
  show ?thesis
  proof (cases ?es)
    case Nil
    then have "kf_entries f = []" by (metis length_0_conv length_sort)
    moreover have "trim_space [] = []" by code_simp
    ultimately show ?thesis using assms ok Nil unfolding lines settled_def file_ok_def
      by (auto simp: parse_header entry_lines_def Let_def)
  next
    case (Cons e es)
    then show ?thesis using ok parse_file [of "kf_header f" e es "kf_trailer f" 0] unfolding lines settled_def by simp
  qed
qed

text \<open>
  C23. What was read from a known_hosts file is written so that it is read back: the same keys,
  sorted, each under its notes, but the notes of the key that sorts first, which become part of the
  header. Written again, the file is the same, byte for byte.
\<close>
theorem known_hosts_read_back:
  assumes "ParseKnown d = Inr f"
  shows "ParseKnown (RenderKnown f) = Inr (settled f) \<and> RenderKnown (settled f) = RenderKnown f"
proof -
  have "RenderKnown (settled f) = RenderKnown f"
  proof (cases "sort_key entry_order (kf_entries f)")
    case (Cons e es)
    have "sorted (map entry_order (e\<lparr>ke_notes := []\<rparr> # es))"
      using sorted_sort_key [of entry_order "kf_entries f"] by (simp add: Cons entry_order_def)
    then have "sort_key entry_order (e\<lparr>ke_notes := []\<rparr> # es) = e\<lparr>ke_notes := []\<rparr> # es" by (rule sort_key_id_if_sorted)
    moreover have "entry_string (e\<lparr>ke_notes := []\<rparr>) = entry_string e" by (simp add: entry_string_def Let_def)
    ultimately show ?thesis by (simp add: RenderKnown_def known_lines_def settled_def Cons)
  qed (simp add: settled_def)
  with read_back [OF ParseKnown_ok [OF assms]] show ?thesis by blast
qed

text \<open>A note above the key that sorts first: once written, it is part of the header.\<close>

definition noted_entries :: "string list \<Rightarrow> known_entry list" where
  "noted_entries ns =
     [\<lparr> ke_marker = [], ke_hosts = [''b''], ke_type = ''ssh-rsa'', ke_key = ''K1'', ke_comment = [], ke_notes = [] \<rparr>,
      \<lparr> ke_marker = [], ke_hosts = [''a''], ke_type = ''ssh-rsa'', ke_key = ''K2'', ke_comment = [], ke_notes = ns \<rparr>]"

definition noted_file :: string where
  "noted_file = concat (map (\<lambda>l. l @ [CHR 0x0A]) [''# site keys'', ''b ssh-rsa K1'', ''# spare board'', ''a ssh-rsa K2''])"

lemma noted_file_read:
  "ParseKnown noted_file = Inr \<lparr> kf_header = [''# site keys''], kf_entries = noted_entries [''# spare board''], kf_trailer = [] \<rparr>"
proof -
  have "comment_line ''# site keys''" "comment_line ''# spare board''" by code_simp+
  moreover have "word_ok ''b''" "word_ok ''a''" "word_ok ''ssh-rsa''" "word_ok ''K1''" "word_ok ''K2''" by code_simp+
  moreover have "\<exists>ws. list_all word_ok ws \<and> [] = join_str '' '' ws" by (rule exI [of _ "[]"]) simp
  ultimately have ok: "list_all comment_line [''# site keys'']" "list_all entry_ok (noted_entries [''# spare board''])"
    by (simp_all add: noted_entries_def entry_ok_def)
  have "split_char (CHR 0x0A) noted_file = [''# site keys''] @ entry_lines (noted_entries [''# spare board'']) @ [] @ [[]]" by code_simp
  then show ?thesis using ok parse_file [of "[''# site keys'']" "hd (noted_entries [''# spare board''])" "tl (noted_entries [''# spare board''])" "[]" 0]
    by (simp add: ParseKnown_def noted_entries_def)
qed

theorem known_hosts_read_back_witness:
  "\<exists>f. ParseKnown noted_file = Inr f \<and> kf_entries f = noted_entries [''# spare board''] \<and>
     ParseKnown (RenderKnown f) =
       Inr \<lparr> kf_header = [''# site keys'', ''# spare board''], kf_entries = rev (noted_entries []), kf_trailer = [] \<rparr>"
proof -
  let ?f = "\<lparr> kf_header = [''# site keys''], kf_entries = noted_entries [''# spare board''], kf_trailer = [] \<rparr>"
  have "settled ?f = \<lparr> kf_header = [''# site keys'', ''# spare board''], kf_entries = rev (noted_entries []), kf_trailer = [] \<rparr>"
    by code_simp
  with known_hosts_read_back [OF noted_file_read] noted_file_read show ?thesis by simp
qed

end
