(* ===== verification/Inventory.thy ===== *)
theory Inventory
  imports Naming ApiTypes "HOL-Library.AList"
begin

text \<open>
  The nodes of a site, \<open>internal/inventory/inventory.go\<close>: building the inventory from its documents,
  the checks that refuse it, and the questions it answers. Which entry set a field is kept by the
  code for the texts of errors only, and is left out; an error names the document and the entry.
  The name a node set holds a host under, \<open>Canonical\<close> of the node set engine, is the parameter
  \<open>canon\<close>.
\<close>

section \<open>Documents\<close>

record node_entry =
  ne_nodes :: string
  ne_attributes :: "string go_map"
  ne_rack :: string
  ne_level :: string
  ne_address :: string
  ne_bmc_address :: string
  ne_cid :: string
  ne_macs :: "string list"
  ne_boot_path :: string

record inventory_spec =
  is_defaults :: "string go_map"
  is_nodes :: "node_entry list"

record inv_node =
  in_name :: string
  in_attributes :: "string go_map"
  in_rack :: string
  in_level :: string
  in_address :: string
  in_bmc_address :: string
  in_cid :: string
  in_macs :: "string list"
  in_boot_path :: string

text \<open>The nodes by name, the names in their order, all names as a set, and the attributes asked about.\<close>

record 'ns inventory =
  iv_nodes :: "inv_node go_map"
  iv_order :: "string list"
  iv_all :: 'ns
  iv_attributes :: "'ns go_map go_map"

text \<open>\<open>m[k]\<close> of a map of strings: the empty string where there is none.\<close>

definition attr_value :: "string go_map \<Rightarrow> string \<Rightarrow> string" where
  "attr_value m k = (case find_key m k of None \<Rightarrow> [] | Some v \<Rightarrow> v)"

section \<open>Identifiers\<close>

text \<open>\<open>net.ParseMAC\<close>: pairs of hex digits between colons or dashes, or groups of four between dots.\<close>

definition hex_bytes :: "string \<Rightarrow> nat list option" where
  "hex_bytes s =
     (if length s = 2 \<and> list_all is_hex s then Some [hex_value s]
      else if length s = 4 \<and> list_all is_hex s then Some [hex_value (take 2 s), hex_value (drop 2 s)] else None)"

definition mac_groups :: "nat \<Rightarrow> string list \<Rightarrow> nat list option" where
  "mac_groups width gs =
     (if list_all (\<lambda>g. length g = width \<and> list_all is_hex g) gs then Some (concat (List.map_filter hex_bytes gs)) else None)"

definition parse_mac :: "string \<Rightarrow> nat list option" where
  "parse_mac s =
     (if length s < 14 then None
      else
        let bytes = (if s ! 2 = CHR '':'' \<or> s ! 2 = CHR ''-'' then mac_groups 2 (split_char (s ! 2) s)
                     else if s ! 4 = CHR ''.'' then mac_groups 4 (split_char (CHR ''.'') s) else None)
        in case bytes of None \<Rightarrow> None
           | Some bs \<Rightarrow> if length bs \<in> {6, 8, 20} then Some bs else None)"

text \<open>
  An address, as its 16 bytes. \<open>netip.ParseAddr\<close> also takes a zone, which is refused here, so what
  is left is what \<open>net.ParseIP\<close> takes, and \<open>Unmap\<close> makes one of the two ways to write an IPv4 address.
\<close>

definition ip_address :: "string \<Rightarrow> nat list option" where
  "ip_address s = parse_ip s"

definition checkIdentifiers :: "node_entry \<Rightarrow> goerr option" where
  "checkIdentifiers e =
     (if ne_address e \<noteq> [] \<and> ip_address (ne_address e) = None then
        Some (Leaf ''address %q is not an IP address: %w'' [ne_address e])
      else if ne_bmc_address e \<noteq> [] \<and> ip_address (ne_bmc_address e) = None \<and> Check (ne_bmc_address e) \<noteq> None then
        Some (Leaf ''bmcAddress %q is neither an IP address nor a host name: %w; %w'' [ne_bmc_address e])
      else case find (\<lambda>m. case parse_mac m of None \<Rightarrow> True | Some bs \<Rightarrow> length bs \<noteq> 6) (ne_macs e) of
        Some m \<Rightarrow> Some (Leaf ''%q in macs is not a 48-bit MAC address: %w'' [m]) | None \<Rightarrow> None)"

definition placement_clash :: "node_entry \<Rightarrow> string \<Rightarrow> string \<Rightarrow> bool" where
  "placement_clash e key v =
     (case find_key (ne_attributes e) key of None \<Rightarrow> False | Some a \<Rightarrow> v \<noteq> [] \<and> a \<noteq> v)"

definition checkPlacement :: "node_entry \<Rightarrow> goerr option" where
  "checkPlacement e =
     (if placement_clash e ''rack'' (ne_rack e) then Some (Leaf ''%s is %s, and the %s attribute %s; write it once'' [''rack'', ne_rack e])
      else if placement_clash e ''level'' (ne_level e) then Some (Leaf ''%s is %s, and the %s attribute %s; write it once'' [''level'', ne_level e])
      else None)"

definition singleNodeField :: "node_entry \<Rightarrow> string" where
  "singleNodeField e =
     (if ne_address e \<noteq> [] then ''address'' else if ne_bmc_address e \<noteq> [] then ''bmcAddress''
      else if ne_cid e \<noteq> [] then ''cid'' else if ne_macs e \<noteq> [] then ''macs'' else [])"

text \<open>
  What two identifiers must share to name one machine. An IPv6 address is written with a colon,
  which no other identifier of an accepted entry has, so its bytes stand for its text.
\<close>

datatype ident_key = CidKey string | MacKey "nat list" | TextKey string | Ip6Key "nat list"

definition ip_key :: "nat list \<Rightarrow> ident_key" where
  "ip_key bs =
     (if take 12 bs = replicate 10 0 @ [255, 255] then TextKey (join_str ''.'' (map nat_digits (drop 12 bs))) else Ip6Key bs)"

datatype ident_field = FAddress | FBmcAddress | FCid | FMacs

definition identifierKey :: "ident_field \<Rightarrow> string \<Rightarrow> ident_key" where
  "identifierKey field v =
     (let txt = TextKey (trim_suffix (to_lower v) ''.'') in
      case field of FCid \<Rightarrow> CidKey v
      | FMacs \<Rightarrow> (case parse_mac v of Some bs \<Rightarrow> MacKey bs | None \<Rightarrow> txt)
      | _ \<Rightarrow> (case ip_address v of Some bs \<Rightarrow> ip_key bs | None \<Rightarrow> txt))"

definition identifiers :: "inv_node \<Rightarrow> (ident_field \<times> string) list" where
  "identifiers n =
     (if in_address n \<noteq> [] then [(FAddress, in_address n)] else []) @
     (if in_bmc_address n \<noteq> [] then [(FBmcAddress, in_bmc_address n)] else []) @
     (if in_cid n \<noteq> [] then [(FCid, in_cid n)] else []) @
     map (Pair FMacs) (in_macs n)"

text \<open>The keys seen so far, each with the node it was first seen on.\<close>

fun check_idents :: "string \<Rightarrow> (ident_field \<times> string) list \<Rightarrow> (ident_key \<times> string) list \<Rightarrow> goerr + (ident_key \<times> string) list" where
  "check_idents name [] seen = Inr seen"
| "check_idents name ((field, v) # ids) seen =
     (let k = identifierKey field v in
      case map_of seen k of
        None \<Rightarrow> check_idents name ids ((k, name) # seen)
      | Some first \<Rightarrow>
          if first = name then check_idents name ids seen
          else Inl (Leaf ''%s gives %s %s %s, which is %s %s of %s, given by %s; each machine needs its own'' [name, v, first]))"

fun check_unique :: "inv_node list \<Rightarrow> (ident_key \<times> string) list \<Rightarrow> goerr option" where
  "check_unique [] seen = None"
| "check_unique (n # ns) seen =
     (case check_idents (in_name n) (identifiers n) seen of Inl e \<Rightarrow> Some e | Inr seen' \<Rightarrow> check_unique ns seen')"

section \<open>Building\<close>

record 'ns builder =
  bd_nodes :: "inv_node go_map"
  bd_order :: "string list"
  bd_folded :: 'ns
  bd_spelling :: "string go_map"

definition claim ::
  "'ns nodeset_lib \<Rightarrow> ('ns \<Rightarrow> string \<Rightarrow> string option) \<Rightarrow> string \<Rightarrow> 'ns builder \<Rightarrow> goerr + 'ns builder" where
  "claim L canon name b =
     (if attr_value (bd_spelling b) name = name then Inr b
      else
        let lower = to_lower name in
        case ns_add L (bd_folded b) lower of
          Inl e \<Rightarrow> Inl e
        | Inr folded \<Rightarrow>
            let b' = b\<lparr>bd_folded := folded\<rparr> in
            if ns_len L folded = ns_len L (bd_folded b) then
              (let first = attr_value (bd_spelling b) (case canon folded lower of None \<Rightarrow> [] | Some c \<Rightarrow> c)
               in if first \<noteq> name then
                    Inl (Leaf ''%s names %s, which %s wrote as %s; names differing only in padding or case are one host'' [name, first])
                  else Inr b')
            else if name \<noteq> lower then
              Inl (Leaf ''%s names %s; host names are not case sensitive, so write it %s'' [name, lower])
            else Inr (b'\<lparr>bd_spelling := AList.update lower name (bd_spelling b)\<rparr>))"

text \<open>\<open>maps.Copy\<close>, and a field that is also an attribute, set by either.\<close>

definition copy_map :: "string go_map \<Rightarrow> string go_map \<Rightarrow> string go_map" where
  "copy_map dst src = foldl (\<lambda>m (k, v). AList.update k v m) dst src"

definition place :: "string \<Rightarrow> string \<Rightarrow> string go_map \<Rightarrow> string \<times> string go_map \<Rightarrow> string \<times> string go_map" where
  "place key v attrs st =
     (case st of (field, node_attrs) \<Rightarrow>
       let set_to = (\<lambda>v. (v, if v = [] then AList.delete key node_attrs else AList.update key v node_attrs))
       in case find_key attrs key of Some a \<Rightarrow> set_to a
          | None \<Rightarrow> if v = [] then (field, node_attrs) else set_to v)"

definition set_if :: "string \<Rightarrow> string \<Rightarrow> string" where
  "set_if dst v = (if v \<noteq> [] then v else dst)"

definition new_node :: "string \<Rightarrow> string go_map \<Rightarrow> inv_node" where
  "new_node name defaults =
     (let attrs = copy_map [] defaults in
      \<lparr> in_name = name, in_attributes = attrs, in_rack = attr_value attrs ''rack'', in_level = attr_value attrs ''level'',
        in_address = [], in_bmc_address = [], in_cid = [], in_macs = [], in_boot_path = [] \<rparr>)"

definition apply_entry :: "node_entry \<Rightarrow> inv_node \<Rightarrow> inv_node" where
  "apply_entry e n =
     (let attrs = copy_map (in_attributes n) (ne_attributes e);
          (rack, attrs) = place ''rack'' (ne_rack e) (ne_attributes e) (in_rack n, attrs);
          (level, attrs) = place ''level'' (ne_level e) (ne_attributes e) (in_level n, attrs)
      in n\<lparr> in_attributes := attrs, in_rack := rack, in_level := level,
            in_address := set_if (in_address n) (ne_address e), in_bmc_address := set_if (in_bmc_address n) (ne_bmc_address e),
            in_cid := set_if (in_cid n) (ne_cid e), in_macs := (if ne_macs e \<noteq> [] then ne_macs e else in_macs n),
            in_boot_path := set_if (in_boot_path n) (ne_boot_path e) \<rparr>)"

definition inv_apply :: "string \<Rightarrow> string go_map \<Rightarrow> node_entry \<Rightarrow> 'ns builder \<Rightarrow> 'ns builder" where
  "inv_apply name defaults e b =
     (case find_key (bd_nodes b) name of
        Some n \<Rightarrow> b\<lparr>bd_nodes := AList.update name (apply_entry e n) (bd_nodes b)\<rparr>
      | None \<Rightarrow> b\<lparr>bd_nodes := AList.update name (apply_entry e (new_node name defaults)) (bd_nodes b), bd_order := bd_order b @ [name]\<rparr>)"

text \<open>The hosts of an entry, one after another, and an entry with its checks before them.\<close>

fun claim_all ::
  "'ns nodeset_lib \<Rightarrow> ('ns \<Rightarrow> string \<Rightarrow> string option) \<Rightarrow> string go_map \<Rightarrow> node_entry \<Rightarrow> string list \<Rightarrow> 'ns builder \<Rightarrow> goerr + 'ns builder" where
  "claim_all L canon defaults e [] b = Inr b"
| "claim_all L canon defaults e (x # xs) b =
     rbind (claim L canon x b) (\<lambda>b'. claim_all L canon defaults e xs (inv_apply x defaults e b'))"

definition add_node_entry ::
  "'ns nodeset_lib \<Rightarrow> ('ns \<Rightarrow> string \<Rightarrow> string option) \<Rightarrow> string go_map \<Rightarrow> node_entry \<Rightarrow> 'ns builder \<Rightarrow> goerr + 'ns builder" where
  "add_node_entry L canon defaults e b =
     (case ns_parse L (ne_nodes e) of Inl err \<Rightarrow> Inl (Wrap ''%s: %w'' [] [err])
      | Inr ns \<Rightarrow>
          if ns_is_empty L ns then Inl (Leaf ''%s names no node'' [])
          else if 1 < ns_len L ns \<and> singleNodeField e \<noteq> [] then
            Inl (Leaf ''%s sets %s for %d nodes; that field describes one machine'' [singleNodeField e])
          else case checkIdentifiers e of Some err \<Rightarrow> Inl (Wrap ''%s: %w'' [] [err])
            | None \<Rightarrow>
              (case checkPlacement e of Some err \<Rightarrow> Inl (Wrap ''%s: %w'' [] [err])
               | None \<Rightarrow> claim_all L canon defaults e (ns_expand L ns) b))"

fun add_entries ::
  "'ns nodeset_lib \<Rightarrow> ('ns \<Rightarrow> string \<Rightarrow> string option) \<Rightarrow> (string go_map \<times> node_entry) list \<Rightarrow> 'ns builder \<Rightarrow> goerr + 'ns builder" where
  "add_entries L canon [] b = Inr b"
| "add_entries L canon ((defaults, e) # des) b =
     rbind (add_node_entry L canon defaults e b) (\<lambda>b'. add_entries L canon des b')"

definition entries_of :: "inventory_spec list \<Rightarrow> (string go_map \<times> node_entry) list" where
  "entries_of docs = concat (map (\<lambda>d. map (Pair (is_defaults d)) (is_nodes d)) docs)"

definition start_builder :: "'ns nodeset_lib \<Rightarrow> 'ns builder" where
  "start_builder L = \<lparr> bd_nodes = [], bd_order = [], bd_folded = ns_new L, bd_spelling = [] \<rparr>"

definition node_at :: "inv_node go_map \<Rightarrow> string \<Rightarrow> inv_node list" where
  "node_at nodes name = (case find_key nodes name of None \<Rightarrow> [] | Some n \<Rightarrow> [n])"

definition FromDocuments ::
  "'ns nodeset_lib \<Rightarrow> ('ns \<Rightarrow> string \<Rightarrow> string option) \<Rightarrow> inventory_spec list \<Rightarrow> goerr + 'ns inventory" where
  "FromDocuments L canon docs =
     rbind (add_entries L canon (entries_of docs) (start_builder L)) (\<lambda>b.
       case check_unique (concat (map (node_at (bd_nodes b)) (bd_order b))) [] of
         Some e \<Rightarrow> Inl e
       | None \<Rightarrow> Inr \<lparr> iv_nodes = bd_nodes b, iv_order = sort (bd_order b), iv_all = bd_folded b, iv_attributes = [] \<rparr>)"

section \<open>Questions\<close>

definition inv_len :: "'ns inventory \<Rightarrow> nat" where
  "inv_len iv = length (iv_nodes iv)"

definition inv_lookup :: "('ns \<Rightarrow> string \<Rightarrow> string option) \<Rightarrow> 'ns inventory \<Rightarrow> string \<Rightarrow> inv_node option" where
  "inv_lookup canon iv name =
     (case find_key (iv_nodes iv) name of Some n \<Rightarrow> Some n
      | None \<Rightarrow> (case canon (iv_all iv) name of None \<Rightarrow> None | Some c \<Rightarrow> find_key (iv_nodes iv) c))"

definition inv_all_nodes :: "'ns inventory \<Rightarrow> inv_node list" where
  "inv_all_nodes iv = concat (map (node_at (iv_nodes iv)) (iv_order iv))"

definition inv_select ::
  "'ns nodeset_lib \<Rightarrow> ('ns \<Rightarrow> string \<Rightarrow> string option) \<Rightarrow> 'ns inventory \<Rightarrow> 'ns \<Rightarrow> inv_node list \<times> string list" where
  "inv_select L canon iv ns =
     foldl (\<lambda>(known, unknown) name.
         case canon (iv_all iv) name of None \<Rightarrow> (known, unknown @ [name])
         | Some c \<Rightarrow> (case find_key (iv_nodes iv) c of None \<Rightarrow> (known, unknown @ [name]) | Some n \<Rightarrow> (known @ [n], unknown)))
       ([], []) (ns_expand L ns)"

text \<open>The set an index holds for a value, or a new one.\<close>

definition at_value :: "('ns, 'z) nodeset_lib_scheme \<Rightarrow> 'ns go_map \<Rightarrow> string \<Rightarrow> 'ns" where
  "at_value L index v = (case find_key index v of None \<Rightarrow> ns_new L | Some s \<Rightarrow> s)"

text \<open>The nodes of each value of an attribute, built the first time it is asked about.\<close>

definition value_index :: "('ns, 'z) nodeset_lib_scheme \<Rightarrow> 'ns inventory \<Rightarrow> string \<Rightarrow> 'ns go_map" where
  "value_index L iv key =
     foldl (\<lambda>index n. case find_key (in_attributes n) key of None \<Rightarrow> index
         | Some v \<Rightarrow> AList.update v (add_quiet L (at_value L index v) (in_name n)) index)
       [] (inv_all_nodes iv)"

definition by_value :: "('ns, 'z) nodeset_lib_scheme \<Rightarrow> 'ns inventory \<Rightarrow> string \<Rightarrow> 'ns go_map \<times> 'ns inventory" where
  "by_value L iv key =
     (case find_key (iv_attributes iv) key of Some index \<Rightarrow> (index, iv)
      | None \<Rightarrow> let index = value_index L iv key in (index, iv\<lparr>iv_attributes := AList.update key index (iv_attributes iv)\<rparr>))"

definition AttributeValues :: "('ns, 'z) nodeset_lib_scheme \<Rightarrow> 'ns inventory \<Rightarrow> string \<Rightarrow> string list \<times> 'ns inventory" where
  "AttributeValues L iv key =
     (case by_value L iv key of (index, iv') \<Rightarrow> (sort (filter (\<lambda>v. v \<noteq> []) (map fst index)), iv'))"

definition AttributeKeys :: "'ns inventory \<Rightarrow> string list" where
  "AttributeKeys iv = sort (remdups (concat (map (\<lambda>n. map fst (in_attributes n)) (inv_all_nodes iv))))"

definition WithAttribute :: "('ns, 'z) nodeset_lib_scheme \<Rightarrow> 'ns inventory \<Rightarrow> string \<Rightarrow> string \<Rightarrow> 'ns \<times> 'ns inventory" where
  "WithAttribute L iv key v =
     (case by_value L iv key of (index, iv') \<Rightarrow>
       (if v \<noteq> [] then at_value L index v
        else foldl (\<lambda>s n. if find_key (in_attributes n) key = None then s else add_quiet L s (in_name n)) (ns_new L) (inv_all_nodes iv), iv'))"

definition Racks :: "('ns, 'z) nodeset_lib_scheme \<Rightarrow> 'ns inventory \<Rightarrow> string list \<times> 'ns inventory" where
  "Racks L iv = AttributeValues L iv ''rack''"

definition InRack :: "('ns, 'z) nodeset_lib_scheme \<Rightarrow> 'ns inventory \<Rightarrow> string \<Rightarrow> 'ns \<times> 'ns inventory" where
  "InRack L iv rack = (if rack = [] then (ns_new L, iv) else WithAttribute L iv ''rack'' rack)"

section \<open>Boot paths\<close>

record boot_rule =
  br_nodes :: string
  br_path :: string
  br_static :: bool

text \<open>The rules parsed, once, or the rule that cannot be; \<open>None\<close> before the first node needs them.\<close>

record 'ns boot_paths =
  bp_rules :: "boot_rule list"
  bp_sets :: "(goerr + 'ns list) option"

fun parse_rules :: "'ns nodeset_lib \<Rightarrow> nat \<Rightarrow> boot_rule list \<Rightarrow> goerr + 'ns list" where
  "parse_rules L i [] = Inr []"
| "parse_rules L i (r # rs) =
     (case ns_parse L (br_nodes r) of Inl e \<Rightarrow> Inl (Wrap ''boot path rule %d: %w'' [nat_digits (i + 1)] [e])
      | Inr ns \<Rightarrow> rbind (parse_rules L (i + 1) rs) (\<lambda>sets. Inr (ns # sets)))"

definition matching_rules :: "'ns nodeset_lib \<Rightarrow> boot_rule list \<Rightarrow> 'ns list \<Rightarrow> string \<Rightarrow> boot_rule list" where
  "matching_rules L rules sets node = map fst (filter (\<lambda>(r, s). ns_contains L s node) (zip rules sets))"

definition rule_path :: "'ns nodeset_lib \<Rightarrow> boot_rule list \<Rightarrow> string \<Rightarrow> 'ns list \<Rightarrow> goerr + string \<times> bool" where
  "rule_path L rules node sets =
     (case matching_rules L rules sets node of
        [] \<Rightarrow> Inl (Leaf ''no boot path is configured for %s'' [node])
      | [r] \<Rightarrow> Inr (br_path r, br_static r)
      | rs \<Rightarrow> Inl (Leaf ''%d boot path rules name %s; exactly one must'' [nat_digits (length rs), node]))"

definition own_boot_path :: "('ns \<Rightarrow> string \<Rightarrow> string option) \<Rightarrow> 'ns inventory \<Rightarrow> string \<Rightarrow> string" where
  "own_boot_path canon iv node = (case inv_lookup canon iv node of None \<Rightarrow> [] | Some n \<Rightarrow> in_boot_path n)"

definition boot_path_of ::
  "'ns nodeset_lib \<Rightarrow> ('ns \<Rightarrow> string \<Rightarrow> string option) \<Rightarrow> 'ns inventory \<Rightarrow> 'ns boot_paths \<Rightarrow> string \<Rightarrow> (goerr + string \<times> bool) \<times> 'ns boot_paths" where
  "boot_path_of L canon iv b node =
     (let own = own_boot_path canon iv node in
      if own \<noteq> [] then (Inr (own, False), b)
      else
        let sets = (case bp_sets b of Some r \<Rightarrow> r | None \<Rightarrow> parse_rules L 0 (bp_rules b))
        in (rbind sets (rule_path L (bp_rules b) node), b\<lparr>bp_sets := Some sets\<rparr>))"

end
