(* ===== verification/InventoryProps.thy ===== *)
theory InventoryProps
  imports Inventory
begin

text \<open>
  What an accepted inventory is: one record for a host, each reached by every way of writing its
  name, the fields those of the last entry that gives them, no identifier on two machines. The
  interface to the node set engine adds the laws of \<open>Canonical\<close> and of adding one host to the laws
  the other components use.
\<close>

lemma lower_char_alnum: "is_alnum (lower_char c) \<or> lower_char c = c"
  using lower_char_image [of c "lower_char c"] by (auto simp: is_alnum_def)

section \<open>The interface\<close>

locale inventory_contract = nodeset_contract L key
  for L :: "'ns nodeset_lib" and key :: "string \<Rightarrow> string" +
  fixes canon :: "'ns \<Rightarrow> string \<Rightarrow> string option"
  assumes canon_iff: "canon s x = Some y \<longleftrightarrow> y \<in> set (ns_expand L s) \<and> key y = key x"
    and expand_nonempty: "[] \<notin> set (ns_expand L s)"
    and expand_new: "ns_expand L (ns_new L) = []"
    and add_host: "x \<in> set (ns_expand L t) \<Longrightarrow> ns_add L s (to_lower x) = Inr u \<Longrightarrow>
          set (ns_expand L u) =
            (if key (to_lower x) \<in> ns_keys L key s then set (ns_expand L s)
             else insert (to_lower x) (set (ns_expand L s)))"
begin

lemma canon_expanded: "x \<in> set (ns_expand L s) \<Longrightarrow> canon s x = Some x"
  by (simp add: canon_iff)

lemma canon_None: "canon s x = None \<longleftrightarrow> key x \<notin> ns_keys L key s"
proof -
  have "(\<exists>y. canon s x = Some y) \<longleftrightarrow> key x \<in> ns_keys L key s"
    by (auto simp: canon_iff ns_keys_def image_iff) (metis)
  then show ?thesis by (metis not_None_eq)
qed

lemma len_same_iff:
  assumes "x \<in> set (ns_expand L t)" and "ns_add L s (to_lower x) = Inr u"
  shows "ns_len L u = ns_len L s \<longleftrightarrow> key (to_lower x) \<in> ns_keys L key s"
proof -
  have "ns_keys L key u = (if key (to_lower x) \<in> ns_keys L key s then ns_keys L key s
      else insert (key (to_lower x)) (ns_keys L key s))"
    using add_host [OF assms] by (auto simp: ns_keys_def)
  moreover have "finite (ns_keys L key s)" by (simp add: ns_keys_def)
  ultimately show ?thesis by (simp add: len_keys)
qed

text \<open>Every host claimed so far, under the lower-case name it was first written as.\<close>

definition spelled :: "'ns builder \<Rightarrow> bool" where
  "spelled b \<longleftrightarrow>
     (\<forall>x. find_key (bd_spelling b) x = (if x \<in> set (ns_expand L (bd_folded b)) then Some x else None)) \<and>
     (\<forall>x\<in>set (ns_expand L (bd_folded b)). to_lower x = x)"

lemma spelled_attr: "spelled b \<Longrightarrow> attr_value (bd_spelling b) x = x \<longleftrightarrow> x \<in> set (ns_expand L (bd_folded b)) \<or> x = []"
  by (auto simp: spelled_def attr_value_def)

lemma spelled_attr_value: "spelled b \<Longrightarrow> attr_value (bd_spelling b) x = (if x \<in> set (ns_expand L (bd_folded b)) then x else [])"
  by (auto simp: spelled_def attr_value_def)

lemma spelled_start: "spelled (start_builder L)"
  by (simp add: spelled_def start_builder_def find_key_def expand_new)

lemma claim_spelled:
  assumes "claim L canon x b = Inr b'" and "spelled b" and x: "x \<in> set (ns_expand L t)"
  shows "spelled b' \<and> set (ns_expand L (bd_folded b')) = insert x (set (ns_expand L (bd_folded b))) \<and> to_lower x = x"
proof (cases "attr_value (bd_spelling b) x = x")
  case True
  moreover from True have "x \<in> set (ns_expand L (bd_folded b))"
    using assms(2) x expand_nonempty spelled_attr by blast
  ultimately show ?thesis using assms(1,2) by (auto simp: claim_def spelled_def)
next
  case new: False
  obtain u where u: "ns_add L (bd_folded b) (to_lower x) = Inr u"
    using assms(1) new by (cases "ns_add L (bd_folded b) (to_lower x)") (auto simp: claim_def)
  note len = len_same_iff [OF x u] and add = add_host [OF x u]
  have "x \<noteq> []" using x expand_nonempty by blast
  show ?thesis
  proof (cases "ns_len L u = ns_len L (bd_folded b)")
    case True
    with add len have same: "set (ns_expand L u) = set (ns_expand L (bd_folded b))" by simp
    let ?c = "case canon u (to_lower x) of None \<Rightarrow> [] | Some c \<Rightarrow> c"
    from assms(1) new u True have "attr_value (bd_spelling b) ?c = x" and b': "b' = b\<lparr>bd_folded := u\<rparr>"
      by (auto simp: claim_def Let_def split: if_splits)
    with spelled_attr_value [OF assms(2), of ?c] \<open>x \<noteq> []\<close> have "x \<in> set (ns_expand L (bd_folded b))"
      by (auto split: if_splits)
    with same b' assms(2) show ?thesis by (auto simp: spelled_def)
  next
    case False
    with len add have grown: "set (ns_expand L u) = insert (to_lower x) (set (ns_expand L (bd_folded b)))" by simp
    from assms(1) new u False have "to_lower x = x"
        "b' = b\<lparr>bd_folded := u, bd_spelling := AList.update (to_lower x) x (bd_spelling b)\<rparr>"
      by (auto simp: claim_def Let_def split: if_splits)
    with grown assms(2) show ?thesis by (auto simp: spelled_def find_key_def update_conv')
  qed
qed

end

section \<open>Building a node from the entries that name it\<close>

definition names_node :: "('ns, 'z) nodeset_lib_scheme \<Rightarrow> string \<Rightarrow> node_entry \<Rightarrow> bool" where
  "names_node L x e \<longleftrightarrow> (case ns_parse L (ne_nodes e) of Inl _ \<Rightarrow> False | Inr s \<Rightarrow> x \<in> set (ns_expand L s))"

text \<open>One host's record after an entry, and after all that name it, in their order.\<close>

definition step_node :: "string \<Rightarrow> string go_map \<times> node_entry \<Rightarrow> inv_node option \<Rightarrow> inv_node option" where
  "step_node x de n =
     Some (apply_entry (snd de) (case n of None \<Rightarrow> new_node x (fst de) | Some m \<Rightarrow> m))"

definition node_from :: "('ns, 'z) nodeset_lib_scheme \<Rightarrow> string \<Rightarrow> (string go_map \<times> node_entry) list \<Rightarrow> inv_node option" where
  "node_from L x des = foldl (\<lambda>n de. step_node x de n) None (filter (\<lambda>de. names_node L x (snd de)) des)"

lemma find_inv_apply:
  "find_key (bd_nodes (inv_apply x d e b)) y =
     (if y = x then step_node x (d, e) (find_key (bd_nodes b) x) else find_key (bd_nodes b) y)"
  by (auto simp: inv_apply_def step_node_def find_key_def update_conv' split: option.splits)

lemma claim_nodes: "claim L canon x b = Inr b' \<Longrightarrow> bd_nodes b' = bd_nodes b \<and> bd_order b' = bd_order b"
  by (auto simp: claim_def Let_def split: if_splits sum.splits)

lemma find_claim_all:
  "claim_all L canon d e xs b = Inr b' \<Longrightarrow> distinct xs \<Longrightarrow>
     find_key (bd_nodes b') y =
       (if y \<in> set xs then step_node y (d, e) (find_key (bd_nodes b) y) else find_key (bd_nodes b) y)"
proof (induction xs arbitrary: b)
  case (Cons x xs)
  from Cons.prems(1) obtain b1 where b1: "claim L canon x b = Inr b1"
      "claim_all L canon d e xs (inv_apply x d e b1) = Inr b'" by (auto simp: rbind_Inr_iff)
  show ?case using Cons.IH [OF b1(2)] Cons.prems(2) claim_nodes [OF b1(1)]
    by (auto simp: find_inv_apply)
qed simp

lemma add_node_entry_parts:
  assumes "add_node_entry L canon d e b = Inr b'"
  obtains s where "ns_parse L (ne_nodes e) = Inr s" "claim_all L canon d e (ns_expand L s) b = Inr b'"
    "checkIdentifiers e = None" "checkPlacement e = None" "ns_len L s \<le> 1 \<or> singleNodeField e = []"
  using assms by (auto simp: add_node_entry_def split: sum.splits if_splits option.splits)

context nodeset_contract begin

lemma distinct_expand: "distinct (ns_expand L s)"
  using distinct_keys [of s] by (simp add: distinct_map)

lemma find_add_node_entry:
  assumes "add_node_entry L canon d e b = Inr b'"
  shows "find_key (bd_nodes b') y =
     (if names_node L y e then step_node y (d, e) (find_key (bd_nodes b) y) else find_key (bd_nodes b) y)"
  by (rule add_node_entry_parts [OF assms])
    (simp add: names_node_def find_claim_all [OF _ distinct_expand])

lemma find_add_entries:
  "add_entries L canon des b = Inr b' \<Longrightarrow>
     find_key (bd_nodes b') y =
       foldl (\<lambda>n de. step_node y de n) (find_key (bd_nodes b) y) (filter (\<lambda>de. names_node L y (snd de)) des)"
proof (induction des arbitrary: b)
  case (Cons de des)
  obtain d e where de: "de = (d, e)" by (cases de)
  from Cons.prems obtain b1 where b1: "add_node_entry L canon d e b = Inr b1" "add_entries L canon des b1 = Inr b'"
    by (auto simp: de rbind_Inr_iff)
  show ?case using Cons.IH [OF b1(2)] find_add_node_entry [OF b1(1), of y] by (simp add: de)
qed simp

lemma find_from_documents:
  "FromDocuments L canon docs = Inr iv \<Longrightarrow> find_key (iv_nodes iv) x = node_from L x (entries_of docs)"
  using find_add_entries [of canon "entries_of docs" "start_builder L"]
  by (auto simp: FromDocuments_def rbind_Inr_iff node_from_def start_builder_def find_key_def split: option.splits)

end

section \<open>The records agree with themselves\<close>

text \<open>A record under its own name, its rack and its level also its attributes of those names.\<close>

definition placed :: "string \<Rightarrow> inv_node \<Rightarrow> bool" where
  "placed x n \<longleftrightarrow> in_name n = x \<and> attr_value (in_attributes n) ''rack'' = in_rack n \<and>
     attr_value (in_attributes n) ''level'' = in_level n"

lemma attr_value_update: "attr_value (AList.update k v m) k' = (if k' = k then v else attr_value m k')"
  by (simp add: attr_value_def find_key_def update_conv')

lemma attr_value_delete: "attr_value (AList.delete k m) k' = (if k' = k then [] else attr_value m k')"
  by (simp add: attr_value_def find_key_def delete_conv')

lemma find_copy_map:
  "find_key (copy_map dst src) k = (case find_key (rev src) k of None \<Rightarrow> find_key dst k | Some v \<Rightarrow> Some v)"
  unfolding copy_map_def
  by (induction src arbitrary: dst)
    (auto simp: find_key_def update_conv' map_add_def split: option.splits prod.splits)

lemma attr_copy_map:
  assumes "distinct (map fst src)"
  shows "attr_value (copy_map dst src) k = (case find_key src k of None \<Rightarrow> attr_value dst k | Some v \<Rightarrow> v)"
proof -
  have "map_of (rev src) = map_of src" using assms by (subst map_of_inject_set) (simp_all add: rev_map [symmetric])
  with find_copy_map [of dst src k] show ?thesis by (simp add: attr_value_def find_key_def split: option.splits)
qed

lemma place_parts:
  assumes "place key v attrs (f, m) = (f', m')"
  shows "\<And>k. k \<noteq> key \<Longrightarrow> attr_value m' k = attr_value m k"
    and "f' = (case find_key attrs key of Some a \<Rightarrow> a | None \<Rightarrow> if v = [] then f else v)"
    and "attr_value m' key = (case find_key attrs key of Some a \<Rightarrow> a | None \<Rightarrow> if v = [] then attr_value m key else v)"
  using assms by (auto simp: place_def Let_def attr_value_update attr_value_delete split: option.splits if_splits)

lemma placed_new: "placed x (new_node x defaults)"
  by (simp add: placed_def new_node_def Let_def)

lemma placed_apply:
  assumes "placed x n" and "distinct (map fst (ne_attributes e))"
  shows "placed x (apply_entry e n)"
proof -
  let ?a = "copy_map (in_attributes n) (ne_attributes e)"
  obtain r m where r: "place ''rack'' (ne_rack e) (ne_attributes e) (in_rack n, ?a) = (r, m)" by fastforce
  obtain l m' where l: "place ''level'' (ne_level e) (ne_attributes e) (in_level n, m) = (l, m')" by fastforce
  have n: "apply_entry e n = n\<lparr> in_attributes := m', in_rack := r, in_level := l,
      in_address := set_if (in_address n) (ne_address e), in_bmc_address := set_if (in_bmc_address n) (ne_bmc_address e),
      in_cid := set_if (in_cid n) (ne_cid e), in_macs := (if ne_macs e \<noteq> [] then ne_macs e else in_macs n),
      in_boot_path := set_if (in_boot_path n) (ne_boot_path e) \<rparr>"
    by (simp only: apply_entry_def Let_def r l prod.case)
  note a = attr_copy_map [OF assms(2), of "in_attributes n"]
  have "attr_value m' ''rack'' = r" using assms(1) place_parts [OF r] place_parts(1) [OF l, of "''rack''"] a [of "''rack''"]
    by (simp add: placed_def split: option.splits)
  moreover have "attr_value m' ''level'' = l"
    using assms(1) place_parts(1) [OF r, of "''level''"] place_parts [OF l] a [of "''level''"]
    by (simp add: placed_def split: option.splits)
  ultimately show ?thesis using assms(1) by (simp add: n placed_def)
qed

lemma placed_steps:
  "list_all (\<lambda>de. distinct (map fst (ne_attributes (snd de)))) des \<Longrightarrow>
     case_option True (placed x) n \<Longrightarrow> case_option True (placed x) (foldl (\<lambda>n de. step_node x de n) n des)"
proof (induction des arbitrary: n)
  case (Cons de des)
  have "placed x (case n of None \<Rightarrow> new_node x (fst de) | Some m \<Rightarrow> m)"
    using Cons.prems(2) by (simp add: placed_new split: option.splits)
  with Cons.prems(1) have "case_option True (placed x) (step_node x de n)"
    by (simp add: step_node_def placed_apply)
  with Cons.prems(1) Cons.IH show ?case by simp
qed simp

lemma node_from_placed:
  assumes "list_all (\<lambda>de. distinct (map fst (ne_attributes (snd de)))) des" and "node_from L x des = Some n"
  shows "placed x n"
proof -
  have "list_all (\<lambda>de. distinct (map fst (ne_attributes (snd de)))) (filter (\<lambda>de. names_node L x (snd de)) des)"
    using assms(1) by (auto simp: list_all_iff simp del: split_paired_All)
  from placed_steps [OF this, of x None] assms(2) show ?thesis by (simp add: node_from_def)
qed

section \<open>One record for a host\<close>

text \<open>The names in the order they came, each with its record, and the set of those claimed.\<close>

definition listed :: "'ns builder \<Rightarrow> bool" where
  "listed b \<longleftrightarrow> distinct (bd_order b) \<and> distinct (map fst (bd_nodes b)) \<and> fst ` set (bd_nodes b) = set (bd_order b)"

lemma listed_apply: "listed b \<Longrightarrow> listed (inv_apply x d e b) \<and> set (bd_order (inv_apply x d e b)) = insert x (set (bd_order b))"
proof (cases "find_key (bd_nodes b) x")
  case None
  moreover assume "listed b"
  moreover from calculation have "x \<notin> set (bd_order b)" by (auto simp: listed_def find_key_None)
  ultimately show ?thesis by (simp add: inv_apply_def listed_def distinct_update dom_update)
next
  case (Some n)
  moreover assume "listed b"
  moreover from calculation have "x \<in> fst ` set (bd_nodes b)"
    by (metis find_key_None option.distinct(1))
  ultimately show ?thesis by (auto simp: inv_apply_def listed_def distinct_update dom_update)
qed

context inventory_contract begin

definition built :: "'ns builder \<Rightarrow> bool" where
  "built b \<longleftrightarrow> spelled b \<and> listed b \<and> set (ns_expand L (bd_folded b)) = set (bd_order b)"

lemma built_start: "built (start_builder L)"
  using spelled_start by (simp add: built_def listed_def) (simp add: start_builder_def expand_new)

lemma spelled_more: "bd_spelling b' = bd_spelling b \<Longrightarrow> bd_folded b' = bd_folded b \<Longrightarrow> spelled b' = spelled b"
  by (simp add: spelled_def)

lemma inv_apply_keeps: "bd_spelling (inv_apply x d e b) = bd_spelling b" "bd_folded (inv_apply x d e b) = bd_folded b"
  by (simp_all add: inv_apply_def split: option.splits)

lemma built_claim_apply:
  assumes "claim L canon x b = Inr b'" and "built b" and "x \<in> set (ns_expand L t)"
  shows "built (inv_apply x d e b')"
proof -
  from claim_spelled [OF assms(1) _ assms(3)] assms(2)
  have s: "spelled b'" "set (ns_expand L (bd_folded b')) = insert x (set (ns_expand L (bd_folded b)))"
    by (auto simp: built_def)
  have "listed b'" using assms(2) claim_nodes [OF assms(1)] by (simp add: built_def listed_def)
  from listed_apply [OF this, of x d e] s claim_nodes [OF assms(1)] assms(2) show ?thesis
    by (simp add: built_def inv_apply_keeps spelled_more [OF inv_apply_keeps])
qed

lemma built_claim_all:
  "claim_all L canon d e xs b = Inr b' \<Longrightarrow> built b \<Longrightarrow> set xs \<subseteq> set (ns_expand L t) \<Longrightarrow> built b'"
proof (induction xs arbitrary: b)
  case (Cons x xs)
  from Cons.prems(1) obtain b1 where b1: "claim L canon x b = Inr b1"
      "claim_all L canon d e xs (inv_apply x d e b1) = Inr b'" by (auto simp: rbind_Inr_iff)
  from Cons.prems(3) have "x \<in> set (ns_expand L t)" by simp
  from built_claim_apply [OF b1(1) Cons.prems(2) this] have "built (inv_apply x d e b1)" .
  from Cons.IH [OF b1(2) this] Cons.prems(3) show ?case by simp
qed simp

lemma built_add_entries: "add_entries L canon des b = Inr b' \<Longrightarrow> built b \<Longrightarrow> built b'"
proof (induction des arbitrary: b)
  case (Cons de des)
  obtain d e where de: "de = (d, e)" by (cases de)
  from Cons.prems obtain b1 where b1: "add_node_entry L canon d e b = Inr b1" "add_entries L canon des b1 = Inr b'"
    by (auto simp: de rbind_Inr_iff)
  obtain s where "claim_all L canon d e (ns_expand L s) b = Inr b1" by (rule add_node_entry_parts [OF b1(1)])
  from built_claim_all [OF this Cons.prems(2) order_refl] have "built b1" .
  with Cons.IH [OF b1(2)] show ?case .
qed simp

end

section \<open>No identifier on two machines\<close>

definition ident_keys :: "inv_node \<Rightarrow> ident_key set" where
  "ident_keys n = (\<lambda>(f, v). identifierKey f v) ` set (identifiers n)"

lemma check_idents_keeps:
  "check_idents name ids seen = Inr seen' \<Longrightarrow> map_of seen k = Some w \<Longrightarrow> map_of seen' k = Some w"
proof (induction ids arbitrary: seen)
  case (Cons id ids)
  obtain f v where id: "id = (f, v)" by (cases id)
  show ?case
  proof (cases "map_of seen (identifierKey f v)")
    case None
    with Cons.prems have "check_idents name ids ((identifierKey f v, name) # seen) = Inr seen'"
        "map_of ((identifierKey f v, name) # seen) k = Some w"
      by (auto simp: id Let_def)
    then show ?thesis by (rule Cons.IH)
  qed (use Cons in \<open>auto simp: id Let_def split: if_splits\<close>)
qed simp

lemma check_idents_seen:
  "check_idents name ids seen = Inr seen' \<Longrightarrow> (f, v) \<in> set ids \<Longrightarrow> map_of seen' (identifierKey f v) = Some name"
proof (induction ids arbitrary: seen)
  case (Cons id ids)
  obtain g u where id: "id = (g, u)" by (cases id)
  let ?s = "case map_of seen (identifierKey g u) of None \<Rightarrow> (identifierKey g u, name) # seen | Some _ \<Rightarrow> seen"
  have s: "check_idents name ids ?s = Inr seen'" "map_of ?s (identifierKey g u) = Some name"
    using Cons.prems(1) by (auto simp: id Let_def split: option.splits if_splits)
  show ?case
  proof (cases "(f, v) = (g, u)")
    case True
    then show ?thesis using check_idents_keeps [OF s] by simp
  next
    case False
    with Cons.prems(2) have "(f, v) \<in> set ids" by (auto simp: id)
    then show ?thesis by (rule Cons.IH [OF s(1)])
  qed
qed simp

lemma check_idents_own: "check_idents (in_name n) (identifiers n) seen = Inr seen' \<Longrightarrow> k \<in> ident_keys n \<Longrightarrow>
    map_of seen' k = Some (in_name n)"
  by (auto simp: ident_keys_def dest: check_idents_seen)

lemma check_unique_seen:
  "check_unique ns seen = None \<Longrightarrow> n \<in> set ns \<Longrightarrow> k \<in> ident_keys n \<Longrightarrow> map_of seen k = Some w \<Longrightarrow> w = in_name n"
proof (induction ns arbitrary: seen)
  case (Cons m ns)
  then obtain seen' where s: "check_idents (in_name m) (identifiers m) seen = Inr seen'" "check_unique ns seen' = None"
    by (auto split: sum.splits)
  note kept = check_idents_keeps [OF s(1) Cons.prems(4)]
  show ?case
  proof (cases "n = m")
    case True
    with check_idents_own [OF s(1), of k] kept Cons.prems(3) show ?thesis by simp
  next
    case False
    with Cons.IH [OF s(2) _ Cons.prems(3) kept] Cons.prems(2) show ?thesis by simp
  qed
qed simp

lemma check_unique_pairs:
  "check_unique ns seen = None \<Longrightarrow> n \<in> set ns \<Longrightarrow> m \<in> set ns \<Longrightarrow> k \<in> ident_keys n \<Longrightarrow> k \<in> ident_keys m \<Longrightarrow>
     in_name n = in_name m"
proof (induction ns arbitrary: seen)
  case (Cons a ns)
  then obtain seen' where s: "check_idents (in_name a) (identifiers a) seen = Inr seen'" "check_unique ns seen' = None"
    by (auto split: sum.splits)
  have other: "in_name a = in_name p" if "k \<in> ident_keys a" "p \<in> set ns" "k \<in> ident_keys p" for p
    using check_unique_seen [OF s(2) that(2,3) check_idents_own [OF s(1) that(1)]] .
  show ?case
  proof (cases "n = a")
    case True
    with other [of m] Cons.prems show ?thesis by auto
  next
    case n: False
    show ?thesis
    proof (cases "m = a")
      case True
      with n other [of n] Cons.prems show ?thesis by auto
    next
      case False
      with n Cons.IH [OF s(2)] Cons.prems show ?thesis by simp
    qed
  qed
qed simp

section \<open>The inventory\<close>

text \<open>The documents of a site, decoded: a map of attributes holds a key once.\<close>

definition decoded :: "inventory_spec list \<Rightarrow> bool" where
  "decoded docs \<longleftrightarrow> list_all (\<lambda>de. distinct (map fst (ne_attributes (snd de)))) (entries_of docs)"

definition inventory_ok :: "('ns, 'z) nodeset_lib_scheme \<Rightarrow> (string \<Rightarrow> string) \<Rightarrow> 'ns inventory \<Rightarrow> bool" where
  "inventory_ok L key iv \<longleftrightarrow>
     sorted (iv_order iv) \<and> distinct (map key (iv_order iv)) \<and> distinct (map fst (iv_nodes iv)) \<and>
     set (iv_order iv) = fst ` set (iv_nodes iv) \<and> set (iv_order iv) = set (ns_expand L (iv_all iv)) \<and>
     list_all (\<lambda>x. to_lower x = x) (iv_order iv) \<and>
     list_all (\<lambda>(x, n). placed x n) (iv_nodes iv)"

definition own_identifiers :: "'ns inventory \<Rightarrow> bool" where
  "own_identifiers iv \<longleftrightarrow>
     (\<forall>n\<in>set (inv_all_nodes iv). \<forall>m\<in>set (inv_all_nodes iv). ident_keys n \<inter> ident_keys m \<noteq> {} \<longrightarrow> n = m)"

lemma set_node_at: "n \<in> set (concat (map (node_at nodes) xs)) \<longleftrightarrow> (\<exists>x\<in>set xs. find_key nodes x = Some n)"
proof -
  have "n \<in> set (node_at nodes x) \<longleftrightarrow> find_key nodes x = Some n" for x
    by (auto simp: node_at_def split: option.splits)
  then show ?thesis by auto
qed

context inventory_contract begin

lemma from_documents_parts:
  assumes "FromDocuments L canon docs = Inr iv"
  obtains b where "built b" "iv_nodes iv = bd_nodes b" "iv_order iv = sort (bd_order b)" "iv_all iv = bd_folded b"
    "check_unique (concat (map (node_at (bd_nodes b)) (bd_order b))) [] = None" "iv_attributes iv = []"
proof -
  from assms obtain b where b: "add_entries L canon (entries_of docs) (start_builder L) = Inr b"
      "check_unique (concat (map (node_at (bd_nodes b)) (bd_order b))) [] = None"
      "iv = \<lparr> iv_nodes = bd_nodes b, iv_order = sort (bd_order b), iv_all = bd_folded b, iv_attributes = [] \<rparr>"
    by (auto simp: FromDocuments_def rbind_Inr_iff split: option.splits)
  from built_add_entries [OF b(1) built_start] show ?thesis by (rule that) (simp_all add: b(2,3))
qed

lemma distinct_key_names:
  assumes "set xs = set (ns_expand L s)" and "distinct xs" shows "distinct (map key xs)"
  using assms distinct_keys [of s] by (simp add: distinct_map)

lemma from_documents_ok:
  assumes ok: "FromDocuments L canon docs = Inr iv" and "decoded docs"
  shows "inventory_ok L key iv"
proof -
  obtain b where b: "built b" "iv_nodes iv = bd_nodes b" "iv_order iv = sort (bd_order b)" "iv_all iv = bd_folded b"
    using from_documents_parts [OF ok] .
  have "placed x n" if "(x, n) \<in> set (iv_nodes iv)" for x n
  proof -
    have "find_key (iv_nodes iv) x = Some n" using that b by (simp add: find_key_def built_def listed_def)
    with find_from_documents [OF ok, of x] have "node_from L x (entries_of docs) = Some n" by simp
    with node_from_placed assms(2) show ?thesis by (simp add: decoded_def)
  qed
  with b distinct_key_names [of "sort (bd_order b)" "bd_folded b"] show ?thesis
    by (auto simp: inventory_ok_def built_def spelled_def listed_def list_all_iff)
qed

lemma from_documents_own:
  assumes ok: "FromDocuments L canon docs = Inr iv" and "decoded docs"
  shows "own_identifiers iv"
proof -
  obtain b where "built b" and b: "iv_nodes iv = bd_nodes b" "iv_order iv = sort (bd_order b)" "iv_all iv = bd_folded b"
      and u: "check_unique (concat (map (node_at (bd_nodes b)) (bd_order b))) [] = None"
    using from_documents_parts [OF ok] .
  have name: "find_key (bd_nodes b) x = Some n \<Longrightarrow> in_name n = x" for x n
    using find_from_documents [OF ok, of x] node_from_placed [of "entries_of docs" L x n] assms(2) b(1)
    by (simp add: decoded_def placed_def)
  have mem: "n \<in> set (inv_all_nodes iv) \<longleftrightarrow> n \<in> set (concat (map (node_at (bd_nodes b)) (bd_order b)))" for n
    unfolding inv_all_nodes_def set_node_at by (simp add: b)
  show ?thesis
    unfolding own_identifiers_def
  proof (intro ballI impI)
    fix n m
    assume n: "n \<in> set (inv_all_nodes iv)" and m: "m \<in> set (inv_all_nodes iv)" and "ident_keys n \<inter> ident_keys m \<noteq> {}"
    then obtain k where "k \<in> ident_keys n" "k \<in> ident_keys m" by blast
    with check_unique_pairs [OF u] n m mem have "in_name n = in_name m" by blast
    moreover from n obtain x where "find_key (bd_nodes b) x = Some n"
      unfolding inv_all_nodes_def set_node_at by (auto simp: b)
    moreover from m obtain y where "find_key (bd_nodes b) y = Some m"
      unfolding inv_all_nodes_def set_node_at by (auto simp: b)
    ultimately show "n = m" using name by (metis option.inject)
  qed
qed

lemma ok_lookup:
  assumes "inventory_ok L key iv"
  shows "inv_lookup canon iv x = Some n \<longleftrightarrow> (\<exists>y. find_key (iv_nodes iv) y = Some n \<and> key y = key x)"
proof -
  have names: "y \<in> set (ns_expand L (iv_all iv)) \<longleftrightarrow> (\<exists>n. find_key (iv_nodes iv) y = Some n)" for y
    using assms find_key_None [of "iv_nodes iv" y] by (auto simp: inventory_ok_def)
  have uniq: "y = z" if "y \<in> set (ns_expand L (iv_all iv))" "z \<in> set (ns_expand L (iv_all iv))" "key y = key z" for y z
    using that distinct_keys [of "iv_all iv"] by (auto simp: distinct_map inj_on_def)
  show ?thesis
  proof (cases "canon (iv_all iv) x")
    case None
    then have none: "\<And>y. y \<in> set (ns_expand L (iv_all iv)) \<Longrightarrow> key y \<noteq> key x"
      using canon_iff [of "iv_all iv" x] by force
    with names have "find_key (iv_nodes iv) x = None" by (metis not_None_eq)
    with None none names show ?thesis by (auto simp: inv_lookup_def)
  next
    case (Some c)
    then have c: "c \<in> set (ns_expand L (iv_all iv))" "key c = key x" by (simp_all add: canon_iff)
    have only: "find_key (iv_nodes iv) y = Some m \<and> key y = key x \<longleftrightarrow> y = c \<and> find_key (iv_nodes iv) c = Some m" for y m
      using names [of y] uniq [of y c] c by metis
    show ?thesis
    proof (cases "find_key (iv_nodes iv) x")
      case None
      with Some only show ?thesis by (simp add: inv_lookup_def)
    next
      case (Some m)
      with only [of x m] only show ?thesis by (auto simp: inv_lookup_def)
    qed
  qed
qed

end

section \<open>Nodes by an attribute\<close>

text \<open>An index kept for a later question is the one a first question would build.\<close>

definition indexes_ok :: "('ns, 'z) nodeset_lib_scheme \<Rightarrow> 'ns inventory \<Rightarrow> bool" where
  "indexes_ok L iv \<longleftrightarrow> list_all (\<lambda>(k, index). index = value_index L iv k) (iv_attributes iv)"

lemma value_index_more: "value_index L (iv\<lparr>iv_attributes := a\<rparr>) k = value_index L iv k"
  by (simp add: value_index_def inv_all_nodes_def)

lemma by_value_index:
  assumes "indexes_ok L iv"
  shows "fst (by_value L iv k) = value_index L iv k" and "indexes_ok L (snd (by_value L iv k))"
    and "inv_all_nodes (snd (by_value L iv k)) = inv_all_nodes iv"
proof -
  show "fst (by_value L iv k) = value_index L iv k"
    using assms by (auto simp: by_value_def indexes_ok_def find_key_def list_all_iff Let_def
        dest!: map_of_SomeD split: option.splits)
  have upd: "list_all P (AList.update k v m)" if "list_all P m" "P (k, v)" for P v and m :: "'a go_map go_map"
    using that by (induction m) auto
  show "indexes_ok L (snd (by_value L iv k))"
    using assms by (auto simp: by_value_def indexes_ok_def Let_def value_index_more intro: upd split: option.splits)
  show "inv_all_nodes (snd (by_value L iv k)) = inv_all_nodes iv"
    by (simp add: by_value_def inv_all_nodes_def Let_def split: option.splits)
qed

definition carriers :: "inv_node list \<Rightarrow> string \<Rightarrow> string \<Rightarrow> string list" where
  "carriers ns k v = map in_name (filter (\<lambda>n. if v = [] then find_key (in_attributes n) k \<noteq> None
     else find_key (in_attributes n) k = Some v) ns)"

context inventory_contract begin

lemma keys_index_fold:
  assumes "in_name ` set ns \<subseteq> set (ns_expand L t)"
  shows "ns_keys L key (at_value L (foldl (\<lambda>index n. case find_key (in_attributes n) k of None \<Rightarrow> index
           | Some v \<Rightarrow> AList.update v (add_quiet L (at_value L index v) (in_name n)) index) index ns) v) =
         ns_keys L key (at_value L index v) \<union> key ` in_name ` {n \<in> set ns. find_key (in_attributes n) k = Some v}"
  using assms
proof (induction ns arbitrary: index)
  case (Cons n ns)
  have "in_name n \<in> set (ns_expand L t)" using Cons.prems by simp
  note add = keys_add_quiet_expanded [OF this]
  show ?case
  proof (cases "find_key (in_attributes n) k")
    case None
    then have "{m \<in> set (n # ns). find_key (in_attributes m) k = Some v} = {m \<in> set ns. find_key (in_attributes m) k = Some v}"
      by auto
    with None Cons show ?thesis by simp
  next
    case (Some w)
    have "at_value L (AList.update w s index) v = (if v = w then s else at_value L index v)" for s
      by (simp add: at_value_def find_key_def update_conv')
    with Some Cons add show ?thesis by auto
  qed
qed simp

lemma keys_carry_fold:
  assumes "in_name ` set ns \<subseteq> set (ns_expand L t)"
  shows "ns_keys L key (foldl (\<lambda>s n. if find_key (in_attributes n) k = None then s else add_quiet L s (in_name n)) s ns) =
         ns_keys L key s \<union> key ` in_name ` {n \<in> set ns. find_key (in_attributes n) k \<noteq> None}"
  using assms by (induction ns arbitrary: s) (auto simp: keys_add_quiet_expanded)

lemma ok_names:
  assumes "inventory_ok L key iv"
  shows "in_name ` set (inv_all_nodes iv) \<subseteq> set (ns_expand L (iv_all iv))"
proof
  fix x assume "x \<in> in_name ` set (inv_all_nodes iv)"
  then obtain n where n: "x = in_name n" "n \<in> set (inv_all_nodes iv)" by blast
  from n(2) obtain y where "x = in_name n" "y \<in> set (iv_order iv)" "find_key (iv_nodes iv) y = Some n"
    using n(1) unfolding inv_all_nodes_def set_node_at by blast
  moreover from this assms have "in_name n = y"
    by (auto simp: inventory_ok_def placed_def list_all_iff find_key_def dest!: map_of_SomeD)
  moreover have "set (iv_order iv) = set (ns_expand L (iv_all iv))" using assms unfolding inventory_ok_def by blast
  ultimately show "x \<in> set (ns_expand L (iv_all iv))" by blast
qed

lemma keys_value_index:
  assumes "inventory_ok L key iv"
  shows "ns_keys L key (at_value L (value_index L iv k) v) =
    key ` in_name ` {n \<in> set (inv_all_nodes iv). find_key (in_attributes n) k = Some v}"
proof -
  have "at_value L [] v = ns_new L" by (simp add: at_value_def find_key_def)
  with keys_index_fold [OF ok_names [OF assms], of k "[]" v] show ?thesis by (simp add: value_index_def keys_new)
qed

lemma keys_with_attribute:
  assumes "inventory_ok L key iv" and "indexes_ok L iv"
  shows "ns_keys L key (fst (WithAttribute L iv k v)) = key ` set (carriers (inv_all_nodes iv) k v)"
    and "indexes_ok L (snd (WithAttribute L iv k v))"
proof -
  obtain index iv' where bv: "by_value L iv k = (index, iv')" by fastforce
  note kept = by_value_index [OF assms(2), of k, unfolded bv fst_conv snd_conv]
  show "indexes_ok L (snd (WithAttribute L iv k v))" using kept(2) by (simp add: WithAttribute_def bv)
  from keys_value_index [OF assms(1), of k v] kept(1)
  have "ns_keys L key (at_value L index v) = key ` in_name ` {n \<in> set (inv_all_nodes iv). find_key (in_attributes n) k = Some v}"
    by simp
  moreover note keys_carry_fold [OF ok_names [OF assms(1)], of k "ns_new L"]
  ultimately show "ns_keys L key (fst (WithAttribute L iv k v)) = key ` set (carriers (inv_all_nodes iv) k v)"
    by (auto simp: WithAttribute_def bv carriers_def keys_new)
qed

lemma rule_path_Inr:
  "rule_path L rules node sets = Inr (path, static) \<longleftrightarrow>
     (\<exists>r. filter (\<lambda>(r, s). key node \<in> ns_keys L key s) (zip rules sets) = [r] \<and> path = br_path (fst r) \<and> static = br_static (fst r))"
proof -
  let ?f = "filter (\<lambda>(r, s). key node \<in> ns_keys L key s) (zip rules sets)"
  have "matching_rules L rules sets node = map fst ?f" by (simp add: matching_rules_def contains_keys)
  then show ?thesis by (cases ?f rule: remdups_adj.cases) (auto simp: rule_path_def)
qed

lemma boot_path_parts:
  assumes "bp_sets b = None \<or> bp_sets b = Some (parse_rules L 0 (bp_rules b))"
  shows "fst (boot_path_of L canon iv b node) = Inr (path, static) \<longleftrightarrow>
    own_boot_path canon iv node \<noteq> [] \<and> path = own_boot_path canon iv node \<and> \<not> static \<or>
    own_boot_path canon iv node = [] \<and>
      (\<exists>sets. parse_rules L 0 (bp_rules b) = Inr sets \<and> rule_path L (bp_rules b) node sets = Inr (path, static))"
  using assms by (auto simp: boot_path_of_def Let_def rbind_Inr_iff)

end

definition name_canon :: "string list \<Rightarrow> string \<Rightarrow> string option" where
  "name_canon s x = (if x \<in> set (ns_expand name_list s) then Some x else None)"

interpretation name_inventory: inventory_contract name_list id name_canon
proof unfold_locales
  have lower: "plain_name (to_lower x)" if "plain_name x" for x
    using that by (auto simp: plain_name_def to_lower_def list_all_iff) (metis lower_char_alnum)
  show "set (ns_expand name_list u) =
      (if id (to_lower x) \<in> ns_keys name_list id s then set (ns_expand name_list s)
       else insert (to_lower x) (set (ns_expand name_list s)))"
    if "x \<in> set (ns_expand name_list t)" and "ns_add name_list s (to_lower x) = Inr u" for x t s u
    using that lower [of x] by (auto simp: name_list_def ns_keys_def rbind_Inr_iff)
qed (auto simp: name_canon_def name_list_def plain_name_def)

section \<open>A small site\<close>

text \<open>Two nodes in a rack, of which a later entry moves one and names its client id.\<close>

definition blank_entry :: node_entry where
  "blank_entry = \<lparr> ne_nodes = [], ne_attributes = [], ne_rack = [], ne_level = [], ne_address = [], ne_bmc_address = [],
     ne_cid = [], ne_macs = [], ne_boot_path = [] \<rparr>"

definition site_docs :: "inventory_spec list" where
  "site_docs = [\<lparr> is_defaults = [(''rack'', ''R1'')], is_nodes =
     [blank_entry\<lparr>ne_nodes := ''a,b'', ne_attributes := [(''gpu'', [])]\<rparr>,
      blank_entry\<lparr>ne_nodes := ''b'', ne_rack := ''R2'', ne_cid := ''c''\<rparr>] \<rparr>]"

definition site_node :: "string \<Rightarrow> string \<Rightarrow> string \<Rightarrow> inv_node" where
  "site_node x rack cid = \<lparr> in_name = x, in_attributes = [(''rack'', rack), (''gpu'', [])], in_rack = rack, in_level = [],
     in_address = [], in_bmc_address = [], in_cid = cid, in_macs = [], in_boot_path = [] \<rparr>"

definition site :: "string list inventory" where
  "site = \<lparr> iv_nodes = [(''a'', site_node ''a'' ''R1'' []), (''b'', site_node ''b'' ''R2'' ''c'')],
     iv_order = [''a'', ''b''], iv_all = [''a'', ''b''], iv_attributes = [] \<rparr>"

lemma site_built: "FromDocuments name_list name_canon site_docs = Inr site"
  by code_simp

lemma site_decoded: "decoded site_docs"
  by code_simp

lemmas site_facts = name_inventory.inventory_contract_axioms site_built

section \<open>What the inventory promises\<close>





text \<open>
  A node is found under every way to write its name, and under no other: a lookup answers with
  a record exactly when the record's name and the name asked for are one host.
\<close>

theorem lookup_any_spelling:
  assumes "inventory_contract L key canon" and "decoded docs" and "FromDocuments L canon docs = Inr iv"
  shows "inv_lookup canon iv x = Some n \<longleftrightarrow> (\<exists>y. find_key (iv_nodes iv) y = Some n \<and> key y = key x)"
  using inventory_contract.ok_lookup [OF assms(1) inventory_contract.from_documents_ok [OF assms(1,3,2)]] .

theorem lookup_any_spelling_witness: "inv_lookup name_canon site ''a'' = Some (site_node ''a'' ''R1'' [])"
  using lookup_any_spelling [OF site_facts(1) site_decoded site_facts(2), of "''a''" "site_node ''a'' ''R1'' []"]
  by (simp add: site_def find_key_def)

text \<open>
  The nodes of an attribute's value are those whose attribute has it, exactly, and with no
  value asked for those that have the attribute at all; the index kept for the next question is
  the one that question would build, whatever was asked before.
\<close>

theorem WithAttribute_exact:
  assumes "inventory_contract L key canon" and "inventory_ok L key iv" and "indexes_ok L iv"
    and "WithAttribute L iv k v = (s, iv')"
  shows "ns_keys L key s = key ` set (carriers (inv_all_nodes iv) k v) \<and> indexes_ok L iv'"
  using inventory_contract.keys_with_attribute [OF assms(1-3), of k v] assms(4) by simp

theorem WithAttribute_exact_witness:
  "\<exists>s iv'. WithAttribute name_list site ''rack'' ''R2'' = (s, iv') \<and> ns_keys name_list id s = {''b''} \<and> indexes_ok name_list iv'"
proof -
  obtain s iv' where w: "WithAttribute name_list site ''rack'' ''R2'' = (s, iv')" by fastforce
  have ok: "inventory_ok name_list id site"
    using name_inventory.from_documents_ok [OF site_built site_decoded] .
  have kept: "indexes_ok name_list site" by (simp add: indexes_ok_def site_def)
  have "carriers (inv_all_nodes site) ''rack'' ''R2'' = [''b'']" by code_simp
  with WithAttribute_exact [OF site_facts(1) ok kept w] w show ?thesis by auto
qed

text \<open>
  C28. The boot path of a node is its own, else that of the one rule that names it: a node no rule
  names, or more than one, has none, and the rules are read the same before and after they are kept.
\<close>

theorem boot_path_one_rule:
  assumes "inventory_contract L key canon" and "bp_sets b = None \<or> bp_sets b = Some (parse_rules L 0 (bp_rules b))"
  shows "fst (boot_path_of L canon iv b node) = Inr (path, static) \<longleftrightarrow>
    own_boot_path canon iv node \<noteq> [] \<and> path = own_boot_path canon iv node \<and> \<not> static \<or>
    own_boot_path canon iv node = [] \<and>
      (\<exists>sets. parse_rules L 0 (bp_rules b) = Inr sets \<and>
        (\<exists>r. filter (\<lambda>(r, s). key node \<in> ns_keys L key s) (zip (bp_rules b) sets) = [r] \<and>
          path = br_path (fst r) \<and> static = br_static (fst r)))"
  unfolding inventory_contract.boot_path_parts [OF assms] inventory_contract.rule_path_Inr [OF assms(1)] ..

theorem boot_path_one_rule_witness:
  "fst (boot_path_of name_list name_canon site
     \<lparr> bp_rules = [\<lparr> br_nodes = ''a'', br_path = ''x'', br_static = True \<rparr>, \<lparr> br_nodes = ''b,c'', br_path = ''y'', br_static = False \<rparr>],
       bp_sets = None \<rparr> ''b'') = Inr (''y'', False)"
proof -
  let ?b = "\<lparr> bp_rules = [\<lparr> br_nodes = ''a'', br_path = ''x'', br_static = True \<rparr>,
      \<lparr> br_nodes = ''b,c'', br_path = ''y'', br_static = False \<rparr>], bp_sets = None \<rparr> :: string list boot_paths"
  have none: "bp_sets ?b = None \<or> bp_sets ?b = Some (parse_rules name_list 0 (bp_rules ?b))" by simp
  have own: "own_boot_path name_canon site ''b'' = []" by code_simp
  have sets: "parse_rules name_list 0 (bp_rules ?b) = Inr [[''a''], [''b'', ''c'']]" by code_simp
  have match: "filter (\<lambda>(r, s). id ''b'' \<in> ns_keys name_list id s) (zip (bp_rules ?b) [[''a''], [''b'', ''c'']]) =
      [(\<lparr> br_nodes = ''b,c'', br_path = ''y'', br_static = False \<rparr>, [''b'', ''c''])]" by code_simp
  show ?thesis
    unfolding boot_path_one_rule [OF site_facts(1) none, where iv = site and node = "''b''" and path = "''y''" and static = False]
    using own sets match by simp
qed

end
