(* ===== verification/NodeGroups.thy ===== *)
theory NodeGroups
  imports Inventory Outcome
begin

text \<open>
  The group sources of a cluster, \<open>internal/groups/groups.go\<close>: a table, one grp for each value of
  a node attribute, or the output of a command on a host. The world the commands run in, with the
  disk cache, is the state an action changes; lookups the code makes side by side are made one
  after another here, each started as the code starts it, and \<open>Flights\<close> has the part of \<open>lookup\<close>
  that keeps callers from asking twice. The index an inventory keeps of an attribute does not
  change an answer, so an inventory is only read.
\<close>

section \<open>Sources\<close>

record exec_source =
  xs_role :: string
  xs_map :: "string list"
  xs_all :: "string list"
  xs_list :: "string list"
  xs_reverse :: "string list"

record group_source =
  gs_static :: "string go_map option"
  gs_attribute :: string
  gs_exec :: "exec_source option"
  gs_ttl :: int

record groups_spec =
  gp_default :: string
  gp_sources :: "group_source go_map"

text \<open>What identifies a command on disk, and the world commands run in, behind functions.\<close>

record disk_key =
  dk_scope :: string
  dk_source :: string
  dk_host :: string
  dk_user :: string
  dk_role :: string
  dk_command :: "string list"

record 'w group_env =
  ge_runner :: "(target \<Rightarrow> request \<Rightarrow> ('w, goerr, cmd_result) act) option"
  ge_acquire :: "target \<Rightarrow> ('w, goerr, unit) act"
  ge_read_cache :: "disk_key \<Rightarrow> int \<Rightarrow> 'w \<Rightarrow> string option"
  ge_write_cache :: "disk_key \<Rightarrow> string \<Rightarrow> 'w \<Rightarrow> 'w"
  ge_stopped :: "'w \<Rightarrow> goerr option"
  ge_escape :: "string \<Rightarrow> string"

record ('w, 'ns) resolver =
  rv_sources :: "group_source go_map"
  rv_def :: string
  rv_inventory :: "'ns inventory option"
  rv_target :: "(string \<Rightarrow> goerr + target) option"
  rv_cache_dir :: string
  rv_scope :: string
  rv_timeout :: int
  rv_env :: "'w group_env"

definition default_source :: "groups_spec \<Rightarrow> string" where
  "default_source spec =
     (if gp_default spec = [] then (case gp_sources spec of [(name, _)] \<Rightarrow> name | _ \<Rightarrow> []) else gp_default spec)"

definition new_resolver ::
  "groups_spec \<Rightarrow> 'ns inventory option \<Rightarrow> (string \<Rightarrow> goerr + target) option \<Rightarrow> string \<Rightarrow> string \<Rightarrow> int \<Rightarrow> 'w group_env \<Rightarrow>
     ('w, 'ns) resolver" where
  "new_resolver spec iv target_of dir scope timeout env =
     \<lparr> rv_sources = gp_sources spec, rv_def = default_source spec, rv_inventory = iv, rv_target = target_of,
       rv_cache_dir = dir, rv_scope = scope, rv_timeout = timeout, rv_env = env \<rparr>"

definition source_names :: "('w, 'ns) resolver \<Rightarrow> string list" where
  "source_names R = sorted_keys (rv_sources R)"

section \<open>Answers kept in memory\<close>

text \<open>\<open>ErrNotDefined\<close> and \<open>ErrCannotList\<close>.\<close>

definition notDefined :: "string \<Rightarrow> string list \<Rightarrow> goerr" where
  "notDefined fmt args = Wrap fmt args [Sentinel ''group not defined'']"

abbreviation is_not_defined :: "goerr \<Rightarrow> bool" where
  "is_not_defined e \<equiv> errors_is e ''group not defined''"

definition cannotList :: "string \<Rightarrow> goerr" where
  "cannotList name = Wrap ''group source %q cannot list its groups'' [name] [Sentinel ''the source cannot list its groups'']"

record 'w lookups =
  lk_cache :: "string go_map"
  lk_missing :: "goerr go_map"
  lk_world :: 'w

definition cacheKey :: "string \<Rightarrow> string \<Rightarrow> string \<Rightarrow> string" where
  "cacheKey source kind grp = source @ CHR 0x00 # kind @ CHR 0x00 # grp"

text \<open>An action on the world, on the lookups.\<close>

definition outside :: "('w, 'e, 'a) act \<Rightarrow> ('w lookups, 'e, 'a) act" where
  "outside m s = (case m (lk_world s) of (r, w) \<Rightarrow> (r, s\<lparr>lk_world := w\<rparr>))"

text \<open>\<open>lookup\<close>: what was answered is kept, and that a grp is not defined is; other failures are not.\<close>

definition lookup_keep :: "string \<Rightarrow> goerr + string \<Rightarrow> 'w lookups \<Rightarrow> 'w lookups" where
  "lookup_keep k r s =
     (case r of Inr expr \<Rightarrow> s\<lparr>lk_cache := AList.update k expr (lk_cache s)\<rparr>
      | Inl e \<Rightarrow> if is_not_defined e then s\<lparr>lk_missing := AList.update k e (lk_missing s)\<rparr> else s)"

definition gr_lookup :: "string \<Rightarrow> ('w lookups, goerr, string) act \<Rightarrow> ('w lookups, goerr, string) act" where
  "gr_lookup k ask s =
     (case find_key (lk_cache s) k of Some expr \<Rightarrow> (Inr expr, s)
      | None \<Rightarrow>
        (case find_key (lk_missing s) k of Some e \<Rightarrow> (Inl e, s)
         | None \<Rightarrow> (case ask s of (r, s') \<Rightarrow> (r, lookup_keep k r s'))))"

section \<open>Commands\<close>

definition is_field_sep :: "char \<Rightarrow> bool" where
  "is_field_sep c \<longleftrightarrow> c \<in> {CHR '' '', CHR 0x09, CHR 0x0A, CHR 0x0D, CHR '',''}"

fun fields_from :: "string \<Rightarrow> string \<Rightarrow> string list" where
  "fields_from acc [] = (if acc = [] then [] else [rev acc])"
| "fields_from acc (c # s) =
     (if is_field_sep c then (if acc = [] then [] else [rev acc]) @ fields_from [] s else fields_from (c # acc) s)"

definition group_fields :: "string \<Rightarrow> string list" where
  "group_fields s = fields_from [] s"

definition PlaceholderGroup :: string where "PlaceholderGroup = ''$GROUP''"

definition PlaceholderNode :: string where "PlaceholderNode = ''$NODE''"

definition fill_argument :: "string go_map \<Rightarrow> string \<Rightarrow> string" where
  "fill_argument vars arg = (case find_key vars arg of Some v \<Rightarrow> v | None \<Rightarrow> arg)"

definition role_target :: "('w, 'ns) resolver \<Rightarrow> string \<Rightarrow> goerr + target" where
  "role_target R role =
     (case rv_target R of None \<Rightarrow> Inr (no_target\<lparr>tg_name := role, tg_role := role\<rparr>) | Some f \<Rightarrow> f role)"

definition prepare ::
  "('w, 'ns) resolver \<Rightarrow> exec_source \<Rightarrow> string list \<Rightarrow> string go_map \<Rightarrow> goerr + target \<times> string list" where
  "prepare R src argv vars =
     (if argv = [] then Inl (Leaf ''the source defines no command for this lookup'' [])
      else if ge_runner (rv_env R) = None then Inl (Leaf ''group sources that run commands need a transport'' [])
      else if xs_role src = [] then Inl (errorf Usage ''the source names no host role to run its commands on; set exec.role'' [])
      else rbind (role_target R (xs_role src)) (\<lambda>t. Inr (t, map (fill_argument vars) argv)))"

definition group_run :: "('w, 'ns) resolver \<Rightarrow> target \<Rightarrow> string list \<Rightarrow> ('w, goerr, string) act" where
  "group_run R t command =
     abind (ge_acquire (rv_env R) t) (\<lambda>_.
       case ge_runner (rv_env R) of None \<Rightarrow> alift (Inl (Leaf ''no runner'' []))
       | Some run \<Rightarrow>
         abind (run t (no_request\<lparr>rq_argv := command, rq_timeout := rv_timeout R, rq_tty := TTYNone\<rparr>)) (\<lambda>r.
           alift (case check_result (ge_escape (rv_env R)) (hd command) r of
             Some e \<Rightarrow> Inl e
           | None \<Rightarrow> Inr (join_str '','' (group_fields (rs_stdout r))))))"

definition group_exec :: "('w, 'ns) resolver \<Rightarrow> exec_source \<Rightarrow> string list \<Rightarrow> string go_map \<Rightarrow> ('w, goerr, string) act" where
  "group_exec R src argv vars = abind (alift (prepare R src argv vars)) (\<lambda>(t, command). group_run R t command)"

definition diskKey :: "('w, 'ns) resolver \<Rightarrow> string \<Rightarrow> target \<Rightarrow> string list \<Rightarrow> disk_key" where
  "diskKey R source t command =
     \<lparr> dk_scope = rv_scope R, dk_source = source, dk_host = tg_host t, dk_user = tg_user t, dk_role = tg_role t, dk_command = command \<rparr>"

definition run_cached ::
  "('w, 'ns) resolver \<Rightarrow> string \<Rightarrow> int \<Rightarrow> target \<Rightarrow> string list \<Rightarrow> ('w, goerr, string) act" where
  "run_cached R name ttl t command w =
     (let k = diskKey R name t command; E = rv_env R in
      if ttl \<le> 0 \<or> rv_cache_dir R = [] then group_run R t command w
      else case ge_read_cache E k ttl w of Some expr \<Rightarrow> (Inr expr, w)
        | None \<Rightarrow>
          (case group_run R t command w of (Inl e, w') \<Rightarrow> (Inl e, w')
           | (Inr expr, w') \<Rightarrow> (Inr expr, ge_write_cache E k expr w')))"

definition execCached ::
  "('w, 'ns) resolver \<Rightarrow> string \<Rightarrow> int \<Rightarrow> exec_source \<Rightarrow> string list \<Rightarrow> string go_map \<Rightarrow> ('w, goerr, string) act" where
  "execCached R name ttl src argv vars =
     abind (alift (prepare R src argv vars)) (\<lambda>(t, command). run_cached R name ttl t command)"

section \<open>One group of one source\<close>

definition unknown_source :: "('w, 'ns) resolver \<Rightarrow> string \<Rightarrow> goerr" where
  "unknown_source R name = Leaf ''unknown group source %q (known: %s)'' (name # source_names R)"

text \<open>What a failed or empty lookup means: only a fresh listing says that a group is not there.\<close>

definition execFailed ::
  "(goerr \<Rightarrow> bool) \<Rightarrow> ('w, 'ns) resolver \<Rightarrow> exec_source \<Rightarrow> string \<Rightarrow> string \<Rightarrow> goerr \<Rightarrow> 'w lookups \<Rightarrow> goerr \<times> 'w lookups" where
  "execFailed is_usage R src name grp err s =
     (let err = Wrap ''source %q: %w'' [name] [err] in
      if from_err is_usage (Some err) = Transport \<or> xs_list src = [] then (err, s)
      else
        case gr_lookup (cacheKey name ''fresh list'' []) (outside (group_exec R src (xs_list src) [])) s of
          (Inl _, s') \<Rightarrow> (err, s')
        | (Inr out, s') \<Rightarrow>
            (if grp \<in> set (group_fields out) then err else notDefined ''source %q has no group %q'' [name, grp], s'))"

definition exec_find ::
  "(goerr \<Rightarrow> bool) \<Rightarrow> ('w, 'ns) resolver \<Rightarrow> string \<Rightarrow> int \<Rightarrow> exec_source \<Rightarrow> string \<Rightarrow> ('w lookups, goerr, string) act" where
  "exec_find is_usage R name ttl src grp s =
     (case outside (execCached R name ttl src (xs_map src) [(PlaceholderGroup, grp)]) s of
        (Inr expr, s') \<Rightarrow>
          if trim_space expr = [] then map_prod Inl id (execFailed is_usage R src name grp (Leaf ''returned no nodes for group %q'' [grp]) s')
          else (Inr expr, s')
      | (Inl e, s') \<Rightarrow> map_prod Inl id (execFailed is_usage R src name grp e s'))"

definition attribute_find :: "'ns nodeset_lib \<Rightarrow> 'ns inventory option \<Rightarrow> string \<Rightarrow> string \<Rightarrow> string \<Rightarrow> goerr + string" where
  "attribute_find L iv name attr grp =
     (case iv of None \<Rightarrow> Inl (Leaf ''source %q reads node attributes, but no inventory is loaded'' [name])
      | Some iv \<Rightarrow>
          let ns = fst (WithAttribute L iv attr grp) in
          if ns_is_empty L ns then Inl (notDefined ''source %q: no node has %s=%s'' [name, attr, grp])
          else Inr (ns_string L ns))"

definition source_find ::
  "(goerr \<Rightarrow> bool) \<Rightarrow> 'ns nodeset_lib \<Rightarrow> ('w, 'ns) resolver \<Rightarrow> string \<Rightarrow> group_source \<Rightarrow> string \<Rightarrow> ('w lookups, goerr, string) act" where
  "source_find is_usage L R name src grp =
     (case gs_static src of
        Some table \<Rightarrow>
          alift (case find_key table grp of None \<Rightarrow> Inl (notDefined ''source %q has no group %q'' [name, grp]) | Some v \<Rightarrow> Inr v)
      | None \<Rightarrow>
        if gs_attribute src \<noteq> [] then alift (attribute_find L (rv_inventory R) name (gs_attribute src) grp)
        else case gs_exec src of Some x \<Rightarrow> exec_find is_usage R name (gs_ttl src) x grp
          | None \<Rightarrow> alift (Inl (Leaf ''group source %q defines nothing'' [name])))"

definition resolveIn ::
  "(goerr \<Rightarrow> bool) \<Rightarrow> 'ns nodeset_lib \<Rightarrow> ('w, 'ns) resolver \<Rightarrow> string \<Rightarrow> string \<Rightarrow> ('w lookups, goerr, string) act" where
  "resolveIn is_usage L R name grp =
     (case find_key (rv_sources R) name of None \<Rightarrow> alift (Inl (unknown_source R name))
      | Some src \<Rightarrow> gr_lookup (cacheKey name ''map'' grp) (source_find is_usage L R name src grp))"

section \<open>A group of any source\<close>

definition search_order :: "('w, 'ns) resolver \<Rightarrow> string list" where
  "search_order R =
     (if rv_def R \<noteq> [] then rv_def R # filter (\<lambda>name. name \<noteq> rv_def R) (source_names R) else source_names R)"

fun search_group ::
  "(string \<Rightarrow> ('w lookups, goerr, string) act) \<Rightarrow> string list \<Rightarrow> string \<Rightarrow> goerr list \<Rightarrow> string list \<Rightarrow> ('w lookups, goerr, string) act" where
  "search_group ask known grp tried [] s = (Inl (notDefined ''no group source defines %q (sources: %s)'' (grp # known)), s)"
| "search_group ask known grp tried (name # names) s =
     (case ask name s of
        (Inr expr, s') \<Rightarrow> (Inr expr, s')
      | (Inl e, s') \<Rightarrow>
          if is_not_defined e then search_group ask known grp (tried @ [e]) names s'
          else (Inl (Wrap ''%w; the search for @%s stops at a source that cannot answer'' [grp] [e]), s'))"

definition gr_resolve ::
  "(goerr \<Rightarrow> bool) \<Rightarrow> 'ns nodeset_lib \<Rightarrow> ('w, 'ns) resolver \<Rightarrow> string \<Rightarrow> string \<Rightarrow> ('w lookups, goerr, string) act" where
  "gr_resolve is_usage L R source grp =
     (if grp = [] then alift (Inl (Leaf ''the group name is empty'' []))
      else if source \<noteq> [] then resolveIn is_usage L R source grp
      else search_group (\<lambda>name. resolveIn is_usage L R name grp) (source_names R) grp [] (search_order R))"

text \<open>\<open>ResolveAll\<close>: the groups up to the first one not looked up, once the command is interrupted.\<close>

fun ResolveAll ::
  "(goerr \<Rightarrow> bool) \<Rightarrow> 'ns nodeset_lib \<Rightarrow> ('w, 'ns) resolver \<Rightarrow> (string \<times> string) list \<Rightarrow> 'w lookups \<Rightarrow> (goerr + string) list \<times> 'w lookups" where
  "ResolveAll is_usage L R [] s = ([], s)"
| "ResolveAll is_usage L R ((source, grp) # refs) s =
     (if ge_stopped (rv_env R) (lk_world s) \<noteq> None then ([], s)
      else case gr_resolve is_usage L R source grp s of
        (r, s') \<Rightarrow> (case ResolveAll is_usage L R refs s' of (rs, s'') \<Rightarrow> (r # rs, s'')))"

section \<open>All groups of a source\<close>

fun balanced_from :: "nat \<Rightarrow> string \<Rightarrow> bool" where
  "balanced_from depth [] \<longleftrightarrow> depth = 0"
| "balanced_from depth (c # s) \<longleftrightarrow>
     (if c = CHR ''['' then balanced_from (depth + 1) s
      else if c = CHR '']'' then depth \<noteq> 0 \<and> balanced_from (depth - 1) s
      else balanced_from depth s)"

definition balanced :: "string \<Rightarrow> bool" where
  "balanced expr = balanced_from 0 expr"

text \<open>White space of any kind, found where it begins in the bytes of the name.\<close>

fun has_space :: "string \<Rightarrow> bool" where
  "has_space [] = False"
| "has_space (c # s) \<longleftrightarrow> space_at (c # s) \<noteq> 0 \<or> has_space s"

definition referable :: "string \<Rightarrow> bool" where
  "referable name \<longleftrightarrow> \<not> has_space name \<and> list_all (\<lambda>c. c \<notin> set '',!&^[]'') name"

definition unionOperand :: "string \<Rightarrow> string \<Rightarrow> string \<Rightarrow> goerr + string" where
  "unionOperand source grp expr =
     (if list_all (\<lambda>c. c \<notin> set ''!&^'') expr \<and> balanced expr then Inr expr
      else if grp = [] \<or> grp = ''*'' \<or> \<not> referable grp \<or> \<not> referable source \<or> CHR '':'' \<in> set source then
        Inl (Leaf ''source %q: the group %q holds a set operator or an unbalanced bracket'' [source, grp])
      else Inr (CHR ''@'' # source @ CHR '':'' # grp))"

fun union_parts ::
  "(goerr \<Rightarrow> bool) \<Rightarrow> 'ns nodeset_lib \<Rightarrow> ('w, 'ns) resolver \<Rightarrow> string \<Rightarrow> string list \<Rightarrow> ('w lookups, goerr, string list) act" where
  "union_parts is_usage L R source [] s =
     (case ge_stopped (rv_env R) (lk_world s) of Some e \<Rightarrow> (Inl e, s) | None \<Rightarrow> (Inr [], s))"
| "union_parts is_usage L R source (name # names) s =
     (case ge_stopped (rv_env R) (lk_world s) of Some e \<Rightarrow> (Inl e, s)
      | None \<Rightarrow>
        abind (resolveIn is_usage L R source name) (\<lambda>expr.
          abind (alift (unionOperand source name expr)) (\<lambda>part.
            abind (union_parts is_usage L R source names) (\<lambda>parts. alift (Inr (part # parts))))) s)"

text \<open>\<open>cmp.Or\<close>, and the groups of a source.\<close>

definition or_default :: "('w, 'ns) resolver \<Rightarrow> string \<Rightarrow> string" where
  "or_default R source = (if source \<noteq> [] then source else rv_def R)"

definition listed_output :: "('w, 'ns) resolver \<Rightarrow> string \<Rightarrow> int \<Rightarrow> exec_source \<Rightarrow> string list \<Rightarrow> ('w lookups, goerr, string) act" where
  "listed_output R source ttl x argv s =
     (case outside (execCached R source ttl x argv []) s of
        (Inl e, s') \<Rightarrow> (Inl (Wrap ''source %q: %w'' [source] [e]), s') | (Inr out, s') \<Rightarrow> (Inr out, s'))"

definition list_source :: "'ns nodeset_lib \<Rightarrow> ('w, 'ns) resolver \<Rightarrow> string \<Rightarrow> group_source \<Rightarrow> ('w lookups, goerr, string list) act" where
  "list_source L R source src =
     (case gs_static src of Some table \<Rightarrow> alift (Inr (filter (\<lambda>n. n \<noteq> []) (sorted_keys table)))
      | None \<Rightarrow>
        if gs_attribute src \<noteq> [] then
          alift (case rv_inventory R of None \<Rightarrow> Inl (Leaf ''source %q reads node attributes, but no inventory is loaded'' [source])
            | Some iv \<Rightarrow> Inr (fst (AttributeValues L iv (gs_attribute src))))
        else case gs_exec src of
          Some x \<Rightarrow>
            if xs_list x \<noteq> [] then
              abind (gr_lookup (cacheKey source ''list'' []) (listed_output R source (gs_ttl src) x (xs_list x)))
                (\<lambda>out. alift (Inr (group_fields out)))
            else alift (Inl (cannotList source))
        | None \<Rightarrow> alift (Inl (cannotList source)))"

definition gr_list :: "'ns nodeset_lib \<Rightarrow> ('w, 'ns) resolver \<Rightarrow> string \<Rightarrow> ('w lookups, goerr, string list) act" where
  "gr_list L R source =
     (let source = or_default R source in
      case find_key (rv_sources R) source of None \<Rightarrow> alift (Inl (unknown_source R source)) | Some src \<Rightarrow> list_source L R source src)"

definition all_find ::
  "(goerr \<Rightarrow> bool) \<Rightarrow> 'ns nodeset_lib \<Rightarrow> ('w, 'ns) resolver \<Rightarrow> string \<Rightarrow> group_source \<Rightarrow> ('w lookups, goerr, string) act" where
  "all_find is_usage L R source src =
     (case gs_exec src of
        Some x \<Rightarrow> if xs_all x \<noteq> [] then listed_output R source (gs_ttl src) x (xs_all x)
          else abind (gr_list L R source) (\<lambda>names. abind (union_parts is_usage L R source names) (\<lambda>parts. alift (Inr (join_str '','' parts))))
      | None \<Rightarrow> abind (gr_list L R source) (\<lambda>names. abind (union_parts is_usage L R source names) (\<lambda>parts. alift (Inr (join_str '','' parts)))))"

definition gr_all :: "(goerr \<Rightarrow> bool) \<Rightarrow> 'ns nodeset_lib \<Rightarrow> ('w, 'ns) resolver \<Rightarrow> string \<Rightarrow> ('w lookups, goerr, string) act" where
  "gr_all is_usage L R source =
     (let source = or_default R source in
      case find_key (rv_sources R) source of None \<Rightarrow> alift (Inl (unknown_source R source))
      | Some src \<Rightarrow> gr_lookup (cacheKey source ''all'' []) (all_find is_usage L R source src))"

section \<open>The groups of a node\<close>

text \<open>
  \<open>nodeexpr.ParseWith\<close> reads an expression through the engine, which asks the resolver for the groups
  it names: the parameter \<open>pw\<close>. A grp that cannot be read does not stop the others.
\<close>

fun members_of ::
  "(goerr \<Rightarrow> bool) \<Rightarrow> 'ns nodeset_lib \<Rightarrow> (string \<Rightarrow> ('w lookups, goerr, 'ns) act) \<Rightarrow> string \<Rightarrow> string \<Rightarrow>
     (string \<times> (goerr + string)) list \<Rightarrow> 'w lookups \<Rightarrow> (string list \<times> goerr list) \<times> 'w lookups" where
  "members_of is_usage L pw name node [] s = (([], []), s)"
| "members_of is_usage L pw name node ((grp, Inl e) # as) s =
     (case members_of is_usage L pw name node as s of ((ms, es), s') \<Rightarrow> ((ms, e # es), s'))"
| "members_of is_usage L pw name node ((grp, Inr expr) # as) s =
     (case pw expr s of
        (Inl e, s1) \<Rightarrow> (case members_of is_usage L pw name node as s1 of
           ((ms, es), s') \<Rightarrow> ((ms, Wrap ''source %q, group %q: %w'' [name, grp] [e] # es), s'))
      | (Inr ns, s1) \<Rightarrow> (case members_of is_usage L pw name node as s1 of
           ((ms, es), s') \<Rightarrow> (((if ns_contains L ns node then grp # ms else ms), es), s')))"

text \<open>The lookups of the groups of one source, to the first not made.\<close>

fun lookup_each ::
  "(goerr \<Rightarrow> bool) \<Rightarrow> 'ns nodeset_lib \<Rightarrow> ('w, 'ns) resolver \<Rightarrow> string \<Rightarrow> string list \<Rightarrow> 'w lookups \<Rightarrow>
     ((string \<times> (goerr + string)) list \<times> goerr list) \<times> 'w lookups" where
  "lookup_each is_usage L R name [] s = (([], []), s)"
| "lookup_each is_usage L R name (g # gs) s =
     (case ge_stopped (rv_env R) (lk_world s) of Some e \<Rightarrow> (([], [e]), s)
      | None \<Rightarrow> (case resolveIn is_usage L R name g s of (r, s1) \<Rightarrow>
          (case lookup_each is_usage L R name gs s1 of ((as, es), s') \<Rightarrow> (((g, r) # as, es), s'))))"

definition join_errors :: "goerr list \<Rightarrow> goerr option" where
  "join_errors es = (case es of [] \<Rightarrow> None | _ \<Rightarrow> Some (Wrap ''joined'' [] es))"

definition reverse_answer ::
  "('w, 'ns) resolver \<Rightarrow> string \<Rightarrow> string \<Rightarrow> exec_source \<Rightarrow> 'w lookups \<Rightarrow> (string list \<times> goerr option) \<times> 'w lookups" where
  "reverse_answer R name node x s =
     (case outside (group_exec R x (xs_reverse x) [(PlaceholderNode, node)]) s of
        (Inl e, s') \<Rightarrow> (([], Some (Wrap ''source %q: %w'' [name] [e])), s') | (Inr out, s') \<Rightarrow> ((group_fields out, None), s'))"

definition expanded_answer ::
  "(goerr \<Rightarrow> bool) \<Rightarrow> 'ns nodeset_lib \<Rightarrow> (string \<Rightarrow> ('w lookups, goerr, 'ns) act) \<Rightarrow> ('w, 'ns) resolver \<Rightarrow> string \<Rightarrow> string \<Rightarrow>
     'w lookups \<Rightarrow> (string list \<times> goerr option) \<times> 'w lookups" where
  "expanded_answer is_usage L pw R name node s =
     (case gr_list L R name s of
        (Inl e, s1) \<Rightarrow> (([], Some e), s1)
      | (Inr groups, s1) \<Rightarrow>
          (case lookup_each is_usage L R name groups s1 of ((answers, stop), s2) \<Rightarrow>
            (case members_of is_usage L pw name node answers s2 of ((ms, es), s3) \<Rightarrow> ((ms, join_errors (es @ stop)), s3))))"

definition attribute_groups :: "('ns \<Rightarrow> string \<Rightarrow> string option) \<Rightarrow> 'ns inventory \<Rightarrow> string \<Rightarrow> string \<Rightarrow> string list" where
  "attribute_groups canon iv attr node =
     (case inv_lookup canon iv node of None \<Rightarrow> []
      | Some n \<Rightarrow> let v = attr_value (in_attributes n) attr in if v \<noteq> [] then [v] else [])"

definition groupsIn ::
  "(goerr \<Rightarrow> bool) \<Rightarrow> 'ns nodeset_lib \<Rightarrow> ('ns \<Rightarrow> string \<Rightarrow> string option) \<Rightarrow> (string \<Rightarrow> ('w lookups, goerr, 'ns) act) \<Rightarrow> ('w, 'ns) resolver \<Rightarrow>
     string \<Rightarrow> group_source \<Rightarrow> string \<Rightarrow> 'w lookups \<Rightarrow> (string list \<times> goerr option) \<times> 'w lookups" where
  "groupsIn is_usage L canon pw R name src node =
     (let other = (case gs_exec src of
           Some x \<Rightarrow> if xs_reverse x \<noteq> [] then reverse_answer R name node x else expanded_answer is_usage L pw R name node
         | None \<Rightarrow> expanded_answer is_usage L pw R name node)
      in if gs_attribute src = [] then other
         else case rv_inventory R of None \<Rightarrow> other
           | Some iv \<Rightarrow> (\<lambda>s. ((attribute_groups canon iv (gs_attribute src) node, None), s)))"

text \<open>A source that cannot list its groups is passed over; any other failure is told with what was found.\<close>

definition source_failure :: "goerr option \<Rightarrow> goerr list" where
  "source_failure err =
     (case err of None \<Rightarrow> []
      | Some e \<Rightarrow> if errors_is e ''the source cannot list its groups'' then [] else [e])"

fun groups_each ::
  "(string \<Rightarrow> 'w lookups \<Rightarrow> (string list \<times> goerr option) \<times> 'w lookups) \<Rightarrow> string list \<Rightarrow> 'w lookups \<Rightarrow>
     (string list go_map \<times> goerr list) \<times> 'w lookups" where
  "groups_each ask [] s = (([], []), s)"
| "groups_each ask (name # names) s =
     (case ask name s of ((ms, err), s1) \<Rightarrow>
       (case groups_each ask names s1 of ((out, errs), s2) \<Rightarrow>
         (((if ms \<noteq> [] then (name, ms) # out else out), source_failure err @ errs), s2)))"

definition GroupsOf ::
  "(goerr \<Rightarrow> bool) \<Rightarrow> 'ns nodeset_lib \<Rightarrow> ('ns \<Rightarrow> string \<Rightarrow> string option) \<Rightarrow> (string \<Rightarrow> ('w lookups, goerr, 'ns) act) \<Rightarrow> ('w, 'ns) resolver \<Rightarrow>
     string \<Rightarrow> 'w lookups \<Rightarrow> (string list go_map \<times> goerr option) \<times> 'w lookups" where
  "GroupsOf is_usage L canon pw R node s =
     (case groups_each (\<lambda>name. case find_key (rv_sources R) name of
           None \<Rightarrow> (\<lambda>s. (([], None), s)) | Some src \<Rightarrow> groupsIn is_usage L canon pw R name src node) (source_names R) s of
        ((out, errs), s') \<Rightarrow> ((out, join_errors errs), s'))"

end
