(* ===== verification/NodeGroupsProps.thy ===== *)
theory NodeGroupsProps
  imports NodeGroups
begin

text \<open>
  What the search for a group promises: a bare reference is answered by the first source that has
  the group, and only past sources that say they have none; an answer once given stays; and the
  expression that stands for every group of a source is read back group by group.
\<close>

section \<open>Answers stay\<close>

text \<open>What the memory of a resolver answers a lookup with.\<close>

definition remembered :: "'w lookups \<Rightarrow> string \<Rightarrow> (goerr + string) option" where
  "remembered s k =
     (case find_key (lk_cache s) k of Some expr \<Rightarrow> Some (Inr expr)
      | None \<Rightarrow> map_option Inl (find_key (lk_missing s) k))"

definition keeps :: "'w lookups \<Rightarrow> 'w lookups \<Rightarrow> bool" where
  "keeps s s' \<longleftrightarrow> (\<forall>k r. remembered s k = Some r \<longrightarrow> remembered s' k = Some r)"

definition lasting :: "goerr + 'a \<Rightarrow> bool" where
  "lasting r \<longleftrightarrow> (case r of Inr _ \<Rightarrow> True | Inl e \<Rightarrow> is_not_defined e)"

lemma keeps_refl [simp, intro]: "keeps s s"
  by (simp add: keeps_def)

lemma keeps_trans [trans]: "keeps s s' \<Longrightarrow> keeps s' s'' \<Longrightarrow> keeps s s''"
  by (simp add: keeps_def)

lemma keepsD: "keeps s s' \<Longrightarrow> remembered s k = Some r \<Longrightarrow> remembered s' k = Some r"
  by (simp add: keeps_def)

lemma outside_same: "outside m s = (r, s') \<Longrightarrow> lk_cache s' = lk_cache s \<and> lk_missing s' = lk_missing s"
  by (auto simp: outside_def split: prod.splits)

lemma outside_remembered: "outside m s = (r, s') \<Longrightarrow> remembered s' k = remembered s k"
  using outside_same [of m s r s'] by (simp add: remembered_def split: option.splits)

lemma outside_keeps: "outside m s = (r, s') \<Longrightarrow> keeps s s'"
  using outside_remembered [of m s r s'] by (simp add: keeps_def)

lemma remembered_keep:
  "remembered s k = None \<Longrightarrow> remembered (lookup_keep k r s) j =
     (if j = k \<and> lasting r then Some r else remembered s j)"
  by (auto simp: remembered_def lookup_keep_def lasting_def find_key_def update_conv' split: sum.splits option.splits)

lemma gr_lookup_known: "remembered s k = Some r \<Longrightarrow> gr_lookup k ask s = (r, s)"
  by (auto simp: gr_lookup_def remembered_def split: option.splits)

lemma gr_lookup_new: "remembered s k = None \<Longrightarrow> gr_lookup k ask s = (case ask s of (r, s') \<Rightarrow> (r, lookup_keep k r s'))"
  by (auto simp: gr_lookup_def remembered_def split: option.splits)

text \<open>A lookup whose asking leaves its own key alone and forgets nothing.\<close>

definition decent :: "string \<Rightarrow> ('w lookups, goerr, string) act \<Rightarrow> bool" where
  "decent k ask \<longleftrightarrow> (\<forall>s r s'. ask s = (r, s') \<longrightarrow> keeps s s' \<and> remembered s' k = remembered s k)"

lemma decent_outside: "decent k (outside m)"
  using outside_keeps outside_remembered by (fastforce simp: decent_def)

lemma decent_alift: "decent k (alift r)"
  by (simp add: decent_def alift_def)

lemma gr_lookup_keeps:
  assumes "decent k ask" and "gr_lookup k ask s = (r, s')"
  shows "keeps s s'"
proof (cases "remembered s k")
  case None
  obtain r1 s1 where a: "ask s = (r1, s1)" by fastforce
  with assms(1) None have d: "keeps s s1" "remembered s1 k = None" by (auto simp: decent_def)
  from assms(2) a None have "s' = lookup_keep k r1 s1" by (auto simp: gr_lookup_new)
  with d(2) have "keeps s1 s'" by (auto simp: keeps_def remembered_keep)
  with d(1) show ?thesis using keeps_trans by blast
next
  case (Some q)
  with assms(2) show ?thesis by (simp add: gr_lookup_known)
qed

lemma gr_lookup_other:
  assumes "decent k ask" and "gr_lookup k ask s = (r, s')" and "j \<noteq> k"
    and same: "\<And>r1 s1. ask s = (r1, s1) \<Longrightarrow> remembered s1 j = remembered s j"
  shows "remembered s' j = remembered s j"
proof (cases "remembered s k")
  case None
  obtain r1 s1 where a: "ask s = (r1, s1)" by fastforce
  with assms(1) None have "remembered s1 k = None" by (auto simp: decent_def)
  then show ?thesis using a None assms(2,3) same by (auto simp: gr_lookup_new remembered_keep)
next
  case (Some q)
  with assms(2) show ?thesis by (simp add: gr_lookup_known)
qed

lemma gr_lookup_again:
  assumes "decent k ask" and "gr_lookup k ask s = (r, s')" and "lasting r \<or> remembered s k \<noteq> None" and "keeps s' s''"
  shows "gr_lookup k ask s'' = (r, s'')"
proof -
  have "remembered s' k = Some r"
  proof (cases "remembered s k")
    case None
    obtain r1 s1 where a: "ask s = (r1, s1)" by fastforce
    with assms(1) None have "remembered s1 k = None" by (auto simp: decent_def)
    with a None assms(2,3) show ?thesis by (auto simp: gr_lookup_new remembered_keep)
  next
    case (Some q)
    with assms(2) show ?thesis by (auto simp: gr_lookup_known)
  qed
  from keepsD [OF assms(4) this] show ?thesis by (rule gr_lookup_known)
qed

section \<open>One source\<close>

lemma map_key_not_fresh: "cacheKey name ''map'' grp \<noteq> cacheKey name ''fresh list'' []"
  by (simp add: cacheKey_def)

lemma execFailed_decent:
  assumes "execFailed is_usage R src name grp err s = (e, s')"
  shows "keeps s s' \<and> remembered s' (cacheKey name ''map'' grp) = remembered s (cacheKey name ''map'' grp)"
proof -
  let ?k = "cacheKey name ''fresh list'' []" and ?ask = "outside (group_exec R src (xs_list src) [])"
  obtain r1 s1 where l: "gr_lookup ?k ?ask s = (r1, s1)" by fastforce
  have "keeps s s1" using gr_lookup_keeps [OF decent_outside l] .
  moreover have "remembered s1 (cacheKey name ''map'' grp) = remembered s (cacheKey name ''map'' grp)"
    using gr_lookup_other [OF decent_outside l map_key_not_fresh] outside_remembered by blast
  moreover have "s' = s \<or> s' = s1" using assms l by (auto simp: execFailed_def Let_def split: if_splits sum.splits)
  ultimately show ?thesis by auto
qed

lemma exec_find_decent: "decent (cacheKey name ''map'' grp) (exec_find is_usage R name ttl src grp)"
  unfolding decent_def
proof (intro allI impI)
  fix s r s' assume e: "exec_find is_usage R name ttl src grp s = (r, s')"
  let ?k = "cacheKey name ''map'' grp"
  obtain r1 s1 where o: "outside (execCached R name ttl src (xs_map src) [(PlaceholderGroup, grp)]) s = (r1, s1)" by fastforce
  note same = outside_keeps [OF o] outside_remembered [OF o, of ?k]
  have "s' = s1 \<or> (\<exists>err e. execFailed is_usage R src name grp err s1 = (e, s'))"
    using e o by (auto simp: exec_find_def map_prod_def split: sum.splits if_splits prod.splits)
  then show "keeps s s' \<and> remembered s' ?k = remembered s ?k"
  proof
    assume "s' = s1"
    with same show ?thesis by simp
  next
    assume "\<exists>err e. execFailed is_usage R src name grp err s1 = (e, s')"
    then obtain err e where "execFailed is_usage R src name grp err s1 = (e, s')" by blast
    from execFailed_decent [OF this] same show ?thesis using keeps_trans by auto
  qed
qed

lemma source_find_decent: "decent (cacheKey name ''map'' grp) (source_find is_usage L R name src grp)"
  by (auto simp: source_find_def decent_alift exec_find_decent split: option.splits)

lemma resolveIn_keeps: "resolveIn is_usage L R name grp s = (r, s') \<Longrightarrow> keeps s s'"
  using gr_lookup_keeps [OF source_find_decent] by (auto simp: resolveIn_def alift_def split: option.splits)

lemma resolveIn_again:
  assumes "resolveIn is_usage L R name grp s = (r, s')" and "lasting r" and "keeps s' s''"
  shows "resolveIn is_usage L R name grp s'' = (r, s'')"
proof (cases "find_key (rv_sources R) name")
  case None
  with assms(1) show ?thesis by (simp add: resolveIn_def alift_def)
next
  case (Some src)
  with assms(1) have "gr_lookup (cacheKey name ''map'' grp) (source_find is_usage L R name src grp) s = (r, s')"
    by (simp add: resolveIn_def)
  from gr_lookup_again [OF source_find_decent this _ assms(3)] assms(2) Some show ?thesis by (simp add: resolveIn_def)
qed

section \<open>A cluster with two sources\<close>

definition no_commands :: "unit group_env" where
  "no_commands = \<lparr> ge_runner = None, ge_acquire = (\<lambda>_. alift (Inr ())), ge_read_cache = (\<lambda>_ _ _. None), ge_write_cache = (\<lambda>_ _ w. w),
     ge_stopped = (\<lambda>_. None), ge_escape = id \<rparr>"

definition table_source :: "string go_map \<Rightarrow> group_source" where
  "table_source table = \<lparr> gs_static = Some table, gs_attribute = [], gs_exec = None, gs_ttl = 0 \<rparr>"

definition two_sources :: "(unit, string list) resolver" where
  "two_sources = new_resolver
     \<lparr> gp_default = ''b'', gp_sources = [(''a'', table_source [(''gpu'', ''n1,n2'')]),
          (''b'', table_source [(''io'', ''n3''), (''odd'', ''n1!n2'')])] \<rparr>
     None None [] [] 0 no_commands"

definition fresh_lookups :: "unit lookups" where
  "fresh_lookups = \<lparr> lk_cache = [], lk_missing = [], lk_world = () \<rparr>"

lemma two_sources_gpu: "fst (gr_resolve (\<lambda>_. False) name_list two_sources [] ''gpu'' fresh_lookups) = Inr ''n1,n2''"
  by code_simp

lemma two_sources_all: "fst (union_parts (\<lambda>_. False) name_list two_sources ''b'' [''io'', ''odd''] fresh_lookups) = Inr [''n3'', ''@b:odd'']"
  by code_simp

section \<open>The search\<close>

text \<open>The answers of sources asked one after another.\<close>

fun ask_each :: "(string \<Rightarrow> ('w lookups, goerr, string) act) \<Rightarrow> string list \<Rightarrow> 'w lookups \<Rightarrow> (goerr + string) list \<times> 'w lookups" where
  "ask_each ask [] s = ([], s)"
| "ask_each ask (n # ns) s = (case ask n s of (r, s1) \<Rightarrow> (case ask_each ask ns s1 of (rs, s2) \<Rightarrow> (r # rs, s2)))"

definition all_pass :: "(goerr + string) list \<Rightarrow> bool" where
  "all_pass rs \<longleftrightarrow> list_all (\<lambda>r. case r of Inl e \<Rightarrow> is_not_defined e | Inr _ \<Rightarrow> False) rs"

lemma search_found:
  "search_group ask known grp tried names s = (Inr expr, s') \<Longrightarrow>
     \<exists>before name after rs s1. names = before @ name # after \<and> ask_each ask before s = (rs, s1) \<and> all_pass rs \<and>
       ask name s1 = (Inr expr, s')"
proof (induction names arbitrary: tried s)
  case (Cons n ns)
  obtain r s1 where a: "ask n s = (r, s1)" by fastforce
  show ?case
  proof (cases r)
    case (Inr x)
    with a Cons.prems have "ask n s = (Inr expr, s')" by simp
    then have "n # ns = [] @ n # ns \<and> ask_each ask [] s = ([], s) \<and> all_pass [] \<and> ask n s = (Inr expr, s')"
      by (simp add: all_pass_def)
    then show ?thesis by blast
  next
    case (Inl e)
    with a Cons.prems have e: "is_not_defined e" "search_group ask known grp (tried @ [e]) ns s1 = (Inr expr, s')"
      by (auto split: if_splits)
    from Cons.IH [OF e(2)] obtain before name after rs s2 where b: "ns = before @ name # after"
        "ask_each ask before s1 = (rs, s2)" "all_pass rs" "ask name s2 = (Inr expr, s')" by blast
    then have "n # ns = (n # before) @ name # after \<and> ask_each ask (n # before) s = (Inl e # rs, s2) \<and> all_pass (Inl e # rs) \<and>
        ask name s2 = (Inr expr, s')" using a Inl e(1) by (simp add: all_pass_def)
    then show ?thesis by blast
  qed
qed simp

lemma search_missing:
  "search_group ask known grp tried names s = (Inl e, s') \<Longrightarrow> is_not_defined e \<Longrightarrow>
     \<exists>rs. ask_each ask names s = (rs, s') \<and> all_pass rs"
proof (induction names arbitrary: tried s)
  case (Cons n ns)
  obtain r s1 where a: "ask n s = (r, s1)" by fastforce
  with Cons.prems obtain e1 where r: "r = Inl e1" "is_not_defined e1" "search_group ask known grp (tried @ [e1]) ns s1 = (Inl e, s')"
    by (cases r) (auto split: if_splits)
  from Cons.IH [OF r(3) Cons.prems(2)] a r(1,2) show ?case by (auto simp: all_pass_def)
qed (simp add: all_pass_def)

lemma search_again:
  assumes keep: "\<And>n s r s'. ask n s = (r, s') \<Longrightarrow> keeps s s'"
    and again: "\<And>n s r s' s''. ask n s = (r, s') \<Longrightarrow> lasting r \<Longrightarrow> keeps s' s'' \<Longrightarrow> ask n s'' = (r, s'')"
  shows "search_group ask known grp tried names s = (r, s') \<Longrightarrow>
     keeps s s' \<and> (lasting r \<longrightarrow> keeps s' s'' \<longrightarrow> search_group ask known grp tried names s'' = (r, s''))"
proof (induction names arbitrary: tried s s'')
  case (Cons n ns)
  obtain r1 s1 where a: "ask n s = (r1, s1)" by fastforce
  note k = keep [OF a]
  show ?case
  proof (cases r1)
    case (Inr x)
    with a Cons.prems have "r = Inr x" "s' = s1" by simp_all
    moreover have "keeps s1 s'' \<Longrightarrow> ask n s'' = (Inr x, s'')" using again [OF a] Inr by (simp add: lasting_def)
    ultimately show ?thesis using k Inr by simp
  next
    case (Inl e)
    show ?thesis
    proof (cases "is_not_defined e")
      case True
      with Inl a Cons.prems have rest: "search_group ask known grp (tried @ [e]) ns s1 = (r, s')" by simp
      have step: "keeps s1 s'' \<Longrightarrow> ask n s'' = (Inl e, s'')" using again [OF a] Inl True by (simp add: lasting_def)
      from Cons.IH [OF rest, of s''] have "keeps s1 s'" "lasting r \<Longrightarrow> keeps s' s'' \<Longrightarrow>
          search_group ask known grp (tried @ [e]) ns s'' = (r, s'')" by blast+
      note rest = this
      show ?thesis
      proof (intro conjI impI)
        show "keeps s s'" using keeps_trans [OF k rest(1)] .
      next
        assume "lasting r" and kept: "keeps s' s''"
        with rest step [OF keeps_trans [OF rest(1) kept]] True
        show "search_group ask known grp tried (n # ns) s'' = (r, s'')" by simp
      qed
    next
      case False
      with Inl a Cons.prems have "r = Inl (Wrap ''%w; the search for @%s stops at a source that cannot answer'' [grp] [e])" "s' = s1"
        by auto
      with False k show ?thesis by (simp add: lasting_def)
    qed
  qed
qed auto

lemma search_order_set:
  "set (search_order R) = set (source_names R) \<union> (if rv_def R = [] then {} else {rv_def R}) \<and> distinct (search_order R)"
  by (auto simp: search_order_def source_names_def)

lemma gr_resolve_kept:
  assumes "gr_resolve is_usage L R source grp s = (r, s')"
  shows "keeps s s' \<and> (lasting r \<longrightarrow> keeps s' s'' \<longrightarrow> gr_resolve is_usage L R source grp s'' = (r, s''))"
proof -
  let ?ask = "\<lambda>name. resolveIn is_usage L R name grp"
  consider (empty) "grp = []" | (one) "grp \<noteq> []" "source \<noteq> []" | (bare) "grp \<noteq> []" "source = []" by blast
  then show ?thesis
  proof cases
    case empty
    with assms show ?thesis by (auto simp: gr_resolve_def alift_def)
  next
    case one
    with assms have "?ask source s = (r, s')" by (simp add: gr_resolve_def)
    from resolveIn_keeps [OF this] resolveIn_again [OF this] one show ?thesis by (simp add: gr_resolve_def)
  next
    case bare
    with assms have "search_group ?ask (source_names R) grp [] (search_order R) s = (r, s')" by (simp add: gr_resolve_def)
    from search_again [where ask = ?ask and s'' = s'', OF resolveIn_keeps resolveIn_again this] bare
    show ?thesis by (simp add: gr_resolve_def)
  qed
qed



text \<open>
  An answer stays: a group that was found, or that no source has, is answered the same when it is
  asked for again, however many other groups were looked up in between, and the second time no
  command is sent and nothing is read from disk.
\<close>

theorem resolve_again:
  assumes "gr_resolve is_usage L R source grp s = (r, s1)" and "lasting r"
    and "gr_resolve is_usage L R source' grp' s1 = (r', s2)"
  shows "gr_resolve is_usage L R source grp s2 = (r, s2)"
proof -
  have "keeps s1 s2" using gr_resolve_kept [OF assms(3)] by blast
  with gr_resolve_kept [OF assms(1)] assms(2) show ?thesis by blast
qed

theorem resolve_again_witness:
  "\<exists>s1 r s2. gr_resolve (\<lambda>_. False) name_list two_sources [] ''gpu'' fresh_lookups = (Inr ''n1,n2'', s1) \<and>
     gr_resolve (\<lambda>_. False) name_list two_sources [] ''io'' s1 = (r, s2) \<and>
     gr_resolve (\<lambda>_. False) name_list two_sources [] ''gpu'' s2 = (Inr ''n1,n2'', s2)"
proof -
  obtain s1 where g: "gr_resolve (\<lambda>_. False) name_list two_sources [] ''gpu'' fresh_lookups = (Inr ''n1,n2'', s1)"
    using two_sources_gpu by (metis prod.collapse)
  obtain r s2 where h: "gr_resolve (\<lambda>_. False) name_list two_sources [] ''io'' s1 = (r, s2)" by fastforce
  have "lasting (Inr ''n1,n2'')" by (simp add: lasting_def)
  from resolve_again [OF g this h] g h show ?thesis by blast
qed

section \<open>All groups of a source\<close>

text \<open>The terms of an expression: what its commas outside brackets separate.\<close>

fun terms_from :: "nat \<Rightarrow> string \<Rightarrow> string \<Rightarrow> string list" where
  "terms_from depth acc [] = [rev acc]"
| "terms_from depth acc (c # s) =
     (if c = CHR '','' \<and> depth = 0 then rev acc # terms_from 0 [] s
      else terms_from (if c = CHR ''['' then depth + 1 else if c = CHR '']'' then depth - 1 else depth) (c # acc) s)"

definition terms :: "string \<Rightarrow> string list" where
  "terms s = terms_from 0 [] s"

lemma terms_from_append:
  "balanced_from depth s \<Longrightarrow> terms_from depth acc (s @ CHR '','' # t) = terms_from depth acc s @ terms t"
  by (induction depth s arbitrary: acc rule: balanced_from.induct) (auto simp: terms_def split: if_splits)

lemma terms_join: "parts \<noteq> [] \<Longrightarrow> list_all balanced parts \<Longrightarrow> terms (join_str '','' parts) = concat (map terms parts)"
proof (induction parts rule: induct_list012)
  case (3 p q parts)
  then show ?case using terms_from_append [of 0 p "[]"] by (simp add: balanced_def terms_def)
qed auto

definition plain_part :: "string \<Rightarrow> bool" where
  "plain_part part \<longleftrightarrow> balanced part \<and> list_all (\<lambda>c. c \<notin> set ''!&^'') part"

text \<open>What an operand of the union is: the expression itself, or one reference to the group.\<close>

lemma unflat: "list_all (\<lambda>c. c \<notin> set '',[]'') s \<Longrightarrow> balanced_from n s = (n = 0) \<and> terms_from n acc s = [rev acc @ s]"
  by (induction s arbitrary: acc) auto

lemma unionOperand_plain:
  assumes "unionOperand source grp expr = Inr part"
  shows "plain_part part \<and> (part = expr \<or> part = CHR ''@'' # source @ CHR '':'' # grp \<and> terms part = [part])"
proof (cases "list_all (\<lambda>c. c \<notin> set ''!&^'') expr \<and> balanced expr")
  case True
  with assms show ?thesis by (simp add: unionOperand_def plain_part_def)
next
  case False
  let ?p = "CHR ''@'' # source @ CHR '':'' # grp"
  from False assms have p: "part = ?p" and "referable grp" "referable source"
    by (auto simp: unionOperand_def split: if_splits)
  then have "list_all (\<lambda>c. c \<notin> set '',[]'') ?p" "list_all (\<lambda>c. c \<notin> set ''!&^'') ?p"
    by (auto simp: referable_def list_all_iff)
  with unflat [of ?p 0 "[]"] show ?thesis by (simp add: p plain_part_def balanced_def terms_def)
qed

lemma union_parts_plain:
  "union_parts is_usage L R source names s = (Inr parts, s') \<Longrightarrow> list_all plain_part parts \<and> length parts = length names"
proof (induction names arbitrary: s parts)
  case Nil
  then show ?case by (auto split: option.splits)
next
  case (Cons n names)
  then obtain expr s1 part rest where p: "unionOperand source n expr = Inr part"
      "union_parts is_usage L R source names s1 = (Inr rest, s')" "parts = part # rest"
    by (auto simp: abind_Inr_iff alift_def split: option.splits)
  from Cons.IH [OF p(2)] unionOperand_plain [OF p(1)] p(3) show ?case by simp
qed

text \<open>
  The expression that stands for all groups of a source is read back group by group: its terms are
  those of the groups one after another, and no operator in a group and no bracket left open in
  one reaches what another group names, since a group with either is a reference of its own.
\<close>

theorem union_reads_back:
  assumes "union_parts is_usage L R source names s = (Inr parts, s')" and "names \<noteq> []"
  shows "terms (join_str '','' parts) = concat (map terms parts) \<and> length parts = length names \<and>
    list_all plain_part parts"
proof -
  from union_parts_plain [OF assms(1)] assms(2) have p: "list_all plain_part parts" "length parts = length names" "parts \<noteq> []"
    by auto
  then have "list_all balanced parts" by (auto simp: list_all_iff plain_part_def)
  with p terms_join show ?thesis by blast
qed

theorem union_reads_back_witness:
  "terms ''n3,@b:odd'' = [''n3'', ''@b:odd''] \<and> list_all plain_part [''n3'', ''@b:odd'']"
proof -
  obtain s' where u: "union_parts (\<lambda>_. False) name_list two_sources ''b'' [''io'', ''odd''] fresh_lookups = (Inr [''n3'', ''@b:odd''], s')"
    using two_sources_all by (metis prod.collapse)
  have "terms ''n3'' = [''n3'']" "terms ''@b:odd'' = [''@b:odd'']" by code_simp+
  with union_reads_back [OF u] show ?thesis by simp
qed

end
