(* ===== verification/Flights.thy ===== *)
theory Flights
  imports NodeGroupsProps
begin

text \<open>
  \<open>lookup\<close> of \<open>internal/groups/groups.go\<close> among callers that ask at the same time: the memory of the
  resolver, the flight under way for a key, and where each caller is. A step is what one caller
  does under the lock or, for one that waits, when the flight it waits for is done. What a lookup
  finds, an abandoned one included, is any result.
\<close>

datatype call = Asks string | Finds string | Waits string nat | Has string "goerr + string"

record flights =
  fs_mem :: "unit lookups"
  fs_flight :: "string \<Rightarrow> nat option"
  fs_calls :: "call list"

definition call_at :: "flights \<Rightarrow> nat \<Rightarrow> call \<Rightarrow> bool" where
  "call_at fs i c \<longleftrightarrow> i < length (fs_calls fs) \<and> fs_calls fs ! i = c"

definition set_call :: "nat \<Rightarrow> call \<Rightarrow> flights \<Rightarrow> flights" where
  "set_call i c fs = fs\<lparr>fs_calls := (fs_calls fs)[i := c]\<rparr>"

inductive flight_step :: "flights \<Rightarrow> flights \<Rightarrow> bool" where
  known: "call_at fs i (Asks k) \<Longrightarrow> remembered (fs_mem fs) k = Some r \<Longrightarrow> flight_step fs (set_call i (Has k r) fs)"
| joins: "call_at fs i (Asks k) \<Longrightarrow> remembered (fs_mem fs) k = None \<Longrightarrow> fs_flight fs k = Some j \<Longrightarrow>
     flight_step fs (set_call i (Waits k j) fs)"
| starts: "call_at fs i (Asks k) \<Longrightarrow> remembered (fs_mem fs) k = None \<Longrightarrow> fs_flight fs k = None \<Longrightarrow>
     flight_step fs (set_call i (Finds k) (fs\<lparr>fs_flight := (fs_flight fs)(k := Some i)\<rparr>))"
| ends: "call_at fs i (Finds k) \<Longrightarrow>
     flight_step fs (set_call i (Has k r) (fs\<lparr>fs_flight := (fs_flight fs)(k := None), fs_mem := lookup_keep k r (fs_mem fs)\<rparr>))"
| told: "call_at fs i (Waits k j) \<Longrightarrow> call_at fs j (Has k' r) \<Longrightarrow> flight_step fs (set_call i (Has k r) fs)"

inductive_cases flight_stepE: "flight_step fs fs'"

definition start_calls :: "unit lookups \<Rightarrow> string list \<Rightarrow> flights" where
  "start_calls mem ks = \<lparr> fs_mem = mem, fs_flight = (\<lambda>_. None), fs_calls = map Asks ks \<rparr>"

section \<open>The invariant\<close>

definition finder_ok :: "flights \<Rightarrow> bool" where
  "finder_ok fs \<longleftrightarrow> (\<forall>k i. fs_flight fs k = Some i \<longleftrightarrow> call_at fs i (Finds k))"

definition waiters_ok :: "flights \<Rightarrow> bool" where
  "waiters_ok fs \<longleftrightarrow> (\<forall>i k j. call_at fs i (Waits k j) \<longrightarrow> call_at fs j (Finds k) \<or> (\<exists>r. call_at fs j (Has k r)))"

definition answers_ok :: "flights \<Rightarrow> bool" where
  "answers_ok fs \<longleftrightarrow> (\<forall>i k r. call_at fs i (Has k r) \<longrightarrow> lasting r \<longrightarrow> remembered (fs_mem fs) k = Some r)"

definition settled_ok :: "flights \<Rightarrow> bool" where
  "settled_ok fs \<longleftrightarrow> (\<forall>k. fs_flight fs k \<noteq> None \<longrightarrow> remembered (fs_mem fs) k = None)"

definition flights_ok :: "flights \<Rightarrow> bool" where
  "flights_ok fs \<longleftrightarrow> finder_ok fs \<and> waiters_ok fs \<and> answers_ok fs \<and> settled_ok fs"

lemmas flights_ok_defs = flights_ok_def finder_ok_def waiters_ok_def answers_ok_def settled_ok_def

lemma call_at_fun: "call_at fs i c \<Longrightarrow> call_at fs i d \<Longrightarrow> c = d"
  by (simp add: call_at_def)

lemma call_at_set: "call_at fs i c \<Longrightarrow> call_at (set_call i d fs) j e \<longleftrightarrow> (if j = i then e = d else call_at fs j e)"
  by (auto simp: call_at_def set_call_def nth_list_update)

lemma set_call_other [simp]: "fs_mem (set_call i c fs) = fs_mem fs" "fs_flight (set_call i c fs) = fs_flight fs"
  by (simp_all add: set_call_def)

lemma call_at_flight [simp]: "call_at (fs\<lparr>fs_flight := f\<rparr>) i c = call_at fs i c" "call_at (fs\<lparr>fs_mem := m\<rparr>) i c = call_at fs i c"
  by (simp_all add: call_at_def)

lemma start_calls_ok: "flights_ok (start_calls mem ks)"
  by (auto simp: flights_ok_defs start_calls_def call_at_def)

text \<open>Who is waited for is looking or has its answer, for the same key.\<close>

lemma waited:
  assumes "waiters_ok fs" and "call_at fs j (Waits k i)" and "call_at fs i c"
  shows "c = Finds k \<or> (\<exists>r. c = Has k r)"
  using assms call_at_fun unfolding waiters_ok_def by blast

text \<open>A caller that moves on, to something that those who wait for it may see.\<close>

lemma set_call_waiters:
  assumes "waiters_ok fs" and "call_at fs i c"
    and "\<And>k. c = Finds k \<or> (\<exists>r. c = Has k r) \<Longrightarrow> d = Finds k \<or> (\<exists>r. d = Has k r)"
    and "\<And>k j. d = Waits k j \<Longrightarrow> j \<noteq> i \<and> (call_at fs j (Finds k) \<or> (\<exists>r. call_at fs j (Has k r)))"
  shows "waiters_ok (set_call i d fs)"
  unfolding waiters_ok_def call_at_set [OF assms(2)]
proof (intro allI impI)
  fix m k j
  assume w: "if m = i then Waits k j = d else call_at fs m (Waits k j)"
  show "(if j = i then Finds k = d else call_at fs j (Finds k)) \<or> (\<exists>r. if j = i then Has k r = d else call_at fs j (Has k r))"
  proof (cases "m = i")
    case True
    with w assms(4) [of k j] show ?thesis by auto
  next
    case False
    with w have wait: "call_at fs m (Waits k j)" by simp
    show ?thesis
    proof (cases "j = i")
      case True
      with waited [OF assms(1) wait] assms(2,3) show ?thesis by metis
    next
      case False
      with assms(1) wait show ?thesis unfolding waiters_ok_def by auto
    qed
  qed
qed

lemma flights_waiters [simp]: "waiters_ok (fs\<lparr>fs_flight := f\<rparr>) = waiters_ok fs" "waiters_ok (fs\<lparr>fs_mem := m\<rparr>) = waiters_ok fs"
  by (simp_all add: waiters_ok_def)

lemma flight_step_waiters: "flight_step fs fs' \<Longrightarrow> flights_ok fs \<Longrightarrow> waiters_ok fs'"
proof (induction rule: flight_step.induct)
  case (known fs i k r)
  then show ?case by (intro set_call_waiters [OF _ known(1)]) (auto simp: flights_ok_def)
next
  case (joins fs i k j)
  then have "call_at fs j (Finds k)" by (simp add: flights_ok_def finder_ok_def)
  moreover from this have "j \<noteq> i" using joins(1) call_at_fun by blast
  ultimately show ?case using joins by (intro set_call_waiters [OF _ joins(1)]) (auto simp: flights_ok_def)
next
  case (starts fs i k)
  then have "call_at (fs\<lparr>fs_flight := (fs_flight fs)(k := Some i)\<rparr>) i (Asks k)" by simp
  then show ?case using starts by (intro set_call_waiters) (auto simp: flights_ok_def)
next
  case (ends fs i k r)
  then have "call_at (fs\<lparr>fs_flight := (fs_flight fs)(k := None), fs_mem := lookup_keep k r (fs_mem fs)\<rparr>) i (Finds k)" by simp
  then show ?case using ends by (intro set_call_waiters) (auto simp: flights_ok_def)
next
  case (told fs i k j k' r)
  then show ?case by (intro set_call_waiters [OF _ told(1)]) (auto simp: flights_ok_def)
qed

definition rest_ok :: "flights \<Rightarrow> bool" where
  "rest_ok fs \<longleftrightarrow> finder_ok fs \<and> answers_ok fs \<and> settled_ok fs"

lemmas rest_ok_defs = rest_ok_def finder_ok_def answers_ok_def settled_ok_def

lemma flight_step_rest: "flight_step fs fs' \<Longrightarrow> flights_ok fs \<Longrightarrow> rest_ok fs'"
proof (induction rule: flight_step.induct)
  case (known fs i k r)
  note at = call_at_set [OF known(1)]
  from known have "rest_ok fs" by (simp add: rest_ok_def flights_ok_def)
  with known show ?case unfolding rest_ok_defs at by (auto dest: call_at_fun)
next
  case (joins fs i k j)
  note at = call_at_set [OF joins(1)]
  from joins have "rest_ok fs" by (simp add: rest_ok_def flights_ok_def)
  with joins show ?case unfolding rest_ok_defs at by (auto dest: call_at_fun)
next
  case (starts fs i k)
  then have "call_at (fs\<lparr>fs_flight := (fs_flight fs)(k := Some i)\<rparr>) i (Asks k)" by simp
  note at = call_at_set [OF this]
  from starts have "rest_ok fs" by (simp add: rest_ok_def flights_ok_def)
  moreover from this starts(3) have "\<not> call_at fs j (Finds k)" for j
    unfolding rest_ok_defs by (metis option.distinct(1))
  ultimately show ?case using starts unfolding rest_ok_defs at by (auto dest: call_at_fun)
next
  case (ends fs i k r)
  then have "call_at (fs\<lparr>fs_flight := (fs_flight fs)(k := None), fs_mem := lookup_keep k r (fs_mem fs)\<rparr>) i (Finds k)" by simp
  note at = call_at_set [OF this]
  from ends have "rest_ok fs" by (simp add: rest_ok_def flights_ok_def)
  moreover from this ends(1) have flight: "fs_flight fs k = Some i" by (simp add: rest_ok_defs)
  ultimately have none: "remembered (fs_mem fs) k = None" unfolding rest_ok_def settled_ok_def by (metis option.distinct(1))
  have only: "call_at fs j (Finds k) \<Longrightarrow> j = i" for j
    using \<open>rest_ok fs\<close> flight unfolding rest_ok_defs by (metis option.inject)
  have failed: "call_at fs j (Has k q) \<Longrightarrow> \<not> lasting q" for j q
    using \<open>rest_ok fs\<close> none unfolding rest_ok_defs by (metis option.distinct(1))
  from \<open>rest_ok fs\<close> ends(1) show ?case
    unfolding rest_ok_defs at by (auto simp: remembered_keep [OF none] dest: only failed call_at_fun)
next
  case (told fs i k j k' r)
  note at = call_at_set [OF told(1)]
  from told have "rest_ok fs" "k' = k" using waited [OF _ told(1,2)] by (auto simp: rest_ok_def flights_ok_def)
  with told show ?case unfolding rest_ok_defs at by (auto dest: call_at_fun)
qed

lemma flight_step_ok: "flight_step fs fs' \<Longrightarrow> flights_ok fs \<Longrightarrow> flights_ok fs'"
  using flight_step_waiters [of fs fs'] flight_step_rest [of fs fs'] by (simp add: flights_ok_def rest_ok_def)

definition flights_reachable :: "unit lookups \<Rightarrow> string list \<Rightarrow> flights \<Rightarrow> bool" where
  "flights_reachable mem ks fs \<longleftrightarrow> flight_step\<^sup>*\<^sup>* (start_calls mem ks) fs"

lemma reachable_flights_ok: "flights_reachable mem ks fs \<Longrightarrow> flights_ok fs"
proof -
  have "flight_step\<^sup>*\<^sup>* s fs \<Longrightarrow> flights_ok s \<Longrightarrow> flights_ok fs" for s
    by (induction rule: rtranclp_induct) (auto intro: flight_step_ok)
  then show "flights_reachable mem ks fs \<Longrightarrow> flights_ok fs" using start_calls_ok by (simp add: flights_reachable_def)
qed

section \<open>Every caller is answered\<close>

definition has_answer :: "call \<Rightarrow> bool" where
  "has_answer c \<longleftrightarrow> (case c of Has _ _ \<Rightarrow> True | _ \<Rightarrow> False)"

fun call_rank :: "call \<Rightarrow> nat" where
  "call_rank (Asks _) = 2" | "call_rank (Finds _) = 1" | "call_rank (Waits _ _) = 1" | "call_rank (Has _ _) = 0"

definition flights_rank :: "flights \<Rightarrow> nat" where
  "flights_rank fs = sum_list (map call_rank (fs_calls fs))"

lemma set_call_rank:
  assumes "call_at fs i c" and "call_rank d < call_rank c"
  shows "flights_rank (set_call i d fs) < flights_rank fs"
proof -
  have i: "i < length (fs_calls fs)" "fs_calls fs ! i = c" using assms(1) by (simp_all add: call_at_def)
  have "map call_rank ((fs_calls fs)[i := d]) = (map call_rank (fs_calls fs))[i := call_rank d]" by (simp add: map_update)
  moreover have "call_rank c \<le> sum_list (map call_rank (fs_calls fs))"
    using i by (metis length_map member_le_sum_list nth_map nth_mem zero_le)
  ultimately show ?thesis using i assms(2) by (simp add: flights_rank_def set_call_def sum_list_update)
qed

lemma flights_rank_more [simp]: "flights_rank (fs\<lparr>fs_flight := f\<rparr>) = flights_rank fs" "flights_rank (fs\<lparr>fs_mem := m\<rparr>) = flights_rank fs"
  by (simp_all add: flights_rank_def)

lemma flight_step_rank: "flight_step fs fs' \<Longrightarrow> flights_rank fs' < flights_rank fs"
proof (induction rule: flight_step.induct)
  case (starts fs i k)
  then have "call_at (fs\<lparr>fs_flight := (fs_flight fs)(k := Some i)\<rparr>) i (Asks k)" by simp
  from set_call_rank [OF this, of "Finds k"] show ?case by simp
next
  case (ends fs i k r)
  then have "call_at (fs\<lparr>fs_flight := (fs_flight fs)(k := None), fs_mem := lookup_keep k r (fs_mem fs)\<rparr>) i (Finds k)" by simp
  from set_call_rank [OF this, of "Has k r"] show ?case by simp
qed (auto intro: set_call_rank)

lemma flight_progress:
  assumes "flights_ok fs" and "\<not> list_all has_answer (fs_calls fs)"
  shows "\<exists>fs'. flight_step fs fs'"
proof (cases "\<exists>i k. call_at fs i (Finds k)")
  case True
  then show ?thesis using ends by blast
next
  case False
  from assms(2) obtain i c where c: "call_at fs i c" "\<not> has_answer c"
    by (auto simp: list_all_length call_at_def)
  show ?thesis
  proof (cases c)
    case (Asks k)
    with c known joins starts show ?thesis by (metis option.exhaust)
  next
    case (Waits k j)
    with c(1) assms(1) have "call_at fs j (Finds k) \<or> (\<exists>r. call_at fs j (Has k r))"
      by (simp add: flights_ok_def waiters_ok_def)
    with False obtain r where "call_at fs j (Has k r)" by blast
    with c(1) Waits told show ?thesis by blast
  qed (use c False in \<open>auto simp: has_answer_def\<close>)
qed

text \<open>
  C34. However many callers ask at once, and in whatever order they come: no key is ever looked up by two
  of them at the same time, none is looked up while its answer is known, and all who were given a
  lasting answer to one key were given the same one, which is also what any later caller gets.
\<close>

theorem lookups_are_shared:
  assumes "flights_reachable mem ks fs"
  shows "(call_at fs i (Finds k) \<and> call_at fs j (Finds k) \<longrightarrow> i = j) \<and>
    (call_at fs i (Finds k) \<longrightarrow> remembered (fs_mem fs) k = None) \<and>
    (call_at fs i (Has k r) \<and> lasting r \<longrightarrow> remembered (fs_mem fs) k = Some r)"
  using reachable_flights_ok [OF assms] unfolding flights_ok_defs by (metis option.distinct(1) option.inject)


text \<open>Two callers of one key, the second waiting for the first.\<close>

definition two_calls :: flights where
  "two_calls = \<lparr> fs_mem = fresh_lookups, fs_flight = (\<lambda>_. None)(''k'' := Some 0), fs_calls = [Finds ''k'', Waits ''k'' 0] \<rparr>"

lemma two_calls_reachable: "flights_reachable fresh_lookups [''k'', ''k''] two_calls"
proof -
  let ?s = "start_calls fresh_lookups [''k'', ''k'']"
  let ?m = "set_call 0 (Finds ''k'') (?s\<lparr>fs_flight := (fs_flight ?s)(''k'' := Some 0)\<rparr>)"
  have none: "remembered fresh_lookups k = None" for k by (simp add: remembered_def fresh_lookups_def find_key_def)
  have "flight_step ?s ?m" by (rule starts) (simp_all add: start_calls_def call_at_def none)
  moreover have "flight_step ?m (set_call 1 (Waits ''k'' 0) ?m)"
    by (rule joins) (simp_all add: start_calls_def call_at_def set_call_def none)
  moreover have "set_call 1 (Waits ''k'' 0) ?m = two_calls"
    by (simp add: set_call_def start_calls_def two_calls_def)
  ultimately show ?thesis by (simp add: flights_reachable_def rtranclp.rtrancl_into_rtrancl)
qed

theorem lookups_are_shared_witness: "remembered (fs_mem two_calls) ''k'' = None"
  using lookups_are_shared [OF two_calls_reachable, of 0 "''k''" 0] by (simp add: call_at_def two_calls_def)


end
