(* ===== verification/NodeExpr.thy ===== *)
theory NodeExpr
  imports NodeGroups
begin

text \<open>
  \<open>internal/nodeexpr\<close>: the groups an expression names are looked up together before the node set
  engine evaluates it. The resolver is behind three functions on a state; the engine's own
  \<open>ParseWith\<close>, which asks a resolver for each group it meets, is not modelled.
\<close>

section \<open>The references of an expression\<close>

type_synonym group_ref = "string \<times> string"

definition term_refs :: "string \<Rightarrow> group_ref list" where
  "term_refs t =
     (case cut_prefix (trim_space t) ''@'' of None \<Rightarrow> []
      | Some ref \<Rightarrow>
          (case (case cut ref '':'' of None \<Rightarrow> ([], ref) | Some sg \<Rightarrow> sg) of
             (source, grp) \<Rightarrow> if grp \<noteq> [] \<and> grp \<noteq> ''*'' then [(source, grp)] else []))"

definition is_operator :: "char \<Rightarrow> bool" where
  "is_operator c \<longleftrightarrow> c \<in> {CHR '' '', CHR 0x09, CHR 0x0A, CHR 0x0D, CHR '','', CHR ''!'', CHR ''&'', CHR ''^''}"

text \<open>The term read so far, backwards and empty between terms, and how deep in brackets, which may go below zero.\<close>

fun refs_from :: "int \<Rightarrow> string \<Rightarrow> string \<Rightarrow> group_ref list" where
  "refs_from depth acc [] = term_refs (rev acc)"
| "refs_from depth acc (c # s) =
     (if c = CHR ''['' then refs_from (depth + 1) (c # acc) s
      else if c = CHR '']'' then refs_from (depth - 1) (c # acc) s
      else if \<not> 0 < depth \<and> is_operator c then term_refs (rev acc) @ refs_from depth [] s
      else refs_from depth (c # acc) s)"

definition groupRefs :: "string \<Rightarrow> group_ref list" where
  "groupRefs expr = refs_from 0 [] expr"

section \<open>A batch\<close>

record 's batch_resolver =
  br_resolve :: "string \<Rightarrow> string \<Rightarrow> ('s, goerr, string) act"
  br_resolve_all :: "group_ref list \<Rightarrow> 's \<Rightarrow> (goerr + string) list \<times> 's"
  br_all :: "string \<Rightarrow> ('s, goerr, string) act"

record 's batch =
  bt_answers :: "(group_ref \<times> (goerr + string)) list"
  bt_state :: 's

definition own_ref :: "string \<Rightarrow> group_ref \<Rightarrow> group_ref" where
  "own_ref source ref = (if fst ref \<noteq> [] then fst ref else source, snd ref)"

definition add_ref :: "'s batch \<Rightarrow> group_ref list \<Rightarrow> group_ref \<Rightarrow> group_ref list" where
  "add_ref b refs ref = (if map_of (bt_answers b) ref = None \<and> ref \<notin> set refs then refs @ [ref] else refs)"

definition new_refs :: "'s batch \<Rightarrow> string \<Rightarrow> string list \<Rightarrow> group_ref list" where
  "new_refs b source exprs = foldl (add_ref b) [] (map (own_ref source) (concat (map groupRefs exprs)))"

definition note_answers :: "(group_ref \<times> (goerr + string)) list \<Rightarrow> 's batch \<Rightarrow> 's batch" where
  "note_answers answers b = b\<lparr>bt_answers := foldl (\<lambda>m (ref, a). AList.update ref a m) (bt_answers b) answers\<rparr>"

definition prefetch :: "'s batch_resolver \<Rightarrow> string \<Rightarrow> string list \<Rightarrow> 's batch \<Rightarrow> 's batch" where
  "prefetch B source exprs b =
     (let refs = new_refs b source exprs in
      if length refs < 2 then b
      else case br_resolve_all B refs (bt_state b) of
        (answers, s) \<Rightarrow> note_answers (zip refs answers) (b\<lparr>bt_state := s\<rparr>))"

definition Prefetch :: "'s batch_resolver \<Rightarrow> string list \<Rightarrow> 's batch \<Rightarrow> 's batch" where
  "Prefetch B exprs b = prefetch B [] exprs b"

definition prefetch_answer :: "'s batch_resolver \<Rightarrow> string \<Rightarrow> goerr + string \<Rightarrow> 's batch \<Rightarrow> 's batch" where
  "prefetch_answer B source r b = (case r of Inl _ \<Rightarrow> b | Inr expr \<Rightarrow> prefetch B source [expr] b)"

definition batch_resolve :: "'s batch_resolver \<Rightarrow> string \<Rightarrow> string \<Rightarrow> ('s batch, goerr, string) act" where
  "batch_resolve B source grp b =
     (case map_of (bt_answers b) (source, grp) of
        Some r \<Rightarrow> (r, prefetch_answer B source r b)
      | None \<Rightarrow> (case br_resolve B source grp (bt_state b) of (r, s) \<Rightarrow> (r, prefetch_answer B source r (b\<lparr>bt_state := s\<rparr>))))"

definition batch_all :: "'s batch_resolver \<Rightarrow> string \<Rightarrow> ('s batch, goerr, string) act" where
  "batch_all B source b =
     (case br_all B source (bt_state b) of (r, s) \<Rightarrow> (r, prefetch_answer B source r (b\<lparr>bt_state := s\<rparr>)))"

definition new_batch :: "'s \<Rightarrow> 's batch" where
  "new_batch s = \<lparr> bt_answers = [], bt_state = s \<rparr>"

text \<open>The resolver of the group sources, as a batch asks it.\<close>

definition group_batch ::
  "(goerr \<Rightarrow> bool) \<Rightarrow> 'ns nodeset_lib \<Rightarrow> ('w, 'ns) resolver \<Rightarrow> 'w lookups batch_resolver" where
  "group_batch is_usage L R =
     \<lparr> br_resolve = gr_resolve is_usage L R, br_resolve_all = ResolveAll is_usage L R, br_all = gr_all is_usage L R \<rparr>"

section \<open>What a batch found stays\<close>

definition fresh_refs :: "'s batch \<Rightarrow> group_ref list \<Rightarrow> bool" where
  "fresh_refs b refs \<longleftrightarrow> distinct refs \<and> list_all (\<lambda>ref. map_of (bt_answers b) ref = None) refs"

lemma add_ref_fresh: "fresh_refs b refs \<Longrightarrow> fresh_refs b (add_ref b refs ref)"
  by (simp add: fresh_refs_def add_ref_def)

lemma new_refs_fresh: "fresh_refs b (new_refs b source exprs)"
proof -
  have "fresh_refs b refs \<Longrightarrow> fresh_refs b (foldl (add_ref b) refs xs)" for refs xs
    by (induction xs arbitrary: refs) (simp_all add: add_ref_fresh)
  then show ?thesis by (simp add: new_refs_def fresh_refs_def)
qed

lemma note_answers_keeps:
  assumes "map_of (bt_answers b) ref = Some r" and "ref \<notin> fst ` set answers"
  shows "map_of (bt_answers (note_answers answers b)) ref = Some r"
proof -
  have "ref \<notin> fst ` set answers \<Longrightarrow> map_of m ref = Some r \<Longrightarrow>
      map_of (foldl (\<lambda>m (ref, a). AList.update ref a m) m answers) ref = Some r" for m
    by (induction answers arbitrary: m) (auto simp: update_conv' split: prod.splits)
  with assms show ?thesis by (simp add: note_answers_def)
qed

lemma prefetch_keeps:
  assumes "map_of (bt_answers b) ref = Some r"
  shows "map_of (bt_answers (prefetch B source exprs b)) ref = Some r"
proof -
  obtain answers s where a: "br_resolve_all B (new_refs b source exprs) (bt_state b) = (answers, s)" by fastforce
  have "ref \<notin> set (new_refs b source exprs)" using assms new_refs_fresh [of b source exprs]
    unfolding fresh_refs_def list_all_iff by (metis option.distinct(1))
  then have "ref \<notin> fst ` set (zip (new_refs b source exprs) answers)" by (auto dest: set_zip_leftD)
  with note_answers_keeps [of "b\<lparr>bt_state := s\<rparr>" ref r] assms a show ?thesis by (simp add: prefetch_def Let_def)
qed

lemma prefetch_answer_keeps:
  "map_of (bt_answers b) ref = Some r \<Longrightarrow> map_of (bt_answers (prefetch_answer B source q b)) ref = Some r"
  by (auto simp: prefetch_answer_def prefetch_keeps split: sum.splits)

text \<open>What the evaluation of an expression does with a batch: any sequence of these.\<close>

datatype batch_op = OpResolve string string | OpAll string | OpPrefetch "string list"

fun batch_do :: "'s batch_resolver \<Rightarrow> batch_op \<Rightarrow> 's batch \<Rightarrow> 's batch" where
  "batch_do B (OpResolve source grp) b = snd (batch_resolve B source grp b)"
| "batch_do B (OpAll source) b = snd (batch_all B source b)"
| "batch_do B (OpPrefetch exprs) b = Prefetch B exprs b"

lemma batch_do_keeps: "map_of (bt_answers b) ref = Some r \<Longrightarrow> map_of (bt_answers (batch_do B op b)) ref = Some r"
  by (cases op) (auto simp: batch_resolve_def batch_all_def Prefetch_def prefetch_keeps prefetch_answer_keeps
      split: option.splits prod.splits)

text \<open>
  A batch answers a group it looked up the same for as long as it is kept, a failure included, and
  asks the resolver no more for it: whatever is resolved or prefetched in between.
\<close>

theorem batch_answer_stays:
  assumes "map_of (bt_answers b) (source, grp) = Some r"
  shows "fst (batch_resolve B source grp (foldl (\<lambda>b op. batch_do B op b) b ops)) = r"
proof -
  have "map_of (bt_answers b) (source, grp) = Some r \<Longrightarrow>
      map_of (bt_answers (foldl (\<lambda>b op. batch_do B op b) b ops)) (source, grp) = Some r"
    by (induction ops arbitrary: b) (simp_all add: batch_do_keeps)
  with assms show ?thesis by (simp add: batch_resolve_def)
qed

theorem batch_answer_stays_witness:
  "fst (batch_resolve (B :: unit batch_resolver) ''a'' ''b''
     (foldl (\<lambda>b op. batch_do B op b) \<lparr> bt_answers = [((''a'', ''b''), Inr ''n1'')], bt_state = () \<rparr> [OpPrefetch [''@a:b,@c'']])) = Inr ''n1''"
  by (rule batch_answer_stays) simp

section \<open>The references are those of the terms\<close>

definition plain_term :: "string \<Rightarrow> bool" where
  "plain_term t \<longleftrightarrow> list_all (\<lambda>c. \<not> is_operator c \<and> c \<notin> set ''[]'') t"

lemma refs_from_term: "plain_term t \<Longrightarrow> refs_from 0 acc (t @ s) = refs_from 0 (rev t @ acc) s"
  by (induction t arbitrary: acc) (auto simp: plain_term_def)

text \<open>A range in brackets belongs to its term, with the commas in it.\<close>

definition term_ok :: "string \<Rightarrow> bool" where
  "term_ok t \<longleftrightarrow> (\<forall>acc s. refs_from 0 acc (t @ s) = refs_from 0 (rev t @ acc) s)"

lemma refs_in_bracket: "list_all (\<lambda>c. c \<notin> set ''[]'') r \<Longrightarrow> refs_from 1 acc (r @ s) = refs_from 1 (rev r @ acc) s"
  by (induction r arbitrary: acc) auto

lemma plain_term_ok: "plain_term t \<Longrightarrow> term_ok t"
  by (simp add: term_ok_def refs_from_term)

lemma range_term_ok:
  assumes "plain_term t" and "list_all (\<lambda>c. c \<notin> set ''[]'') r" and "term_ok u"
  shows "term_ok (t @ CHR ''['' # r @ CHR '']'' # u)"
  unfolding term_ok_def
proof (intro allI)
  fix acc s
  have "refs_from 0 acc ((t @ CHR ''['' # r @ CHR '']'' # u) @ s) = refs_from 1 (CHR ''['' # rev t @ acc) (r @ CHR '']'' # u @ s)"
    using refs_from_term [OF assms(1)] by simp
  also have "\<dots> = refs_from 0 (CHR '']'' # rev r @ CHR ''['' # rev t @ acc) (u @ s)"
    using refs_in_bracket [OF assms(2)] by simp
  also have "\<dots> = refs_from 0 (rev u @ CHR '']'' # rev r @ CHR ''['' # rev t @ acc) s"
    using assms(3) by (simp add: term_ok_def)
  finally show "refs_from 0 acc ((t @ CHR ''['' # r @ CHR '']'' # u) @ s) = refs_from 0 (rev (t @ CHR ''['' # r @ CHR '']'' # u) @ acc) s"
    by simp
qed

fun join_terms :: "string \<Rightarrow> (char \<times> string) list \<Rightarrow> string" where
  "join_terms t [] = t"
| "join_terms t ((op, u) # ts) = t @ op # join_terms u ts"

lemma refs_join:
  "term_ok t \<Longrightarrow> list_all (\<lambda>(op, u). is_operator op \<and> term_ok u) ts \<Longrightarrow>
     refs_from 0 [] (join_terms t ts) = concat (map term_refs (t # map snd ts))"
proof (induction t ts rule: join_terms.induct)
  case (1 t)
  then have "refs_from 0 [] (t @ []) = refs_from 0 (rev t @ []) []" unfolding term_ok_def by blast
  then show ?case by simp
next
  case (2 t op u ts)
  then have "refs_from 0 [] (t @ op # join_terms u ts) = refs_from 0 (rev t @ []) (op # join_terms u ts)"
    unfolding term_ok_def by blast
  also have "\<dots> = term_refs t @ refs_from 0 [] (join_terms u ts)" using 2(3) by (auto simp: is_operator_def)
  finally show ?case using 2 by simp
qed

text \<open>
  The groups looked up ahead are those the terms of the expression name, in their order: terms are
  separated by white space and the set operators, and a range in brackets belongs to its term,
  whatever separators it holds.
\<close>

theorem groupRefs_of_terms:
  assumes "term_ok t" and "list_all (\<lambda>(op, u). is_operator op \<and> term_ok u) ts"
  shows "groupRefs (join_terms t ts) = concat (map term_refs (t # map snd ts))"
  using refs_join [OF assms] by (simp add: groupRefs_def)

theorem groupRefs_of_terms_witness:
  "groupRefs ''@a:x,n[1,2]&@y'' = [(''a'', ''x''), ([], ''y'')]"
proof -
  have t: "term_ok ''@a:x''" "term_ok ''@y''" "term_ok []" by (rule plain_term_ok, code_simp)+
  have "plain_term ''n''" "list_all (\<lambda>c. c \<notin> set ''[]'') ''1,2''" by code_simp+
  from range_term_ok [OF this t(3)] have "term_ok ''n[1,2]''" by simp
  with t groupRefs_of_terms [of "''@a:x''" "[(CHR '','', ''n[1,2]''), (CHR ''&'', ''@y'')]"]
  have "groupRefs ''@a:x,n[1,2]&@y'' = concat (map term_refs [''@a:x'', ''n[1,2]'', ''@y''])" by (simp add: is_operator_def)
  also have "\<dots> = [(''a'', ''x''), ([], ''y'')]" by code_simp
  finally show ?thesis .
qed

end
