(* ===== verification/ConfigTree.thy ===== *)
theory ConfigTree
  imports ApiTypes ExitCode "HOL-Library.AList"
begin

text \<open>
  The configuration tree of \<open>internal/config/merge.go\<close>: values merged layer by layer, with the origin
  of every one. What the YAML library decodes is a value here; the check of an override against the
  schema of the merged configuration, which the schema library makes, is a parameter.
\<close>

section \<open>Values and where they come from\<close>

datatype yaml =
  YNull | YBool bool | YInt int | YFloat string | YString string | YList "yaml list" | YMap "(string \<times> yaml) list"

record origin =
  og_layer :: string
  og_file :: string
  og_line :: int
  og_column :: int

definition no_origin :: origin where
  "no_origin = \<lparr> og_layer = [], og_file = [], og_line = 0, og_column = 0 \<rparr>"

definition origin_string :: "origin \<Rightarrow> string" where
  "origin_string og =
     (let where_at = (if og_file og \<noteq> [] \<and> og_line og > 0 then og_file og @ '':'' @ itoa (og_line og) @ '':'' @ itoa (og_column og) else og_file og)
      in if og_layer og = [] \<and> where_at = [] then ''unknown'' else if og_layer og = [] then where_at
         else if where_at = [] then og_layer og else og_layer og @ '' ('' @ where_at @ '')'')"

record cfg_document =
  dc_file :: string
  dc_kind :: string
  dc_data :: "yaml go_map"
  dc_positions :: "origin go_map"

text \<open>\<open>p[:strings.LastIndexAny(p, ".[")]\<close>, if there is such an index.\<close>

definition cut_last :: "string \<Rightarrow> string option" where
  "cut_last p =
     (case dropWhile (\<lambda>c. c \<notin> set ''.['') (rev p) of [] \<Rightarrow> None | _ # front \<Rightarrow> Some (rev front))"

lemma cut_last_length: "cut_last p = Some q \<Longrightarrow> length q < length p"
proof -
  assume "cut_last p = Some q"
  then obtain c front where "dropWhile (\<lambda>c. c \<notin> set ''.['') (rev p) = c # front" "q = rev front"
    by (auto simp: cut_last_def split: list.splits)
  with length_dropWhile_le [of "\<lambda>c. c \<notin> set ''.[''" "rev p"] show "length q < length p" by simp
qed

text \<open>\<open>Position\<close>: the closest parent whose position is known.\<close>

function known_position :: "origin go_map \<Rightarrow> string \<Rightarrow> origin option" where
  "known_position positions p =
     (case find_key positions p of Some og \<Rightarrow> Some og
      | None \<Rightarrow> (case cut_last p of None \<Rightarrow> None | Some q \<Rightarrow> known_position positions q))"
  by pat_completeness auto
termination by (relation "measure (\<lambda>(_, p). length p)") (auto dest: cut_last_length)

declare known_position.simps [simp del]

definition Position :: "cfg_document \<Rightarrow> string \<Rightarrow> origin" where
  "Position doc p = (case known_position (dc_positions doc) p of Some og \<Rightarrow> og | None \<Rightarrow> no_origin\<lparr>og_file := dc_file doc\<rparr>)"

section \<open>Paths\<close>

definition splitPath :: "string \<Rightarrow> string list" where
  "splitPath p = (if p = [] then [] else split_char (CHR ''.'') p)"

definition joinPath :: "string \<Rightarrow> string \<Rightarrow> string" where
  "joinPath a b = (if a = [] then b else if b = [] then a else a @ ''.'' @ b)"

definition validatePath :: "string \<Rightarrow> goerr option" where
  "validatePath p =
     (if [] \<in> set (split_char (CHR ''.'') p) then Some (Leaf ''invalid path %q: it has an empty element'' [p]) else None)"

text \<open>\<open>lookup\<close> in a plain tree; nothing there and a null there are both nil.\<close>

fun plain_lookup :: "yaml \<Rightarrow> string list \<Rightarrow> yaml" where
  "plain_lookup v [] = v"
| "plain_lookup (YMap m) (k # ks) = (case find_key m k of None \<Rightarrow> YNull | Some c \<Rightarrow> plain_lookup c ks)"
| "plain_lookup v (k # ks) = YNull"

definition cfg_lookup :: "yaml go_map \<Rightarrow> string \<Rightarrow> yaml" where
  "cfg_lookup data p = plain_lookup (YMap data) (splitPath p)"

text \<open>\<open>lookupKeys\<close>: at each mapping the longest run of elements that names a key is tried first.\<close>

function lookup_keys :: "yaml \<Rightarrow> string list \<Rightarrow> yaml" and lookup_run :: "(string \<times> yaml) list \<Rightarrow> string list \<Rightarrow> nat \<Rightarrow> yaml" where
  "lookup_keys v ks =
     (if ks = [] then v else case v of YMap m \<Rightarrow> lookup_run m ks (length ks) | _ \<Rightarrow> YNull)"
| "lookup_run m ks 0 = YNull"
| "lookup_run m ks (Suc n) =
     (case find_key m (join_str ''.'' (take (Suc n) ks)) of
        None \<Rightarrow> lookup_run m ks n
      | Some child \<Rightarrow>
          let found = lookup_keys child (drop (Suc n) ks)
          in if found \<noteq> YNull \<or> Suc n = length ks then found else lookup_run m ks n)"
  by pat_completeness auto
termination
  by (relation "measures [\<lambda>x. case x of Inl (_, ks) \<Rightarrow> length ks | Inr (_, ks, _) \<Rightarrow> length ks,
       \<lambda>x. case x of Inl (_, ks) \<Rightarrow> (if ks = [] then 0 else Suc (length ks)) | Inr (_, _, n) \<Rightarrow> n]") auto

declare lookup_keys.simps [simp del]

section \<open>Merging\<close>

record cfg_tree =
  tr_data :: "yaml go_map"
  tr_origins :: "origin go_map"
  tr_keys :: "string list go_map"

definition NewTree :: cfg_tree where
  "NewTree = \<lparr> tr_data = [], tr_origins = [], tr_keys = [] \<rparr>"

definition is_section :: "yaml option \<Rightarrow> bool" where
  "is_section v \<longleftrightarrow> (case v of Some (YMap _) \<Rightarrow> True | _ \<Rightarrow> False)"

text \<open>\<open>set\<close>, and whether it replaced a leaf on the way or a section at the path.\<close>

fun tree_set :: "string list \<Rightarrow> yaml \<Rightarrow> yaml go_map \<Rightarrow> yaml go_map \<times> bool" where
  "tree_set [] v m = (case v of YMap m' \<Rightarrow> (m', True) | _ \<Rightarrow> (m, True))"
| "tree_set [k] v m = (AList.update k v m, is_section (find_key m k))"
| "tree_set (k # k' # ks) v m =
     (let present = find_key m k;
          child = (case present of Some (YMap c) \<Rightarrow> c | _ \<Rightarrow> []);
          leaf = (present \<noteq> None \<and> \<not> is_section present)
      in case tree_set (k' # ks) v child of (c, replaced) \<Rightarrow> (AList.update k (YMap c) m, leaf \<or> replaced))"

definition isPrefix :: "string list \<Rightarrow> string list \<Rightarrow> bool" where
  "isPrefix p ks \<longleftrightarrow> length p \<le> length ks \<and> take (length p) ks = p"

text \<open>The origins of what a value replaced are dropped.\<close>

definition related :: "string list \<Rightarrow> string list \<Rightarrow> bool" where
  "related dst ks \<longleftrightarrow> isPrefix dst ks \<or> isPrefix ks dst"

definition drop_related :: "string list \<Rightarrow> cfg_tree \<Rightarrow> cfg_tree" where
  "drop_related dst t =
     (let gone = map fst (filter (\<lambda>(p, ks). related dst ks) (tr_keys t))
      in t\<lparr> tr_origins := filter (\<lambda>(p, _). p \<notin> set gone) (tr_origins t), tr_keys := filter (\<lambda>(p, _). p \<notin> set gone) (tr_keys t) \<rparr>)"

definition merge_leaf :: "string \<Rightarrow> origin \<Rightarrow> string list \<Rightarrow> yaml \<Rightarrow> cfg_tree \<Rightarrow> cfg_tree" where
  "merge_leaf layer og dst v t =
     (case tree_set dst v (tr_data t) of (data, replaced) \<Rightarrow>
       let path = join_str ''.'' dst;
           t1 = (if replaced then drop_related dst (t\<lparr>tr_data := data\<rparr>) else t\<lparr>tr_data := data\<rparr>)
       in t1\<lparr> tr_origins := AList.update path (og\<lparr>og_layer := layer\<rparr>) (tr_origins t1), tr_keys := AList.update path dst (tr_keys t1) \<rparr>)"

lemma value_in_map: "(k, v) \<in> set m \<Longrightarrow> size v < size (YMap m)"
  by (induction m) auto

text \<open>\<open>mergeValue\<close>: a mapping merges key by key, in the order of its sorted keys.\<close>

function merge_value :: "string \<Rightarrow> (string \<Rightarrow> origin) \<Rightarrow> string \<Rightarrow> string list \<Rightarrow> yaml \<Rightarrow> cfg_tree \<Rightarrow> cfg_tree" where
  "merge_value layer from_at src dst (YMap m) t =
     foldl (\<lambda>t (k, v). merge_value layer from_at (joinPath src k) (dst @ [k]) v t) t (sort_key fst m)"
| "merge_value layer from_at src dst YNull t = merge_leaf layer (from_at src) dst YNull t"
| "merge_value layer from_at src dst (YBool b) t = merge_leaf layer (from_at src) dst (YBool b) t"
| "merge_value layer from_at src dst (YInt i) t = merge_leaf layer (from_at src) dst (YInt i) t"
| "merge_value layer from_at src dst (YFloat f) t = merge_leaf layer (from_at src) dst (YFloat f) t"
| "merge_value layer from_at src dst (YString s) t = merge_leaf layer (from_at src) dst (YString s) t"
| "merge_value layer from_at src dst (YList l) t = merge_leaf layer (from_at src) dst (YList l) t"
  by pat_completeness auto
termination
  by (relation "measure (\<lambda>(_, _, _, _, v, _). size v)") (auto dest: value_in_map simp del: yaml.size)

text \<open>\<open>MergeDocumentExcept\<close>, which \<open>MergeDocument\<close> is without exceptions.\<close>

definition MergeDocumentExcept :: "string \<Rightarrow> cfg_document \<Rightarrow> string \<Rightarrow> string \<Rightarrow> string list \<Rightarrow> cfg_tree \<Rightarrow> cfg_tree" where
  "MergeDocumentExcept layer doc from_path into except t =
     (let value = cfg_lookup (dc_data doc) from_path;
          value = (case value of YMap m \<Rightarrow> YMap (filter (\<lambda>(k, _). k \<notin> set except) m) | v \<Rightarrow> v)
      in if value = YNull then t else merge_value layer (Position doc) from_path (splitPath into) value t)"

definition MergeDocument :: "string \<Rightarrow> cfg_document \<Rightarrow> string \<Rightarrow> string \<Rightarrow> cfg_tree \<Rightarrow> cfg_tree" where
  "MergeDocument layer doc from_path into t = MergeDocumentExcept layer doc from_path into [] t"

text \<open>\<open>override\<close> and \<open>SetPath\<close>; the check lists the problems it found at a place.\<close>

type_synonym override_check = "string \<Rightarrow> yaml \<Rightarrow> origin \<Rightarrow> string list"

definition override ::
  "override_check \<Rightarrow> string \<Rightarrow> string \<Rightarrow> yaml \<Rightarrow> origin \<Rightarrow> (string \<Rightarrow> origin) \<Rightarrow> string \<Rightarrow> cfg_tree \<Rightarrow> goerr + cfg_tree" where
  "override check layer path value at from_at src t =
     (let at = at\<lparr>og_layer := []\<rparr> in
      if path = [] then Inl (Leaf ''%s: an override needs a path'' [origin_string at])
      else case validatePath path of Some e \<Rightarrow> Inl (Wrap ''%s: %w'' [origin_string at] [e])
        | None \<Rightarrow>
          (let problems = check path value at in
           if problems \<noteq> [] then Inl (Leaf ''%s'' problems)
           else Inr (merge_value layer from_at src (splitPath path) value t)))"

definition SetPath :: "override_check \<Rightarrow> string \<Rightarrow> string \<Rightarrow> yaml \<Rightarrow> origin \<Rightarrow> cfg_tree \<Rightarrow> goerr + cfg_tree" where
  "SetPath check layer path value og t = override check layer path value og (\<lambda>_. og) [] t"

definition tree_value :: "cfg_tree \<Rightarrow> string \<Rightarrow> yaml" where
  "tree_value t path = lookup_keys (YMap (tr_data t)) (splitPath path)"

definition tree_origin :: "cfg_tree \<Rightarrow> string \<Rightarrow> origin option" where
  "tree_origin t path = find_key (tr_origins t) path"

definition tree_paths :: "cfg_tree \<Rightarrow> string list" where
  "tree_paths t = sorted_keys (tr_origins t)"

end
