(* ===== verification/ConfigResolve.thy ===== *)
theory ConfigResolve
  imports ConfigTree
begin

text \<open>
  Reading a configuration (\<open>internal/config/load.go\<close>) and resolving it for one context
  (\<open>effective.go\<close>): the documents by kind and name, the contexts, and the layers merged in order. The
  files, the YAML decoder, the schemas and the checks of secret files are parameters; the decoded
  result and the checks of its secret references are left out.
\<close>

section \<open>Documents\<close>

record cfg_context =
  cx_name :: string
  cx_cluster :: string
  cx_user :: string
  cx_overrides :: "yaml go_map"

record cfg_bundle =
  bn_documents :: "cfg_document list"
  bn_current :: string
  bn_contexts :: "cfg_context list"
  bn_sites :: "cfg_document go_map"
  bn_clusters :: "cfg_document go_map"
  bn_inventories :: "cfg_document go_map"
  bn_workstations :: "cfg_document go_map"
  bn_secrets :: "cfg_document go_map"
  bn_sources :: "(cfg_document \<times> string) go_map"

definition empty_bundle :: cfg_bundle where
  "empty_bundle = \<lparr> bn_documents = [], bn_current = [], bn_contexts = [], bn_sites = [], bn_clusters = [], bn_inventories = [],
     bn_workstations = [], bn_secrets = [], bn_sources = [] \<rparr>"

definition documentName :: "cfg_document \<Rightarrow> string" where
  "documentName doc =
     (case find_key (dc_data doc) ''metadata'' of
        Some (YMap m) \<Rightarrow> (case find_key m ''name'' of Some (YString s) \<Rightarrow> s | _ \<Rightarrow> [])
      | _ \<Rightarrow> [])"

definition documentAt :: "cfg_document \<Rightarrow> origin" where
  "documentAt doc = (case find_key (dc_positions doc) ''kind'' of Some og \<Rightarrow> og | None \<Rightarrow> no_origin\<lparr>og_file := dc_file doc\<rparr>)"

definition addDocument :: "cfg_document \<Rightarrow> cfg_document go_map \<Rightarrow> goerr + cfg_document go_map" where
  "addDocument doc index =
     (case find_key index (documentName doc) of
        Some first \<Rightarrow> Inl (Leaf ''%s: a second %s %s; the first is at %s''
          [origin_string (documentAt doc), dc_kind doc, documentName doc, origin_string (documentAt first)])
      | None \<Rightarrow> Inr (AList.update (documentName doc) doc index))"

text \<open>The index a kind selects; a Config document is kept apart by the caller, and any other kind is passed over.\<close>

definition indexed_kinds :: "string list" where
  "indexed_kinds = [''Site'', ''Cluster'', ''NodeInventory'', ''Workstation'', ''Secret'']"

definition index_of_kind :: "string \<Rightarrow> cfg_bundle \<Rightarrow> cfg_document go_map" where
  "index_of_kind kind b =
     (if kind = ''Site'' then bn_sites b else if kind = ''Cluster'' then bn_clusters b
      else if kind = ''NodeInventory'' then bn_inventories b else if kind = ''Workstation'' then bn_workstations b
      else if kind = ''Secret'' then bn_secrets b else [])"

definition put_index :: "string \<Rightarrow> cfg_document go_map \<Rightarrow> cfg_bundle \<Rightarrow> cfg_bundle" where
  "put_index kind x b =
     (if kind = ''Site'' then b\<lparr>bn_sites := x\<rparr> else if kind = ''Cluster'' then b\<lparr>bn_clusters := x\<rparr>
      else if kind = ''NodeInventory'' then b\<lparr>bn_inventories := x\<rparr> else if kind = ''Workstation'' then b\<lparr>bn_workstations := x\<rparr>
      else if kind = ''Secret'' then b\<lparr>bn_secrets := x\<rparr> else b)"

definition index_document :: "cfg_document \<Rightarrow> cfg_bundle \<Rightarrow> goerr + cfg_bundle" where
  "index_document doc b =
     (let b = b\<lparr>bn_documents := bn_documents b @ [doc]\<rparr> in
      if dc_kind doc \<in> set indexed_kinds then
        rbind (addDocument doc (index_of_kind (dc_kind doc) b)) (\<lambda>x. Inr (put_index (dc_kind doc) x b))
      else Inr b)"

fun index_documents :: "(cfg_document \<Rightarrow> goerr option) \<Rightarrow> cfg_document list \<Rightarrow> cfg_bundle \<Rightarrow> goerr + cfg_bundle" where
  "index_documents check [] b = Inr b"
| "index_documents check (doc # docs) b =
     (case check doc of Some e \<Rightarrow> Inl e
      | None \<Rightarrow> rbind (index_document doc b) (\<lambda>b'. index_documents check docs b'))"

text \<open>The files one after another: read and decoded, checked as a file, and their documents.\<close>

fun load_files ::
  "(string \<Rightarrow> goerr + cfg_document list) \<Rightarrow> (string \<Rightarrow> cfg_document list \<Rightarrow> goerr option) \<Rightarrow> (cfg_document \<Rightarrow> goerr option) \<Rightarrow>
     string list \<Rightarrow> cfg_bundle \<Rightarrow> goerr + cfg_bundle" where
  "load_files read_docs check_file check [] b = Inr b"
| "load_files read_docs check_file check (f # fs) b =
     rbind (read_docs f) (\<lambda>docs.
       case check_file f docs of Some e \<Rightarrow> Inl e
       | None \<Rightarrow> rbind (index_documents check docs b) (\<lambda>b'. load_files read_docs check_file check fs b'))"

section \<open>Contexts\<close>

text \<open>The contexts of one document: a later document replaces, in place; one document may not name one twice.\<close>

definition place_context :: "cfg_context \<Rightarrow> cfg_context list \<Rightarrow> cfg_context list" where
  "place_context c cs =
     (if list_ex (\<lambda>d. cx_name d = cx_name c) cs then map (\<lambda>d. if cx_name d = cx_name c then c else d) cs else cs @ [c])"

fun merge_contexts :: "cfg_document \<Rightarrow> nat \<Rightarrow> string list \<Rightarrow> cfg_context list \<Rightarrow> cfg_bundle \<Rightarrow> goerr + cfg_bundle" where
  "merge_contexts doc i seen [] b = Inr b"
| "merge_contexts doc i seen (c # cs) b =
     (if cx_name c \<in> set seen then
        Inl (Leaf ''%s: a second context %q in one document; the first is at %s'' [cx_name c])
      else merge_contexts doc (i + 1) (cx_name c # seen) cs
        (b\<lparr> bn_sources := AList.update (cx_name c) (doc, ''contexts['' @ nat_digits i @ '']'') (bn_sources b),
            bn_contexts := place_context c (bn_contexts b) \<rparr>))"

fun merge_configs :: "(cfg_document \<Rightarrow> goerr + string \<times> cfg_context list) \<Rightarrow> cfg_document list \<Rightarrow> cfg_bundle \<Rightarrow> goerr + cfg_bundle" where
  "merge_configs decode [] b = Inr b"
| "merge_configs decode (doc # docs) b =
     (case decode doc of
        Inl e \<Rightarrow> Inl (Wrap ''%s: %w'' [dc_file doc] [e])
      | Inr (current, cs) \<Rightarrow>
          rbind (merge_contexts doc 0 [] cs (if current \<noteq> [] then b\<lparr>bn_current := current\<rparr> else b)) (\<lambda>b'. merge_configs decode docs b'))"

definition config_load ::
  "(string \<Rightarrow> goerr + cfg_document list) \<Rightarrow> (string \<Rightarrow> cfg_document list \<Rightarrow> goerr option) \<Rightarrow> (cfg_document \<Rightarrow> goerr option) \<Rightarrow>
     (cfg_document \<Rightarrow> goerr + string \<times> cfg_context list) \<Rightarrow> string list \<Rightarrow> goerr + cfg_bundle" where
  "config_load read_docs check_file check decode fs =
     rbind (load_files read_docs check_file check fs empty_bundle) (\<lambda>b.
       merge_configs decode (filter (\<lambda>d. dc_kind d = ''Config'') (bn_documents b)) b)"

definition ContextNames :: "cfg_bundle \<Rightarrow> string list" where
  "ContextNames b = map cx_name (bn_contexts b)"

definition bundle_context :: "cfg_bundle \<Rightarrow> string \<Rightarrow> goerr + cfg_context" where
  "bundle_context b name =
     (let name = (if name \<noteq> [] then name else bn_current b) in
      if name = [] then
        (case bn_contexts b of [c] \<Rightarrow> Inr c
         | _ \<Rightarrow> Inl (Leaf ''no context is current; set currentContext or pass --context (known: %v)'' (ContextNames b)))
      else case find (\<lambda>c. cx_name c = name) (bn_contexts b) of
        Some c \<Rightarrow> Inr c | None \<Rightarrow> Inl (Leaf ''unknown context %q (known: %v)'' (name # ContextNames b)))"

section \<open>Layers\<close>

definition envPaths :: "string go_map" where
  "envPaths =
     [(''CLUSTERCTL_FANOUT'', ''fanout.max''), (''CLUSTERCTL_CONNECT_TIMEOUT'', ''ssh.connectTimeout''),
      (''CLUSTERCTL_COMMAND_TIMEOUT'', ''fanout.commandTimeout''), (''CLUSTERCTL_KNOWN_HOSTS'', ''ssh.knownHostsFile''),
      (''CLUSTERCTL_SSH_BINARY'', ''ssh.binary''), (''CLUSTERCTL_SCP_BINARY'', ''ssh.scpBinary''),
      (''CLUSTERCTL_SSHUTTLE_BINARY'', ''workstation.sshuttleBinary''), (''CLUSTERCTL_SOPS_BINARY'', ''workstation.sopsBinary''),
      (''CLUSTERCTL_BROWSER'', ''workstation.browser'')]"

definition map_value :: "yaml go_map \<Rightarrow> string \<Rightarrow> yaml" where
  "map_value m k = (case find_key m k of None \<Rightarrow> YNull | Some v \<Rightarrow> v)"

fun apply_each :: "(string \<Rightarrow> cfg_tree \<Rightarrow> goerr + cfg_tree) \<Rightarrow> string list \<Rightarrow> cfg_tree \<Rightarrow> goerr + cfg_tree" where
  "apply_each f [] t = Inr t"
| "apply_each f (k # ks) t = rbind (f k t) (\<lambda>t'. apply_each f ks t')"

definition applyOverrides :: "override_check \<Rightarrow> string \<Rightarrow> cfg_document \<Rightarrow> string \<Rightarrow> cfg_tree \<Rightarrow> goerr + cfg_tree" where
  "applyOverrides check layer doc at t =
     (case cfg_lookup (dc_data doc) at of
        YMap m \<Rightarrow> apply_each (\<lambda>k. override check layer k (map_value m k) (Position doc (at @ ''.'' @ k)) (Position doc) (at @ ''.'' @ k))
                    (sorted_keys m) t
      | _ \<Rightarrow> Inr t)"

definition wrap_error :: "string \<Rightarrow> string list \<Rightarrow> goerr + 'a \<Rightarrow> goerr + 'a" where
  "wrap_error fmt args r = (case r of Inl e \<Rightarrow> Inl (Wrap fmt args [e]) | Inr a \<Rightarrow> Inr a)"

definition context_origin :: "(cfg_document \<times> string) option \<Rightarrow> string \<Rightarrow> origin" where
  "context_origin src path = (case src of None \<Rightarrow> no_origin | Some (doc, at) \<Rightarrow> Position doc (joinPath at path))"

definition context_override ::
  "override_check \<Rightarrow> (cfg_document \<times> string) option \<Rightarrow> string \<Rightarrow> yaml \<Rightarrow> string \<Rightarrow> cfg_tree \<Rightarrow> goerr + cfg_tree" where
  "context_override check src path v at t = override check ''context'' path v (context_origin src at) (context_origin src) at t"

definition applyContextOverrides :: "override_check \<Rightarrow> cfg_context \<Rightarrow> (cfg_document \<times> string) option \<Rightarrow> cfg_tree \<Rightarrow> goerr + cfg_tree" where
  "applyContextOverrides check c src t =
     wrap_error ''context %q: %w'' [cx_name c]
       (rbind (if cx_user c = [] then Inr t else context_override check src ''defaultUser'' (YString (cx_user c)) ''user'' t) (\<lambda>t.
          apply_each (\<lambda>k. context_override check src k (map_value (cx_overrides c) k) (''overrides.'' @ k)) (sorted_keys (cx_overrides c)) t))"

definition applyEnv :: "override_check \<Rightarrow> (string \<Rightarrow> goerr + yaml) \<Rightarrow> (string \<Rightarrow> string) \<Rightarrow> cfg_tree \<Rightarrow> goerr + cfg_tree" where
  "applyEnv check parse env t =
     apply_each (\<lambda>name t.
         if env name = [] then Inr t
         else rbind (wrap_error ''%s: %w'' [name] (parse (env name))) (\<lambda>v.
           SetPath check ''environment'' (case find_key envPaths name of None \<Rightarrow> [] | Some p \<Rightarrow> p) v
             (no_origin\<lparr>og_layer := ''environment'', og_file := name\<rparr>) t))
       (sorted_keys envPaths) t"

definition flag_origin :: "string \<Rightarrow> origin" where
  "flag_origin flag = no_origin\<lparr>og_layer := ''flags'', og_file := flag\<rparr>"

definition apply_flag :: "override_check \<Rightarrow> (string \<Rightarrow> goerr + yaml) \<Rightarrow> string go_map \<Rightarrow> string \<Rightarrow> cfg_tree \<Rightarrow> goerr + cfg_tree" where
  "apply_flag check parse assignments k t =
     rbind (wrap_error ''--set %s: %w'' [k] (parse (case find_key assignments k of None \<Rightarrow> [] | Some raw \<Rightarrow> raw))) (\<lambda>v.
       SetPath check ''flags'' k v (flag_origin ''--set'') t)"

definition applySet :: "override_check \<Rightarrow> (string \<Rightarrow> goerr + yaml) \<Rightarrow> string go_map \<Rightarrow> cfg_tree \<Rightarrow> goerr + cfg_tree" where
  "applySet check parse assignments t = apply_each (apply_flag check parse assignments) (sorted_keys assignments) t"

section \<open>Resolving\<close>

record resolve_options =
  ro_context :: string
  ro_env :: "string \<Rightarrow> string"
  ro_set :: "string go_map"
  ro_fanout :: int

text \<open>The defaults built in, the name of this machine when it can be told, and the libraries.\<close>

record resolve_world =
  rw_defaults :: "cfg_document list"
  rw_hostname :: "string option"
  rw_check :: override_check
  rw_parse :: "string \<Rightarrow> goerr + yaml"

definition workstationFor :: "resolve_world \<Rightarrow> cfg_bundle \<Rightarrow> cfg_document option" where
  "workstationFor W b =
     (let named = (\<lambda>n. find_key (bn_workstations b) n); unnamed = find_key (bn_workstations b) [] in
      case rw_hostname W of None \<Rightarrow> unnamed
      | Some host \<Rightarrow>
          (case named host of Some d \<Rightarrow> Some d
           | None \<Rightarrow> (case cut host ''.'' of None \<Rightarrow> unnamed
              | Some (short, _) \<Rightarrow> (case named short of Some d \<Rightarrow> Some d | None \<Rightarrow> unnamed))))"

definition site_of :: "cfg_document \<Rightarrow> string" where
  "site_of cluster = (case cfg_lookup (dc_data cluster) ''spec.site'' of YString s \<Rightarrow> s | _ \<Rightarrow> [])"

text \<open>The documents: built in defaults, site, and what of the cluster is data.\<close>

definition base_layers :: "resolve_world \<Rightarrow> cfg_document \<Rightarrow> cfg_document \<Rightarrow> cfg_tree" where
  "base_layers W site cluster =
     (let t = (case rw_defaults W of [] \<Rightarrow> NewTree | d # _ \<Rightarrow> MergeDocument ''defaults'' d [] [] NewTree);
          t = MergeDocument ''site'' site ''spec'' [] t
      in foldl (\<lambda>t field. MergeDocument ''cluster'' cluster (''spec.'' @ field) field t) t [''slurm'', ''groups'', ''bootPaths''])"

definition workstation_layer :: "resolve_world \<Rightarrow> cfg_document option \<Rightarrow> cfg_tree \<Rightarrow> goerr + cfg_tree" where
  "workstation_layer W ws t =
     (case ws of None \<Rightarrow> Inr t
      | Some doc \<Rightarrow>
          applyOverrides (rw_check W) ''workstation'' doc ''spec.overrides''
            (MergeDocumentExcept ''workstation'' doc ''spec'' ''workstation'' [''overrides''] t))"

definition fanout_layer :: "resolve_world \<Rightarrow> int \<Rightarrow> cfg_tree \<Rightarrow> goerr + cfg_tree" where
  "fanout_layer W n t = (if 0 < n then SetPath (rw_check W) ''flags'' ''fanout.max'' (YInt n) (flag_origin ''--fanout'') t else Inr t)"

definition merge_layers ::
  "resolve_world \<Rightarrow> cfg_bundle \<Rightarrow> resolve_options \<Rightarrow> cfg_context \<Rightarrow> cfg_document \<Rightarrow> cfg_document \<Rightarrow> goerr + cfg_tree" where
  "merge_layers W b opts c site cluster =
     rbind (applyOverrides (rw_check W) ''cluster'' cluster ''spec.overrides'' (base_layers W site cluster)) (\<lambda>t.
     rbind (workstation_layer W (workstationFor W b) t) (\<lambda>t.
     rbind (applyContextOverrides (rw_check W) c (find_key (bn_sources b) (cx_name c)) t) (\<lambda>t.
     rbind (applyEnv (rw_check W) (rw_parse W) (ro_env opts) t) (\<lambda>t.
     rbind (applySet (rw_check W) (rw_parse W) (ro_set opts) t) (\<lambda>t.
     fanout_layer W (ro_fanout opts) t)))))"

record resolved =
  rd_context :: cfg_context
  rd_site :: string
  rd_cluster :: string
  rd_tree :: cfg_tree

definition config_resolve :: "resolve_world \<Rightarrow> cfg_bundle \<Rightarrow> resolve_options \<Rightarrow> goerr + resolved" where
  "config_resolve W b opts =
     rbind (bundle_context b (if ro_context opts = [] then ro_env opts ''CLUSTERCTL_CONTEXT'' else ro_context opts)) (\<lambda>c.
       case find_key (bn_clusters b) (cx_cluster c) of
         None \<Rightarrow> Inl (Leaf ''context %q names cluster %q, which no document defines (known: %v)'' [cx_name c, cx_cluster c])
       | Some cluster \<Rightarrow>
           (case find_key (bn_sites b) (site_of cluster) of
              None \<Rightarrow> Inl (Leaf ''cluster %q names site %q, which no document defines (known: %v)'' [cx_cluster c, site_of cluster])
            | Some site \<Rightarrow>
                rbind (merge_layers W b opts c site cluster) (\<lambda>t.
                  Inr \<lparr> rd_context = c, rd_site = site_of cluster, rd_cluster = cx_cluster c, rd_tree = t \<rparr>)))"

text \<open>\<open>FromCommandLine\<close>: the path itself, then the sections it is part of.\<close>

definition cut_dot :: "string \<Rightarrow> string option" where
  "cut_dot p = (case dropWhile (\<lambda>c. c \<noteq> CHR ''.'') (rev p) of [] \<Rightarrow> None | _ # front \<Rightarrow> Some (rev front))"

lemma cut_dot_length: "cut_dot p = Some q \<Longrightarrow> length q < length p"
proof -
  assume "cut_dot p = Some q"
  then obtain c front where "dropWhile (\<lambda>c. c \<noteq> CHR ''.'') (rev p) = c # front" "q = rev front"
    by (auto simp: cut_dot_def split: list.splits)
  with length_dropWhile_le [of "\<lambda>c. c \<noteq> CHR ''.''" "rev p"] show "length q < length p" by simp
qed

function from_command_line :: "cfg_tree \<Rightarrow> string \<Rightarrow> bool" where
  "from_command_line t p =
     (if p = [] then False
      else case tree_origin t p of Some og \<Rightarrow> og_layer og = ''environment'' \<or> og_layer og = ''flags''
        | None \<Rightarrow> (case cut_dot p of None \<Rightarrow> False | Some q \<Rightarrow> from_command_line t q))"
  by pat_completeness auto
termination by (relation "measure (\<lambda>(_, p). length p)") (auto dest: cut_dot_length)

declare from_command_line.simps [simp del]

end
