(* ===== verification/ConfigTreeProps.thy ===== *)
theory ConfigTreeProps
  imports ConfigTree
begin

text \<open>
  The configuration tree as what it stands for: a finite map from the paths of the leaves to their
  values, with the origin of each. Merging a leaf writes its path and takes away every leaf under it
  or above it; the origins kept are those of the leaves there are.
\<close>

section \<open>Leaves\<close>

fun leaf_at :: "yaml \<Rightarrow> string list \<Rightarrow> yaml option" where
  "leaf_at (YMap m) [] = None"
| "leaf_at v [] = Some v"
| "leaf_at (YMap m) (k # ks) = (case find_key m k of None \<Rightarrow> None | Some c \<Rightarrow> leaf_at c ks)"
| "leaf_at v (k # ks) = None"

definition is_leaf :: "yaml \<Rightarrow> bool" where
  "is_leaf v \<longleftrightarrow> \<not> is_section (Some v)"

lemma leaf_at_leaf: "is_leaf v \<Longrightarrow> leaf_at v p = (if p = [] then Some v else None)"
  by (cases v; cases p) (auto simp: is_leaf_def is_section_def)

lemma isPrefix_simps [simp]:
  "isPrefix [] ks" "isPrefix (k # p) [] = False" "isPrefix (k # p) (j # ks) = (k = j \<and> isPrefix p ks)"
  by (auto simp: isPrefix_def)

lemma isPrefix_refl [simp]: "isPrefix p p"
  by (simp add: isPrefix_def)

lemma isPrefix_Nil [simp]: "isPrefix p [] = (p = [])"
  by (cases p) auto

lemma related_simps [simp]:
  "related [] ks" "related ks []" "related (k # p) (j # ks) = (k = j \<and> related p ks)" "related p p"
  by (auto simp: related_def)

lemma leaf_at_empty [simp]: "leaf_at (YMap []) p = None"
  by (cases p) (auto simp: find_key_def)

lemma find_key_Nil [simp]: "find_key [] k = None"
  by (simp add: find_key_def)

lemma find_key_update [simp]: "find_key (AList.update k v m) j = (if j = k then Some v else find_key m j)"
  by (simp add: find_key_def update_conv')

text \<open>What a write does to the leaves.\<close>

lemma leaf_at_set:
  assumes "is_leaf v" and "path \<noteq> []"
  shows "leaf_at (YMap (fst (tree_set path v m))) q =
    (if q = path then Some v else if related path q then None else leaf_at (YMap m) q)"
  using assms
proof (induction path v m arbitrary: q rule: tree_set.induct)
  case (2 k v m)
  show ?case
  proof (cases q)
    case (Cons j qs)
    have "leaf_at v qs = (if qs = [] then Some v else None)" using 2 by (simp add: leaf_at_leaf)
    with Cons show ?thesis by auto
  qed simp
next
  case (3 k k' ks v m)
  let ?child = "case find_key m k of Some (YMap c) \<Rightarrow> c | _ \<Rightarrow> []"
  obtain c r where c: "tree_set (k' # ks) v ?child = (c, r)" by fastforce
  have set: "fst (tree_set (k # k' # ks) v m) = AList.update k (YMap c) m" by (simp add: Let_def c)
  show ?case
  proof (cases q)
    case (Cons j qs)
    have old: "leaf_at (YMap ?child) qs = leaf_at (YMap m) (k # qs)" if "qs \<noteq> []"
      using that by (cases qs) (auto split: option.splits yaml.splits)
    have "leaf_at (YMap c) qs = (if qs = k' # ks then Some v else if related (k' # ks) qs then None else leaf_at (YMap ?child) qs)"
      using 3(1) [OF refl refl refl 3(2), of qs] c by simp
    with Cons old show ?thesis unfolding set by (cases "qs = []") auto
  qed (simp add: set)
qed simp

section \<open>Sections hold something\<close>

fun full :: "yaml \<Rightarrow> bool" where
  "full (YMap m) \<longleftrightarrow> m \<noteq> [] \<and> list_all (\<lambda>(_, v). full v) m"
| "full v \<longleftrightarrow> True"

definition full_map :: "yaml go_map \<Rightarrow> bool" where
  "full_map m \<longleftrightarrow> list_all (\<lambda>(_, v). full v) m"

lemma full_find: "full_map m \<Longrightarrow> find_key m k = Some v \<Longrightarrow> full v"
  by (auto simp: full_map_def list_all_iff find_key_def dest!: map_of_SomeD)

lemma full_update: "full_map m \<Longrightarrow> full v \<Longrightarrow> full_map (AList.update k v m)"
  by (induction m) (auto simp: full_map_def)

lemma full_leaf: "is_leaf v \<Longrightarrow> full v"
  by (cases v) (auto simp: is_leaf_def is_section_def)

lemma full_section: "full (YMap m) \<longleftrightarrow> m \<noteq> [] \<and> full_map m"
  by (simp add: full_map_def)

lemma full_child: "full_map m \<Longrightarrow> full_map (case find_key m k of Some (YMap c) \<Rightarrow> c | _ \<Rightarrow> [])"
proof -
  assume "full_map m"
  note full_find [OF this, of k]
  then show ?thesis by (cases "find_key m k") (auto simp: full_map_def split: yaml.splits)
qed

lemma full_has_leaf: "full v \<Longrightarrow> \<exists>q x. leaf_at v q = Some x"
proof (induction v)
  case (YMap m)
  then obtain k w ms where m: "m = (k, w) # ms" by (cases m) auto
  with YMap obtain q x where "leaf_at w q = Some x" by fastforce
  then have "leaf_at (YMap m) (k # q) = Some x" by (simp add: m find_key_def)
  then show ?case by blast
qed (metis leaf_at.simps)+

lemma full_set:
  assumes "is_leaf v" and "path \<noteq> []" and "full_map m"
  shows "full_map (fst (tree_set path v m)) \<and> fst (tree_set path v m) \<noteq> []"
  using assms
proof (induction path v m rule: tree_set.induct)
  case (2 k v m)
  then show ?case by (simp add: full_update full_leaf update_nonempty)
next
  case (3 k k' ks v m)
  let ?child = "case find_key m k of Some (YMap c) \<Rightarrow> c | _ \<Rightarrow> []"
  obtain c r where c: "tree_set (k' # ks) v ?child = (c, r)" by fastforce
  have "full_map ?child" using 3 by (intro full_child)
  from 3(1) [OF refl refl refl 3(2) _ this] c have "full (YMap c)" unfolding full_section by simp
  then show ?case using 3(4) by (simp add: Let_def c full_update update_nonempty)
qed simp

text \<open>A write says that it replaced something exactly when a leaf under or above its path is gone.\<close>

lemma set_replaced:
  assumes "path \<noteq> []" and "full_map m"
  shows "snd (tree_set path v m) \<longleftrightarrow> (\<exists>q x. leaf_at (YMap m) q = Some x \<and> q \<noteq> path \<and> related path q)"
  using assms
proof (induction path v m rule: tree_set.induct)
  case (2 k v m)
  show ?case
  proof (cases "is_section (find_key m k)")
    case True
    then obtain c where c: "find_key m k = Some (YMap c)" by (auto simp: is_section_def split: option.splits yaml.splits)
    obtain q x where q: "leaf_at (YMap c) q = Some x" using full_has_leaf full_find [OF 2(2) c] by blast
    then have "q \<noteq> []" by auto
    with q c have "leaf_at (YMap m) (k # q) = Some x \<and> k # q \<noteq> [k] \<and> related [k] (k # q)" by simp
    with True show ?thesis by (metis tree_set.simps(2) snd_conv)
  next
    case False
    have "\<not> (leaf_at (YMap m) q = Some x \<and> q \<noteq> [k] \<and> related [k] q)" for q x
    proof
      assume q: "leaf_at (YMap m) q = Some x \<and> q \<noteq> [k] \<and> related [k] q"
      then obtain qs where qs: "q = k # qs" "qs \<noteq> []" by (cases q) auto
      with q False show False
        by (cases qs) (auto simp: is_section_def split: option.splits yaml.splits)
    qed
    with False show ?thesis by auto
  qed
next
  case (3 k k' ks v m)
  let ?child = "case find_key m k of Some (YMap c) \<Rightarrow> c | _ \<Rightarrow> []"
  let ?leaf = "find_key m k \<noteq> None \<and> \<not> is_section (find_key m k)"
  obtain c r where c: "tree_set (k' # ks) v ?child = (c, r)" by fastforce
  have "full_map ?child" using 3 by (intro full_child)
  from 3(1) [OF refl refl refl _ this] c
  have r: "r \<longleftrightarrow> (\<exists>q x. leaf_at (YMap ?child) q = Some x \<and> q \<noteq> k' # ks \<and> related (k' # ks) q)" by simp
  have under: "leaf_at (YMap m) (k # qs) = leaf_at (YMap ?child) qs" if "qs \<noteq> []" for qs
    using that by (cases qs) (auto split: option.splits yaml.splits)
  have at: "(\<exists>x. leaf_at (YMap m) [k] = Some x) \<longleftrightarrow> ?leaf"
    by (auto simp: is_section_def split: option.splits yaml.splits)
  have "snd (tree_set (k # k' # ks) v m) \<longleftrightarrow> ?leaf \<or> r" by (simp add: Let_def c)
  also have "\<dots> \<longleftrightarrow> (\<exists>q x. leaf_at (YMap m) q = Some x \<and> q \<noteq> k # k' # ks \<and> related (k # k' # ks) q)" (is "_ \<longleftrightarrow> ?R")
  proof
    assume "?leaf \<or> r"
    then show ?R
    proof
      assume ?leaf
      with at obtain x where "leaf_at (YMap m) [k] = Some x" by blast
      moreover have "[k] \<noteq> k # k' # ks \<and> related (k # k' # ks) [k]" by simp
      ultimately show ?R by blast
    next
      assume r
      with r obtain q x where q: "leaf_at (YMap ?child) q = Some x" "q \<noteq> k' # ks" "related (k' # ks) q" by blast
      from q(1) have "q \<noteq> []" by auto
      with q under have "leaf_at (YMap m) (k # q) = Some x \<and> k # q \<noteq> k # k' # ks \<and> related (k # k' # ks) (k # q)" by simp
      then show ?R by blast
    qed
  next
    assume ?R
    then obtain q x where q: "leaf_at (YMap m) q = Some x" "q \<noteq> k # k' # ks" "related (k # k' # ks) q" by blast
    then obtain qs where qs: "q = k # qs" by (cases q) auto
    show "?leaf \<or> r"
    proof (cases "qs = []")
      case True
      with q(1) qs at show ?thesis by blast
    next
      case False
      with q qs under r show ?thesis by auto
    qed
  qed
  finally show ?case .
qed simp

section \<open>The tree is a map of leaves\<close>

text \<open>The keys of a path have no dot, so that the dotted path is split back into them.\<close>

definition plain_path :: "string list \<Rightarrow> bool" where
  "plain_path ks \<longleftrightarrow> ks \<noteq> [] \<and> list_all (\<lambda>k. CHR ''.'' \<notin> set k) ks"

abbreviation dotted :: "string list \<Rightarrow> string" where
  "dotted ks \<equiv> join_str ''.'' ks"

lemma split_dotted: "plain_path ks \<Longrightarrow> split_char (CHR ''.'') (dotted ks) = ks"
  by (simp add: plain_path_def list_all_iff split_join_char)

lemma dotted_inject: "plain_path p \<Longrightarrow> plain_path q \<Longrightarrow> dotted p = dotted q \<longleftrightarrow> p = q"
  using split_dotted by metis

definition leaf_of :: "cfg_tree \<Rightarrow> string list \<Rightarrow> yaml option" where
  "leaf_of t = leaf_at (YMap (tr_data t))"

text \<open>Sections hold something, and the origins kept are those of the leaves, each under its path.\<close>

definition tree_ok :: "cfg_tree \<Rightarrow> bool" where
  "tree_ok t \<longleftrightarrow> full_map (tr_data t) \<and> distinct (map fst (tr_keys t)) \<and>
     (\<forall>p. find_key (tr_origins t) p = None \<longleftrightarrow> find_key (tr_keys t) p = None) \<and>
     (\<forall>p ks. find_key (tr_keys t) p = Some ks \<longleftrightarrow> leaf_of t ks \<noteq> None \<and> p = dotted ks) \<and>
     (\<forall>ks. leaf_of t ks \<noteq> None \<longrightarrow> plain_path ks)"

lemma tree_okD:
  assumes "tree_ok t"
  shows "full_map (tr_data t)" "distinct (map fst (tr_keys t))" "find_key (tr_origins t) p = None \<longleftrightarrow> find_key (tr_keys t) p = None"
    "find_key (tr_keys t) p = Some ks \<longleftrightarrow> leaf_of t ks \<noteq> None \<and> p = dotted ks" "leaf_of t ks \<noteq> None \<Longrightarrow> plain_path ks"
  using assms unfolding tree_ok_def by blast+

lemma NewTree_ok: "tree_ok NewTree"
  by (simp add: tree_ok_def NewTree_def leaf_of_def full_map_def)

lemma find_filter_key:
  "find_key (filter (\<lambda>(p, _). P p) m) k = (if P k then find_key m k else None)"
  by (induction m) (auto simp: find_key_def)

lemma mem_find_keys: "distinct (map fst m) \<Longrightarrow> (p, ks) \<in> set m \<longleftrightarrow> find_key m p = Some ks"
  by (simp add: find_key_def)

definition gone_paths :: "string list \<Rightarrow> cfg_tree \<Rightarrow> string set" where
  "gone_paths dst t = fst ` {(p, ks) \<in> set (tr_keys t). related dst ks}"

lemma find_drop_related:
  "find_key (tr_keys (drop_related dst t)) p = (if p \<in> gone_paths dst t then None else find_key (tr_keys t) p)"
  "find_key (tr_origins (drop_related dst t)) p = (if p \<in> gone_paths dst t then None else find_key (tr_origins t) p)"
proof -
  have g: "set (map fst (filter (\<lambda>(p, ks). related dst ks) (tr_keys t))) = gone_paths dst t"
    by (auto simp: gone_paths_def)
  have k: "tr_keys (drop_related dst t) = filter (\<lambda>(p, _). p \<notin> gone_paths dst t) (tr_keys t)"
      "tr_origins (drop_related dst t) = filter (\<lambda>(p, _). p \<notin> gone_paths dst t) (tr_origins t)"
    unfolding drop_related_def Let_def g by simp_all
  show "find_key (tr_keys (drop_related dst t)) p = (if p \<in> gone_paths dst t then None else find_key (tr_keys t) p)"
    "find_key (tr_origins (drop_related dst t)) p = (if p \<in> gone_paths dst t then None else find_key (tr_origins t) p)"
    unfolding k find_filter_key [of "\<lambda>p. p \<notin> gone_paths dst t"] by simp_all
qed

lemma gone_iff: "tree_ok t \<Longrightarrow> p \<in> gone_paths dst t \<longleftrightarrow> (\<exists>ks. find_key (tr_keys t) p = Some ks \<and> related dst ks)"
  using mem_find_keys [OF tree_okD(2)] by (force simp: gone_paths_def)

definition merged :: "string \<Rightarrow> origin \<Rightarrow> string list \<Rightarrow> yaml \<Rightarrow> cfg_tree \<Rightarrow> cfg_tree \<Rightarrow> bool" where
  "merged layer og dst v t t' \<longleftrightarrow> full_map (tr_data t') \<and> distinct (map fst (tr_keys t')) \<and>
     (\<forall>q. leaf_of t' q = (if q = dst then Some v else if related dst q then None else leaf_of t q)) \<and>
     (\<forall>p. find_key (tr_keys t') p = (if p = dotted dst then Some dst
        else if \<exists>ks. find_key (tr_keys t) p = Some ks \<and> related dst ks then None else find_key (tr_keys t) p)) \<and>
     (\<forall>p. find_key (tr_origins t') p = (if p = dotted dst then Some (og\<lparr>og_layer := layer\<rparr>)
        else if \<exists>ks. find_key (tr_keys t) p = Some ks \<and> related dst ks then None else find_key (tr_origins t) p))"

text \<open>Without a replaced section or leaf there is nothing to drop, which is why the code does not look.\<close>

lemma merge_leaf_merged:
  assumes "tree_ok t" and "is_leaf v" and "plain_path dst"
  shows "merged layer og dst v t (merge_leaf layer og dst v t)"
proof -
  obtain data r where d: "tree_set dst v (tr_data t) = (data, r)" by fastforce
  have dst: "dst \<noteq> []" using assms(3) by (simp add: plain_path_def)
  let ?t = "t\<lparr>tr_data := data\<rparr>"
  let ?u = "if r then drop_related dst ?t else ?t"
  have m: "merge_leaf layer og dst v t = ?u\<lparr> tr_origins := AList.update (dotted dst) (og\<lparr>og_layer := layer\<rparr>) (tr_origins ?u),
      tr_keys := AList.update (dotted dst) dst (tr_keys ?u) \<rparr>"
    by (simp add: merge_leaf_def d Let_def)
  have data: "tr_data ?u = data" by (simp add: drop_related_def Let_def)
  have gone: "p \<in> gone_paths dst ?t \<longleftrightarrow> (\<exists>ks. find_key (tr_keys t) p = Some ks \<and> related dst ks)" for p
    using gone_iff [OF assms(1)] by (simp add: gone_paths_def)
  have untouched: "\<not> related dst q" if "\<not> r" "leaf_of t q \<noteq> None" "q \<noteq> dst" for q
    using that set_replaced [OF dst tree_okD(1) [OF assms(1)], of v] d unfolding leaf_of_def by (metis not_None_eq snd_conv)
  have kept: "\<not> (\<exists>ks. find_key (tr_keys t) p = Some ks \<and> related dst ks)" if "\<not> r" "p \<noteq> dotted dst" for p
  proof
    assume "\<exists>ks. find_key (tr_keys t) p = Some ks \<and> related dst ks"
    then obtain ks where ks: "find_key (tr_keys t) p = Some ks" "related dst ks" by blast
    with tree_okD(4) [OF assms(1)] have "leaf_of t ks \<noteq> None" "p = dotted ks" by blast+
    moreover from this that(2) have "ks \<noteq> dst" by blast
    ultimately have "\<not> related dst ks" by (intro untouched [OF that(1)])
    with ks(2) show False by blast
  qed
  have "find_key (tr_keys ?u) p = (if p \<in> gone_paths dst ?t then None else find_key (tr_keys t) p)"
      "find_key (tr_origins ?u) p = (if p \<in> gone_paths dst ?t then None else find_key (tr_origins t) p)" if "r \<or> p \<noteq> dotted dst" for p
    using that kept [of p] gone find_drop_related [of dst ?t p] by auto
  note u = this
  have "distinct (map fst (tr_keys ?u))"
    using tree_okD(2) [OF assms(1)] by (auto simp: drop_related_def Let_def intro!: distinct_map_filter)
  then have "distinct (map fst (tr_keys (merge_leaf layer og dst v t)))" by (simp add: m distinct_update)
  moreover have "full_map (tr_data (merge_leaf layer og dst v t))"
    using full_set [OF assms(2) dst tree_okD(1) [OF assms(1)]] d data by (simp add: m)
  moreover have "leaf_of (merge_leaf layer og dst v t) q = (if q = dst then Some v else if related dst q then None else leaf_of t q)" for q
    using leaf_at_set [OF assms(2) dst, of "tr_data t" q] d data by (simp add: m leaf_of_def)
  moreover have "find_key (tr_keys (merge_leaf layer og dst v t)) p = (if p = dotted dst then Some dst
        else if \<exists>ks. find_key (tr_keys t) p = Some ks \<and> related dst ks then None else find_key (tr_keys t) p)"
      "find_key (tr_origins (merge_leaf layer og dst v t)) p = (if p = dotted dst then Some (og\<lparr>og_layer := layer\<rparr>)
        else if \<exists>ks. find_key (tr_keys t) p = Some ks \<and> related dst ks then None else find_key (tr_origins t) p)" for p
  proof -
    have sel: "tr_keys (merge_leaf layer og dst v t) = AList.update (dotted dst) dst (tr_keys ?u)"
        "tr_origins (merge_leaf layer og dst v t) = AList.update (dotted dst) (og\<lparr>og_layer := layer\<rparr>) (tr_origins ?u)"
      unfolding m by simp_all
    show "find_key (tr_keys (merge_leaf layer og dst v t)) p = (if p = dotted dst then Some dst
        else if \<exists>ks. find_key (tr_keys t) p = Some ks \<and> related dst ks then None else find_key (tr_keys t) p)"
      unfolding sel find_key_update using u(1) [of p] gone [of p] by presburger
    show "find_key (tr_origins (merge_leaf layer og dst v t)) p = (if p = dotted dst then Some (og\<lparr>og_layer := layer\<rparr>)
        else if \<exists>ks. find_key (tr_keys t) p = Some ks \<and> related dst ks then None else find_key (tr_origins t) p)"
      unfolding sel find_key_update using u(2) [of p] gone [of p] by presburger
  qed
  ultimately show ?thesis unfolding merged_def by blast
qed

lemma merged_ok:
  assumes "tree_ok t" and "plain_path dst" and "merged layer og dst v t t'"
  shows "tree_ok t'"
proof -
  note m = assms(3) [unfolded merged_def]
  have leaf: "leaf_of t' q = (if q = dst then Some v else if related dst q then None else leaf_of t q)" for q using m by blast
  have keys: "find_key (tr_keys t') p = (if p = dotted dst then Some dst
        else if \<exists>ks. find_key (tr_keys t) p = Some ks \<and> related dst ks then None else find_key (tr_keys t) p)" for p using m by blast
  have plain: "leaf_of t' ks \<noteq> None \<Longrightarrow> plain_path ks" for ks
    using tree_okD(5) [OF assms(1), of ks] assms(2) leaf [of ks] by (auto split: if_splits)
  have "find_key (tr_keys t') p = Some ks \<longleftrightarrow> leaf_of t' ks \<noteq> None \<and> p = dotted ks" for p ks
  proof (cases "p = dotted dst")
    case True
    with keys [of p] leaf [of ks] plain [of ks] dotted_inject [OF assms(2), of ks] show ?thesis by auto
  next
    case False
    with keys [of p] leaf [of ks] tree_okD(4) [OF assms(1), of p ks] show ?thesis by auto
  qed
  moreover have "find_key (tr_origins t') p = None \<longleftrightarrow> find_key (tr_keys t') p = None" for p
    using m tree_okD(3) [OF assms(1), of p] by auto
  ultimately show ?thesis using m plain unfolding tree_ok_def by blast
qed

text \<open>What a tree stands for, and a write to it.\<close>

definition cfg_at :: "cfg_tree \<Rightarrow> string list \<Rightarrow> (yaml \<times> origin) option" where
  "cfg_at t q = (case (leaf_of t q, find_key (tr_origins t) (dotted q)) of (Some v, Some og) \<Rightarrow> Some (v, og) | _ \<Rightarrow> None)"

definition cfg_write :: "string list \<Rightarrow> yaml \<times> origin \<Rightarrow> (string list \<Rightarrow> (yaml \<times> origin) option) \<Rightarrow> (string list \<Rightarrow> (yaml \<times> origin) option)" where
  "cfg_write dst vo cfg = (\<lambda>q. if q = dst then Some vo else if related dst q then None else cfg q)"

lemma leaf_origin: "tree_ok t \<Longrightarrow> leaf_of t q = Some v \<Longrightarrow> \<exists>og. find_key (tr_origins t) (dotted q) = Some og"
  using tree_okD(3) [of t "dotted q"] tree_okD(4) [of t "dotted q" q] by auto

lemma merged_writes:
  assumes "tree_ok t" and "plain_path dst" and "merged layer og dst v t t'"
  shows "cfg_at t' = cfg_write dst (v, og\<lparr>og_layer := layer\<rparr>) (cfg_at t)"
proof
  fix q
  note m = assms(3) [unfolded merged_def]
  have leaf: "leaf_of t' q = (if q = dst then Some v else if related dst q then None else leaf_of t q)" using m by blast
  have ogs: "find_key (tr_origins t') p = (if p = dotted dst then Some (og\<lparr>og_layer := layer\<rparr>)
        else if \<exists>ks. find_key (tr_keys t) p = Some ks \<and> related dst ks then None else find_key (tr_origins t) p)" for p using m by blast
  consider (same) "q = dst" | (rel) "q \<noteq> dst" "related dst q" | (gone) "q \<noteq> dst" "\<not> related dst q" "leaf_of t q = None"
    | (kept) v' where "q \<noteq> dst" "\<not> related dst q" "leaf_of t q = Some v'" by (cases "leaf_of t q") auto
  then show "cfg_at t' q = cfg_write dst (v, og\<lparr>og_layer := layer\<rparr>) (cfg_at t) q"
  proof cases
    case same
    with leaf ogs show ?thesis by (simp add: cfg_at_def cfg_write_def)
  next
    case rel
    with leaf show ?thesis by (simp add: cfg_at_def cfg_write_def)
  next
    case gone
    with leaf show ?thesis by (simp add: cfg_at_def cfg_write_def)
  next
    case kept
    with tree_okD(5) [OF assms(1), of q] have "dotted q \<noteq> dotted dst" using dotted_inject [OF _ assms(2)] by auto
    moreover from kept tree_okD(4) [OF assms(1), of "dotted q" q] have "find_key (tr_keys t) (dotted q) = Some q" by simp
    ultimately have "find_key (tr_origins t') (dotted q) = find_key (tr_origins t) (dotted q)" using ogs kept by auto
    with leaf kept show ?thesis by (simp add: cfg_at_def cfg_write_def)
  qed
qed

section \<open>Merging is writing the leaves\<close>

text \<open>The leaves of a value in the order they are merged, with their paths in the source and in the tree.\<close>

function leaf_writes :: "string \<Rightarrow> string list \<Rightarrow> yaml \<Rightarrow> (string \<times> string list \<times> yaml) list" where
  "leaf_writes src dst v =
     (case v of YMap m \<Rightarrow> concat (map (\<lambda>(k, w). leaf_writes (joinPath src k) (dst @ [k]) w) (sort_key fst m)) | _ \<Rightarrow> [(src, dst, v)])"
  by pat_completeness auto
termination by (relation "measure (\<lambda>(_, _, v). size v)") (auto dest: value_in_map simp del: yaml.size)

declare leaf_writes.simps [simp del]

lemma leaf_writes_leaf: "is_leaf v \<Longrightarrow> leaf_writes src dst v = [(src, dst, v)]"
  by (subst leaf_writes.simps) (auto simp: is_leaf_def is_section_def split: yaml.splits)

lemma leaf_writes_map: "leaf_writes src dst (YMap m) = concat (map (\<lambda>(k, w). leaf_writes (joinPath src k) (dst @ [k]) w) (sort_key fst m))"
  by (subst leaf_writes.simps) simp

definition write_leaf :: "string \<Rightarrow> (string \<Rightarrow> origin) \<Rightarrow> cfg_tree \<Rightarrow> string \<times> string list \<times> yaml \<Rightarrow> cfg_tree" where
  "write_leaf layer from_at t w = (case w of (src, dst, v) \<Rightarrow> merge_leaf layer (from_at src) dst v t)"

lemma foldl_concat: "foldl f a (concat xss) = foldl (\<lambda>a xs. foldl f a xs) a xss"
  by (induction xss arbitrary: a) auto

lemma foldl_map_f: "foldl f a (map g xs) = foldl (\<lambda>a x. f a (g x)) a xs"
  by (induction xs arbitrary: a) auto

lemma merge_value_writes: "merge_value layer from_at src dst v t = foldl (write_leaf layer from_at) t (leaf_writes src dst v)"
proof (induction layer from_at src dst v t rule: merge_value.induct)
  case (1 layer from_at src dst m t)
  have "foldl (\<lambda>t (k, v). merge_value layer from_at (joinPath src k) (dst @ [k]) v t) t xs =
      foldl (\<lambda>t (k, w). foldl (write_leaf layer from_at) t (leaf_writes (joinPath src k) (dst @ [k]) w)) t xs"
    if "set xs \<subseteq> set (sort_key fst m)" for xs
    using that
  proof (induction xs arbitrary: t)
    case (Cons kw xs)
    obtain k w where kw: "kw = (k, w)" by (cases kw)
    with Cons.prems have "(k, w) \<in> set (sort_key fst m)" by auto
    from "1.IH" [OF this refl] Cons kw show ?case by simp
  qed simp
  from this [of "sort_key fst m"] show ?case by (simp add: leaf_writes_map foldl_concat foldl_map_f split_def)
qed (simp_all add: leaf_writes_leaf is_leaf_def is_section_def write_leaf_def)

text \<open>No key of the value has a dot.\<close>

function plain_keys :: "yaml \<Rightarrow> bool" where
  "plain_keys v = (case v of YMap m \<Rightarrow> list_all (\<lambda>(k, w). CHR ''.'' \<notin> set k \<and> plain_keys w) m | _ \<Rightarrow> True)"
  by pat_completeness auto
termination by (relation "measure size") (auto dest: value_in_map simp del: yaml.size)

declare plain_keys.simps [simp del]

lemma plain_keys_map: "plain_keys (YMap m) = list_all (\<lambda>(k, w). CHR ''.'' \<notin> set k \<and> plain_keys w) m"
  by (subst plain_keys.simps) simp

definition plain_write :: "string \<times> string list \<times> yaml \<Rightarrow> bool" where
  "plain_write w \<longleftrightarrow> plain_path (fst (snd w)) \<and> is_leaf (snd (snd w))"

lemma leaf_writes_plain:
  "plain_keys v \<Longrightarrow> list_all (\<lambda>k. CHR ''.'' \<notin> set k) dst \<Longrightarrow> dst \<noteq> [] \<or> \<not> is_leaf v \<Longrightarrow> list_all plain_write (leaf_writes src dst v)"
proof (induction src dst v rule: leaf_writes.induct)
  case (1 src dst v)
  show ?case
  proof (cases v)
    case (YMap m)
    have "list_all plain_write (leaf_writes (joinPath src k) (dst @ [k]) w)" if "(k, w) \<in> set (sort_key fst m)" for k w
      using "1.IH" [OF YMap that refl] "1.prems"(1,2) that YMap by (auto simp: plain_keys_map list_all_iff)
    then show ?thesis unfolding YMap leaf_writes_map by (auto simp: list_all_iff)
  qed (use "1.prems" in \<open>auto simp: leaf_writes_leaf is_leaf_def is_section_def plain_write_def plain_path_def\<close>)
qed

definition write_cfg ::
  "string \<Rightarrow> (string \<Rightarrow> origin) \<Rightarrow> (string list \<Rightarrow> (yaml \<times> origin) option) \<Rightarrow> string \<times> string list \<times> yaml \<Rightarrow> (string list \<Rightarrow> (yaml \<times> origin) option)" where
  "write_cfg layer from_at cfg w = (case w of (src, dst, v) \<Rightarrow> cfg_write dst (v, (from_at src)\<lparr>og_layer := layer\<rparr>) cfg)"

lemma writes_refine:
  "tree_ok t \<Longrightarrow> list_all plain_write ws \<Longrightarrow>
     tree_ok (foldl (write_leaf layer from_at) t ws) \<and>
     cfg_at (foldl (write_leaf layer from_at) t ws) = foldl (write_cfg layer from_at) (cfg_at t) ws"
proof (induction ws arbitrary: t)
  case (Cons w ws)
  obtain src dst v where w: "w = (src, dst, v)" by (cases w)
  with Cons.prems(2) have p: "is_leaf v" "plain_path dst" by (simp_all add: plain_write_def)
  note m = merge_leaf_merged [OF Cons.prems(1) p, of layer "from_at src"]
  from Cons.IH [OF merged_ok [OF Cons.prems(1) p(2) m]] Cons.prems(2) merged_writes [OF Cons.prems(1) p(2) m]
  show ?case by (simp add: w write_leaf_def write_cfg_def)
qed simp

lemma merge_refines_lemma:
  assumes "tree_ok t" and "plain_keys v" and "plain_path dst \<or> dst = [] \<and> \<not> is_leaf v"
  shows "tree_ok (merge_value layer from_at src dst v t) \<and>
    cfg_at (merge_value layer from_at src dst v t) = foldl (write_cfg layer from_at) (cfg_at t) (leaf_writes src dst v)"
proof -
  have "list_all plain_write (leaf_writes src dst v)"
    using leaf_writes_plain [OF assms(2), of dst src] assms(3) by (auto simp: plain_path_def)
  from writes_refine [OF assms(1) this, of layer from_at] show ?thesis by (simp add: merge_value_writes)
qed

text \<open>
  C30. Merging a value into the configuration tree is writing its leaves into the map from paths to
  values and origins that the tree stands for, one after another: each takes its path, with its own
  origin and the layer it came with, and takes away what was under it or above it. So no origin of
  a value that is gone is left, whether or not the code had to look for one, and every value there
  is has one.
\<close>

theorem merge_refines_writes:
  assumes "tree_ok t" and "plain_keys v" and "plain_path dst \<or> dst = [] \<and> \<not> is_leaf v"
  shows "tree_ok (merge_value layer from_at src dst v t) \<and>
    cfg_at (merge_value layer from_at src dst v t) = foldl (write_cfg layer from_at) (cfg_at t) (leaf_writes src dst v)"
  using merge_refines_lemma [OF assms] .

theorem merge_refines_writes_witness:
  "cfg_at (merge_value ''site'' (\<lambda>_. no_origin) [] [] (YMap [(''a'', YMap [(''b'', YInt 1)])]) NewTree) [''a'', ''b''] =
     Some (YInt 1, no_origin\<lparr>og_layer := ''site''\<rparr>)"
proof -
  let ?v = "YMap [(''a'', YMap [(''b'', YInt 1)])]"
  have v: "plain_keys ?v" "plain_path [] \<or> [] = [] \<and> \<not> is_leaf ?v"
    by (simp_all add: plain_keys.simps is_leaf_def is_section_def)
  have "leaf_writes [] [] ?v = [(''a.b'', [''a'', ''b''], YInt 1)]"
    by (simp add: leaf_writes_map leaf_writes_leaf is_leaf_def is_section_def joinPath_def)
  with merge_refines_writes [OF NewTree_ok v, of "''site''" "\<lambda>_. no_origin" "[]"] show ?thesis
    by (simp add: write_cfg_def cfg_write_def)
qed

section \<open>Reading the tree\<close>

lemma plain_lookup_leaf: "leaf_at v q = Some x \<Longrightarrow> plain_lookup v q = x"
  by (induction v q rule: leaf_at.induct) (auto split: option.splits)

definition plain_leaves :: "yaml \<Rightarrow> bool" where
  "plain_leaves v \<longleftrightarrow> (\<forall>q. leaf_at v q \<noteq> None \<longrightarrow> list_all (\<lambda>k. CHR ''.'' \<notin> set k) q)"

lemma plain_leaves_child:
  assumes "plain_leaves (YMap m)" and "full_map m" and "find_key m k = Some c"
  shows "CHR ''.'' \<notin> set k \<and> plain_leaves c"
proof -
  obtain q x where q: "leaf_at c q = Some x" using full_has_leaf full_find [OF assms(2,3)] by blast
  have "leaf_at (YMap m) (k # p) = leaf_at c p" for p using assms(3) by simp
  then have all: "leaf_at c p \<noteq> None \<Longrightarrow> list_all (\<lambda>k. CHR ''.'' \<notin> set k) (k # p)" for p
    using assms(1) unfolding plain_leaves_def by metis
  from all [of q] q all show ?thesis by (auto simp: plain_leaves_def)
qed

lemma full_plain_run:
  assumes "plain_leaves (YMap m)" and "full_map m"
  shows "n \<noteq> 0 \<Longrightarrow> n \<le> length ks \<Longrightarrow>
    lookup_run m ks n = (case find_key m (hd ks) of None \<Rightarrow> YNull | Some c \<Rightarrow> lookup_keys c (tl ks))"
proof (induction n)
  case (Suc n)
  show ?case
  proof (cases n)
    case 0
    with Suc.prems have ks: "ks = hd ks # tl ks" by (cases ks) auto
    then have "join_str ''.'' (take (Suc n) ks) = hd ks" "drop (Suc n) ks = tl ks" using 0 by (metis One_nat_def drop_0 drop_Suc_Cons join_str.simps(2) take_0 take_Suc_Cons)+
    with 0 show ?thesis by (simp add: Let_def split: option.splits)
  next
    case (Suc j)
    with Suc.prems obtain a b rest where ks: "ks = a # b # rest" by (cases ks; cases "tl ks") auto
    then have "join_str ''.'' (take (Suc n) ks) = a @ ''.'' @ join_str ''.'' (b # take j rest)"
      by (simp add: Suc join_str_Cons)
    then have "CHR ''.'' \<in> set (join_str ''.'' (take (Suc n) ks))" by simp
    then have "find_key m (join_str ''.'' (take (Suc n) ks)) = None"
      using plain_leaves_child [OF assms] by (metis not_None_eq)
    with Suc Suc.IH Suc.prems show ?thesis by simp
  qed
qed simp

lemma lookup_keys_plain:
  "full v \<or> (\<exists>m. v = YMap m \<and> full_map m) \<Longrightarrow> plain_leaves v \<Longrightarrow> lookup_keys v ks = plain_lookup v ks"
proof (induction v ks rule: plain_lookup.induct)
  case (2 m k ks)
  have f: "full_map m" using 2(2) full_section by auto
  have "lookup_keys (YMap m) (k # ks) = lookup_run m (k # ks) (length (k # ks))" by (simp add: lookup_keys.simps)
  also have "\<dots> = (case find_key m k of None \<Rightarrow> YNull | Some c \<Rightarrow> lookup_keys c ks)"
    using full_plain_run [OF 2(3) f, of "length (k # ks)" "k # ks", unfolded list.sel] by (simp del: lookup_run.simps)
  also have "\<dots> = plain_lookup (YMap m) (k # ks)"
    using 2(1) full_find [OF f] plain_leaves_child [OF 2(3) f] by (auto split: option.splits)
  finally show ?case .
qed (simp_all add: lookup_keys.simps)

lemma tree_reports_lemma:
  assumes "tree_ok t" and "plain_path q" and "q \<noteq> [[]]"
  shows "tree_origin t (dotted q) = map_option snd (cfg_at t q) \<and>
    (\<forall>v og. cfg_at t q = Some (v, og) \<longrightarrow> tree_value t (dotted q) = v)"
proof
  show "tree_origin t (dotted q) = map_option snd (cfg_at t q)"
  proof (cases "leaf_of t q")
    case None
    have "find_key (tr_keys t) (dotted q) = None"
    proof (rule ccontr)
      assume "find_key (tr_keys t) (dotted q) \<noteq> None"
      then obtain ks where "find_key (tr_keys t) (dotted q) = Some ks" by blast
      with tree_okD(4) [OF assms(1)] have "leaf_of t ks \<noteq> None" "dotted q = dotted ks" by blast+
      with tree_okD(5) [OF assms(1), of ks] dotted_inject [OF assms(2), of ks] None show False by simp
    qed
    with None tree_okD(3) [OF assms(1), of "dotted q"] show ?thesis by (simp add: tree_origin_def cfg_at_def)
  next
    case (Some v)
    with leaf_origin [OF assms(1) Some] show ?thesis by (auto simp: tree_origin_def cfg_at_def)
  qed
  show "\<forall>v og. cfg_at t q = Some (v, og) \<longrightarrow> tree_value t (dotted q) = v"
  proof (intro allI impI)
    fix v og assume "cfg_at t q = Some (v, og)"
    then have leaf: "leaf_at (YMap (tr_data t)) q = Some v" by (auto simp: cfg_at_def leaf_of_def split: option.splits)
    have "splitPath (dotted q) = q"
    proof (cases "dotted q = []")
      case True
      with assms(3) split_dotted [OF assms(2)] show ?thesis by simp
    qed (simp add: splitPath_def split_dotted [OF assms(2)])
    moreover have "plain_leaves (YMap (tr_data t))"
      using tree_okD(5) [OF assms(1)] by (auto simp: plain_leaves_def leaf_of_def plain_path_def)
    ultimately show "tree_value t (dotted q) = v"
      using lookup_keys_plain [of "YMap (tr_data t)" q] tree_okD(1) [OF assms(1)] plain_lookup_leaf [OF leaf]
      by (simp add: tree_value_def)
  qed
qed

text \<open>
  The value and the origin reported for a path are those of the leaf the tree stands for, and a
  path that names no leaf has no origin. The path of one empty key is the one of the whole tree.
\<close>

theorem tree_reports_leaves:
  assumes "tree_ok t" and "plain_path q" and "q \<noteq> [[]]"
  shows "tree_origin t (dotted q) = map_option snd (cfg_at t q) \<and>
    (\<forall>v og. cfg_at t q = Some (v, og) \<longrightarrow> tree_value t (dotted q) = v)"
  using tree_reports_lemma [OF assms] .

theorem tree_reports_leaves_witness: "tree_origin NewTree (dotted [''a'', ''b'']) = None"
proof -
  have "plain_path [''a'', ''b'']" by (simp add: plain_path_def)
  from tree_reports_leaves [OF NewTree_ok this] show ?thesis by (simp add: cfg_at_def leaf_of_def NewTree_def)
qed

end
