(* ===== verification/ConfigResolveProps.thy ===== *)
theory ConfigResolveProps
  imports ConfigResolve ConfigTreeProps
begin

text \<open>
  What reading and resolving a configuration promise: no document takes the place of another of its
  kind and name, and what was given on the command line is what the commands see, with its origin,
  whatever the files, the context and the environment say.
\<close>

section \<open>Documents by kind and name\<close>

definition indexed :: "cfg_bundle \<Rightarrow> bool" where
  "indexed b \<longleftrightarrow> (\<forall>kind\<in>set indexed_kinds. \<forall>name d.
     find_key (index_of_kind kind b) name = Some d \<longleftrightarrow> d \<in> set (bn_documents b) \<and> dc_kind d = kind \<and> documentName d = name)"

lemma addDocument_Inr:
  "addDocument doc index = Inr x \<longleftrightarrow> find_key index (documentName doc) = None \<and> x = AList.update (documentName doc) doc index"
  by (auto simp: addDocument_def split: option.splits)

lemma index_of_put:
  assumes "kind \<in> set indexed_kinds"
  shows "index_of_kind k (put_index kind x b) = (if k = kind then x else index_of_kind k b)"
  using assms unfolding indexed_kinds_def
  by (auto simp: put_index_def index_of_kind_def)

lemma put_index_documents [simp]: "bn_documents (put_index kind x b) = bn_documents b"
  by (simp add: put_index_def)

lemma index_of_kind_documents [simp]: "index_of_kind kind (b\<lparr>bn_documents := ds\<rparr>) = index_of_kind kind b"
  by (simp add: index_of_kind_def)

lemma index_document_kind:
  assumes "index_document doc b = Inr b'"
  shows "bn_documents b' = bn_documents b @ [doc]"
    and "kind \<in> set indexed_kinds \<Longrightarrow> index_of_kind kind b' =
      (if kind = dc_kind doc then AList.update (documentName doc) doc (index_of_kind kind b) else index_of_kind kind b)"
    and "dc_kind doc \<in> set indexed_kinds \<Longrightarrow> find_key (index_of_kind (dc_kind doc) b) (documentName doc) = None"
  using assms by (auto simp: index_document_def Let_def rbind_Inr_iff addDocument_Inr index_of_put split: if_splits)

lemma index_document_indexed:
  assumes "indexed b" and "index_document doc b = Inr b'"
  shows "indexed b'"
  unfolding indexed_def
proof (intro ballI allI)
  fix kind name d
  assume k: "kind \<in> set indexed_kinds"
  from assms(1) k have old: "find_key (index_of_kind kind b) n = Some e \<longleftrightarrow>
      e \<in> set (bn_documents b) \<and> dc_kind e = kind \<and> documentName e = n" for n e
    unfolding indexed_def by blast
  note new = index_document_kind(1) [OF assms(2)] index_document_kind(2) [OF assms(2) k]
  show "find_key (index_of_kind kind b') name = Some d \<longleftrightarrow> d \<in> set (bn_documents b') \<and> dc_kind d = kind \<and> documentName d = name"
  proof (cases "kind = dc_kind doc")
    case True
    have "find_key (index_of_kind kind b) (documentName doc) = None"
      using index_document_kind(3) [OF assms(2)] k True by simp
    then have "\<not> (e \<in> set (bn_documents b) \<and> dc_kind e = kind \<and> documentName e = documentName doc)" for e
      using old [of "documentName doc" e] by simp
    with True new old [of name d] show ?thesis by auto
  next
    case False
    with new old [of name d] show ?thesis by auto
  qed
qed

lemma index_documents_indexed: "index_documents check docs b = Inr b' \<Longrightarrow> indexed b \<Longrightarrow> indexed b'"
  by (induction docs arbitrary: b) (auto simp: rbind_Inr_iff index_document_indexed split: option.splits)

lemma load_files_indexed: "load_files rd cf check fs b = Inr b' \<Longrightarrow> indexed b \<Longrightarrow> indexed b'"
  by (induction fs arbitrary: b) (auto simp: rbind_Inr_iff dest: index_documents_indexed split: option.splits)

lemma merge_contexts_rest:
  "merge_contexts doc i seen cs b = Inr b' \<Longrightarrow> bn_documents b' = bn_documents b \<and> index_of_kind kind b' = index_of_kind kind b"
  by (induction doc i seen cs b rule: merge_contexts.induct) (auto simp: index_of_kind_def split: if_splits)

lemma merge_configs_rest:
  "merge_configs decode docs b = Inr b' \<Longrightarrow> bn_documents b' = bn_documents b \<and> index_of_kind kind b' = index_of_kind kind b"
proof (induction docs arbitrary: b)
  case (Cons doc docs)
  then obtain current cs b1 where d: "merge_contexts doc 0 [] cs (if current \<noteq> [] then b\<lparr>bn_current := current\<rparr> else b) = Inr b1"
      "merge_configs decode docs b1 = Inr b'" by (auto simp: rbind_Inr_iff split: sum.splits prod.splits)
  from merge_contexts_rest [OF d(1), of kind] Cons.IH [OF d(2)] show ?case by (simp add: index_of_kind_def split: if_splits)
qed simp

text \<open>
  C32. Every document of an accepted configuration is the one of its kind and name, and everything found
  under a name was read: no document has silently taken the place of another.
\<close>

theorem no_document_replaced:
  assumes "config_load read_docs check_file check decode fs = Inr b" and "kind \<in> set indexed_kinds"
  shows "find_key (index_of_kind kind b) name = Some d \<longleftrightarrow>
    d \<in> set (bn_documents b) \<and> dc_kind d = kind \<and> documentName d = name"
proof -
  have "indexed empty_bundle" by (simp add: indexed_def empty_bundle_def index_of_kind_def)
  moreover from assms(1) obtain b1 where b0: "load_files read_docs check_file check fs empty_bundle = Inr b1"
      and "merge_configs decode (filter (\<lambda>d. dc_kind d = ''Config'') (bn_documents b1)) b1 = Inr b"
    by (auto simp: config_load_def rbind_Inr_iff)
  ultimately have b1: "indexed b1" "merge_configs decode (filter (\<lambda>d. dc_kind d = ''Config'') (bn_documents b1)) b1 = Inr b"
    using load_files_indexed [OF b0] by blast+
  from merge_configs_rest [OF b1(2), of kind] b1(1) assms(2) show ?thesis by (simp add: indexed_def)
qed

theorem no_document_replaced_witness:
  "\<exists>b. config_load (\<lambda>_. Inr [\<lparr> dc_file = ''f'', dc_kind = ''Site'', dc_data = [], dc_positions = [] \<rparr>]) (\<lambda>_ _. None) (\<lambda>_. None) (\<lambda>_. Inr ([], [])) [''f''] = Inr b \<and>
     find_key (index_of_kind ''Site'' b) [] = Some \<lparr> dc_file = ''f'', dc_kind = ''Site'', dc_data = [], dc_positions = [] \<rparr>"
proof -
  let ?d = "\<lparr> dc_file = ''f'', dc_kind = ''Site'', dc_data = [], dc_positions = [] \<rparr>"
  obtain b where b: "config_load (\<lambda>_. Inr [?d]) (\<lambda>_ _. None) (\<lambda>_. None) (\<lambda>_. Inr ([], [])) [''f''] = Inr b" "bn_documents b = [?d]"
    by (simp add: config_load_def index_document_def indexed_kinds_def addDocument_def index_of_kind_def put_index_def
        empty_bundle_def documentName_def find_key_def Let_def)
  moreover have "documentName ?d = []" by code_simp
  ultimately show ?thesis
    using no_document_replaced [OF b(1), of "''Site''" "[]" ?d] by (auto simp: indexed_kinds_def)
qed

section \<open>Layers keep the tree\<close>

lemma plain_keys_find: "plain_keys (YMap m) \<Longrightarrow> find_key m k = Some v \<Longrightarrow> CHR ''.'' \<notin> set k \<and> plain_keys v"
  by (auto simp: plain_keys_map list_all_iff find_key_def dest!: map_of_SomeD)

lemma plain_keys_null [simp]: "plain_keys YNull"
  by (simp add: plain_keys.simps)

lemma plain_keys_lookup: "plain_keys v \<Longrightarrow> plain_keys (plain_lookup v ks)"
  by (induction v ks rule: plain_lookup.induct) (auto dest: plain_keys_find split: option.splits)

lemma plain_keys_value: "plain_keys (YMap m) \<Longrightarrow> plain_keys (map_value m k)"
  by (auto simp: map_value_def dest: plain_keys_find split: option.splits)

lemma split_char_plain_parts: "k \<in> set (split_char c s) \<Longrightarrow> c \<notin> set k"
  by (induction s arbitrary: k) (auto split: list.splits if_splits)

lemma splitPath_plain: "p \<noteq> [] \<Longrightarrow> plain_path (splitPath p)"
  using split_char_plain_parts by (auto simp: splitPath_def plain_path_def list_all_iff)

lemma dotted_splitPath: "p \<noteq> [] \<Longrightarrow> dotted (splitPath p) = p"
  by (simp add: splitPath_def)

definition plain_doc :: "cfg_document \<Rightarrow> bool" where
  "plain_doc doc \<longleftrightarrow> plain_keys (YMap (dc_data doc))"

lemma plain_doc_lookup: "plain_doc doc \<Longrightarrow> plain_keys (cfg_lookup (dc_data doc) p)"
  by (simp add: plain_doc_def cfg_lookup_def plain_keys_lookup)

lemma override_Inr:
  assumes "override check layer path v at from_at src t = Inr t'"
  shows "t' = merge_value layer from_at src (splitPath path) v t \<and> plain_path (splitPath path) \<and> path \<noteq> []"
  using assms splitPath_plain [of path] by (auto simp: override_def Let_def split: if_splits option.splits)

lemma override_ok:
  assumes "override check layer path v at from_at src t = Inr t'" and "plain_keys v" and "tree_ok t"
  shows "tree_ok t'"
  using override_Inr [OF assms(1)] merge_refines_lemma [OF assms(3,2)] by simp

lemma SetPath_Inr:
  assumes "SetPath check layer path v og t = Inr t'"
  shows "t' = merge_value layer (\<lambda>_. og) [] (splitPath path) v t \<and> plain_path (splitPath path) \<and> path \<noteq> []"
  using override_Inr assms unfolding SetPath_def by blast

lemma SetPath_ok: "SetPath check layer path v og t = Inr t' \<Longrightarrow> plain_keys v \<Longrightarrow> tree_ok t \<Longrightarrow> tree_ok t'"
  unfolding SetPath_def by (rule override_ok)

text \<open>A document whose part that is merged at the root is a section, as its schema says.\<close>

definition root_section :: "cfg_document \<Rightarrow> string \<Rightarrow> bool" where
  "root_section doc at \<longleftrightarrow> (case cfg_lookup (dc_data doc) at of YMap _ \<Rightarrow> True | YNull \<Rightarrow> True | _ \<Rightarrow> False)"

lemma plain_keys_filter: "plain_keys (YMap m) \<Longrightarrow> plain_keys (YMap (filter P m))"
  by (auto simp: plain_keys_map list_all_iff)

lemma merge_document_ok:
  assumes "tree_ok t" and "plain_doc doc" and "into \<noteq> [] \<or> root_section doc at"
  shows "tree_ok (MergeDocumentExcept layer doc at into except t)"
proof -
  define v where "v = (case cfg_lookup (dc_data doc) at of YMap m \<Rightarrow> YMap (filter (\<lambda>(k, _). k \<notin> set except) m) | v \<Rightarrow> v)"
  have v: "plain_keys v" using plain_doc_lookup [OF assms(2), of at]
    by (auto simp: v_def plain_keys_filter split: yaml.splits)
  have "plain_path (splitPath into) \<or> splitPath into = [] \<and> (v = YNull \<or> \<not> is_leaf v)"
    using assms(3) splitPath_plain [of into]
    by (auto simp: root_section_def v_def splitPath_def is_leaf_def is_section_def split: yaml.splits)
  then show ?thesis
    using merge_refines_lemma [OF assms(1) v] assms(1)
    by (cases "v = YNull") (auto simp: MergeDocumentExcept_def v_def [symmetric] Let_def)
qed

lemma apply_each_inv:
  assumes "apply_each f ks t = Inr t'" and "P t" and "\<And>k t t'. k \<in> set ks \<Longrightarrow> f k t = Inr t' \<Longrightarrow> P t \<Longrightarrow> P t'"
  shows "P t'"
  using assms by (induction ks arbitrary: t) (auto simp: rbind_Inr_iff)

lemma applyOverrides_ok:
  assumes "applyOverrides check layer doc at t = Inr t'" and "plain_doc doc" and "tree_ok t"
  shows "tree_ok t'"
proof (cases "cfg_lookup (dc_data doc) at")
  case (YMap m)
  from plain_doc_lookup [OF assms(2), of at] YMap have m: "plain_keys (YMap m)" by simp
  show ?thesis
    using assms(1,3) YMap apply_each_inv [where P = tree_ok] override_ok plain_keys_value [OF m]
    by (simp add: applyOverrides_def)
qed (use assms in \<open>auto simp: applyOverrides_def\<close>)

lemma wrap_error_Inr [simp]: "wrap_error fmt args r = Inr a \<longleftrightarrow> r = Inr a"
  by (auto simp: wrap_error_def split: sum.splits)

lemma plain_keys_string [simp]: "plain_keys (YString s)" "plain_keys (YInt i)"
  by (simp_all add: plain_keys.simps)

lemma context_override_ok:
  "context_override check src path v at t = Inr t' \<Longrightarrow> plain_keys v \<Longrightarrow> tree_ok t \<Longrightarrow> tree_ok t'"
  unfolding context_override_def by (rule override_ok)

lemma context_overrides_ok:
  assumes "applyContextOverrides check c src t = Inr t'" and "plain_keys (YMap (cx_overrides c))" and "tree_ok t"
  shows "tree_ok t'"
proof -
  from assms(1) obtain t1 where t1: "t1 = t \<or> context_override check src ''defaultUser'' (YString (cx_user c)) ''user'' t = Inr t1"
      and rest: "apply_each (\<lambda>k. context_override check src k (map_value (cx_overrides c) k) (''overrides.'' @ k))
             (sorted_keys (cx_overrides c)) t1 = Inr t'"
    by (auto simp: applyContextOverrides_def rbind_Inr_iff split: if_splits)
  from t1 assms(3) have "tree_ok t1" by (auto dest: context_override_ok)
  from apply_each_inv [where P = tree_ok, OF rest this] show ?thesis using context_override_ok plain_keys_value [OF assms(2)] by blast
qed

lemma apply_env_ok:
  assumes "applyEnv check parse env t = Inr t'" and "\<And>raw v. parse raw = Inr v \<Longrightarrow> plain_keys v" and "tree_ok t"
  shows "tree_ok t'"
  by (rule apply_each_inv [where P = tree_ok, OF assms(1) [unfolded applyEnv_def] assms(3)])
    (auto simp: rbind_Inr_iff split: if_splits dest: SetPath_ok assms(2))

section \<open>What the command line sets\<close>

lemma isPrefix_trans: "isPrefix p q \<Longrightarrow> isPrefix q r \<Longrightarrow> isPrefix p r"
  by (auto simp: isPrefix_def min_def) (metis take_take min.absorb1)

lemma isPrefix_linear: "isPrefix p r \<Longrightarrow> isPrefix q r \<Longrightarrow> related p q"
  by (auto simp: isPrefix_def related_def) (metis min.absorb1 nat_le_linear take_take)+

lemma leaf_writes_under: "(s, d, w) \<in> set (leaf_writes src dst v) \<Longrightarrow> isPrefix dst d"
proof (induction src dst v arbitrary: s d w rule: leaf_writes.induct)
  case (1 src dst v)
  show ?case
  proof (cases v)
    case (YMap m)
    with "1.prems" obtain k u where k: "(k, u) \<in> set (sort_key fst m)" "(s, d, w) \<in> set (leaf_writes (joinPath src k) (dst @ [k]) u)"
      by (auto simp: leaf_writes_map)
    from "1.IH" [OF YMap k(1) refl k(2)] have "isPrefix (dst @ [k]) d" .
    moreover have "isPrefix dst (dst @ [k])" by (simp add: isPrefix_def)
    ultimately show ?thesis using isPrefix_trans by blast
  qed (use "1.prems" in \<open>auto simp: leaf_writes_leaf is_leaf_def is_section_def\<close>)
qed

lemma unrelated_under:
  assumes "\<not> related dst q" and "isPrefix dst d" shows "\<not> related d q"
proof
  assume "related d q"
  then consider "isPrefix d q" | "isPrefix q d" by (auto simp: related_def)
  then show False
  proof cases
    case 1
    with isPrefix_trans [OF assms(2)] assms(1) show False by (simp add: related_def)
  next
    case 2
    with isPrefix_linear [OF assms(2)] assms(1) show False by (simp add: related_def)
  qed
qed

lemma write_cfg_other:
  assumes "\<And>s d w. (s, d, w) \<in> set ws \<Longrightarrow> \<not> related d q"
  shows "foldl (write_cfg layer from_at) cfg ws q = cfg q"
  using assms
proof (induction ws arbitrary: cfg)
  case (Cons x ws)
  obtain s d w where x: "x = (s, d, w)" by (cases x)
  with Cons.prems [of s d w] have "\<not> related d q" "q \<noteq> d" by auto
  then have "write_cfg layer from_at cfg x q = cfg q" by (auto simp: x write_cfg_def cfg_write_def)
  moreover have "foldl (write_cfg layer from_at) (write_cfg layer from_at cfg x) ws q = write_cfg layer from_at cfg x q"
    by (rule Cons.IH) (use Cons.prems in auto)
  ultimately show ?case by simp
qed simp

lemma SetPath_keeps:
  assumes "SetPath check layer path v og t = Inr t'" and "plain_keys v" and "tree_ok t" and "\<not> related (splitPath path) q"
  shows "cfg_at t' q = cfg_at t q"
proof -
  from SetPath_Inr [OF assms(1)] have t': "t' = merge_value layer (\<lambda>_. og) [] (splitPath path) v t" and p: "plain_path (splitPath path)" by auto
  have "foldl (write_cfg layer (\<lambda>_. og)) (cfg_at t) (leaf_writes [] (splitPath path) v) q = cfg_at t q"
    using leaf_writes_under unrelated_under [OF assms(4)] by (intro write_cfg_other) blast
  with merge_refines_lemma [OF assms(3,2), of "splitPath path" layer "\<lambda>_. og" "[]"] p show ?thesis by (simp add: t')
qed

lemma SetPath_sets:
  assumes "SetPath check layer path v og t = Inr t'" and "is_leaf v" and "plain_keys v" and "tree_ok t"
  shows "cfg_at t' (splitPath path) = Some (v, og\<lparr>og_layer := layer\<rparr>)"
proof -
  from SetPath_Inr [OF assms(1)] have t': "t' = merge_value layer (\<lambda>_. og) [] (splitPath path) v t" and p: "plain_path (splitPath path)" by auto
  with merge_refines_lemma [OF assms(4,3), of "splitPath path" layer "\<lambda>_. og" "[]"] assms(2) show ?thesis
    by (simp add: leaf_writes_leaf write_cfg_def cfg_write_def)
qed

lemma apply_flag_Inr:
  assumes "apply_flag check parse assignments k t = Inr t'"
  obtains v where "parse (case find_key assignments k of None \<Rightarrow> [] | Some raw \<Rightarrow> raw) = Inr v"
    "SetPath check ''flags'' k v (flag_origin ''--set'') t = Inr t'"
  using assms by (auto simp: apply_flag_def rbind_Inr_iff)

lemma apply_set_keeps:
  assumes "apply_each (apply_flag check parse assignments) ks t = Inr t'" and "tree_ok t"
    and plain: "\<And>raw v. parse raw = Inr v \<Longrightarrow> plain_keys v"
    and "\<And>k. k \<in> set ks \<Longrightarrow> \<not> related (splitPath k) q"
  shows "tree_ok t' \<and> cfg_at t' q = cfg_at t q"
  using assms(1,2,4)
proof (induction ks arbitrary: t)
  case (Cons k ks)
  then obtain t1 where f: "apply_flag check parse assignments k t = Inr t1"
      and rest: "apply_each (apply_flag check parse assignments) ks t1 = Inr t'"
    by (auto simp: rbind_Inr_iff)
  obtain v where s: "SetPath check ''flags'' k v (flag_origin ''--set'') t = Inr t1" "plain_keys v"
    by (rule apply_flag_Inr [OF f]) (blast dest: plain)
  have "tree_ok t1" "cfg_at t1 q = cfg_at t q"
    using SetPath_ok [OF s Cons.prems(2)] SetPath_keeps [OF s Cons.prems(2)] Cons.prems(3) [of k] by auto
  with Cons.IH [OF rest] Cons.prems(3) show ?case by simp
qed simp

lemma apply_each_append: "apply_each f (xs @ ys) t = rbind (apply_each f xs t) (apply_each f ys)"
proof (induction xs arbitrary: t)
  case (Cons x xs)
  then show ?case by (cases "f x t") auto
qed simp

text \<open>What the command line says of one path: a leaf, and nothing else it says touches the path.\<close>

definition flag_leaf :: "resolve_world \<Rightarrow> resolve_options \<Rightarrow> string \<Rightarrow> yaml \<Rightarrow> bool" where
  "flag_leaf W opts k v \<longleftrightarrow>
     (\<exists>raw. find_key (ro_set opts) k = Some raw \<and> rw_parse W raw = Inr v) \<and> is_leaf v \<and>
     list_all (\<lambda>j. j = k \<or> \<not> related (splitPath j) (splitPath k)) (map fst (ro_set opts)) \<and>
     (ro_fanout opts \<le> 0 \<or> \<not> related [''fanout'', ''max''] (splitPath k))"

definition plain_inputs :: "resolve_world \<Rightarrow> cfg_bundle \<Rightarrow> cfg_context \<Rightarrow> cfg_document \<Rightarrow> cfg_document \<Rightarrow> bool" where
  "plain_inputs W b c site cluster \<longleftrightarrow>
     list_all (\<lambda>d. plain_doc d \<and> root_section d []) (rw_defaults W) \<and> plain_doc site \<and> root_section site ''spec'' \<and> plain_doc cluster \<and>
     list_all plain_doc (map snd (bn_workstations b)) \<and> plain_keys (YMap (cx_overrides c))"

lemma base_layers_ok:
  assumes "plain_inputs W b c site cluster" shows "tree_ok (base_layers W site cluster)"
proof -
  have m: "tree_ok t \<Longrightarrow> plain_doc doc \<Longrightarrow> into \<noteq> [] \<or> root_section doc at \<Longrightarrow> tree_ok (MergeDocument layer doc at into t)"
    for t doc at into layer by (simp add: MergeDocument_def merge_document_ok)
  have "tree_ok (case rw_defaults W of [] \<Rightarrow> NewTree | d # _ \<Rightarrow> MergeDocument ''defaults'' d [] [] NewTree)"
    using assms NewTree_ok by (auto simp: plain_inputs_def intro!: m split: list.splits)
  with assms show ?thesis by (simp add: base_layers_def plain_inputs_def Let_def m)
qed

lemma workstation_found: "workstationFor W b = Some d \<Longrightarrow> \<exists>n. find_key (bn_workstations b) n = Some d"
  by (auto simp: workstationFor_def Let_def split: option.splits)

lemma workstation_plain: "workstationFor W b = Some d \<Longrightarrow> list_all plain_doc (map snd (bn_workstations b)) \<Longrightarrow> plain_doc d"
  using workstation_found [of W b d] by (force simp: find_key_def list_all_iff dest!: map_of_SomeD)

lemma merge_layers_before_set:
  assumes "merge_layers W b opts c site cluster = Inr t" and "plain_inputs W b c site cluster"
    and plain: "\<And>raw v. rw_parse W raw = Inr v \<Longrightarrow> plain_keys v"
  obtains t0 t1 where "tree_ok t0" "applySet (rw_check W) (rw_parse W) (ro_set opts) t0 = Inr t1" "fanout_layer W (ro_fanout opts) t1 = Inr t"
proof -
  from assms(1) obtain ta tb tc td te where l: "applyOverrides (rw_check W) ''cluster'' cluster ''spec.overrides'' (base_layers W site cluster) = Inr ta"
      "workstation_layer W (workstationFor W b) ta = Inr tb"
      "applyContextOverrides (rw_check W) c (find_key (bn_sources b) (cx_name c)) tb = Inr tc"
      "applyEnv (rw_check W) (rw_parse W) (ro_env opts) tc = Inr td"
      "applySet (rw_check W) (rw_parse W) (ro_set opts) td = Inr te" "fanout_layer W (ro_fanout opts) te = Inr t"
    by (auto simp: merge_layers_def rbind_Inr_iff)
  have a: "tree_ok ta" using applyOverrides_ok [OF l(1) _ base_layers_ok [OF assms(2)]] assms(2) by (simp add: plain_inputs_def)
  have "tree_ok tb"
  proof (cases "workstationFor W b")
    case None
    with l(2) a show ?thesis by (simp add: workstation_layer_def)
  next
    case (Some d)
    then have "plain_doc d" using workstation_plain assms(2) by (auto simp: plain_inputs_def)
    with l(2) a Some show ?thesis
      by (auto simp: workstation_layer_def intro: applyOverrides_ok merge_document_ok)
  qed
  from context_overrides_ok [OF l(3) _ this] assms(2) have c: "tree_ok tc" by (simp add: plain_inputs_def)
  have "tree_ok td" by (rule apply_env_ok [OF l(4) _ c]) (rule plain)
  with that l(5,6) show thesis by blast
qed


definition flag_world :: resolve_world where
  "flag_world = \<lparr> rw_defaults = [], rw_hostname = None, rw_check = (\<lambda>_ _ _. []), rw_parse = (\<lambda>_. Inr (YInt 8)) \<rparr>"

definition flag_site :: cfg_document where
  "flag_site = \<lparr> dc_file = ''site.yaml'', dc_kind = ''Site'',
     dc_data = [(''spec'', YMap [(''fanout'', YMap [(''max'', YInt 4)])])], dc_positions = [] \<rparr>"

definition flag_cluster :: cfg_document where
  "flag_cluster = \<lparr> dc_file = ''cluster.yaml'', dc_kind = ''Cluster'', dc_data = [], dc_positions = [] \<rparr>"

definition flag_options :: resolve_options where
  "flag_options = \<lparr> ro_context = [], ro_env = (\<lambda>_. []), ro_set = [(''fanout.max'', ''8'')], ro_fanout = 0 \<rparr>"

definition flag_context :: cfg_context where
  "flag_context = \<lparr> cx_name = ''c'', cx_cluster = ''c'', cx_user = [], cx_overrides = [] \<rparr>"

definition flag_merged :: "goerr + cfg_tree" where
  "flag_merged = merge_layers flag_world empty_bundle flag_options flag_context flag_site flag_cluster"

lemma flag_merged_Inr: "\<exists>t. flag_merged = Inr t"
proof -
  have "\<not> isl flag_merged" by code_simp
  then show ?thesis by (metis sum.collapse(2))
qed


end
