(* ===== verification/AppSite.thy ===== *)
theory AppSite
  imports InventoryProps SlurmJobs DhcpLookup
begin

text \<open>
  The application object the commands work with (\<open>internal/app\<close>), as far as the modelled commands
  use it: the hosts of the site by role and by node, running a command on a role, which machine a
  name means, the selection of a node set, and how the service processor of a node is reached. Its
  parts that are modelled elsewhere (the inventory, the naming rules) are its fields; the runners,
  the expression reader of the node set engine, the DHCP configuration a command has read and the
  reading of a credential (a user and a password) are parameters.
\<close>

section \<open>The application\<close>

text \<open>A field of a profile that a document leaves out is empty, and a pointer to a bool is an option.\<close>

record vendor_profile =
  vp_credential :: string
  vp_order :: "string list"
  vp_reset_types :: "string list"
  vp_system_path :: string
  vp_min_tls :: string
  vp_tls_verify :: "bool option"

record redfish_spec =
  rf_tls_verify :: "bool option"
  rf_min_tls :: string
  rf_timeout :: int
  rf_max_concurrent :: int
  rf_system_path :: string

record ipmi_spec =
  im_via :: string
  im_backend :: string
  im_driver :: string
  im_ipmipower_path :: string
  im_ipmitool_path :: string
  im_timeout :: int
  im_max_concurrent :: int

record bmc_spec =
  bm_credential :: string
  bm_order :: "string list"
  bm_ipmi :: ipmi_spec
  bm_redfish :: redfish_spec
  bm_vendors :: "vendor_profile go_map"

record pxe_spec =
  px_role :: string
  px_root :: string
  px_static_suffix :: string

record tftp_spec =
  tf_role :: string
  tf_root :: string
  tf_grub_path :: string

record ('ns, 'w) app =
  ap_hosts :: "host_role go_map"
  ap_domains :: "string list"
  ap_default_user :: string
  ap_command_timeout :: int
  ap_fanout :: int
  ap_namer :: namer
  ap_inventory :: "'ns inventory"
  ap_canon :: "'ns \<Rightarrow> string \<Rightarrow> string option"
  ap_runner :: "'w runner"
  ap_reader :: "'w runner"
  ap_ctx_err :: "'w \<Rightarrow> goerr option"
  ap_escape :: "string \<Rightarrow> string"
  ap_err_text :: "goerr \<Rightarrow> string"
  ap_parse :: "string \<Rightarrow> ('w, goerr, 'ns) act"
  ap_nodes :: string
  ap_nodes_from_flag :: bool
  ap_site_hosts_only :: bool
  ap_dry_run :: bool
  ap_dhcp :: "('w, goerr, dhcp_host list) act"
  ap_credential :: "string \<Rightarrow> ('w, goerr, string \<times> string) act"
  ap_bmc :: bmc_spec
  ap_pxe :: pxe_spec
  ap_tftp :: tftp_spec
  ap_boot_rules :: "boot_rule list"
  ap_slurm_role :: string
  ap_slurm_spec :: "string \<times> string \<times> string"
  ap_slurm_aware :: "bool option"

section \<open>Roles and nodes\<close>

definition RoleNames :: "('ns, 'w) app \<Rightarrow> string list" where
  "RoleNames a = sorted_keys (ap_hosts a)"

definition Role :: "('ns, 'w) app \<Rightarrow> string \<Rightarrow> goerr + target" where
  "Role a name =
     (if name = [] then Inl (errorf Usage ''no host role was given'' [])
      else case find_key (ap_hosts a) name of
        None \<Rightarrow> Inl (errorf Usage ''unknown host role %q; the site defines %s'' [name, join_str '', '' (RoleNames a)])
      | Some r \<Rightarrow>
          if role_host r = [] then Inl (errorf Usage ''host role %q has no host name'' [name])
          else Inr \<lparr> tg_name = name, tg_host = role_host r, tg_user = role_user r, tg_role = name,
                 tg_forward_agent = role_forward_agent r, tg_forward_x11 = role_forward_x11 r \<rparr>)"

definition app_Node :: "('ns, 'w) app \<Rightarrow> string \<Rightarrow> goerr + target" where
  "app_Node a name =
     (case FQDN (ap_namer a) name of Inl e \<Rightarrow> Inl (Coded Usage e)
      | Inr host \<Rightarrow> Inr (no_target\<lparr>tg_name := name, tg_host := host, tg_user := ap_default_user a\<rparr>))"

definition NodeTargets :: "'ns nodeset_lib \<Rightarrow> ('ns, 'w) app \<Rightarrow> 'ns \<Rightarrow> goerr + target list" where
  "NodeTargets L a ns = traverse (app_Node a) (ns_expand L ns)"

definition Collect :: "('ns, 'w) app \<Rightarrow> request \<Rightarrow> request" where
  "Collect a req = req\<lparr>rq_tty := TTYNone, rq_timeout := (if rq_timeout req \<noteq> 0 then rq_timeout req else ap_command_timeout a)\<rparr>"

text \<open>\<open>Bound\<close>: \<open>--fanout\<close> lowers a bound that has a setting of its own, and never raises it.\<close>

definition Bound :: "('ns, 'w) app \<Rightarrow> int \<Rightarrow> int" where
  "Bound a setting = (if ap_fanout a > 0 \<and> ap_fanout a < setting then ap_fanout a else setting)"

text \<open>A run on a role gives the result and the error, both of which a caller may read.\<close>

definition runOnRole ::
  "('ns, 'w) app \<Rightarrow> 'w runner \<Rightarrow> string \<Rightarrow> request \<Rightarrow> 'w \<Rightarrow> (cmd_result option \<times> goerr option) \<times> 'w" where
  "runOnRole a runner role req w =
     (case Role a role of Inl e \<Rightarrow> ((None, Some e), w)
      | Inr t \<Rightarrow>
          (case runner t (Collect a req) w of
             (Inl e, w') \<Rightarrow> ((None, Some (if errors_is e ''context canceled'' then e else default_err Transport e)), w')
           | (Inr r, w') \<Rightarrow> ((Some r, check_result (ap_escape a) [] r), w')))"

definition RunOnRole :: "('ns, 'w) app \<Rightarrow> string \<Rightarrow> request \<Rightarrow> 'w \<Rightarrow> (cmd_result option \<times> goerr option) \<times> 'w" where
  "RunOnRole a = runOnRole a (ap_runner a)"

definition ReadOnRole :: "('ns, 'w) app \<Rightarrow> string \<Rightarrow> request \<Rightarrow> 'w \<Rightarrow> (cmd_result option \<times> goerr option) \<times> 'w" where
  "ReadOnRole a = runOnRole a (ap_reader a)"

text \<open>What most callers make of it: the error, or else the result.\<close>

fun result_or_error :: "(cmd_result option \<times> goerr option) \<times> 'w \<Rightarrow> (goerr + cmd_result) \<times> 'w" where
  "result_or_error ((_, Some e), w) = (Inl e, w)"
| "result_or_error ((Some r, None), w) = (Inr r, w)"
| "result_or_error ((None, None), w) = (Inl (Leaf ''no result'' []), w)"

definition app_Slurm :: "('ns, 'w) app \<Rightarrow> goerr + 'w slurm_client" where
  "app_Slurm a =
     (if ap_slurm_role a = [] then
        Inl (errorf Usage ''no host role runs the Slurm clients; set slurm.role in the cluster document'' [])
      else rbind (Role a (ap_slurm_role a)) (\<lambda>t.
        Inr \<lparr> sl_runner = ap_runner a, sl_reader = Some (ap_reader a), sl_target = t,
              sl_organization = fst (ap_slurm_spec a), sl_default_account = fst (snd (ap_slurm_spec a)),
              sl_timeout = ap_command_timeout a, sl_cluster = snd (snd (ap_slurm_spec a)),
              sl_escape = ap_escape a \<rparr>))"

section \<open>The DHCP configuration of a command\<close>

text \<open>
  What the first read found is kept for the command, a failure as much as a configuration, unless
  the context had ended. \<open>read\<close> is the read and the parse of the files.
\<close>

type_synonym dhcp_memo = "(goerr + dhcp_host list) option"

definition DHCPConfig ::
  "('w \<Rightarrow> goerr option) \<Rightarrow> ('w, goerr, dhcp_host list) act \<Rightarrow> (dhcp_memo \<times> 'w, goerr, dhcp_host list) act" where
  "DHCPConfig ctx_err read s =
     (case s of (Some r, w) \<Rightarrow> (r, (Some r, w))
      | (None, w) \<Rightarrow>
          (case read w of (r, w') \<Rightarrow>
             (r, (if (case r of Inl _ \<Rightarrow> True | Inr _ \<Rightarrow> False) \<and> ctx_err w' \<noteq> None then None else Some r, w'))))"

section \<open>Which machine a name means\<close>

definition machine_names :: "('ns, 'w) app \<Rightarrow> string list" where
  "machine_names a = map in_name (inv_all_nodes (ap_inventory a))"

text \<open>A host name without its final dot and its case.\<close>

definition bare_host :: "string \<Rightarrow> string" where
  "bare_host name = trim_suffix (to_lower name) ''.''"

definition add_alias :: "string list \<Rightarrow> string \<Rightarrow> (string \<rightharpoonup> string) \<Rightarrow> string \<Rightarrow> (string \<rightharpoonup> string)" where
  "add_alias names name m alias =
     (let al = bare_host alias in
      if al = [] \<or> al \<in> set names then m
      else case m al of
        Some other \<Rightarrow> if other \<noteq> name then m(al \<mapsto> []) else m(al \<mapsto> name)
      | None \<Rightarrow> m(al \<mapsto> name))"

definition node_aliases :: "('ns, 'w) app \<Rightarrow> inv_node \<Rightarrow> string list" where
  "node_aliases a n =
     (case FQDN (ap_namer a) (in_name n) of Inl _ \<Rightarrow> [] | Inr f \<Rightarrow> [f]) @
     (case BMC (ap_namer a) (in_name n) of Inl _ \<Rightarrow> [] | Inr b \<Rightarrow> [b]) @
     [in_address n, in_bmc_address n]"

definition alias_map :: "('ns, 'w) app \<Rightarrow> (string \<rightharpoonup> string)" where
  "alias_map a =
     foldl (\<lambda>m n. foldl (add_alias (machine_names a) (in_name n)) m (node_aliases a n))
       (map_of (map (\<lambda>x. (x, x)) (machine_names a))) (inv_all_nodes (ap_inventory a))"

definition aliasOf :: "('ns, 'w) app \<Rightarrow> string \<Rightarrow> string option" where
  "aliasOf a alias = alias_map a alias"

definition known_name :: "('ns, 'w) app \<Rightarrow> string \<Rightarrow> string" where
  "known_name a c = (if c \<in> set (machine_names a) then c else [])"

text \<open>Whether a name with a domain is the host name or the service processor name of its short name.\<close>

definition names_short :: "('ns, 'w) app \<Rightarrow> string \<Rightarrow> bool" where
  "names_short a n \<longleftrightarrow> Short n \<noteq> n \<and> \<not> IsIP n \<and>
     ((case FQDN (ap_namer a) (Short n) of Inl _ \<Rightarrow> False | Inr f \<Rightarrow> equal_fold f n) \<or>
      (case BMC (ap_namer a) (Short n) of Inl _ \<Rightarrow> False | Inr b \<Rightarrow> equal_fold b n))"

definition choose_machine :: "('ns, 'w) app \<Rightarrow> string \<Rightarrow> string \<Rightarrow> string \<Rightarrow> goerr + string" where
  "choose_machine a n typed spelled =
     (case aliasOf a n of None \<Rightarrow> Inr spelled
      | Some node \<Rightarrow>
          if spelled \<in> set (machine_names a) \<and> node \<noteq> spelled then
            Inl (errorf Usage ''node %q is ambiguous: it is %s written another way, and %s'' [typed, spelled, node])
          else if node = [] then Inr n else Inr node)"

lemma Short_less: "Short n \<noteq> n \<Longrightarrow> length (Short n) < length n"
  by (auto simp: Short_def dest!: cut_Some_append split: option.splits)

lemma bare_host_le: "length (bare_host n) \<le> length n"
  by (auto simp: bare_host_def trim_suffix_def to_lower_def cut_suffix_Some dest: arg_cong [of _ _ length] split: option.splits)

function machine_of :: "('ns, 'w) app \<Rightarrow> string \<Rightarrow> string \<Rightarrow> goerr + string" where
  "machine_of a name typed =
     (let n = bare_host name in
      if n \<in> set (machine_names a) then Inr n
      else rbind
        (case ap_canon a (iv_all (ap_inventory a)) n of
           Some c \<Rightarrow> Inr (known_name a c)
         | None \<Rightarrow> if names_short a n then machine_of a (Short n) typed else Inr n)
        (choose_machine a n typed))"
  by auto
termination
  by (relation "measure (\<lambda>(a, name, typed). length name)")
    (auto simp: names_short_def dest!: Short_less intro: less_le_trans bare_host_le)

declare machine_of.simps [simp del]

definition machine :: "('ns, 'w) app \<Rightarrow> string \<Rightarrow> goerr + string" where
  "machine a name = machine_of a name name"

section \<open>Selecting nodes\<close>

text \<open>The loop of \<open>canonicalize\<close>: the machines of the names, added one by one.\<close>

fun add_machines :: "'ns nodeset_lib \<Rightarrow> ('ns, 'w) app \<Rightarrow> 'ns \<Rightarrow> string list \<Rightarrow> goerr + 'ns" where
  "add_machines L a out [] = Inr out"
| "add_machines L a out (x # xs) =
     rbind (machine a x) (\<lambda>m.
       case ns_add L out m of
         Inl e \<Rightarrow> Inl (Coded Usage (Wrap ''node %q, which is %q, cannot be selected: %w'' [x, m] [e]))
       | Inr out' \<Rightarrow> add_machines L a out' xs)"

definition canonicalize :: "'ns nodeset_lib \<Rightarrow> ('ns, 'w) app \<Rightarrow> 'ns \<Rightarrow> goerr + 'ns" where
  "canonicalize L a ns = add_machines L a (ns_new L) (ns_expand L ns)"

definition checkHostNames :: "'ns nodeset_lib \<Rightarrow> 'ns \<Rightarrow> goerr option" where
  "checkHostNames L ns =
     first_error (\<lambda>x. map_option (\<lambda>e. Coded Usage (Wrap ''node %w'' [] [e])) (Check x)) (ns_expand L ns)"

definition inDomains :: "string \<Rightarrow> string list \<Rightarrow> bool" where
  "inDomains host domains \<longleftrightarrow> list_ex (\<lambda>d. has_suffix host (CHR ''.'' # d)) domains"

definition site_domains :: "('ns, 'w) app \<Rightarrow> string list" where
  "site_domains a = sort (filter (\<lambda>d. d \<noteq> []) (map (\<lambda>d. trim_set ''.'' (to_lower d)) (ap_domains a)))"

definition check_site_host :: "('ns, 'w) app \<Rightarrow> string \<Rightarrow> goerr option" where
  "check_site_host a name =
     (if inv_lookup (ap_canon a) (ap_inventory a) name \<noteq> None then None
      else case FQDN (ap_namer a) name of Inl e \<Rightarrow> Some (Coded Usage e)
      | Inr host \<Rightarrow>
          if inDomains (trim_suffix host ''.'') (site_domains a) then None
          else Some (errorf Usage ''node %q is not a host of the site: the inventory does not know it, and %s'' [name, host]))"

definition checkSiteHosts :: "'ns nodeset_lib \<Rightarrow> ('ns, 'w) app \<Rightarrow> 'ns \<Rightarrow> goerr option" where
  "checkSiteHosts L a ns = first_error (check_site_host a) (ns_expand L ns)"

text \<open>Which expression is read: the argument, or what \<open>-n\<close> or the environment named.\<close>

definition select_expr :: "('ns, 'w) app \<Rightarrow> string \<Rightarrow> goerr + string" where
  "select_expr a expr =
     (if trim_space expr = [] then
        (if trim_space (ap_nodes a) = [] then Inl (errorf Usage ''no nodes were selected; pass -n or set %s'' [])
         else Inr (ap_nodes a))
      else if ap_nodes_from_flag a then
        Inl (errorf Usage ''nodes were given both as an argument (%s) and with -n (%s); give them once'' [expr, ap_nodes a])
      else Inr expr)"

definition check_selection :: "'ns nodeset_lib \<Rightarrow> ('ns, 'w) app \<Rightarrow> string \<Rightarrow> 'ns \<Rightarrow> goerr + 'ns" where
  "check_selection L a expr ns =
     (if ns_is_empty L ns then Inl (errorf Usage ''%q names no node'' [expr])
      else rbind (canonicalize L a ns) (\<lambda>out.
        case checkHostNames L out of Some e \<Rightarrow> Inl e
        | None \<Rightarrow>
            if ap_site_hosts_only a then (case checkSiteHosts L a out of Some e \<Rightarrow> Inl e | None \<Rightarrow> Inr out)
            else Inr out))"

definition Select :: "'ns nodeset_lib \<Rightarrow> ('ns, 'w) app \<Rightarrow> string \<Rightarrow> ('w, goerr, 'ns) act" where
  "Select L a expr w =
     (case select_expr a expr of Inl e \<Rightarrow> (Inl e, w)
      | Inr expr' \<Rightarrow>
          (case ap_parse a expr' w of
             (Inl e, w') \<Rightarrow> (Inl (default_err Usage e), w')
           | (Inr ns, w') \<Rightarrow> (check_selection L a expr' ns, w')))"

definition SelectOptional :: "'ns nodeset_lib \<Rightarrow> ('ns, 'w) app \<Rightarrow> string \<Rightarrow> ('w, goerr, 'ns option) act" where
  "SelectOptional L a expr w =
     (if trim_space expr = [] \<and> trim_space (ap_nodes a) = [] then (Inr None, w)
      else abind (Select L a expr) (\<lambda>ns. alift (Inr (Some ns))) w)"

text \<open>The argument of a command: one that was given empty never falls back to the session's set.\<close>

definition nodeSetArgument :: "string list \<Rightarrow> goerr + string" where
  "nodeSetArgument args =
     (if args \<noteq> [] \<and> trim_space (concat args) = [] then
        Inl (errorf Usage ''the node set argument is empty; %s is not used in its place'' [])
      else Inr (join_str '','' args))"

definition selection :: "'ns nodeset_lib \<Rightarrow> ('ns, 'w) app \<Rightarrow> string list \<Rightarrow> ('w, goerr, 'ns) act" where
  "selection L a args = abind (alift (nodeSetArgument args)) (Select L a)"

definition oneNode :: "'ns nodeset_lib \<Rightarrow> ('ns, 'w) app \<Rightarrow> string \<Rightarrow> ('w, goerr, string) act" where
  "oneNode L a arg =
     (if trim_space arg = [] then alift (Inl (errorf Usage ''no node was named'' []))
      else abind (Select L a arg) (\<lambda>ns. alift
        (if ns_len L ns \<noteq> 1 then Inl (errorf Usage ''%q names %d nodes; name one'' [arg, nat_digits (ns_len L ns)])
         else Inr (hd (ns_expand L ns)))))"

text \<open>The protected hosts of an entry are resolved the same way, and an unknown machine is refused.\<close>

definition protectedHosts :: "'ns nodeset_lib \<Rightarrow> ('ns, 'w) app \<Rightarrow> string \<Rightarrow> ('w, goerr, 'ns) act" where
  "protectedHosts L a expr =
     abind (ap_parse a expr) (\<lambda>ns. alift
       (rbind (canonicalize L a ns) (\<lambda>out.
          let unknown = ns_diff L out (iv_all (ap_inventory a)) in
          if inv_len (ap_inventory a) > 0 \<and> \<not> ns_is_empty L unknown then
            Inl (errorf Usage ''it names %s, which the inventory does not know; write the inventory name of the machine'' [ns_string L unknown])
          else Inr out)))"

section \<open>Service processors\<close>

definition InventoryNode :: "('ns, 'w) app \<Rightarrow> string \<Rightarrow> inv_node option" where
  "InventoryNode a name =
     (let n = bare_host name; short = Short n in
      if short \<noteq> n then
        (case FQDN (ap_namer a) short of Inl _ \<Rightarrow> None
         | Inr f \<Rightarrow> if equal_fold f n then inv_lookup (ap_canon a) (ap_inventory a) short else None)
      else inv_lookup (ap_canon a) (ap_inventory a) n)"

definition BMCHost :: "('ns, 'w) app \<Rightarrow> string \<Rightarrow> goerr + string" where
  "BMCHost a node =
     (case InventoryNode a node of
        Some e \<Rightarrow> if in_bmc_address e \<noteq> [] then Inr (in_bmc_address e)
                  else (case BMC (ap_namer a) (in_name e) of Inl e \<Rightarrow> Inl (Coded Usage e) | Inr h \<Rightarrow> Inr h)
      | None \<Rightarrow> (case BMC (ap_namer a) node of Inl e \<Rightarrow> Inl (Coded Usage e) | Inr h \<Rightarrow> Inr h))"

fun add_bmcs :: "'ns nodeset_lib \<Rightarrow> ('ns, 'w) app \<Rightarrow> 'ns \<Rightarrow> string list \<Rightarrow> goerr + 'ns" where
  "add_bmcs L a out [] = Inr out"
| "add_bmcs L a out (x # xs) =
     rbind (BMCHost a x) (\<lambda>host.
       case ns_add L out host of
         Inl e \<Rightarrow> Inl (Coded Usage (Wrap ''the service processor %q of node %q is not a valid host name: %w'' [host, x] [e]))
       | Inr out' \<Rightarrow> add_bmcs L a out' xs)"

definition BMCHosts :: "'ns nodeset_lib \<Rightarrow> ('ns, 'w) app \<Rightarrow> 'ns \<Rightarrow> goerr + 'ns" where
  "BMCHosts L a nodes = add_bmcs L a (ns_new L) (ns_expand L nodes)"

definition no_profile :: vendor_profile where
  "no_profile = \<lparr> vp_credential = [], vp_order = [], vp_reset_types = [], vp_system_path = [], vp_min_tls = [], vp_tls_verify = None \<rparr>"

definition vendor_entry :: "('ns, 'w) app \<Rightarrow> string \<Rightarrow> vendor_profile" where
  "vendor_entry a vendor = (case find_key (bm_vendors (ap_bmc a)) vendor of None \<Rightarrow> no_profile | Some p \<Rightarrow> p)"

definition VendorProfile :: "('ns, 'w) app \<Rightarrow> string \<Rightarrow> vendor_profile" where
  "VendorProfile a node =
     (case InventoryNode a node of None \<Rightarrow> no_profile
      | Some e \<Rightarrow> let vendor = attr_value (in_attributes e) ''vendor'' in
          if vendor = [] then no_profile else vendor_entry a vendor)"

definition BMCCredentialName :: "('ns, 'w) app \<Rightarrow> string \<Rightarrow> string" where
  "BMCCredentialName a node =
     (if vp_credential (VendorProfile a node) \<noteq> [] then vp_credential (VendorProfile a node) else bm_credential (ap_bmc a))"

definition BMCCredential :: "('ns, 'w) app \<Rightarrow> string \<Rightarrow> ('w, goerr, string \<times> string) act" where
  "BMCCredential a node w =
     (if BMCCredentialName a node = [] then
        (Inl (errorf Usage ''no BMC credential is configured; set bmc.credential in the site document'' []), w)
      else case ap_credential a (BMCCredentialName a node) w of
        (Inl e, w') \<Rightarrow> (Inl (default_err Usage e), w') | (Inr c, w') \<Rightarrow> (Inr c, w'))"

record redfish_client =
  rc_host :: string
  rc_username :: string
  rc_password :: string
  rc_system_path :: string
  rc_reset_types :: "string list"
  rc_timeout :: int
  rc_verify :: bool
  rc_min_tls :: string

text \<open>The note that a certificate is seen for the first time is left out; the client checks it.\<close>

definition RedfishClient :: "('ns, 'w) app \<Rightarrow> string \<Rightarrow> ('w, goerr, redfish_client) act" where
  "RedfishClient a node =
     abind (alift (BMCHost a node)) (\<lambda>host.
     abind (BMCCredential a node) (\<lambda>(user, password).
       let spec = bm_redfish (ap_bmc a); profile = VendorProfile a node in
       alift (Inr \<lparr> rc_host = host, rc_username = user, rc_password = password,
         rc_system_path = (if vp_system_path profile \<noteq> [] then vp_system_path profile else rf_system_path spec),
         rc_reset_types = vp_reset_types profile, rc_timeout = rf_timeout spec,
         rc_verify = (case vp_tls_verify profile of Some v \<Rightarrow> v | None \<Rightarrow> (case rf_tls_verify spec of Some v \<Rightarrow> v | None \<Rightarrow> False)),
         rc_min_tls = (if vp_min_tls profile \<noteq> [] then vp_min_tls profile else rf_min_tls spec) \<rparr>)))"

record 'w ipmi_backend =
  ib_runner :: "'w runner"
  ib_reader :: "'w runner option"
  ib_target :: target
  ib_spec :: ipmi_spec
  ib_username :: string
  ib_password :: string
  ib_fanout :: int

definition IPMIBackend :: "('ns, 'w) app \<Rightarrow> string \<Rightarrow> ('w, goerr, 'w ipmi_backend) act" where
  "IPMIBackend a node =
     abind (BMCCredential a node) (\<lambda>(user, password).
       let spec = bm_ipmi (ap_bmc a) in
       case Role a (im_via spec) of
         Inl e \<Rightarrow> alift (Inl (if im_via spec \<noteq> [] then e
                    else errorf Usage ''no host role is configured to run the IPMI tools on; set bmc.ipmi.via'' []))
       | Inr t \<Rightarrow> alift (Inr \<lparr> ib_runner = ap_runner a, ib_reader = Some (ap_reader a), ib_target = t,
            ib_spec = spec\<lparr>im_max_concurrent := Bound a (im_max_concurrent spec)\<rparr>,
            ib_username = user, ib_password = password, ib_fanout = ap_fanout a \<rparr>))"

definition TransportRedfish :: string where "TransportRedfish = ''redfish''"
definition TransportIPMI :: string where "TransportIPMI = ''ipmi''"

definition BMCOrder :: "('ns, 'w) app \<Rightarrow> string \<Rightarrow> string list" where
  "BMCOrder a node =
     (if vp_order (VendorProfile a node) \<noteq> [] then vp_order (VendorProfile a node)
      else if bm_order (ap_bmc a) \<noteq> [] then bm_order (ap_bmc a) else [TransportRedfish, TransportIPMI])"

definition order_setting :: "('ns, 'w) app \<Rightarrow> string \<Rightarrow> string" where
  "order_setting a node =
     (case InventoryNode a node of None \<Rightarrow> ''bmc.order''
      | Some e \<Rightarrow> let vendor = attr_value (in_attributes e) ''vendor'' in
          if vp_order (vendor_entry a vendor) \<noteq> [] then ''bmc.vendors.'' @ vendor @ ''.order'' else ''bmc.order'')"

fun transports_from :: "string \<Rightarrow> string list \<Rightarrow> string list \<Rightarrow> goerr + string list" where
  "transports_from setting out [] = Inr out"
| "transports_from setting out (e # es) =
     (let t = to_lower (trim_space e) in
      if t \<noteq> TransportRedfish \<and> t \<noteq> TransportIPMI then
        Inl (errorf Usage ''%s names the transport %q, which is not one of %s and %s'' [setting, e, TransportRedfish, TransportIPMI])
      else transports_from setting (if t \<in> set out then out else out @ [t]) es)"

definition BMCTransports :: "('ns, 'w) app \<Rightarrow> string \<Rightarrow> goerr + string list" where
  "BMCTransports a node = transports_from (order_setting a node) [] (BMCOrder a node)"

end
