(* ===== verification/GoPath.thy ===== *)
theory GoPath
  imports GoStrings
begin

text \<open>
  The functions of the package \<open>path\<close> the program uses: \<open>Clean\<close>, which resolves a slash separated
  path without looking at any file, and \<open>Join\<close>, \<open>Dir\<close> and \<open>Base\<close>.
\<close>

definition path_abs :: "string \<Rightarrow> bool" where
  "path_abs p \<longleftrightarrow> has_prefix p ''/''"

text \<open>The elements kept so far, the last one first.\<close>

fun clean_elems :: "bool \<Rightarrow> string list \<Rightarrow> string list \<Rightarrow> string list" where
  "clean_elems rooted out [] = rev out"
| "clean_elems rooted out (e # es) =
     clean_elems rooted
       (if e = [] \<or> e = ''.'' then out
        else if e = ''..'' then
          (case out of [] \<Rightarrow> if rooted then [] else [''..''] | d # ds \<Rightarrow> if d = ''..'' then ''..'' # out else ds)
        else e # out) es"

definition path_clean :: "string \<Rightarrow> string" where
  "path_clean p =
     (let rooted = path_abs p; body = join_str ''/'' (clean_elems rooted [] (split_char (CHR ''/'') p)) in
      if rooted then CHR ''/'' # body else if body = [] then ''.'' else body)"

definition path_join :: "string list \<Rightarrow> string" where
  "path_join es = (let es' = dropWhile (\<lambda>e. e = []) es in if es' = [] then [] else path_clean (join_str ''/'' es'))"

text \<open>What is before the last slash, with it, and what is after it.\<close>

definition path_split :: "string \<Rightarrow> string \<times> string" where
  "path_split p = (let f = rev (takeWhile (\<lambda>c. c \<noteq> CHR ''/'') (rev p)) in (take (length p - length f) p, f))"

definition path_dir :: "string \<Rightarrow> string" where
  "path_dir p = path_clean (fst (path_split p))"

definition path_base :: "string \<Rightarrow> string" where
  "path_base p =
     (if p = [] then ''.''
      else let q = trim_right_set ''/'' p in if q = [] then ''/'' else snd (path_split q))"

section \<open>Cleaned paths\<close>

definition plain_elem :: "string \<Rightarrow> bool" where
  "plain_elem e \<longleftrightarrow> e \<noteq> [] \<and> e \<noteq> ''.'' \<and> e \<noteq> ''..'' \<and> CHR ''/'' \<notin> set e"

lemma clean_plain: "list_all plain_elem es \<Longrightarrow> clean_elems r out es = rev out @ es"
  by (induction es arbitrary: out) (auto simp: plain_elem_def)

lemma clean_elems_rooted:
  "list_all plain_elem out \<Longrightarrow> list_all (\<lambda>e. CHR ''/'' \<notin> set e) es \<Longrightarrow> list_all plain_elem (clean_elems True out es)"
proof (induction es arbitrary: out)
  case (Cons e es)
  show ?case
  proof (cases out)
    case Nil
    with Cons show ?thesis by (auto simp: plain_elem_def)
  next
    case (Cons d ds)
    with Cons.prems Cons.IH show ?thesis by (auto simp: plain_elem_def)
  qed
qed (auto simp: list_all_iff)

text \<open>A cleaned absolute path is cleaned by being split at its slashes again: nothing is left to resolve.\<close>

lemma split_join_plain:
  "list_all (\<lambda>e. c \<notin> set e) es \<Longrightarrow> es \<noteq> [] \<Longrightarrow> split_char c (join_str [c] es) = es"
  by (induction es) (auto simp: join_str_Cons split_char_plain split_char_append)

lemma path_clean_absolute:
  assumes "path_abs p"
  shows "\<exists>es. list_all plain_elem es \<and> path_clean p = CHR ''/'' # join_str ''/'' es"
  using assms clean_elems_rooted [of "[]" "split_char (CHR ''/'') p"] split_char_parts [of _ "CHR ''/''" p]
  by (auto simp: path_clean_def Let_def list_all_iff)

lemma path_clean_again:
  assumes "path_abs p"
  shows "path_clean (path_clean p) = path_clean p"
proof -
  from path_clean_absolute [OF assms] obtain es where es: "list_all plain_elem es" "path_clean p = CHR ''/'' # join_str ''/'' es"
    by blast
  have "clean_elems True [] (split_char (CHR ''/'') (join_str ''/'' es)) = es"
  proof (cases "es = []")
    case False
    with es(1) have "split_char (CHR ''/'') (join_str ''/'' es) = es"
      by (intro split_join_plain) (auto simp: list_all_iff plain_elem_def)
    with es(1) show ?thesis by (simp add: clean_plain)
  qed simp
  then show ?thesis by (simp add: es(2)) (simp add: path_clean_def path_abs_def Let_def)
qed

end
