(* ===== verification/BootLinks.thy ===== *)
theory BootLinks
  imports AppSite GoPath
begin

text \<open>
  The links on the PXE host that say what a node boots (\<open>internal/cli/boot.go\<close>): the address a link
  is named after, the boot path it points at, the script that changes links and what is made of its
  report, and the GRUB links of the TFTP host. A list of links a function changes in place is
  returned changed. The reading of the links beside the check of the paths is done first.
\<close>

section \<open>Addresses\<close>

text \<open>\<open>net.IP.String\<close> of the 16 bytes of an address: IPv6 groups with the longest run of zeros left out.\<close>

fun hex_digits :: "nat \<Rightarrow> string" where
  "hex_digits n = (if n < 16 then [''0123456789abcdef'' ! n] else hex_digits (n div 16) @ [''0123456789abcdef'' ! (n mod 16)])"

declare hex_digits.simps [simp del]

fun byte_pairs :: "nat list \<Rightarrow> nat list" where
  "byte_pairs (x # y # bs) = (256 * x + y) # byte_pairs bs"
| "byte_pairs _ = []"

definition zero_run :: "nat list \<Rightarrow> nat \<Rightarrow> nat" where
  "zero_run gs i = length (takeWhile (\<lambda>g. g = 0) (drop i gs))"

text \<open>The first of the longest runs of at least two zero groups.\<close>

definition longest_run :: "nat list \<Rightarrow> (nat \<times> nat) option" where
  "longest_run gs =
     (let m = Max (set (0 # map (zero_run gs) [0..<length gs])) in
      if m < 2 then None else map_option (\<lambda>i. (i, m)) (find (\<lambda>i. zero_run gs i = m) [0..<length gs]))"

definition ipv6_string :: "nat list \<Rightarrow> string" where
  "ipv6_string gs =
     (case longest_run gs of
        None \<Rightarrow> join_str '':'' (map hex_digits gs)
      | Some (i, m) \<Rightarrow> join_str '':'' (map hex_digits (take i gs)) @ ''::'' @ join_str '':'' (map hex_digits (drop (i + m) gs)))"

definition is_v4 :: "nat list \<Rightarrow> bool" where
  "is_v4 bs \<longleftrightarrow> take 12 bs = replicate 10 0 @ [255, 255]"

definition ip_string :: "nat list \<Rightarrow> string" where
  "ip_string bs = (if is_v4 bs then join_str ''.'' (map nat_digits (drop 12 bs)) else ipv6_string (byte_pairs bs))"

definition boot_ip :: "string \<Rightarrow> string option" where
  "boot_ip address = map_option ip_string (parse_ip address)"

definition inventory_address :: "('ns, 'w) app \<Rightarrow> string \<Rightarrow> string" where
  "inventory_address a node =
     (case inv_lookup (ap_canon a) (ap_inventory a) node of None \<Rightarrow> [] | Some n \<Rightarrow> in_address n)"

definition usable_address ::
  "('ns, 'w) app \<Rightarrow> string \<Rightarrow> string \<Rightarrow> string \<Rightarrow> dhcp_host list option \<Rightarrow> goerr + (string \<times> dhcp_host list option)" where
  "usable_address a node address source cfg =
     (if address = [] then Inl (errorf Usage ''no address is known for %s; set it in the inventory or in DHCP'' [node])
      else case boot_ip address of
        None \<Rightarrow> Inl (errorf Usage ''%s has the address %q in %s, which is not an IP address'' [node, ap_escape a address, source])
      | Some ip \<Rightarrow> Inr (ip, cfg))"

definition resolveNodeAddress ::
  "('ns, 'w) app \<Rightarrow> string \<Rightarrow> ('w, goerr, string \<times> dhcp_host list option) act" where
  "resolveNodeAddress a node w =
     (if inventory_address a node \<noteq> [] then
        (usable_address a node (inventory_address a node) ''the inventory'' None, w)
      else case ap_dhcp a w of
        (Inl e, w') \<Rightarrow> (Inl e, w')
      | (Inr hs, w') \<Rightarrow>
          (case BootAddress hs node of
             Inl e \<Rightarrow>
               (if errors_is e ''no DHCP declaration named after the node carries an address''
                then usable_address a node [] ''the inventory'' (Some hs) else Inl (Coded Usage e), w')
           | Inr address \<Rightarrow> (usable_address a node address ''DHCP'' (Some hs), w')))"

definition nodeAddress :: "('ns, 'w) app \<Rightarrow> string \<Rightarrow> ('w, goerr, string) act" where
  "nodeAddress a node = abind (resolveNodeAddress a node) (\<lambda>r. alift (Inr (fst r)))"

text \<open>The inventory nodes with an address, however it is written.\<close>

definition address_owners :: "('ns, 'w) app \<Rightarrow> string \<Rightarrow> string list" where
  "address_owners a address =
     map in_name (filter (\<lambda>n. boot_ip (in_address n) = Some address) (inv_all_nodes (ap_inventory a)))"

definition dhcpHolders :: "dhcp_host list \<Rightarrow> string \<Rightarrow> string \<Rightarrow> string list" where
  "dhcpHolders hs node address =
     (let own = map (\<lambda>m. ho_name (fst m)) (Lookup hs node) in
      map ho_name (filter (\<lambda>h. ho_name h \<notin> set own \<and>
          list_ex (\<lambda>fixed. boot_ip (trim_space fixed) = Some address) (split_char (CHR '','') (ho_address h))) hs))"

definition sharedAddress :: "string \<Rightarrow> string \<Rightarrow> string \<Rightarrow> goerr" where
  "sharedAddress address first second =
     errorf Usage ''%s and %s both have the address %s, so a boot link for one would arm the other'' [first, second, address]"

definition other_holders :: "('ns, 'w) app \<Rightarrow> string \<Rightarrow> string \<times> dhcp_host list option \<Rightarrow> string list" where
  "other_holders a node r =
     filter (\<lambda>x. x \<noteq> node) (address_owners a (fst r) @ (case snd r of None \<Rightarrow> [] | Some hs \<Rightarrow> dhcpHolders hs node (fst r)))"

text \<open>The loop over the nodes, with the addresses that were seen and whose they are.\<close>

fun addresses_from :: "('ns, 'w) app \<Rightarrow> string go_map \<Rightarrow> string list \<Rightarrow> ('w, goerr, string list) act" where
  "addresses_from a seen [] w = (Inr [], w)"
| "addresses_from a seen (node # nodes) w =
     (case resolveNodeAddress a node w of
        (Inl e, w') \<Rightarrow> (Inl e, w')
      | (Inr r, w') \<Rightarrow>
          (case find_key seen (fst r) of
             Some other \<Rightarrow> (Inl (sharedAddress (fst r) other node), w')
           | None \<Rightarrow>
               (case other_holders a node r of
                  other # _ \<Rightarrow> (Inl (sharedAddress (fst r) other node), w')
                | [] \<Rightarrow>
                    (case addresses_from a ((fst r, node) # seen) nodes w' of
                       (Inl e, w'') \<Rightarrow> (Inl e, w'') | (Inr as, w'') \<Rightarrow> (Inr (fst r # as), w'')))))"

definition nodeAddresses :: "('ns, 'w) app \<Rightarrow> string list \<Rightarrow> ('w, goerr, string list) act" where
  "nodeAddresses a nodes = addresses_from a [] nodes"

section \<open>Links\<close>

record boot_link =
  bl_node :: string
  bl_address :: string
  bl_path :: string
  bl_mode :: string
  bl_result :: string
  bl_error :: string

abbreviation bootOnce :: string where "bootOnce \<equiv> ''once''"
abbreviation bootPersistent :: string where "bootPersistent \<equiv> ''persistent''"

definition pxeRole :: "('ns, 'w) app \<Rightarrow> goerr + string" where
  "pxeRole a =
     (if px_role (ap_pxe a) = [] then Inl (errorf Usage ''no host role runs the PXE service; set services.pxesrv.role'' [])
      else Inr (px_role (ap_pxe a)))"

definition link_mode :: "bool \<Rightarrow> string" where
  "link_mode static = (if static then bootPersistent else bootOnce)"

text \<open>The boot paths of the nodes: the explicit one, or what the rules of the cluster say.\<close>

fun link_paths ::
  "'ns nodeset_lib \<Rightarrow> ('ns, 'w) app \<Rightarrow> string \<Rightarrow> bool \<Rightarrow> 'ns boot_paths \<Rightarrow> (string \<times> string) list \<Rightarrow> goerr + boot_link list" where
  "link_paths L a explicit persistent b [] = Inr []"
| "link_paths L a explicit persistent b ((node, address) # rest) =
     (if explicit \<noteq> [] then
        rbind (link_paths L a explicit persistent b rest) (\<lambda>ls.
          Inr (\<lparr> bl_node = node, bl_address = address, bl_path = explicit, bl_mode = link_mode persistent, bl_result = [], bl_error = [] \<rparr> # ls))
      else
        (case boot_path_of L (ap_canon a) (ap_inventory a) b node of
           (Inl e, b') \<Rightarrow> Inl (Coded Usage e)
         | (Inr (path, static), b') \<Rightarrow>
             rbind (link_paths L a explicit persistent b' rest) (\<lambda>ls.
               Inr (\<lparr> bl_node = node, bl_address = address, bl_path = path, bl_mode = link_mode (persistent \<or> static), bl_result = [], bl_error = [] \<rparr> # ls))))"

definition resolveBootLinks ::
  "'ns nodeset_lib \<Rightarrow> ('ns, 'w) app \<Rightarrow> 'ns \<Rightarrow> string \<Rightarrow> bool \<Rightarrow> ('w, goerr, boot_link list) act" where
  "resolveBootLinks L a ns explicit persistent =
     (let nodes = ns_expand L ns in
      abind (nodeAddresses a nodes) (\<lambda>addresses. alift
        (rbind (link_paths L a explicit persistent \<lparr> bp_rules = ap_boot_rules a, bp_sets = None \<rparr> (zip nodes addresses)) (\<lambda>links.
           if list_ex (\<lambda>l. bl_mode l = bootPersistent) links \<and> px_static_suffix (ap_pxe a) = [] then
             Inl (errorf Usage ''%s would get a persistent boot path, but services.pxesrv.staticSuffix is not set'' [])
           else Inr links))))"

definition linkName :: "('ns, 'w) app \<Rightarrow> string \<Rightarrow> boot_link \<Rightarrow> string" where
  "linkName a root l =
     root @ ''/'' @ bl_address l @ (if bl_mode l = bootPersistent then px_static_suffix (ap_pxe a) else [])"

text \<open>The distinct boot paths, each with its mode and its nodes, for the preview.\<close>

fun link_groups :: "((string \<times> string) \<times> string list) list \<Rightarrow> boot_link list \<Rightarrow> ((string \<times> string) \<times> string list) list" where
  "link_groups gs [] = gs"
| "link_groups gs (l # ls) =
     (let key = (bl_path l, bl_mode l); who = bl_node l @ '' ('' @ bl_address l @ '')'' in
      link_groups (if map_of gs key = None then gs @ [(key, [who])]
                   else map (\<lambda>(k, ns). if k = key then (k, ns @ [who]) else (k, ns)) gs) ls)"

definition describeBootLinks :: "boot_link list \<Rightarrow> string" where
  "describeBootLinks links =
     join_str (CHR 0x0A # ''  '') (map (\<lambda>((path, mode), nodes).
       path @ '', '' @ (if mode = bootPersistent then ''persistently'' else ''for the next request'') @ '': '' @ join_str '', '' nodes)
       (link_groups [] links))"

section \<open>The scripts\<close>

text \<open>
  The scripts the PXE host runs, as they are sent; the quotes, the line ends and the tabs are
  written as characters.
\<close>

definition bootPathCheckScript :: string where
  "bootPathCheckScript =
     ''while IFS= read -r -d '' @ [CHR 0x27, CHR 0x27] @ '' p; do'' @ [CHR 0x0A, CHR 0x09] @
     ''[ -f '' @ [CHR 0x22] @ ''$p'' @ [CHR 0x22] @ '' ] || printf '' @ [CHR 0x27] @ ''%s'' @
     [CHR 0x5C] @ ''n'' @ [CHR 0x27] @ '' '' @ [CHR 0x22] @ ''$p'' @ [CHR 0x22, CHR 0x0A] @
     ''done'' @ [CHR 0x0A]"

definition bootLinkScript :: string where
  "bootLinkScript =
     ''set -u'' @ [CHR 0x0A] @ ''bootlink() {'' @ [CHR 0x0A, CHR 0x09] @ ''if [ -d '' @
     [CHR 0x22] @ ''$3'' @ [CHR 0x22] @ '' ] && [ ! -L '' @ [CHR 0x22] @ ''$3'' @ [CHR 0x22] @
     '' ]; then'' @ [CHR 0x0A, CHR 0x09, CHR 0x09] @ ''printf '' @ [CHR 0x27] @ ''fail'' @
     [CHR 0x5C] @ ''t%s'' @ [CHR 0x5C] @ ''t%s'' @ [CHR 0x5C] @ ''n'' @ [CHR 0x27] @ '' '' @
     [CHR 0x22] @ ''$1'' @ [CHR 0x22] @ '' '' @ [CHR 0x22] @ ''$3 is a directory'' @
     [CHR 0x22, CHR 0x0A, CHR 0x09] @ ''elif out=$(ln -sfn -- '' @ [CHR 0x22] @ ''$2'' @
     [CHR 0x22] @ '' '' @ [CHR 0x22] @ ''$3'' @ [CHR 0x22] @ '' 2>&1); then'' @
     [CHR 0x0A, CHR 0x09, CHR 0x09] @ ''printf '' @ [CHR 0x27] @ ''ok'' @ [CHR 0x5C] @ ''t%s'' @
     [CHR 0x5C] @ ''n'' @ [CHR 0x27] @ '' '' @ [CHR 0x22] @ ''$1'' @
     [CHR 0x22, CHR 0x0A, CHR 0x09] @ ''else'' @ [CHR 0x0A, CHR 0x09, CHR 0x09] @ ''printf '' @
     [CHR 0x27] @ ''fail'' @ [CHR 0x5C] @ ''t%s'' @ [CHR 0x5C] @ ''t%s'' @ [CHR 0x5C] @ ''n'' @
     [CHR 0x27] @ '' '' @ [CHR 0x22] @ ''$1'' @ [CHR 0x22] @ '' '' @ [CHR 0x22] @
     ''$(printf %s '' @ [CHR 0x22] @ ''$out'' @ [CHR 0x22] @ '' | tr '' @ [CHR 0x27, CHR 0x5C] @
     ''t'' @ [CHR 0x5C] @ ''n'' @ [CHR 0x27] @ '' '' @ [CHR 0x27] @ ''  '' @ [CHR 0x27] @ '')'' @
     [CHR 0x22, CHR 0x0A, CHR 0x09] @ ''fi'' @ [CHR 0x0A] @ ''}'' @ [CHR 0x0A] @
     ''while IFS= read -r -d '' @ [CHR 0x27, CHR 0x27] @ '' i && IFS= read -r -d '' @
     [CHR 0x27, CHR 0x27] @ '' target && IFS= read -r -d '' @ [CHR 0x27, CHR 0x27] @
     '' link; do'' @ [CHR 0x0A, CHR 0x09] @ ''bootlink '' @ [CHR 0x22] @ ''$i'' @ [CHR 0x22] @
     '' '' @ [CHR 0x22] @ ''$target'' @ [CHR 0x22] @ '' '' @ [CHR 0x22] @ ''$link'' @
     [CHR 0x22, CHR 0x0A] @ ''done'' @ [CHR 0x0A]"

definition bootUnlinkScript :: string where
  "bootUnlinkScript =
     ''set -u'' @ [CHR 0x0A] @ ''bootunlink() {'' @ [CHR 0x0A, CHR 0x09] @ ''i=$1'' @
     [CHR 0x0A, CHR 0x09] @ ''shift'' @ [CHR 0x0A, CHR 0x09] @ ''if out=$(rm -f -- '' @
     [CHR 0x22] @ ''$@'' @ [CHR 0x22] @ '' 2>&1); then'' @ [CHR 0x0A, CHR 0x09, CHR 0x09] @
     ''printf '' @ [CHR 0x27] @ ''ok'' @ [CHR 0x5C] @ ''t%s'' @ [CHR 0x5C] @ ''n'' @ [CHR 0x27] @
     '' '' @ [CHR 0x22] @ ''$i'' @ [CHR 0x22, CHR 0x0A, CHR 0x09] @ ''else'' @
     [CHR 0x0A, CHR 0x09, CHR 0x09] @ ''printf '' @ [CHR 0x27] @ ''fail'' @ [CHR 0x5C] @ ''t%s'' @
     [CHR 0x5C] @ ''t%s'' @ [CHR 0x5C] @ ''n'' @ [CHR 0x27] @ '' '' @ [CHR 0x22] @ ''$i'' @
     [CHR 0x22] @ '' '' @ [CHR 0x22] @ ''$(printf %s '' @ [CHR 0x22] @ ''$out'' @ [CHR 0x22] @
     '' | tr '' @ [CHR 0x27, CHR 0x5C] @ ''t'' @ [CHR 0x5C] @ ''n'' @ [CHR 0x27] @ '' '' @
     [CHR 0x27] @ ''  '' @ [CHR 0x27] @ '')'' @ [CHR 0x22, CHR 0x0A, CHR 0x09] @ ''fi'' @
     [CHR 0x0A] @ ''}'' @ [CHR 0x0A] @ ''while IFS= read -r -d '' @ [CHR 0x27, CHR 0x27] @
     '' i && IFS= read -r -d '' @ [CHR 0x27, CHR 0x27] @ '' once && IFS= read -r -d '' @
     [CHR 0x27, CHR 0x27] @ '' static; do'' @ [CHR 0x0A, CHR 0x09] @ ''if [ -n '' @ [CHR 0x22] @
     ''$static'' @ [CHR 0x22] @ '' ]; then'' @ [CHR 0x0A, CHR 0x09, CHR 0x09] @ ''bootunlink '' @
     [CHR 0x22] @ ''$i'' @ [CHR 0x22] @ '' '' @ [CHR 0x22] @ ''$once'' @ [CHR 0x22] @ '' '' @
     [CHR 0x22] @ ''$static'' @ [CHR 0x22, CHR 0x0A, CHR 0x09] @ ''else'' @
     [CHR 0x0A, CHR 0x09, CHR 0x09] @ ''bootunlink '' @ [CHR 0x22] @ ''$i'' @ [CHR 0x22] @ '' '' @
     [CHR 0x22] @ ''$once'' @ [CHR 0x22, CHR 0x0A, CHR 0x09] @ ''fi'' @ [CHR 0x0A] @ ''done'' @
     [CHR 0x0A]"

abbreviation nul :: char where "nul \<equiv> CHR 0x00"

definition linkRecords :: "string list list \<Rightarrow> goerr + string" where
  "linkRecords records =
     (case first_error (\<lambda>f. if nul \<in> set f then Some (errorf Usage ''the path %q holds a NUL byte'' [f]) else None) (concat records) of
        Some e \<Rightarrow> Inl e
      | None \<Rightarrow> Inr (concat (map (\<lambda>f. f @ [nul]) (concat records))))"

section \<open>Changing links\<close>

abbreviation bl_unknown :: string where "bl_unknown \<equiv> ''unknown''"
abbreviation bl_set :: string where "bl_set \<equiv> ''set''"
abbreviation bl_removed :: string where "bl_removed \<equiv> ''removed''"
abbreviation bl_failed :: string where "bl_failed \<equiv> ''failed''"

text \<open>\<open>strings.SplitN(line, "\t", 3)\<close>.\<close>

definition split_three :: "string \<Rightarrow> string list" where
  "split_three line =
     (case split_char (CHR 0x09) line of x # y # z # rest \<Rightarrow> [x, y, join_str [CHR 0x09] (z # rest)] | fs \<Rightarrow> fs)"

definition report_index :: "string \<Rightarrow> nat \<Rightarrow> nat option" where
  "report_index s n = (case atoi s of None \<Rightarrow> None | Some i \<Rightarrow> if i < 0 \<or> i \<ge> int n then None else Some (nat i))"

text \<open>What one line of the report says of a link that nothing was said of yet.\<close>

definition note_report :: "(string \<Rightarrow> string) \<Rightarrow> string \<Rightarrow> boot_link list \<Rightarrow> string \<Rightarrow> boot_link list" where
  "note_report escape done links line =
     (case split_three line of
        verdict # index # why \<Rightarrow>
          (case report_index index (length links) of None \<Rightarrow> links
           | Some i \<Rightarrow>
               if bl_result (links ! i) \<noteq> bl_unknown then links
               else if verdict = ''ok'' \<and> why = [] then
                 links[i := (links ! i)\<lparr>bl_result := done, bl_error := []\<rparr>]
               else if verdict = ''fail'' \<and> why \<noteq> [] then
                 links[i := (links ! i)\<lparr>bl_result := bl_failed, bl_error := escape (hd why)\<rparr>]
               else links)
      | _ \<Rightarrow> links)"

definition unreported_links :: "boot_link list \<Rightarrow> boot_link list" where
  "unreported_links links =
     map (\<lambda>l. l\<lparr>bl_result := bl_unknown, bl_error := ''the PXE host did not report this link''\<rparr>) links"

definition links_error :: "boot_link list \<Rightarrow> goerr option \<Rightarrow> goerr option" where
  "links_error links run_err =
     (let failed = map bl_node (filter (\<lambda>l. bl_result l = bl_failed) links);
          unknown = map bl_node (filter (\<lambda>l. bl_result l = bl_unknown) links) in
      if failed = [] \<and> unknown = [] then None
      else case run_err of
        Some e \<Rightarrow> Some (Wrap ''the boot link of %s: %w'' (failed @ unknown) [e])
      | None \<Rightarrow> Some (errorf TargetFailed ''the boot link of %s'' (failed @ unknown)))"

definition runLinkScript ::
  "('ns, 'w) app \<Rightarrow> string \<Rightarrow> string \<Rightarrow> string \<Rightarrow> boot_link list \<Rightarrow> string \<Rightarrow> 'w \<Rightarrow> (goerr option \<times> boot_link list) \<times> 'w" where
  "runLinkScript a role script stdin links done w =
     (case RunOnRole a role (no_request\<lparr>rq_script := script, rq_stdin := Some stdin\<rparr>) w of
        ((result, run_err), w') \<Rightarrow>
          let links' = (case result of None \<Rightarrow> unreported_links links
              | Some r \<Rightarrow> foldl (note_report (ap_escape a) done) (unreported_links links) (Lines r))
          in ((links_error links' run_err, links'), w'))"

definition write_records :: "('ns, 'w) app \<Rightarrow> string \<Rightarrow> boot_link list \<Rightarrow> string list list" where
  "write_records a root links = map (\<lambda>(i, l). [nat_digits i, bl_path l, linkName a root l]) (zip [0..<length links] links)"

definition writeBootLinks ::
  "('ns, 'w) app \<Rightarrow> string \<Rightarrow> string \<Rightarrow> boot_link list \<Rightarrow> 'w \<Rightarrow> (goerr option \<times> boot_link list) \<times> 'w" where
  "writeBootLinks a role root links w =
     (case linkRecords (write_records a root links) of Inl e \<Rightarrow> ((Some e, links), w)
      | Inr stdin \<Rightarrow> runLinkScript a role bootLinkScript stdin links bl_set w)"

definition remove_records :: "('ns, 'w) app \<Rightarrow> string \<Rightarrow> boot_link list \<Rightarrow> string list list" where
  "remove_records a root links =
     (let suffix = px_static_suffix (ap_pxe a) in
      map (\<lambda>(i, l). let once = root @ ''/'' @ bl_address l in
             [nat_digits i, once, if suffix = [] then [] else once @ suffix]) (zip [0..<length links] links))"

definition removeBootLinks ::
  "('ns, 'w) app \<Rightarrow> string \<Rightarrow> string \<Rightarrow> boot_link list \<Rightarrow> 'w \<Rightarrow> (goerr option \<times> boot_link list) \<times> 'w" where
  "removeBootLinks a role root links w =
     (case linkRecords (remove_records a root links) of Inl e \<Rightarrow> ((Some e, links), w)
      | Inr stdin \<Rightarrow> runLinkScript a role bootUnlinkScript stdin links bl_removed w)"

section \<open>Checking before anything is written\<close>

definition list_argv :: "string \<Rightarrow> string list" where
  "list_argv root = [''find'', root, ''-maxdepth'', ''1'', ''-type'', ''l'', ''-printf'',
     ''%f'' @ [CHR 0x09] @ ''%l'' @ [CHR 0x0A]]"

definition readBootLinks :: "('ns, 'w) app \<Rightarrow> string \<Rightarrow> string \<Rightarrow> ('w, goerr, string go_map) act" where
  "readBootLinks a role root w =
     (case result_or_error (ReadOnRole a role (no_request\<lparr>rq_argv := list_argv root\<rparr>) w) of
        (Inl e, w') \<Rightarrow> (Inl e, w')
      | (Inr r, w') \<Rightarrow>
          (Inr (rev (List.map_filter (\<lambda>line. cut line [CHR 0x09]) (Lines r))), w'))"

definition held_nodes :: "string \<Rightarrow> string go_map \<Rightarrow> boot_link list \<Rightarrow> string list" where
  "held_nodes sfx existing links =
     map bl_node (filter (\<lambda>l. bl_mode l = bootOnce \<and> attr_value existing (bl_address l @ sfx) \<noteq> []) links)"

definition checkBootLinks ::
  "('ns, 'w) app \<Rightarrow> string \<Rightarrow> string \<Rightarrow> boot_link list \<Rightarrow> 'w \<Rightarrow> goerr option \<times> 'w" where
  "checkBootLinks a role root links w =
     (let suffix = px_static_suffix (ap_pxe a); paths = remdups (map bl_path links);
          (existing, w1) = (if suffix = [] then (Inr [], w) else readBootLinks a role root w) in
      case linkRecords (map (\<lambda>p. [p]) paths) of Inl e \<Rightarrow> (Some e, w1)
      | Inr stdin \<Rightarrow>
          (case result_or_error (ReadOnRole a role (no_request\<lparr>rq_script := bootPathCheckScript, rq_stdin := Some stdin\<rparr>) w1) of
             (Inl e, w2) \<Rightarrow> (Some e, w2)
           | (Inr r, w2) \<Rightarrow>
               let missing = filter (\<lambda>l. l \<in> set paths) (Lines r) in
               if missing \<noteq> [] then
                 (Some (errorf Usage ''no boot configuration exists on %s at %s'' [role, join_str '', '' missing]), w2)
               else if suffix = [] then (None, w2)
               else (case existing of Inl e \<Rightarrow> (Some e, w2)
                     | Inr m \<Rightarrow>
                         if held_nodes suffix m links \<noteq> [] then
                           (Some (errorf Usage ''%s has a persistent boot path, which a one-shot one does not replace'' (held_nodes suffix m links)), w2)
                         else (None, w2))))"

section \<open>GRUB\<close>

definition upper_hex :: "nat \<Rightarrow> string" where
  "upper_hex b = [''0123456789ABCDEF'' ! (b div 16 mod 16), ''0123456789ABCDEF'' ! (b mod 16)]"

definition addressToHex :: "string \<Rightarrow> goerr + string" where
  "addressToHex address =
     (case parse_ip address of
        None \<Rightarrow> Inl (Leaf ''%q is not an address'' [address])
      | Some bs \<Rightarrow> if is_v4 bs then Inr (concat (map upper_hex (drop 12 bs)))
                   else Inl (Leaf ''%q is not an IPv4 address, which is what GRUB asks for'' [address]))"

definition grubLink :: "'ns nodeset_lib \<Rightarrow> ('ns, 'w) app \<Rightarrow> string \<Rightarrow> ('w, goerr, string \<times> string \<times> string) act" where
  "grubLink L a expr =
     (let role = tf_role (ap_tftp a) in
      if role = [] then alift (Inl (errorf Usage ''no host role runs the TFTP service; set services.tftp.role'' []))
      else abind (oneNode L a expr) (\<lambda>node.
           abind (nodeAddresses a [node]) (\<lambda>addresses. alift
             (case addressToHex (hd addresses) of Inl e \<Rightarrow> Inl (Coded Usage e)
              | Inr hex \<Rightarrow> Inr (role, node, tf_grub_path (ap_tftp a) @ ''/grub.cfg-'' @ hex)))))"

definition path_under :: "string \<Rightarrow> string \<Rightarrow> bool" where
  "path_under root p \<longleftrightarrow> root = ''/'' \<or> has_prefix p (root @ ''/'')"

fun common_length :: "string list \<Rightarrow> string list \<Rightarrow> nat" where
  "common_length (x # xs) (y # ys) = (if x = y then Suc (common_length xs ys) else 0)"
| "common_length _ _ = 0"

definition relative_path :: "string \<Rightarrow> string \<Rightarrow> string" where
  "relative_path dir goal =
     (let from = fields_func (\<lambda>c. c = CHR ''/'') dir; to = fields_func (\<lambda>c. c = CHR ''/'') goal; n = common_length from to in
      path_join (replicate (length from - n) ''..'' @ drop n to))"

definition grubTarget :: "tftp_spec \<Rightarrow> string \<Rightarrow> goerr + string \<times> string" where
  "grubTarget spec target =
     (let root = path_clean (tf_root spec); dir = path_clean (tf_grub_path spec);
          full = (if path_abs (path_clean target) then path_clean target else path_join [dir, target]) in
      if \<not> path_abs root then Inl (errorf Usage ''services.tftp.root %q is not an absolute path'' [tf_root spec])
      else if \<not> path_abs dir \<or> dir \<noteq> root \<and> \<not> path_under root dir then
        Inl (errorf Usage ''services.tftp.grubPath %q is not a directory under services.tftp.root %s'' [tf_grub_path spec, root])
      else if \<not> path_under root full then
        Inl (errorf Usage ''%s is outside the TFTP root %s, which is all the TFTP server serves'' [full, root])
      else Inr (full, relative_path dir full))"

end
