(* ===== verification/BmcCalls.thy ===== *)
theory BmcCalls
  imports AppSite
begin

text \<open>
  Requests to the service processors (\<open>internal/cli/bmcpower.go\<close>): one request to each, in parallel,
  what came of it, and the error a command ends with. The pool of go-clikit decides which requests
  are started and in which order, which is the parameter \<open>sched\<close>; a request is one step. What a
  request does is the parameter \<open>do\<close>, an exchange with the processor. The text of an error beside
  it in a row is left out.
\<close>

section \<open>A pool\<close>

text \<open>
  The items to start, by their index: \<open>sched limit n w\<close>. Nothing that is not an index, and no
  index twice, is ever started.
\<close>

type_synonym 'w schedule = "int \<Rightarrow> nat \<Rightarrow> 'w \<Rightarrow> nat list"

fun run_items :: "('i \<Rightarrow> 'w \<Rightarrow> 'o \<times> 'w) \<Rightarrow> 'i list \<Rightarrow> nat list \<Rightarrow> 'w \<Rightarrow> (nat \<Rightarrow> 'o option) \<times> 'w" where
  "run_items f xs [] w = ((\<lambda>_. None), w)"
| "run_items f xs (i # is) w =
     (case f (xs ! i) w of (out, w1) \<Rightarrow> case run_items f xs is w1 of (m, w2) \<Rightarrow> (m(i := Some out), w2))"

definition started :: "'w schedule \<Rightarrow> int \<Rightarrow> nat \<Rightarrow> 'w \<Rightarrow> nat list" where
  "started sched limit n w = remdups (filter (\<lambda>i. i < n) (sched limit n w))"

definition pool_map :: "'w schedule \<Rightarrow> int \<Rightarrow> ('i \<Rightarrow> 'w \<Rightarrow> 'o \<times> 'w) \<Rightarrow> 'i list \<Rightarrow> 'w \<Rightarrow> 'o option list \<times> 'w" where
  "pool_map sched limit f xs w =
     (case run_items f xs (started sched limit (length xs) w) w of (m, w') \<Rightarrow> (map m [0..<length xs], w'))"

section \<open>Errors\<close>

text \<open>
  \<open>errors.As\<close>: the first error of a type, depth first. An error of a type of another package is a
  leaf or a wrapper under the name of its type, with the fields that are read.
\<close>

fun find_typed :: "string \<Rightarrow> goerr \<Rightarrow> string list option" and find_typed_in :: "string \<Rightarrow> goerr list \<Rightarrow> string list option" where
  "find_typed ty (Leaf f a) = (if f = ty then Some a else None)"
| "find_typed ty (Sentinel n) = None"
| "find_typed ty (Wrap f a es) = (if f = ty then Some a else find_typed_in ty es)"
| "find_typed ty (Coded c e) = find_typed ty e"
| "find_typed_in ty [] = None"
| "find_typed_in ty (e # es) = (case find_typed ty e of None \<Rightarrow> find_typed_in ty es | Some a \<Rightarrow> Some a)"

abbreviation DNSError :: string where "DNSError \<equiv> ''net.DNSError''"
abbreviation OpError :: string where "OpError \<equiv> ''net.OpError''"
abbreviation PinMismatchError :: string where "PinMismatchError \<equiv> ''redfish.PinMismatchError''"
abbreviation PinStoreError :: string where "PinStoreError \<equiv> ''redfish.PinStoreError''"

definition neverSent :: "goerr \<Rightarrow> bool" where
  "neverSent e \<longleftrightarrow> find_typed DNSError e \<noteq> None \<or> find_typed PinMismatchError e \<noteq> None \<or> find_typed PinStoreError e \<noteq> None \<or>
     (case find_typed OpError e of Some (op # _) \<Rightarrow> op = ''dial'' | _ \<Rightarrow> False)"

definition errRequestNotSent :: goerr where
  "errRequestNotSent = Sentinel ''not sent: the command was interrupted first''"

definition errNotSent :: goerr where
  "errNotSent = Coded Interrupted errRequestNotSent"

definition bmcError :: "goerr option \<Rightarrow> goerr \<Rightarrow> bool \<Rightarrow> goerr" where
  "bmcError ctx_err e changes =
     (if ctx_err \<noteq> None then
        Coded Interrupted (if changes
          then Wrap ''outcome unknown, check the state before trying again: interrupted while the request was under way: %w'' [] [e]
          else Wrap ''interrupted: %w'' [] [e])
      else e)"

definition interruptedState :: "bool \<Rightarrow> string" where
  "interruptedState changes = (if changes then ''outcome unknown'' else ''interrupted'')"

section \<open>Requests\<close>

text \<open>A request returns a value and an error, or ends in a panic.\<close>

datatype 'a done_with = Returned 'a "goerr option" | Panicked goerr

record 'a redfish_call =
  cl_node :: string
  cl_client :: "redfish_client option"
  cl_value :: "'a option"
  cl_err :: "goerr option"
  cl_sent :: bool

type_synonym ('w, 'a) exchange = "string \<Rightarrow> redfish_client \<Rightarrow> 'w \<Rightarrow> 'a done_with \<times> 'w"

definition newRedfishCalls :: "string list \<Rightarrow> redfish_client option list \<Rightarrow> 'a redfish_call list" where
  "newRedfishCalls names clients =
     map2 (\<lambda>n c. \<lparr> cl_node = n, cl_client = c, cl_value = None, cl_err = None, cl_sent = False \<rparr>) names clients"

definition send_call :: "('w \<Rightarrow> goerr option) \<Rightarrow> bool \<Rightarrow> ('w, 'a) exchange \<Rightarrow> 'a redfish_call \<Rightarrow> 'w \<Rightarrow> 'a redfish_call \<times> 'w" where
  "send_call ctx_err changes do call w =
     (case cl_client call of None \<Rightarrow> (call, w)
      | Some c \<Rightarrow>
          (case do (cl_node call) c w of
             (Returned v err, w') \<Rightarrow>
               (call\<lparr>cl_value := Some v, cl_err := (case err of None \<Rightarrow> cl_err call | Some e \<Rightarrow> Some (bmcError (ctx_err w') e changes))\<rparr>, w')
           | (Panicked e, w') \<Rightarrow> (call\<lparr>cl_err := Some e\<rparr>, w')))"

definition redfishLimit :: "('ns, 'w) app \<Rightarrow> int" where
  "redfishLimit a = Bound a (rf_max_concurrent (bm_redfish (ap_bmc a)))"

text \<open>A call the pool started comes back sent; one it did not start has the error that says so.\<close>

definition settle_call :: "'a redfish_call \<Rightarrow> 'a redfish_call option \<Rightarrow> 'a redfish_call" where
  "settle_call call out =
     (case out of None \<Rightarrow> call\<lparr>cl_sent := False, cl_err := Some errNotSent\<rparr> | Some c \<Rightarrow> c\<lparr>cl_sent := True\<rparr>)"

text \<open>The calls without a client are left as they are.\<close>

fun merge_calls :: "'a redfish_call list \<Rightarrow> 'a redfish_call option list \<Rightarrow> 'a redfish_call list" where
  "merge_calls [] outs = []"
| "merge_calls (c # cs) outs =
     (if cl_client c = None then c # merge_calls cs outs
      else case outs of [] \<Rightarrow> c # merge_calls cs [] | out # rest \<Rightarrow> settle_call c out # merge_calls cs rest)"

definition redfishEach ::
  "'w schedule \<Rightarrow> ('ns, 'w) app \<Rightarrow> string list \<Rightarrow> redfish_client option list \<Rightarrow> bool \<Rightarrow> ('w, 'a) exchange \<Rightarrow> 'w \<Rightarrow> 'a redfish_call list \<times> 'w" where
  "redfishEach sched a names clients changes do w =
     (let calls = newRedfishCalls names clients; sendable = filter (\<lambda>c. cl_client c \<noteq> None) calls in
      case pool_map sched (redfishLimit a) (send_call (ap_ctx_err a) changes do) sendable w of
        (outs, w') \<Rightarrow> (merge_calls calls outs, w'))"

section \<open>Rows\<close>

datatype bmc_outcome = outcomeSent | outcomeNotTried | outcomeNotSent

record bmc_result =
  bw_node :: string
  bw_bmc :: string
  bw_via :: string
  bw_state :: string
  bw_err :: "goerr option"
  bw_outcome :: bmc_outcome

definition call_row :: "(goerr \<Rightarrow> bool) \<Rightarrow> bool \<Rightarrow> ('a \<Rightarrow> string) \<Rightarrow> 'a redfish_call \<Rightarrow> bmc_result" where
  "call_row is_usage changes state c =
     (let r = \<lparr> bw_node = cl_node c, bw_bmc = (case cl_client c of None \<Rightarrow> [] | Some k \<Rightarrow> rc_host k), bw_via = TransportRedfish,
                bw_state = [], bw_err = None, bw_outcome = outcomeSent \<rparr> in
      if \<not> cl_sent c then r\<lparr>bw_state := ''not sent'', bw_outcome := outcomeNotSent, bw_err := cl_err c\<rparr>
      else case cl_err c of
        Some e \<Rightarrow> r\<lparr>bw_state := (if from_err is_usage (Some e) = Interrupted then interruptedState changes else []), bw_err := Some e\<rparr>
      | None \<Rightarrow> r\<lparr>bw_state := (case cl_value c of None \<Rightarrow> [] | Some v \<Rightarrow> state v)\<rparr>)"

definition callResults :: "(goerr \<Rightarrow> bool) \<Rightarrow> bool \<Rightarrow> ('a \<Rightarrow> string) \<Rightarrow> 'a redfish_call list \<Rightarrow> bmc_result list" where
  "callResults is_usage changes state calls = map (call_row is_usage changes state) calls"

definition nodes_of :: "'ns nodeset_lib \<Rightarrow> bmc_result list \<Rightarrow> 'ns" where
  "nodes_of L rs = foldl (\<lambda>s r. add_quiet L s (bw_node r)) (ns_new L) rs"

definition row_errors :: "bmc_result list \<Rightarrow> goerr list" where
  "row_errors rs = List.map_filter (\<lambda>r. if bw_outcome r = outcomeSent then bw_err r else None) rs"

definition cut_short :: "(goerr \<Rightarrow> bool) \<Rightarrow> bmc_result \<Rightarrow> bool" where
  "cut_short is_usage r \<longleftrightarrow> bw_outcome r = outcomeSent \<and> bw_err r \<noteq> None \<and> worst is_usage [bw_err r] = Interrupted"

text \<open>\<open>bmcExit\<close>: the error a command exits with, from its rows.\<close>

definition bmcExit :: "'ns nodeset_lib \<Rightarrow> (goerr \<Rightarrow> bool) \<Rightarrow> bmc_result list \<Rightarrow> goerr option" where
  "bmcExit L is_usage rs =
     (let errs = row_errors rs;
          failed = length (filter (\<lambda>r. bw_outcome r = outcomeSent \<and> bw_err r \<noteq> None \<and> \<not> cut_short is_usage r) rs);
          notTried = nodes_of L (filter (\<lambda>r. bw_outcome r = outcomeNotTried) rs);
          notSent = nodes_of L (filter (\<lambda>r. bw_outcome r = outcomeNotSent) rs);
          inter = nodes_of L (filter (cut_short is_usage) rs);
          w = worst is_usage (map Some errs);
          code = (if \<not> ns_is_empty L notSent then Interrupted else if w \<noteq> 0 then w else TargetFailed) in
      if failed = 0 \<and> ns_is_empty L notTried \<and> ns_is_empty L notSent \<and> ns_is_empty L inter then None
      else Some (Coded code (Wrap ''%d of %d service processors failed'' [nat_digits failed, nat_digits (length rs)] errs)))"

section \<open>Facts on pools and calls\<close>

lemma started_ok: "distinct (started sched limit n w)"
  by (simp add: started_def)

text \<open>
  What one item establishes, its outcome and the world after it, and the others keep, holds at the
  end of everything that was started.
\<close>

lemma run_items_stable:
  assumes step: "\<And>i w. i \<in> set is \<Longrightarrow> R w (snd (f (xs ! i) w)) \<and> S i (fst (f (xs ! i) w)) (snd (f (xs ! i) w))"
    and stable: "\<And>i out w w1. S i out w \<Longrightarrow> R w w1 \<Longrightarrow> S i out w1"
    and refl: "\<And>w. R w w" and trans: "\<And>u v w. R u v \<Longrightarrow> R v w \<Longrightarrow> R u w"
  shows "run_items f xs is w = (m, w') \<Longrightarrow> R w w' \<and> (\<forall>i out. m i = Some out \<longrightarrow> i \<in> set is \<and> S i out w')"
  using step
proof (induction "is" arbitrary: w m)
  case Nil
  then have "m = (\<lambda>_. None)" "w' = w" by simp_all
  then show ?case by (simp add: refl)
next
  case (Cons i "is")
  obtain out w1 where f: "f (xs ! i) w = (out, w1)" by (rule prod.exhaust)
  obtain m1 where r: "run_items f xs is w1 = (m1, w')" and m: "m = m1(i := Some out)"
    using Cons.prems(1) f by (auto split: prod.splits)
  have now: "R w w1" "S i out w1" using Cons.prems(2) [of i w] f by auto
  have "R w1 w' \<and> (\<forall>j out. m1 j = Some out \<longrightarrow> j \<in> set is \<and> S j out w')"
    by (rule Cons.IH [OF r]) (use Cons.prems(2) in auto)
  with now m stable [OF now(2)] trans [OF now(1)] show ?case by auto
qed

text \<open>What is true at the end and was not at the start, an item that was started brought about.\<close>

lemma run_items_cause:
  assumes step: "\<And>i w. i \<in> set is \<Longrightarrow> G (snd (f (xs ! i) w)) \<Longrightarrow> G w \<or> C i (fst (f (xs ! i) w))"
  shows "run_items f xs is w = (m, w') \<Longrightarrow> distinct is \<Longrightarrow> G w' \<Longrightarrow> G w \<or> (\<exists>i out. i \<in> set is \<and> m i = Some out \<and> C i out)"
  using step
proof (induction "is" arbitrary: w m)
  case (Cons i "is")
  obtain out w1 where f: "f (xs ! i) w = (out, w1)" by (rule prod.exhaust)
  obtain m1 where r: "run_items f xs is w1 = (m1, w')" and m: "m = m1(i := Some out)"
    using Cons.prems(1) f by (auto split: prod.splits)
  have "G w1 \<or> (\<exists>j out. j \<in> set is \<and> m1 j = Some out \<and> C j out)"
    by (rule Cons.IH [OF r]) (use Cons.prems in auto)
  moreover have "G w1 \<Longrightarrow> G w \<or> C i out" using Cons.prems(4) [of i w] f by simp
  moreover have "i \<notin> set is" using Cons.prems(2) by simp
  ultimately show ?case using m by (metis fun_upd_apply list.set_intros)
qed simp

lemma pool_map_length: "pool_map sched limit f xs w = (outs, w') \<Longrightarrow> length outs = length xs"
  by (auto simp: pool_map_def split: prod.splits)

lemma pool_map_stable:
  assumes "\<And>i w. i < length xs \<Longrightarrow> R w (snd (f (xs ! i) w)) \<and> S i (fst (f (xs ! i) w)) (snd (f (xs ! i) w))"
    and "\<And>i out w w1. S i out w \<Longrightarrow> R w w1 \<Longrightarrow> S i out w1"
    and "\<And>w. R w w" and "\<And>u v w. R u v \<Longrightarrow> R v w \<Longrightarrow> R u w"
    and "pool_map sched limit f xs w = (outs, w')"
  shows "R w w' \<and> (\<forall>i<length xs. \<forall>out. outs ! i = Some out \<longrightarrow> S i out w')"
proof -
  let ?is = "started sched limit (length xs) w"
  obtain m where r: "run_items f xs ?is w = (m, w')" and o: "outs = map m [0..<length xs]"
    using assms(5) by (auto simp: pool_map_def split: prod.splits)
  have lt: "i < length xs" if "i \<in> set ?is" for i using that by (simp add: started_def)
  have step: "R u (snd (f (xs ! i) u)) \<and> S i (fst (f (xs ! i) u)) (snd (f (xs ! i) u))" if "i \<in> set ?is" for i u
    by (rule assms(1) [OF lt [OF that]])
  have "R w w' \<and> (\<forall>i out. m i = Some out \<longrightarrow> i \<in> set ?is \<and> S i out w')"
    by (rule run_items_stable [where R = R and S = S, OF step assms(2) assms(3) assms(4) r])
  with o show ?thesis by auto
qed

lemma pool_map_cause:
  assumes "\<And>i w. i < length xs \<Longrightarrow> G (snd (f (xs ! i) w)) \<Longrightarrow> G w \<or> C i (fst (f (xs ! i) w))"
    and "pool_map sched limit f xs w = (outs, w')" and "G w'"
  shows "G w \<or> (\<exists>i<length xs. \<exists>out. outs ! i = Some out \<and> C i out)"
proof -
  let ?is = "started sched limit (length xs) w"
  obtain m where r: "run_items f xs ?is w = (m, w')" and o: "outs = map m [0..<length xs]"
    using assms(2) by (auto simp: pool_map_def split: prod.splits)
  have lt: "i < length xs" if "i \<in> set ?is" for i using that by (simp add: started_def)
  have step: "G u \<or> C i (fst (f (xs ! i) u))" if "i \<in> set ?is" "G (snd (f (xs ! i) u))" for i u
    by (rule assms(1) [OF lt [OF that(1)] that(2)])
  have "G w \<or> (\<exists>i out. i \<in> set ?is \<and> m i = Some out \<and> C i out)"
    by (rule run_items_cause [where G = G and C = C, OF step r started_ok assms(3)])
  then show ?thesis
  proof (elim disjE exE conjE)
    fix i out assume i: "i \<in> set ?is" "m i = Some out" "C i out"
    with lt [OF i(1)] show ?thesis by (intro disjI2 exI [of _ i]) (simp add: o)
  qed simp
qed

end
