(* ===== verification/Reinstall.thy ===== *)
theory Reinstall
  imports BootLinks BmcCalls Safety KnownHostsChange
begin

text \<open>
  Reinstalling nodes (\<open>internal/cli/provision.go\<close>): everything is resolved first, then the boot links
  are written, the machines set to boot from the network once, their host keys forgotten and the
  machines reset; when a step fails, what was armed is undone. The nodes of a plan, which the code
  changes through pointers, are a list with their positions. The exchanges with the processors and
  the change of the host key file are parameters, a request being one step; the check of the boot
  paths, which the code makes beside the question to Slurm, is made after it.
\<close>

section \<open>The Slurm check\<close>

text \<open>The actions \<open>checkSlurmIdle\<close> never asks about are \<open>status\<close> and \<open>on\<close>; its notes are left out.\<close>

definition slurm_unasked :: "(goerr \<Rightarrow> bool) \<Rightarrow> bool \<Rightarrow> goerr \<Rightarrow> goerr option" where
  "slurm_unasked is_usage loseJobs e =
     (if loseJobs then None
      else Some (Wrap ''could not ask Slurm whether %s run jobs, so nothing was done'' []
             [if from_err is_usage (Some e) = TargetFailed then Coded Transport e else e]))"

definition checkSlurmIdle ::
  "'ns nodeset_lib \<Rightarrow> (goerr \<Rightarrow> bool) \<Rightarrow> ('ns, 'w) app \<Rightarrow> 'ns \<Rightarrow> string \<Rightarrow> bool \<Rightarrow> 'w \<Rightarrow> goerr option \<times> 'w" where
  "checkSlurmIdle L is_usage a nodes action loseJobs w =
     (if action = ''status'' \<or> action = ''on'' then (None, w)
      else if ap_slurm_aware a = Some False then (None, w)
      else if ap_slurm_role a = [] then (None, w)
      else case app_Slurm a of
        Inl e \<Rightarrow> (slurm_unasked is_usage loseJobs e, w)
      | Inr c \<Rightarrow>
          (case JobCheck L c nodes w of
             (Inl e, w') \<Rightarrow> (slurm_unasked is_usage loseJobs e, w')
           | (Inr jobs, w') \<Rightarrow>
               (if Idle L jobs \<or> loseJobs then None
                else Some (errorf Usage ''%s; pass --lose-jobs to go ahead'' [job_state_text L (\<lambda>s. s) jobs]), w')))"

section \<open>Nodes and plans\<close>

abbreviation stepSent :: string where "stepSent \<equiv> ''sent''"
abbreviation stepNotSent :: string where "stepNotSent \<equiv> ''not sent''"
abbreviation stepUnreachable :: string where "stepUnreachable \<equiv> ''unreachable''"
abbreviation stepCleared :: string where "stepCleared \<equiv> ''cleared''"

abbreviation stateReinstalling :: string where "stateReinstalling \<equiv> ''reinstalling''"
abbreviation stateArmed :: string where "stateArmed \<equiv> ''armed''"
abbreviation stateDisarmed :: string where "stateDisarmed \<equiv> ''disarmed''"
abbreviation stateUnchanged :: string where "stateUnchanged \<equiv> ''unchanged''"

record reinstall_node =
  rn_node :: string
  rn_address :: string
  rn_boot_path :: string
  rn_mode :: string
  rn_bmc :: string
  rn_boot_link :: string
  rn_boot_once :: string
  rn_reset :: string
  rn_state :: string
  rn_errors :: "string list"
  rn_host_names :: "string list"
  rn_client :: "redfish_client option"

definition note_node :: "('ns, 'w) app \<Rightarrow> string \<Rightarrow> goerr option \<Rightarrow> reinstall_node \<Rightarrow> reinstall_node" where
  "note_node a what err n =
     (case err of None \<Rightarrow> n
      | Some e \<Rightarrow> n\<lparr>rn_errors := rn_errors n @ [ap_escape a (what @ '': '' @ ap_err_text a e)]\<rparr>)"

definition linked :: "reinstall_node \<Rightarrow> bool" where
  "linked n \<longleftrightarrow> rn_boot_link n = bl_set \<or> rn_boot_link n = bl_unknown"

definition overridden :: "reinstall_node \<Rightarrow> bool" where
  "overridden n \<longleftrightarrow> rn_boot_once n = bl_set \<or> rn_boot_once n = bl_failed"

record reinstall_plan =
  rp_role :: string
  rp_root :: string
  rp_nodes :: "reinstall_node list"
  rp_links :: "boot_link list"
  rp_known_hosts :: bool
  rp_keys_forgotten :: bool

text \<open>What the plan sends, and the change of the host key file under its lock.\<close>

record 'w prov_ops =
  po_sched :: "'w schedule"
  po_set_override :: "redfish_client \<Rightarrow> 'w \<Rightarrow> unit done_with \<times> 'w"
  po_clear_override :: "redfish_client \<Rightarrow> 'w \<Rightarrow> unit done_with \<times> 'w"
  po_reset :: "redfish_client \<Rightarrow> 'w \<Rightarrow> unit done_with \<times> 'w"
  po_modify_keys :: "(known_file \<Rightarrow> goerr + known_file) \<Rightarrow> 'w \<Rightarrow> goerr option \<times> 'w"
  po_mac :: "string \<Rightarrow> string \<Rightarrow> string"

section \<open>Planning\<close>

definition blank_node :: "boot_link \<Rightarrow> reinstall_node" where
  "blank_node l = \<lparr> rn_node = bl_node l, rn_address = bl_address l, rn_boot_path = bl_path l, rn_mode = bl_mode l,
     rn_bmc = [], rn_boot_link = [], rn_boot_once = [], rn_reset = [], rn_state = stateUnchanged, rn_errors = [],
     rn_host_names = [], rn_client = None \<rparr>"

definition reached_elsewhere :: "('ns, 'w) app \<Rightarrow> boot_link list \<Rightarrow> string list" where
  "reached_elsewhere a links =
     map bl_node (filter (\<lambda>l. to_lower (trim_space (hd (BMCOrder a (bl_node l)))) \<noteq> ''redfish'') links)"

text \<open>A dry run contacts no processor and builds no client, but needs the processor and the credential.\<close>

definition plan_access :: "('ns, 'w) app \<Rightarrow> reinstall_node \<Rightarrow> ('w, goerr, reinstall_node) act" where
  "plan_access a n =
     (if ap_dry_run a then
        abind (alift (BMCHost a (rn_node n))) (\<lambda>host. \<lambda>w.
          case BMCCredential a (rn_node n) w of
            (Inl e, w') \<Rightarrow> (Inl (Wrap ''%s: %w'' [rn_node n] [e]), w')
          | (Inr c, w') \<Rightarrow> (Inr (n\<lparr>rn_bmc := host\<rparr>), w'))
      else (\<lambda>w. case RedfishClient a (rn_node n) w of
            (Inl e, w') \<Rightarrow> (Inl (Wrap ''%s: %w'' [rn_node n] [e]), w')
          | (Inr c, w') \<Rightarrow> (Inr (n\<lparr>rn_client := Some c, rn_bmc := rc_host c\<rparr>), w')))"

definition plan_names :: "('ns, 'w) app \<Rightarrow> bool \<Rightarrow> reinstall_node \<Rightarrow> goerr + reinstall_node" where
  "plan_names a keepKeys n =
     (if keepKeys then Inr n
      else case FQDN (ap_namer a) (rn_node n) of Inl e \<Rightarrow> Inl (Coded Usage e)
      | Inr fqdn \<Rightarrow> Inr (n\<lparr>rn_host_names := [fqdn, rn_node n]\<rparr>))"

fun plan_nodes :: "('ns, 'w) app \<Rightarrow> bool \<Rightarrow> boot_link list \<Rightarrow> ('w, goerr, reinstall_node list) act" where
  "plan_nodes a keepKeys [] = alift (Inr [])"
| "plan_nodes a keepKeys (l # ls) =
     abind (plan_access a (blank_node l)) (\<lambda>n.
     abind (alift (plan_names a keepKeys n)) (\<lambda>n'.
     abind (plan_nodes a keepKeys ls) (\<lambda>ns. alift (Inr (n' # ns)))))"

definition planReinstall ::
  "'ns nodeset_lib \<Rightarrow> ('ns, 'w) app \<Rightarrow> 'ns \<Rightarrow> string \<Rightarrow> bool \<Rightarrow> ('w, goerr, reinstall_plan) act" where
  "planReinstall L a ns explicit keepKeys =
     abind (alift (pxeRole a)) (\<lambda>role.
     abind (resolveBootLinks L a ns explicit False) (\<lambda>links.
       if reached_elsewhere a links \<noteq> [] then
         alift (Inl (errorf Usage ''bmc.order reaches %s over another transport before Redfish'' (reached_elsewhere a links)))
       else abind (plan_nodes a keepKeys links) (\<lambda>nodes. alift (Inr
         \<lparr> rp_role = role, rp_root = px_root (ap_pxe a), rp_nodes = nodes, rp_links = links,
           rp_known_hosts = (\<not> keepKeys), rp_keys_forgotten = False \<rparr>))))"

section \<open>Sending\<close>

definition sendToBMCs ::
  "'w prov_ops \<Rightarrow> ('ns, 'w) app \<Rightarrow> reinstall_node list \<Rightarrow> (redfish_client \<Rightarrow> 'w \<Rightarrow> unit done_with \<times> 'w) \<Rightarrow> 'w \<Rightarrow> goerr option list \<times> 'w" where
  "sendToBMCs P a nodes do w =
     (if nodes = [] then ([], w)
      else case redfishEach (po_sched P) a (map rn_node nodes) (map rn_client nodes) True (\<lambda>n. do) w of
        (calls, w') \<Rightarrow> (map cl_err calls, w'))"

definition stepOutcome :: "goerr option \<Rightarrow> string \<Rightarrow> string" where
  "stepOutcome err done =
     (case err of None \<Rightarrow> done
      | Some e \<Rightarrow> if errors_is e ''not sent: the command was interrupted first'' then stepNotSent
                  else if neverSent e then stepUnreachable else bl_failed)"

definition namedFailures :: "(goerr \<Rightarrow> bool) \<Rightarrow> goerr option list \<Rightarrow> goerr option" where
  "namedFailures is_usage errs =
     (let failed = List.map_filter (\<lambda>e. e) errs in
      if failed = [] then None else Some (Coded (worst is_usage (map Some failed)) (Wrap ''%s: %v'' [] failed)))"

section \<open>Undoing\<close>

definition node_state :: "reinstall_node \<Rightarrow> string" where
  "node_state n =
     (if rn_reset n = stepSent then stateReinstalling
      else if linked n \<or> overridden n then stateArmed
      else if rn_boot_link n = bl_removed \<or> rn_boot_once n = stepCleared then stateDisarmed
      else stateUnchanged)"

definition settle_nodes :: "reinstall_node list \<Rightarrow> reinstall_node list" where
  "settle_nodes ns = map (\<lambda>n. n\<lparr>rn_state := node_state n\<rparr>) ns"

definition node_link :: "reinstall_node \<Rightarrow> boot_link" where
  "node_link n = \<lparr> bl_node = rn_node n, bl_address = rn_address n, bl_path = rn_boot_path n, bl_mode = rn_mode n,
     bl_result = [], bl_error = [] \<rparr>"

text \<open>Changing the nodes at some positions, each with what goes with it.\<close>

fun update_at :: "('b \<Rightarrow> 'a \<Rightarrow> 'a) \<Rightarrow> nat list \<Rightarrow> 'b list \<Rightarrow> 'a list \<Rightarrow> 'a list" where
  "update_at g (i # is) (x # xs) ns = update_at g is xs (ns[i := g x (ns ! i)])"
| "update_at g _ _ ns = ns"

definition note_cleared :: "('ns, 'w) app \<Rightarrow> goerr option \<Rightarrow> reinstall_node \<Rightarrow> reinstall_node" where
  "note_cleared a err n =
     note_node a ''clearing the boot override'' err (if err = None then n\<lparr>rn_boot_once := stepCleared\<rparr> else n)"

definition note_removed :: "boot_link \<Rightarrow> reinstall_node \<Rightarrow> reinstall_node" where
  "note_removed l n =
     (if bl_result l = bl_removed then n\<lparr>rn_boot_link := bl_removed\<rparr>
      else n\<lparr>rn_errors := rn_errors n @ [''removing the boot link: '' @ bl_error l]\<rparr>)"

text \<open>The nodes, by position, that may hold an override or a link of this reinstall.\<close>

definition disarm :: "'w prov_ops \<Rightarrow> ('ns, 'w) app \<Rightarrow> reinstall_plan \<Rightarrow> nat list \<Rightarrow> 'w \<Rightarrow> reinstall_node list \<times> 'w" where
  "disarm P a p left w =
     (let ns = rp_nodes p; over = filter (\<lambda>i. overridden (ns ! i)) left; lnk = filter (\<lambda>i. linked (ns ! i)) left in
      case sendToBMCs P a (map ((!) ns) over) (po_clear_override P) w of
        (errs, w1) \<Rightarrow>
          let ns1 = update_at (note_cleared a) over errs ns in
          if lnk = [] then (ns1, w1)
          else (case removeBootLinks a (rp_role p) (rp_root p) (map (\<lambda>i. node_link (ns ! i)) lnk) w1 of
                  ((removed, links), w2) \<Rightarrow> (update_at note_removed lnk links ns1, w2)))"

definition in_state :: "reinstall_node list \<Rightarrow> string \<Rightarrow> string list" where
  "in_state ns s = map rn_node (filter (\<lambda>n. rn_state n = s) ns)"

definition fold_names :: "'ns nodeset_lib \<Rightarrow> string list \<Rightarrow> string" where
  "fold_names L xs = ns_string L (foldl (add_quiet L) (ns_new L) xs)"

definition quoted :: "string \<Rightarrow> string" where
  "quoted s = CHR 0x22 # s @ [CHR 0x22]"

definition armedAdvice :: "'ns nodeset_lib \<Rightarrow> reinstall_node list \<Rightarrow> string" where
  "armedAdvice L nodes =
     (let left = filter (\<lambda>n. rn_state n = stateArmed) nodes;
          over = map rn_node (filter overridden left); lnk = map rn_node (filter linked left);
          commands = (if over = [] then [] else [quoted (''clusterctl bmc boot unset -n '' @ fold_names L over)]) @
                     (if lnk = [] then [] else [quoted (''clusterctl boot unset -n '' @ fold_names L lnk)]) in
      fold_names L (map rn_node left) @ '' is left armed and reinstalls at its next network boot; disarm it with '' @
      join_str '' and '' commands)"

definition failure_parts :: "'ns nodeset_lib \<Rightarrow> reinstall_plan \<Rightarrow> string list" where
  "failure_parts L p =
     (let ns = rp_nodes p; again = in_state ns stateReinstalling; disarmed = in_state ns stateDisarmed;
          parts = (if again = [] then [] else [fold_names L again @ '' is reinstalling'']) @
            (if disarmed = [] then []
             else [''the boot links and boot overrides of '' @ fold_names L disarmed @ '' were removed again'' @
                   (if rp_keys_forgotten p
                    then '', but their host keys are forgotten; '' @ quoted (''clusterctl hostkey refresh -n '' @ fold_names L disarmed) @ '' writes them again''
                    else [])]) @
            (if in_state ns stateArmed = [] then [] else [armedAdvice L ns]) in
      if parts = [] then [''nothing was changed''] else parts)"

definition fail_plan ::
  "'ns nodeset_lib \<Rightarrow> 'w prov_ops \<Rightarrow> ('ns, 'w) app \<Rightarrow> reinstall_plan \<Rightarrow> string \<Rightarrow> goerr \<Rightarrow> nat list \<Rightarrow> 'w \<Rightarrow> (goerr option \<times> reinstall_plan) \<times> 'w" where
  "fail_plan L P a p step err left w =
     (case disarm P a p left w of (ns, w') \<Rightarrow>
        let p' = p\<lparr>rp_nodes := settle_nodes ns\<rparr> in
        ((Some (Wrap ''%s failed: %w; %s'' (step # failure_parts L p') [err]), p'), w'))"

section \<open>Carrying it out\<close>

definition note_link :: "boot_link \<Rightarrow> reinstall_node \<Rightarrow> reinstall_node" where
  "note_link l n =
     (let n' = n\<lparr>rn_boot_link := bl_result l\<rparr> in
      if bl_error l = [] then n' else n'\<lparr>rn_errors := rn_errors n' @ [''boot link: '' @ bl_error l]\<rparr>)"

definition note_once :: "('ns, 'w) app \<Rightarrow> goerr option \<Rightarrow> reinstall_node \<Rightarrow> reinstall_node" where
  "note_once a err n = note_node a ''boot once'' err (n\<lparr>rn_boot_once := stepOutcome err bl_set\<rparr>)"

definition note_reset :: "('ns, 'w) app \<Rightarrow> goerr option \<Rightarrow> reinstall_node \<Rightarrow> reinstall_node" where
  "note_reset a err n = note_node a ''reset'' err (n\<lparr>rn_reset := stepOutcome err stepSent\<rparr>)"

definition all_nodes :: "reinstall_plan \<Rightarrow> nat list" where
  "all_nodes p = [0..<length (rp_nodes p)]"

definition forget_keys :: "'w prov_ops \<Rightarrow> reinstall_plan \<Rightarrow> 'w \<Rightarrow> goerr option \<times> 'w" where
  "forget_keys P p =
     po_modify_keys P (\<lambda>f. Inr (fst (RemoveAll (po_mac P) (concat (map rn_host_names (rp_nodes p))) f)))"

text \<open>The last step: the reset, or that nothing is reset.\<close>

definition reset_nodes ::
  "'ns nodeset_lib \<Rightarrow> (goerr \<Rightarrow> bool) \<Rightarrow> 'w prov_ops \<Rightarrow> ('ns, 'w) app \<Rightarrow> reinstall_plan \<Rightarrow> bool \<Rightarrow> 'w \<Rightarrow> (goerr option \<times> reinstall_plan) \<times> 'w" where
  "reset_nodes L is_usage P a p noReset w =
     (if noReset then ((None, p\<lparr>rp_nodes := settle_nodes (rp_nodes p)\<rparr>), w)
      else case sendToBMCs P a (rp_nodes p) (po_reset P) w of
        (errs, w') \<Rightarrow>
          let p' = p\<lparr>rp_nodes := map2 (note_reset a) errs (rp_nodes p)\<rparr>;
              left = filter (\<lambda>i. errs ! i \<noteq> None) (all_nodes p') in
          (case namedFailures is_usage errs of
             Some e \<Rightarrow> fail_plan L P a p' ''resetting the machines'' e left w'
           | None \<Rightarrow> ((None, p'\<lparr>rp_nodes := settle_nodes (rp_nodes p')\<rparr>), w')))"

definition keys_and_reset ::
  "'ns nodeset_lib \<Rightarrow> (goerr \<Rightarrow> bool) \<Rightarrow> 'w prov_ops \<Rightarrow> ('ns, 'w) app \<Rightarrow> reinstall_plan \<Rightarrow> bool \<Rightarrow> 'w \<Rightarrow> (goerr option \<times> reinstall_plan) \<times> 'w" where
  "keys_and_reset L is_usage P a p noReset w =
     (if \<not> rp_known_hosts p then reset_nodes L is_usage P a p noReset w
      else case forget_keys P p w of
        (Some e, w') \<Rightarrow> fail_plan L P a p ''forgetting the host keys'' e (all_nodes p) w'
      | (None, w') \<Rightarrow> reset_nodes L is_usage P a (p\<lparr>rp_keys_forgotten := True\<rparr>) noReset w')"

definition boot_once ::
  "'ns nodeset_lib \<Rightarrow> (goerr \<Rightarrow> bool) \<Rightarrow> 'w prov_ops \<Rightarrow> ('ns, 'w) app \<Rightarrow> reinstall_plan \<Rightarrow> bool \<Rightarrow> 'w \<Rightarrow> (goerr option \<times> reinstall_plan) \<times> 'w" where
  "boot_once L is_usage P a p noReset w =
     (case sendToBMCs P a (rp_nodes p) (po_set_override P) w of
        (errs, w') \<Rightarrow>
          let p' = p\<lparr>rp_nodes := map2 (note_once a) errs (rp_nodes p)\<rparr> in
          (case namedFailures is_usage errs of
             Some e \<Rightarrow> fail_plan L P a p' ''setting the machines to boot from the network once'' e (all_nodes p') w'
           | None \<Rightarrow> keys_and_reset L is_usage P a p' noReset w'))"

definition run_plan ::
  "'ns nodeset_lib \<Rightarrow> (goerr \<Rightarrow> bool) \<Rightarrow> 'w prov_ops \<Rightarrow> ('ns, 'w) app \<Rightarrow> reinstall_plan \<Rightarrow> bool \<Rightarrow> 'w \<Rightarrow> (goerr option \<times> reinstall_plan) \<times> 'w" where
  "run_plan L is_usage P a p noReset w =
     (case writeBootLinks a (rp_role p) (rp_root p) (rp_links p) w of
        ((err, links), w') \<Rightarrow>
          let p' = p\<lparr>rp_links := links, rp_nodes := map2 note_link links (rp_nodes p)\<rparr> in
          (case err of
             Some e \<Rightarrow> fail_plan L P a p' ''configuring the network boot'' e (all_nodes p') w'
           | None \<Rightarrow> boot_once L is_usage P a p' noReset w'))"

definition plan_caption :: "'ns nodeset_lib \<Rightarrow> reinstall_plan \<Rightarrow> bool \<Rightarrow> string" where
  "plan_caption L p noReset =
     (let ns = rp_nodes p in
      if length (in_state ns stateReinstalling) = length ns then
        fold_names L (in_state ns stateReinstalling) @ '' is reinstalling; follow it with '' @
        quoted ''clusterctl provision status'' @ '' and '' @ quoted ''clusterctl boot log''
      else if noReset \<and> length (in_state ns stateArmed) = length ns then armedAdvice L ns
      else [])"

section \<open>The command\<close>

text \<open>
  \<open>provision reinstall\<close>: the nodes it was carried out on, where it got that far, and its error.
\<close>

definition reinstall_detail :: "reinstall_plan \<Rightarrow> bool \<Rightarrow> string" where
  "reinstall_detail p noReset =
     join_str (CHR 0x0A # ''  '')
       [''everything on these machines is lost'', describeBootLinks (rp_links p),
        if noReset then ''the machines are not reset: each one reinstalls at its next network boot''
        else ''then each machine is set to boot from the network once and reset through Redfish'']"

definition reinstall_checked ::
  "'ns nodeset_lib \<Rightarrow> (goerr \<Rightarrow> bool) \<Rightarrow> 'w prov_ops \<Rightarrow> 'w gate_io \<Rightarrow> ('ns, 'w) app \<Rightarrow> ('ns, 'w) gate \<Rightarrow> 'ns \<Rightarrow> reinstall_plan \<Rightarrow> bool \<Rightarrow> 'w \<Rightarrow>
     (goerr option \<times> reinstall_plan option) \<times> 'w" where
  "reinstall_checked L is_usage P io a g ns p noReset w =
     (case checkBootLinks a (rp_role p) (rp_root p) (rp_links p) w of
        (Some e, w1) \<Rightarrow> ((Some e, None), w1)
      | (None, w1) \<Rightarrow>
          (case Confirm L io g \<lparr> ac_verb = ''reinstall'', ac_targets = Some ns, ac_detail = reinstall_detail p noReset, ac_not_nodes = False \<rparr> w1 of
             (Some e, g', w2) \<Rightarrow> ((Some e, None), w2)
           | (None, g', w2) \<Rightarrow>
               (case run_plan L is_usage P a p noReset w2 of ((err, p'), w3) \<Rightarrow> ((err, Some p'), w3))))"

definition reinstall ::
  "'ns nodeset_lib \<Rightarrow> (goerr \<Rightarrow> bool) \<Rightarrow> 'w prov_ops \<Rightarrow> 'w gate_io \<Rightarrow> ('ns, 'w) app \<Rightarrow> ('ns, 'w) gate \<Rightarrow> string list \<Rightarrow>
     string \<Rightarrow> bool \<Rightarrow> bool \<Rightarrow> bool \<Rightarrow> 'w \<Rightarrow> (goerr option \<times> reinstall_plan option) \<times> 'w" where
  "reinstall L is_usage P io a g args bootPath keepKeys noReset loseJobs w =
     (case selection L a args w of
        (Inl e, w1) \<Rightarrow> ((Some e, None), w1)
      | (Inr ns, w1) \<Rightarrow>
          (case gate_check L g \<lparr> ac_verb = ''reinstall'', ac_targets = Some ns, ac_detail = [], ac_not_nodes = False \<rparr> w1 of
             (Inl e, g', w2) \<Rightarrow> ((Some e, None), w2)
           | (Inr _, g', w2) \<Rightarrow>
               (case planReinstall L a ns bootPath keepKeys w2 of
                  (Inl e, w3) \<Rightarrow> ((Some e, None), w3)
                | (Inr p, w3) \<Rightarrow>
                    (case (if noReset then (None, w3) else checkSlurmIdle L is_usage a ns ''reset'' loseJobs w3) of
                       (Some e, w4) \<Rightarrow> ((Some e, None), w4)
                     | (None, w4) \<Rightarrow> reinstall_checked L is_usage P io a g' ns p noReset w4))))"

end
