(* ===== verification/AppSiteProps.thy ===== *)
theory AppSiteProps
  imports AppSite
begin

text \<open>
  Which machine a name means: an inventory name its own node, an alias the one node that has it or
  none, and what a selection holds once it is accepted; and how a node's service processor is reached.
\<close>

section \<open>Aliases\<close>

definition alias_pairs :: "('ns, 'w) app \<Rightarrow> (string \<times> string) list" where
  "alias_pairs a = concat (map (\<lambda>n. map (\<lambda>al. (in_name n, al)) (node_aliases a n)) (inv_all_nodes (ap_inventory a)))"

text \<open>The nodes that have a name or an address as one of theirs.\<close>

definition owners :: "('ns, 'w) app \<Rightarrow> string \<Rightarrow> string set" where
  "owners a n = {in_name y | y al. y \<in> set (inv_all_nodes (ap_inventory a)) \<and> al \<in> set (node_aliases a y) \<and> bare_host al = n}"

definition alias_value :: "string set \<Rightarrow> string option" where
  "alias_value S = (if S = {} then None else if is_singleton S then Some (the_elem S) else Some [])"

lemma alias_value_insert:
  "alias_value (insert x S) =
     (case alias_value S of None \<Rightarrow> Some x | Some other \<Rightarrow> if other \<noteq> x then Some [] else Some x)"
proof (cases "S = {} \<or> is_singleton S")
  case True
  then show ?thesis by (auto simp: alias_value_def is_singleton_def)
next
  case False
  then obtain u v where "u \<in> S" "v \<in> S" "u \<noteq> v" by (metis is_singletonI' ex_in_conv)
  then have "\<not> is_singleton (insert x S)" by (auto simp: is_singleton_def)
  with False show ?thesis by (auto simp: alias_value_def)
qed

definition pair_owners :: "(string \<times> string) list \<Rightarrow> string \<Rightarrow> string set" where
  "pair_owners ps n = fst ` {p \<in> set ps. bare_host (snd p) = n}"

lemma pair_owners_Cons: "pair_owners (p # ps) n = (if bare_host (snd p) = n then insert (fst p) (pair_owners ps n) else pair_owners ps n)"
  by (auto simp: pair_owners_def)

lemma alias_fold:
  assumes "n \<notin> set names" and "n \<noteq> []" and "m n = alias_value S"
  shows "foldl (\<lambda>m p. add_alias names (fst p) m (snd p)) m ps n = alias_value (S \<union> pair_owners ps n)"
  using assms(3)
proof (induction ps arbitrary: m S)
  case Nil
  then show ?case by (simp add: pair_owners_def)
next
  case (Cons p ps)
  let ?m = "add_alias names (fst p) m (snd p)"
  show ?case
  proof (cases "bare_host (snd p) = n")
    case True
    then have "?m n = alias_value (insert (fst p) S)"
      using assms(1,2) Cons.prems
      by (auto simp: add_alias_def Let_def alias_value_insert split: option.splits)
    from Cons.IH [where m = ?m and S = "insert (fst p) S", OF this] True show ?thesis by (simp add: pair_owners_Cons)
  next
    case False
    then have "?m n = m n" by (auto simp: add_alias_def Let_def split: option.splits)
    with Cons False show ?thesis by (simp add: pair_owners_Cons)
  qed
qed

lemma foldl_pairs:
  "foldl (\<lambda>m n. foldl (add_alias names (in_name n)) m (f n)) m ns =
   foldl (\<lambda>m p. add_alias names (fst p) m (snd p)) m (concat (map (\<lambda>n. map (\<lambda>al. (in_name n, al)) (f n)) ns))"
  by (induction ns arbitrary: m) (simp_all add: foldl_map)

lemma aliasOf_exact:
  assumes "n \<notin> set (machine_names a)" and "n \<noteq> []"
  shows "aliasOf a n = alias_value (owners a n)"
proof -
  have none: "map_of (map (\<lambda>x. (x, x)) (machine_names a)) n = alias_value {}"
    using assms(1) by (auto simp: alias_value_def map_of_eq_None_iff)
  have "pair_owners (alias_pairs a) n = owners a n"
    by (force simp: pair_owners_def owners_def alias_pairs_def)
  with alias_fold [where m = "map_of (map (\<lambda>x. (x, x)) (machine_names a))" and S = "{}" and ps = "alias_pairs a", OF assms none] show ?thesis
    by (simp add: aliasOf_def alias_map_def foldl_pairs alias_pairs_def)
qed

section \<open>Machines\<close>

text \<open>
  An inventory name, in any case and with or without its final dot, is always its own node,
  whatever other machines use the name or the address.
\<close>

lemma machine_own_name: "bare_host name \<in> set (machine_names a) \<Longrightarrow> machine a name = Inr (bare_host name)"
  by (simp add: machine_def machine_of.simps Let_def)

lemma machine_steps:
  assumes "machine a name = Inr x" and "bare_host name \<notin> set (machine_names a)"
  shows "\<exists>sp. choose_machine a (bare_host name) name sp = Inr x"
  using assms unfolding machine_def by (subst (asm) machine_of.simps) (auto simp: Let_def rbind_Inr_iff)


section \<open>Selections\<close>

lemma add_machines_keys:
  assumes "nodeset_contract L key"
  shows "add_machines L a out xs = Inr out' \<Longrightarrow> (\<And>x m. x \<in> set xs \<Longrightarrow> machine a x = Inr m \<Longrightarrow> plain_name m) \<Longrightarrow>
     ns_keys L key out' = ns_keys L key out \<union> key ` {m. \<exists>x\<in>set xs. machine a x = Inr m}"
proof (induction xs arbitrary: out)
  case (Cons x xs)
  from Cons.prems(1) obtain m out1 where m: "machine a x = Inr m" "ns_add L out m = Inr out1" "add_machines L a out1 xs = Inr out'"
    by (cases "machine a x") (auto split: sum.splits)
  have "ns_keys L key out1 = insert (key m) (ns_keys L key out)"
    using nodeset_contract.keys_add_plain [OF assms _ m(2)] Cons.prems(2) [of x m] m(1) by simp
  moreover have "ns_keys L key out' = ns_keys L key out1 \<union> key ` {m. \<exists>x\<in>set xs. machine a x = Inr m}"
    by (rule Cons.IH [OF m(3)]) (use Cons.prems(2) in auto)
  moreover have "{m. \<exists>y\<in>set (x # xs). machine a y = Inr m} = insert m {m. \<exists>x\<in>set xs. machine a x = Inr m}"
    using m(1) by auto
  ultimately show ?case by simp
qed simp

lemma check_site_host_None:
  "check_site_host a x = None \<longleftrightarrow>
     inv_lookup (ap_canon a) (ap_inventory a) x \<noteq> None \<or>
     (\<exists>host. FQDN (ap_namer a) x = Inr host \<and> inDomains (trim_suffix host ''.'') (site_domains a))"
  by (cases "FQDN (ap_namer a) x") (auto simp: check_site_host_def)


section \<open>Service processors\<close>

lemma transports_from_ok:
  "transports_from s out es = Inr ts \<Longrightarrow> distinct out \<Longrightarrow> set out \<subseteq> {TransportRedfish, TransportIPMI} \<Longrightarrow>
     distinct ts \<and> set ts \<subseteq> {TransportRedfish, TransportIPMI} \<and> prefix out ts"
proof (induction es arbitrary: out)
  case (Cons e es)
  let ?t = "to_lower (trim_space e)"
  let ?out = "if ?t \<in> set out then out else out @ [?t]"
  from Cons.prems(1) have t: "?t \<in> {TransportRedfish, TransportIPMI}" "transports_from s ?out es = Inr ts"
    by (auto simp: Let_def split: if_splits)
  have "distinct ?out" "set ?out \<subseteq> {TransportRedfish, TransportIPMI}" "prefix out ?out" using Cons.prems(2,3) t(1) by auto
  with Cons.IH [OF t(2)] show ?case by (meson prefix_order.trans)
qed simp

text \<open>
  The transports of a node: each once, at least one, each known, and the first is the first of
  the order.
\<close>
lemma BMCTransports_ok:
  assumes "BMCTransports a node = Inr ts"
  shows "ts \<noteq> [] \<and> distinct ts \<and> set ts \<subseteq> {TransportRedfish, TransportIPMI} \<and> hd ts = to_lower (trim_space (hd (BMCOrder a node)))"
proof -
  have "BMCOrder a node \<noteq> []" by (auto simp: BMCOrder_def)
  then obtain e es where o: "BMCOrder a node = e # es" by (cases "BMCOrder a node") auto
  from assms o have t: "transports_from (order_setting a node) [to_lower (trim_space e)] es = Inr ts"
    "to_lower (trim_space e) \<in> {TransportRedfish, TransportIPMI}"
    by (auto simp: BMCTransports_def Let_def split: if_splits)
  from transports_from_ok [OF t(1)] t(2) have "distinct ts" "set ts \<subseteq> {TransportRedfish, TransportIPMI}" "prefix [to_lower (trim_space e)] ts"
    by auto
  then show ?thesis using o by (auto simp: prefix_def)
qed

section \<open>A small site\<close>

text \<open>Two nodes, a PXE host, and a node set argument that is a list of names.\<close>

definition site_app :: "'w runner \<Rightarrow> (string list, 'w) app" where
  "site_app runner = \<lparr> ap_hosts = [(''pxe'', no_role\<lparr>role_host := ''p''\<rparr>)], ap_domains = [], ap_default_user = [],
     ap_command_timeout = 0, ap_fanout = 0, ap_namer = \<lparr> nm_rules = [], nm_vars = Map.empty, nm_domains = Map.empty \<rparr>,
     ap_inventory = site, ap_canon = name_canon, ap_runner = runner, ap_reader = runner,
     ap_ctx_err = (\<lambda>w. None), ap_escape = (\<lambda>s. s), ap_err_text = (\<lambda>e. []), ap_parse = (\<lambda>e w. (Inr [e], w)),
     ap_nodes = [], ap_nodes_from_flag = False, ap_site_hosts_only = False, ap_dry_run = False,
     ap_dhcp = (\<lambda>w. (Inr [], w)), ap_credential = (\<lambda>n w. (Inr (''u'', ''p''), w)),
     ap_bmc = \<lparr> bm_credential = [], bm_order = [],
        bm_ipmi = \<lparr> im_via = [], im_backend = [], im_driver = [], im_ipmipower_path = [], im_ipmitool_path = [], im_timeout = 0, im_max_concurrent = 1 \<rparr>,
        bm_redfish = \<lparr> rf_tls_verify = None, rf_min_tls = [], rf_timeout = 0, rf_max_concurrent = 1, rf_system_path = [] \<rparr>,
        bm_vendors = [] \<rparr>,
     ap_pxe = \<lparr> px_role = ''pxe'', px_root = ''/l'', px_static_suffix = ''s'' \<rparr>,
     ap_tftp = \<lparr> tf_role = [], tf_root = [], tf_grub_path = [] \<rparr>, ap_boot_rules = [],
     ap_slurm_role = [], ap_slurm_spec = ([], [], []), ap_slurm_aware = None \<rparr>"

definition quiet_runner :: "unit runner" where
  "quiet_runner t req w = (Inr (exit_result (\<lambda>s. s) t 0 [] []), w)"

definition alias_app :: "(string list, unit) app" where
  "alias_app = (site_app quiet_runner)\<lparr>ap_inventory := site\<lparr>iv_nodes := [(''a'', (site_node ''a'' [] [])\<lparr>in_address := ''10.0.0.1''\<rparr>)], iv_order := [''a'']\<rparr>\<rparr>"

lemma alias_app_facts:
  "machine alias_app ''10.0.0.1'' = Inr ''a''" "machine_names alias_app = [''a'']" "bare_host ''10.0.0.1'' = ''10.0.0.1''"
  by code_simp+



end
