(* ===== verification/BootLinksProps.thy ===== *)
theory BootLinksProps
  imports BootLinks AppSiteProps
begin

text \<open>
  What the report of a link script may be trusted for. The PXE host is taken as what its shell does
  with the script: it reads records that are complete, changes one link after the other, each of
  which may fail, and prints a line for each; the connection may break at any byte of either
  stream. The result a link is given is then what became of it, or that it is not known.
\<close>

section \<open>The PXE host\<close>

type_synonym link_map = "string \<rightharpoonup> string"

text \<open>Why a change failed, and which of its names are gone all the same.\<close>

type_synonym op_fault = "(string \<times> string list) option"

definition nul_fields :: "string \<Rightarrow> string list" where
  "nul_fields s = butlast (split_char nul s)"

fun triples :: "'a list \<Rightarrow> ('a \<times> 'a \<times> 'a) list" where
  "triples (x # y # z # r) = (x, y, z) # triples r"
| "triples _ = []"

definition one_line :: "string \<Rightarrow> string" where
  "one_line m = map (\<lambda>c. if c = CHR 0x09 \<or> c = CHR 0x0A then CHR '' '' else c) m"

definition ok_line :: "string \<Rightarrow> string" where
  "ok_line i = ''ok'' @ CHR 0x09 # i"

definition fail_line :: "string \<Rightarrow> string \<Rightarrow> string" where
  "fail_line i m = ''fail'' @ CHR 0x09 # i @ CHR 0x09 # one_line m"

text \<open>A record names a link and its target, or, for a removal, the two links of an address.\<close>

fun op_names :: "bool \<Rightarrow> string \<times> string \<times> string \<Rightarrow> string list" where
  "op_names del (i, b, c) = (if del then b # (if c = [] then [] else [c]) else [c])"

fun op_run :: "bool \<Rightarrow> op_fault \<Rightarrow> string \<times> string \<times> string \<Rightarrow> link_map \<Rightarrow> link_map" where
  "op_run del (Some (msg, gone)) r m = m |` (- (set gone \<inter> set (op_names del r)))"
| "op_run del None (i, b, c) m = (if del then m |` (- set (op_names del (i, b, c))) else m(c \<mapsto> b))"

fun op_line :: "op_fault \<Rightarrow> string \<times> string \<times> string \<Rightarrow> string" where
  "op_line None (i, b, c) = ok_line i"
| "op_line (Some (msg, gone)) (i, b, c) = fail_line i msg"

fun run_ops :: "bool \<Rightarrow> (nat \<Rightarrow> op_fault) \<Rightarrow> nat \<Rightarrow> (string \<times> string \<times> string) list \<Rightarrow> link_map \<Rightarrow> link_map" where
  "run_ops del faults k [] m = m"
| "run_ops del faults k (r # rs) m = run_ops del faults (Suc k) rs (op_run del (faults k) r m)"

definition op_lines :: "(nat \<Rightarrow> op_fault) \<Rightarrow> (string \<times> string \<times> string) list \<Rightarrow> string list" where
  "op_lines faults rs = map (\<lambda>(k, r). op_line (faults k) r) (zip [0..<length rs] rs)"

definition line_text :: "string list \<Rightarrow> string" where
  "line_text ls = concat (map (\<lambda>l. l @ [CHR 0x0A]) ls)"

definition script_of :: "bool \<Rightarrow> string" where
  "script_of del = (if del then bootUnlinkScript else bootLinkScript)"

definition script_request :: "bool \<Rightarrow> string \<Rightarrow> request" where
  "script_request del stdin = no_request\<lparr>rq_script := script_of del, rq_stdin := Some stdin\<rparr>"

text \<open>
  \<open>view\<close> reads the links of the host out of the world. The host has done a number of the records,
  and what was received of its output is the beginning of what it printed for them.
\<close>

definition pxe_host :: "('ns, 'w) app \<Rightarrow> string \<Rightarrow> ('w \<Rightarrow> link_map) \<Rightarrow> bool" where
  "pxe_host a role view \<longleftrightarrow>
     (\<forall>del stdin w. \<exists>faults n.
        let rs = take n (triples (nul_fields stdin)); ((result, err), w') = RunOnRole a role (script_request del stdin) w in
        view w' = run_ops del faults 0 rs (view w) \<and>
        (case result of None \<Rightarrow> True | Some r \<Rightarrow> prefix (rs_stdout r) (line_text (op_lines faults rs))))"

section \<open>Records are read back\<close>

lemma split_terminated:
  "list_all (\<lambda>f. c \<notin> set f) fs \<Longrightarrow> split_char c (concat (map (\<lambda>f. f @ [c]) fs) @ r) = fs @ split_char c r"
  by (induction fs) (simp_all add: split_char_append)

lemma nul_fields_back: "list_all (\<lambda>f. nul \<notin> set f) fs \<Longrightarrow> nul_fields (concat (map (\<lambda>f. f @ [nul]) fs)) = fs"
  using split_terminated [of nul fs "[]"] by (simp add: nul_fields_def)

lemma triples_concat: "list_all (\<lambda>r. length r = 3) rs \<Longrightarrow> triples (concat rs) = map (\<lambda>r. (r ! 0, r ! 1, r ! 2)) rs"
proof (induction rs)
  case (Cons r rs)
  then obtain x y z where "r = [x, y, z]" by (auto simp: numeral_3_eq_3 length_Suc_conv)
  with Cons show ?case by simp
qed simp

lemma records_read_back:
  assumes "linkRecords rs = Inr stdin" and "list_all (\<lambda>r. length r = 3) rs"
  shows "triples (nul_fields stdin) = map (\<lambda>r. (r ! 0, r ! 1, r ! 2)) rs"
proof -
  from assms(1) have "list_all (\<lambda>f. nul \<notin> set f) (concat rs)" "stdin = concat (map (\<lambda>f. f @ [nul]) (concat rs))"
    by (auto simp: linkRecords_def list_all_iff first_error_None split: option.splits if_splits)
  then show ?thesis using triples_concat [OF assms(2)] by (simp only: nul_fields_back)
qed

section \<open>Lines of a report\<close>

lemma split_three_one: "CHR 0x09 \<notin> set r \<Longrightarrow> split_three r = [r]"
  by (simp add: split_three_def split_char_plain)

lemma split_three_two: "CHR 0x09 \<notin> set x \<Longrightarrow> CHR 0x09 \<notin> set p \<Longrightarrow> split_three (x @ CHR 0x09 # p) = [x, p]"
  by (simp add: split_three_def split_char_plain split_char_append)

lemma split_three_three:
  assumes "CHR 0x09 \<notin> set x" and "CHR 0x09 \<notin> set p"
  shows "split_three (x @ CHR 0x09 # p @ CHR 0x09 # q) = [x, p, q]"
proof -
  have "split_char (CHR 0x09) (x @ CHR 0x09 # p @ CHR 0x09 # q) = x # p # split_char (CHR 0x09) q"
    using assms by (simp add: split_char_append)
  moreover obtain z zs where z: "split_char (CHR 0x09) q = z # zs" by (cases "split_char (CHR 0x09) q") auto
  moreover have "join_str [CHR 0x09] (z # zs) = q" unfolding z [symmetric] by simp
  ultimately show ?thesis by (simp add: split_three_def)
qed

text \<open>What a line says: the index, and the result it gives.\<close>

definition line_says :: "string \<Rightarrow> nat \<Rightarrow> string \<Rightarrow> (nat \<times> string) option" where
  "line_says done n line =
     (case split_three line of
        [v, i] \<Rightarrow> if v = ''ok'' then map_option (\<lambda>j. (j, done)) (report_index i n) else None
      | [v, i, why] \<Rightarrow> if v = ''fail'' then map_option (\<lambda>j. (j, bl_failed)) (report_index i n) else None
      | _ \<Rightarrow> None)"

definition link_ident :: "boot_link \<Rightarrow> boot_link" where
  "link_ident l = l\<lparr>bl_result := [], bl_error := []\<rparr>"

definition note_result :: "(nat \<times> string) option \<Rightarrow> string list \<Rightarrow> string list" where
  "note_result s rs = (case s of None \<Rightarrow> rs | Some (i, r) \<Rightarrow> if rs ! i = bl_unknown then rs[i := r] else rs)"

lemma split_three_length: "length (split_three s) \<le> 3"
  by (auto simp: split_three_def split: list.splits)

lemma report_index_less: "report_index s n = Some i \<Longrightarrow> i < n"
  by (auto simp: report_index_def split: option.splits if_splits)

lemma short_list_cases:
  "length xs \<le> 3 \<Longrightarrow> xs = [] \<or> (\<exists>v. xs = [v]) \<or> (\<exists>v i. xs = [v, i]) \<or> (\<exists>v i y. xs = [v, i, y])"
  by (cases xs; cases "tl xs"; cases "tl (tl xs)") (auto simp: Suc_le_eq neq_Nil_conv)

lemma note_report_results:
  "map bl_result (note_report esc done ls line) = note_result (line_says done (length ls) line) (map bl_result ls)"
  "map link_ident (note_report esc done ls line) = map link_ident ls"
proof -
  have same: "link_ident ((ls ! k)\<lparr>bl_result := r, bl_error := e\<rparr>) = link_ident (ls ! k)" for k r e
    by (simp add: link_ident_def)
  have ident: "(map link_ident ls)[k := link_ident ((ls ! k)\<lparr>bl_result := r, bl_error := e\<rparr>)] = map link_ident ls" for k r e
    unfolding same by (simp flip: map_update)
  consider "split_three line = []" | v where "split_three line = [v]" | v i where "split_three line = [v, i]"
    | v i y where "split_three line = [v, i, y]"
    using short_list_cases [OF split_three_length [of line]] by blast
  then have "map bl_result (note_report esc done ls line) = note_result (line_says done (length ls) line) (map bl_result ls) \<and>
      map link_ident (note_report esc done ls line) = map link_ident ls"
  proof cases
    case (3 v i)
    then show ?thesis
      by (cases "report_index i (length ls)")
        (auto simp: note_report_def line_says_def note_result_def map_update ident report_index_less)
  next
    case (4 v i y)
    then show ?thesis
      by (cases "report_index i (length ls)")
        (auto simp: note_report_def line_says_def note_result_def map_update ident report_index_less)
  qed (auto simp: note_report_def line_says_def note_result_def)
  then show "map bl_result (note_report esc done ls line) = note_result (line_says done (length ls) line) (map bl_result ls)"
    "map link_ident (note_report esc done ls line) = map link_ident ls" by auto
qed

lemma note_report_length [simp]: "length (note_report esc done ls line) = length ls"
  using arg_cong [OF note_report_results(2) [of esc "done" ls line], of length] by simp

lemma fold_results:
  "map bl_result (foldl (note_report esc done) ls lines) =
     foldl (\<lambda>rs l. note_result (line_says done (length ls) l) rs) (map bl_result ls) lines"
  by (induction lines arbitrary: ls) (simp_all add: note_report_results(1))

lemma fold_idents: "map link_ident (foldl (note_report esc done) ls lines) = map link_ident ls"
  by (induction lines arbitrary: ls) (simp_all add: note_report_results(2))

section \<open>A report that breaks off\<close>

lemma prefix_digits:
  "prefix p (nat_digits m) \<Longrightarrow> p = [] \<or> p = nat_digits m \<or> (\<exists>j<m. p = nat_digits j)"
proof (induction m rule: nat_digits.induct)
  case (1 m)
  show ?case
  proof (cases "m < 10")
    case True
    with "1.prems" show ?thesis by (cases p) (auto simp: nat_digits.simps [of m] prefix_Cons)
  next
    case False
    with "1.prems" consider "p = nat_digits m" | "prefix p (nat_digits (m div 10))"
      by (auto simp: nat_digits.simps [of m])
    then show ?thesis
    proof cases
      case 2
      have "m div 10 < m" using False by simp
      with "1.IH" [OF False 2] show ?thesis by (metis less_trans)
    qed simp
  qed
qed

lemma report_index_digits: "report_index (nat_digits j) n = Some i \<Longrightarrow> i = j"
proof -
  have "atoi (nat_digits j) = Some v \<Longrightarrow> v = int j" for v
  proof -
    have "hd (nat_digits j) \<noteq> CHR ''-''" "hd (nat_digits j) \<noteq> CHR ''+''"
      using nat_digits_are_digits [of "hd (nat_digits j)" j] by (auto simp: char_class_defs)
    then show "atoi (nat_digits j) = Some v \<Longrightarrow> v = int j"
      by (auto simp: atoi_def digits_value_nat_digits Let_def split: if_splits)
  qed
  then show "report_index (nat_digits j) n = Some i \<Longrightarrow> i = j"
    by (auto simp: report_index_def split: option.splits if_splits)
qed

lemma digits_no_tab: "CHR 0x09 \<notin> set (nat_digits j)" "CHR 0x0A \<notin> set (nat_digits j)" "CHR 0x0D \<notin> set (nat_digits j)"
  using nat_digits_are_digits [of "CHR 0x09" j] nat_digits_are_digits [of "CHR 0x0A" j] nat_digits_are_digits [of "CHR 0x0D" j]
  by (auto simp: char_class_defs)

lemma one_line_plain: "CHR 0x0A \<notin> set (one_line m)"
  by (auto simp: one_line_def)

definition fault_result :: "string \<Rightarrow> op_fault \<Rightarrow> string" where
  "fault_result done f = (if f = None then done else bl_failed)"

definition report_line :: "(nat \<Rightarrow> op_fault) \<Rightarrow> nat \<Rightarrow> string" where
  "report_line faults k = op_line (faults k) (nat_digits k, [], [])"

text \<open>A line as it was printed, and with carriage returns at its end taken off, says what it is to say.\<close>

lemma says_ok: "line_says done n (ok_line (nat_digits k)) = map_option (\<lambda>j. (j, done)) (report_index (nat_digits k) n)"
  using split_three_two [of "''ok''" "nat_digits k"] by (simp add: line_says_def ok_line_def digits_no_tab)

lemma says_fail: "line_says done n (''fail'' @ CHR 0x09 # nat_digits k @ CHR 0x09 # q) = map_option (\<lambda>j. (j, bl_failed)) (report_index (nat_digits k) n)"
  using split_three_three [of "''fail''" "nat_digits k" q] by (simp add: line_says_def digits_no_tab)

lemma says_broken_ok:
  assumes "prefix r (ok_line (nat_digits k))" and "r \<noteq> ok_line (nat_digits k)"
  shows "line_says done n r = None \<or> (\<exists>j<k. line_says done n r = map_option (\<lambda>i. (i, done)) (report_index (nat_digits j) n))"
proof -
  from assms(1) consider "prefix r ''ok''" | p where "r = ''ok'' @ CHR 0x09 # p" "prefix p (nat_digits k)"
    by (auto simp: ok_line_def prefix_Cons)
  then show ?thesis
  proof cases
    case 1
    then have "CHR 0x09 \<notin> set r" using set_mono_prefix by fastforce
    then show ?thesis by (simp add: line_says_def split_three_one)
  next
    case (2 p)
    with assms(2) have "p \<noteq> nat_digits k" by (auto simp: ok_line_def)
    with prefix_digits [OF 2(2)] consider "p = []" | j where "j < k" "p = nat_digits j" by blast
    then show ?thesis
    proof cases
      case 1
      then show ?thesis
        using split_three_two [of "''ok''" "[]"] by (simp add: 2(1) line_says_def report_index_def atoi_def)
    next
      case (2 j)
      then show ?thesis using says_ok [of "done" n j] \<open>r = _\<close> by (auto simp: ok_line_def)
    qed
  qed
qed

lemma says_broken_fail:
  assumes "prefix r (''fail'' @ CHR 0x09 # nat_digits k @ CHR 0x09 # q)"
  shows "line_says done n r = None \<or> line_says done n r = map_option (\<lambda>i. (i, bl_failed)) (report_index (nat_digits k) n)"
proof -
  from assms consider "prefix r ''fail''" | p where "r = ''fail'' @ CHR 0x09 # p" "prefix p (nat_digits k @ CHR 0x09 # q)"
    by (auto simp: prefix_Cons)
  then show ?thesis
  proof cases
    case 1
    then have "CHR 0x09 \<notin> set r" using set_mono_prefix by fastforce
    then show ?thesis by (simp add: line_says_def split_three_one)
  next
    case (2 p)
    from 2(2) consider "prefix p (nat_digits k)" | p' where "p = nat_digits k @ CHR 0x09 # p'"
      by (auto simp: prefix_append prefix_Cons)
    then show ?thesis
    proof cases
      case 1
      then have "CHR 0x09 \<notin> set p" using set_mono_prefix digits_no_tab(1) by blast
      with 2(1) split_three_two [of "''fail''" p] show ?thesis by (simp add: line_says_def)
    next
      case (2 p')
      with says_fail [of "done" n k p'] \<open>r = _\<close> show ?thesis by simp
    qed
  qed
qed

text \<open>What is received is whole lines and the beginning of one more.\<close>

lemma prefix_of_lines:
  "prefix p (line_text ls) \<Longrightarrow>
     \<exists>m r. p = line_text (take m ls) @ r \<and> m \<le> length ls \<and> (if m < length ls then prefix r (ls ! m) else r = [])"
proof (induction ls arbitrary: p)
  case Nil
  then show ?case by (simp add: line_text_def)
next
  case (Cons l ls)
  have e: "line_text (l # ls) = (l @ [CHR 0x0A]) @ line_text ls" by (simp add: line_text_def)
  from Cons.prems consider "prefix p l" | q where "p = (l @ [CHR 0x0A]) @ q" "prefix q (line_text ls)"
    unfolding e by (auto simp: prefix_append prefix_Cons)
  then show ?case
  proof cases
    case 1
    then show ?thesis by (intro exI [of _ 0] exI [of _ p]) (simp add: line_text_def)
  next
    case (2 q)
    from Cons.IH [OF 2(2)] obtain m r where
      "q = line_text (take m ls) @ r" "m \<le> length ls" "if m < length ls then prefix r (ls ! m) else r = []" by blast
    with 2(1) show ?thesis by (intro exI [of _ "Suc m"] exI [of _ r]) (simp add: line_text_def)
  qed
qed

definition trim_cr :: "string \<Rightarrow> string" where
  "trim_cr l = trim_right_set [CHR 0x0D] l"

lemma trim_cr_prefix: "prefix (trim_cr l) l"
  unfolding trim_cr_def trim_right_set_def
  by (metis rev_rev_ident suffix_dropWhile suffix_to_prefix)

lemma trim_cr_ok: "trim_cr (ok_line (nat_digits k)) = ok_line (nat_digits k)"
proof -
  have "CHR 0x0D \<notin> set (ok_line (nat_digits k))" by (simp add: ok_line_def digits_no_tab)
  then show ?thesis unfolding trim_cr_def trim_right_set_def
    by (metis dropWhile_eq_self_iff hd_in_set list.set_intros(1) rev_is_Nil_conv rev_rev_ident set_ConsD set_rev empty_iff empty_set)
qed

lemma trim_cr_tab: "trim_cr (x @ CHR 0x09 # q) = x @ CHR 0x09 # trim_cr q"
  by (simp add: trim_cr_def trim_right_set_def dropWhile_append)

lemma trim_cr_fail:
  "trim_cr (''fail'' @ CHR 0x09 # i @ CHR 0x09 # q) = ''fail'' @ CHR 0x09 # i @ CHR 0x09 # trim_cr q"
  using trim_cr_tab [of "''fail'' @ CHR 0x09 # i" q] by simp

lemma Lines_received:
  assumes "rs_stdout r = line_text ls @ p" and "list_all (\<lambda>l. CHR 0x0A \<notin> set l) ls" and "CHR 0x0A \<notin> set p"
  shows "Lines r = filter (\<lambda>l. l \<noteq> []) (map trim_cr (ls @ [p]))"
proof -
  have "split_char (CHR 0x0A) (rs_stdout r) = ls @ [p]"
    using split_terminated [OF assms(2), of p] assms(3) by (simp add: assms(1) line_text_def split_char_plain)
  then show ?thesis by (simp only: Lines_def) (simp add: trim_cr_def [abs_def])
qed

section \<open>What became of the links\<close>

text \<open>The results after the first lines of the report.\<close>

definition results_after :: "string \<Rightarrow> (nat \<Rightarrow> op_fault) \<Rightarrow> nat \<Rightarrow> nat \<Rightarrow> string list" where
  "results_after done faults n m =
     map (\<lambda>i. if i < m \<and> report_index (nat_digits i) n = Some i then fault_result done (faults i) else bl_unknown) [0..<n]"

lemma note_at:
  assumes "done \<noteq> bl_unknown" and "s = map_option (\<lambda>j. (j, fault_result done (faults m))) (report_index (nat_digits m) n)"
  shows "note_result s (results_after done faults n m) = results_after done faults n (Suc m)"
proof (cases "report_index (nat_digits m) n")
  case None
  then show ?thesis using assms(2) by (auto simp: note_result_def results_after_def less_Suc_eq)
next
  case (Some i)
  then have im: "i = m" "m < n" using report_index_digits [OF Some] report_index_less [OF Some] by auto
  with Some assms(2) have "note_result s (results_after done faults n m) = (results_after done faults n m)[m := fault_result done (faults m)]"
    by (simp add: note_result_def results_after_def)
  also have "\<dots> = results_after done faults n (Suc m)"
    by (rule nth_equalityI) (use im Some in \<open>auto simp: results_after_def nth_list_update less_Suc_eq\<close>)
  finally show ?thesis .
qed

text \<open>A broken line of an operation says nothing, or what its whole line says, or repeats an earlier one.\<close>

definition sound_says :: "string \<Rightarrow> (nat \<Rightarrow> op_fault) \<Rightarrow> nat \<Rightarrow> nat \<Rightarrow> (nat \<times> string) option \<Rightarrow> bool" where
  "sound_says done faults n m s \<longleftrightarrow> s = None \<or>
     s = map_option (\<lambda>j. (j, fault_result done (faults m))) (report_index (nat_digits m) n) \<or>
     (\<exists>j<m. s = map_option (\<lambda>i. (i, done)) (report_index (nat_digits j) n))"

lemma note_sound:
  assumes "done \<noteq> bl_unknown" and "sound_says done faults n m s"
  shows "note_result s (results_after done faults n m) \<in> {results_after done faults n m, results_after done faults n (Suc m)}"
proof -
  have earlier: "note_result (map_option (\<lambda>i. (i, done)) (report_index (nat_digits j) n)) (results_after done faults n m) =
      results_after done faults n m" if "j < m" for j
    using that report_index_digits [of j n] report_index_less [of "nat_digits j" n] assms(1)
    by (cases "report_index (nat_digits j) n") (auto simp: note_result_def results_after_def fault_result_def)
  show ?thesis using assms(2) note_at [OF assms(1), of s faults m n] earlier
    by (auto simp: sound_says_def note_result_def)
qed

lemma broken_line_sound:
  assumes "prefix r (op_line (faults m) (nat_digits m, b, c))"
  shows "sound_says done faults n m (line_says done n (trim_cr r))"
proof -
  have p: "prefix (trim_cr r) (op_line (faults m) (nat_digits m, b, c))"
    using assms trim_cr_prefix [of r] prefix_order.trans by blast
  show ?thesis
  proof (cases "faults m")
    case None
    then show ?thesis using says_broken_ok [of "trim_cr r" m "done" n] says_ok [of "done" n m] p
      by (cases "trim_cr r = ok_line (nat_digits m)") (auto simp: sound_says_def fault_result_def)
  next
    case (Some f)
    then obtain msg gone where "faults m = Some (msg, gone)" by (cases f) auto
    then show ?thesis using says_broken_fail [of "trim_cr r" m "one_line msg" "done" n] p
      by (auto simp: sound_says_def fault_result_def fail_line_def)
  qed
qed

lemma whole_line_says:
  "line_says done n (trim_cr (op_line (faults m) (nat_digits m, b, c))) =
     map_option (\<lambda>j. (j, fault_result done (faults m))) (report_index (nat_digits m) n)"
proof (cases "faults m")
  case None
  then show ?thesis by (simp add: trim_cr_ok says_ok fault_result_def)
next
  case (Some f)
  then obtain msg gone where f: "faults m = Some (msg, gone)" by (cases f) auto
  have "trim_cr (fail_line (nat_digits m) msg) = ''fail'' @ CHR 0x09 # nat_digits m @ CHR 0x09 # trim_cr (one_line msg)"
    unfolding fail_line_def by (rule trim_cr_fail)
  then have "line_says done n (trim_cr (fail_line (nat_digits m) msg)) = map_option (\<lambda>j. (j, bl_failed)) (report_index (nat_digits m) n)"
    by (simp only: says_fail)
  then show ?thesis using f by (simp add: fault_result_def)
qed

definition op_records :: "nat \<Rightarrow> (nat \<Rightarrow> string) \<Rightarrow> (nat \<Rightarrow> string) \<Rightarrow> (string \<times> string \<times> string) list" where
  "op_records n B C = map (\<lambda>i. (nat_digits i, B i, C i)) [0..<n]"

lemma op_lines_nth:
  "i < k \<Longrightarrow> i < n \<Longrightarrow> op_lines faults (take k (op_records n B C)) ! i = op_line (faults i) (nat_digits i, B i, C i)"
  "length (op_lines faults (take k (op_records n B C))) = min k n"
  by (simp_all add: op_lines_def op_records_def)

lemma op_line_no_newline: "CHR 0x0A \<notin> set (op_line f (nat_digits i, b, c))"
  by (cases f) (auto simp: ok_line_def fail_line_def digits_no_tab one_line_plain)

lemma says_nothing: "line_says done n [] = None"
  by (simp add: line_says_def split_three_one)

lemma fold_nonempty:
  "foldl (\<lambda>rs l. note_result (line_says done n l) rs) rs (filter (\<lambda>l. l \<noteq> []) ls) =
   foldl (\<lambda>rs l. note_result (line_says done n l) rs) rs ls"
  by (induction ls arbitrary: rs) (simp_all add: says_nothing note_result_def)

lemma fold_whole_lines:
  assumes "done \<noteq> bl_unknown" and "m \<le> min k n"
  shows "foldl (\<lambda>rs l. note_result (line_says done n l) rs) (results_after done faults n 0)
      (map trim_cr (take m (op_lines faults (take k (op_records n B C))))) = results_after done faults n m"
  using assms(2)
proof (induction m)
  case (Suc m)
  let ?ls = "op_lines faults (take k (op_records n B C))"
  have "take (Suc m) ?ls = take m ?ls @ [op_line (faults m) (nat_digits m, B m, C m)]"
    using Suc.prems op_lines_nth(1) [of m k n faults B C] op_lines_nth(2) [of faults k n B C]
    by (simp add: take_Suc_conv_app_nth)
  with Suc show ?case by (simp add: note_at [OF assms(1) whole_line_says])
qed simp

lemma report_results:
  assumes "done \<noteq> bl_unknown" and "prefix (rs_stdout r) (line_text (op_lines faults (take k (op_records n B C))))"
  shows "\<exists>m\<le>min k n. foldl (\<lambda>rs l. note_result (line_says done n l) rs) (results_after done faults n 0) (Lines r) = results_after done faults n m"
proof -
  let ?ls = "op_lines faults (take k (op_records n B C))"
  have len: "length ?ls = min k n" by (rule op_lines_nth(2))
  have line: "?ls ! i = op_line (faults i) (nat_digits i, B i, C i)" if "i < min k n" for i
    using that op_lines_nth(1) [of i k n] by simp
  from prefix_of_lines [OF assms(2)] obtain m p where
    out: "rs_stdout r = line_text (take m ?ls) @ p" "m \<le> min k n" "if m < min k n then prefix p (?ls ! m) else p = []"
    unfolding len by blast
  have plain: "CHR 0x0A \<notin> set l" if "l \<in> set ?ls" for l
  proof -
    from that obtain i where "i < min k n" "l = ?ls ! i" unfolding in_set_conv_nth len by blast
    with line [of i] show ?thesis by (simp add: op_line_no_newline)
  qed
  then have no_nl: "list_all (\<lambda>l. CHR 0x0A \<notin> set l) (take m ?ls)"
    by (auto simp: list_all_iff dest: in_set_takeD)
  have p_nl: "CHR 0x0A \<notin> set p"
    using out(3) plain [of "?ls ! m"] set_mono_prefix [of p "?ls ! m"] len by (cases "m < min k n") auto
  have sound: "sound_says done faults n m (line_says done n (trim_cr p))"
  proof (cases "m < min k n")
    case True
    with out(3) line [OF True] show ?thesis by (intro broken_line_sound) simp
  next
    case False
    with out(3) show ?thesis by (simp add: sound_says_def trim_cr_def trim_right_set_def says_nothing)
  qed
  have "foldl (\<lambda>rs l. note_result (line_says done n l) rs) (results_after done faults n 0) (Lines r) =
      note_result (line_says done n (trim_cr p)) (results_after done faults n m)"
    unfolding Lines_received [OF out(1) no_nl p_nl] fold_nonempty
    using fold_whole_lines [OF assms(1) out(2), of faults B C] by simp
  moreover have "note_result (line_says done n (trim_cr p)) (results_after done faults n m) \<in>
      {results_after done faults n m, results_after done faults n (Suc m)}"
    by (rule note_sound [OF assms(1) sound])
  moreover have "note_result (line_says done n (trim_cr p)) (results_after done faults n m) = results_after done faults n m" if "\<not> m < min k n"
    using that out(3) by (simp add: trim_cr_def trim_right_set_def says_nothing note_result_def)
  ultimately show ?thesis using out(2) by (cases "m < min k n") (auto intro: exI [of _ m] exI [of _ "Suc m"])
qed

lemma script_sound:
  assumes "pxe_host a role view" and "done \<noteq> bl_unknown"
    and "linkRecords (map (\<lambda>i. [nat_digits i, B i, C i]) [0..<length links]) = Inr stdin"
    and "runLinkScript a role (script_of del) stdin links done w = ((e, links'), w')"
  shows "\<exists>faults k. view w' = run_ops del faults 0 (take k (op_records (length links) B C)) (view w) \<and>
     map link_ident links' = map link_ident links \<and>
     (\<forall>i<length links. bl_result (links' ! i) = bl_unknown \<or>
        i < k \<and> bl_result (links' ! i) = fault_result done (faults i))"
proof -
  let ?n = "length links"
  have t: "triples (nul_fields stdin) = op_records ?n B C"
    using records_read_back [OF assms(3)] by (simp add: op_records_def list_all_iff comp_def)
  obtain result err where run: "RunOnRole a role (script_request del stdin) w = ((result, err), w')"
    and l: "links' = (case result of None \<Rightarrow> unreported_links links
              | Some r \<Rightarrow> foldl (note_report (ap_escape a) done) (unreported_links links) (Lines r))"
    using assms(4) by (auto simp: runLinkScript_def script_request_def Let_def split: prod.splits)
  have "\<exists>faults n. let rs = take n (triples (nul_fields stdin)); ((result, err), w') = RunOnRole a role (script_request del stdin) w in
        view w' = run_ops del faults 0 rs (view w) \<and>
        (case result of None \<Rightarrow> True | Some r \<Rightarrow> prefix (rs_stdout r) (line_text (op_lines faults rs)))"
    using assms(1) unfolding pxe_host_def by blast
  with run t obtain faults k where
    v: "view w' = run_ops del faults 0 (take k (op_records ?n B C)) (view w)"
    and out: "case result of None \<Rightarrow> True | Some r \<Rightarrow> prefix (rs_stdout r) (line_text (op_lines faults (take k (op_records ?n B C))))"
    by (auto simp: Let_def)
  have zero: "map bl_result (unreported_links links) = results_after done faults ?n 0"
    by (simp add: unreported_links_def results_after_def comp_def map_replicate_const)
  have len: "length (unreported_links links) = ?n" by (simp add: unreported_links_def)
  have "\<exists>m\<le>min k ?n. map bl_result links' = results_after done faults ?n m"
  proof (cases result)
    case None
    with l zero show ?thesis by auto
  next
    case (Some r)
    with out have "prefix (rs_stdout r) (line_text (op_lines faults (take k (op_records ?n B C))))" by simp
    from report_results [OF assms(2) this] l Some zero show ?thesis by (simp add: fold_results len)
  qed
  then obtain m where m: "m \<le> min k ?n" "map bl_result links' = results_after done faults ?n m" by blast
  have ident: "map link_ident links' = map link_ident links"
    using l by (auto simp: fold_idents unreported_links_def link_ident_def split: option.splits)
  have "bl_result (links' ! i) = results_after done faults ?n m ! i" if "i < ?n" for i
    using that m(2) arg_cong [OF ident, of length] by (metis length_map nth_map)
  then have "\<forall>i<?n. bl_result (links' ! i) = bl_unknown \<or> i < k \<and> bl_result (links' ! i) = fault_result done (faults i)"
    using m(1) by (auto simp: results_after_def)
  with v ident show ?thesis by blast
qed

section \<open>Writing and removing\<close>

lemma run_ops_write:
  "run_ops False faults k rs m f = m f \<or> run_ops False faults k rs m f = None \<or>
   (\<exists>i<length rs. faults (k + i) = None \<and> snd (snd (rs ! i)) = f \<and> run_ops False faults k rs m f = Some (fst (snd (rs ! i))))"
proof (induction rs arbitrary: k m)
  case (Cons r rs)
  let ?m = "op_run False (faults k) r m"
  obtain i b c where r: "r = (i, b, c)" by (rule prod_cases3)
  have now: "?m f = m f \<or> ?m f = None \<or> (faults k = None \<and> c = f \<and> ?m f = Some b)"
    by (cases "faults k") (auto simp: r restrict_map_def split: if_splits)
  have first: "snd (snd ((r # rs) ! 0)) = c" "fst (snd ((r # rs) ! 0)) = b" by (simp_all add: r)
  from Cons.IH [of "Suc k" ?m] show ?case
  proof (elim disjE exE conjE)
    assume same: "run_ops False faults (Suc k) rs ?m f = ?m f"
    show ?thesis
    proof (cases "?m f = m f \<or> ?m f = None")
      case False
      with now same first show ?thesis by (intro disjI2 exI [of _ 0]) auto
    qed (use same in auto)
  next
    fix j assume "j < length rs" "faults (Suc k + j) = None" "snd (snd (rs ! j)) = f"
      "run_ops False faults (Suc k) rs ?m f = Some (fst (snd (rs ! j)))"
    then show ?thesis by (intro disjI2 exI [of _ "Suc j"]) simp
  qed simp
qed simp

lemma run_ops_remove: "run_ops True faults k rs m f = m f \<or> run_ops True faults k rs m f = None"
proof (induction rs arbitrary: k m)
  case (Cons r rs)
  let ?m = "op_run True (faults k) r m"
  obtain i b c where r: "r = (i, b, c)" by (rule prod_cases3)
  have "?m f = m f \<or> ?m f = None" by (cases "faults k") (auto simp: r restrict_map_def split: if_splits)
  with Cons.IH [of "Suc k" ?m] show ?case by auto
qed simp

lemma run_ops_removed:
  "i < length rs \<Longrightarrow> faults (k + i) = None \<Longrightarrow> x \<in> set (op_names True (rs ! i)) \<Longrightarrow> run_ops True faults k rs m x = None"
proof (induction rs arbitrary: k m i)
  case (Cons r rs)
  let ?m = "op_run True (faults k) r m"
  obtain j b c where r: "r = (j, b, c)" by (rule prod_cases3)
  show ?case
  proof (cases i)
    case 0
    with Cons.prems have "?m x = None" by (auto simp: r)
    with run_ops_remove [of faults "Suc k" rs ?m x] show ?thesis by simp
  next
    case (Suc j)
    with Cons.IH [of j "Suc k" ?m] Cons.prems show ?thesis by simp
  qed
qed simp

lemma zip_indexed: "map (\<lambda>(i, l). g i l) (zip [0..<length ls] ls) = map (\<lambda>i. g i (ls ! i)) [0..<length ls]"
  by (rule nth_equalityI) auto

lemma same_idents:
  assumes "map link_ident ls' = map link_ident ls" and "i < length ls"
  shows "length ls' = length ls \<and> bl_node (ls' ! i) = bl_node (ls ! i) \<and> bl_address (ls' ! i) = bl_address (ls ! i) \<and>
    bl_path (ls' ! i) = bl_path (ls ! i) \<and> bl_mode (ls' ! i) = bl_mode (ls ! i)"
proof -
  have len: "length ls' = length ls" using arg_cong [OF assms(1), of length] by simp
  with assms have "link_ident (ls' ! i) = link_ident (ls ! i)" by (metis length_map nth_map)
  then have "bl_node (link_ident (ls' ! i)) = bl_node (link_ident (ls ! i))" "bl_address (link_ident (ls' ! i)) = bl_address (link_ident (ls ! i))"
    "bl_path (link_ident (ls' ! i)) = bl_path (link_ident (ls ! i))" "bl_mode (link_ident (ls' ! i)) = bl_mode (link_ident (ls ! i))"
    by simp_all
  with len show ?thesis by (simp add: link_ident_def)
qed

lemma writeBootLinks_idents:
  assumes "writeBootLinks a role root links w = ((e, links'), w')"
  shows "map link_ident links' = map link_ident links"
  using assms
  by (auto simp: writeBootLinks_def runLinkScript_def Let_def fold_idents unreported_links_def link_ident_def
      split: sum.splits prod.splits option.splits)

lemma removeBootLinks_idents:
  assumes "removeBootLinks a role root links w = ((e, links'), w')"
  shows "map link_ident links' = map link_ident links"
  using assms
  by (auto simp: removeBootLinks_def runLinkScript_def Let_def fold_idents unreported_links_def link_ident_def
      split: sum.splits prod.splits option.splits)

lemma links_written:
  assumes "pxe_host a role view" and "writeBootLinks a role root links w = ((e, links'), w')" and "view w' f \<noteq> view w f"
  shows "view w' f = None \<or>
     (\<exists>l\<in>set links'. linkName a root l = f \<and> bl_result l \<in> {bl_set, bl_unknown} \<and> view w' f = Some (bl_path l))"
proof (cases "linkRecords (write_records a root links)")
  case (Inl err)
  with assms(2,3) show ?thesis by (simp add: writeBootLinks_def)
next
  case (Inr stdin)
  let ?n = "length links" and ?B = "\<lambda>i. bl_path (links ! i)" and ?C = "\<lambda>i. linkName a root (links ! i)"
  have recs: "linkRecords (map (\<lambda>i. [nat_digits i, ?B i, ?C i]) [0..<?n]) = Inr stdin"
    using Inr by (simp add: write_records_def zip_indexed)
  have run: "runLinkScript a role (script_of False) stdin links bl_set w = ((e, links'), w')"
    using assms(2) Inr by (simp add: writeBootLinks_def script_of_def)
  have "bl_set \<noteq> bl_unknown" by simp
  from script_sound [OF assms(1) this recs run] obtain faults k where
    v: "view w' = run_ops False faults 0 (take k (op_records ?n ?B ?C)) (view w)"
    and id: "map link_ident links' = map link_ident links"
    and res: "\<forall>i<?n. bl_result (links' ! i) = bl_unknown \<or> i < k \<and> bl_result (links' ! i) = fault_result bl_set (faults i)" by blast
  from run_ops_write [of faults 0 "take k (op_records ?n ?B ?C)" "view w" f] assms(3) v
  consider "view w' f = None" | i where "i < min k ?n" "faults i = None" "?C i = f" "view w' f = Some (?B i)"
    by (auto simp: op_records_def)
  then show ?thesis
  proof cases
    case (2 i)
    then have "i < ?n" by simp
    from same_idents [OF id this] have "links' ! i \<in> set links'" "linkName a root (links' ! i) = f" "view w' f = Some (bl_path (links' ! i))"
      using 2 by (auto simp: linkName_def)
    moreover have "bl_result (links' ! i) \<in> {bl_set, bl_unknown}" using res \<open>i < ?n\<close> 2(2) by (auto simp: fault_result_def)
    ultimately show ?thesis by blast
  qed simp
qed

text \<open>
  C7. A boot link that changed on the PXE host is accounted for: it is gone, or it is the link of a
  node whose result says it was set or that it is not known, and points at that node's boot path;
  and no link that is reported as set is one the host reported a failure for. The report may have
  broken off anywhere.
\<close>
theorem written_links_are_reported:
  assumes "pxe_host a role view" and "writeBootLinks a role root links w = ((e, links'), w')" and "view w' f \<noteq> view w f"
  shows "view w' f = None \<or>
     (\<exists>l\<in>set links'. linkName a root l = f \<and> bl_result l \<in> {bl_set, bl_unknown} \<and> view w' f = Some (bl_path l))"
  by (rule links_written [OF assms])

text \<open>
  A removal writes no link, and where it is reported done the node has neither link left.
\<close>
lemma removed_links_are_gone:
  assumes "pxe_host a role view" and "removeBootLinks a role root links w = ((e, links'), w')"
  shows "(view w' f = view w f \<or> view w' f = None) \<and>
     ((\<forall>l\<in>set links. bl_result l \<noteq> bl_removed) \<longrightarrow> l \<in> set links' \<longrightarrow> bl_result l = bl_removed \<longrightarrow>
      px_static_suffix (ap_pxe a) \<noteq> [] \<or> bl_mode l \<noteq> bootPersistent \<longrightarrow> view w' (linkName a root l) = None)"
proof -
  let ?sfx = "px_static_suffix (ap_pxe a)"
  let ?n = "length links" and ?B = "\<lambda>i. root @ CHR ''/'' # bl_address (links ! i)"
  let ?C = "\<lambda>i. if ?sfx = [] then [] else ?B i @ ?sfx"
  show ?thesis
  proof (cases "linkRecords (remove_records a root links)")
    case (Inl err)
    with assms(2) show ?thesis by (auto simp: removeBootLinks_def)
  next
    case (Inr stdin)
    have recs: "linkRecords (map (\<lambda>i. [nat_digits i, ?B i, ?C i]) [0..<?n]) = Inr stdin"
      using Inr by (simp add: remove_records_def Let_def zip_indexed cong: if_cong)
    have run: "runLinkScript a role (script_of True) stdin links bl_removed w = ((e, links'), w')"
      using assms(2) Inr by (simp add: removeBootLinks_def script_of_def)
    have "bl_removed \<noteq> bl_unknown" by simp
    from script_sound [OF assms(1) this recs run] obtain faults k where
      v: "view w' = run_ops True faults 0 (take k (op_records ?n ?B ?C)) (view w)"
      and id: "map link_ident links' = map link_ident links"
      and res: "\<forall>i<?n. bl_result (links' ! i) = bl_unknown \<or> i < k \<and> bl_result (links' ! i) = fault_result bl_removed (faults i)" by blast
    have "view w' (linkName a root l) = None"
      if "l \<in> set links'" "bl_result l = bl_removed" "?sfx \<noteq> [] \<or> bl_mode l \<noteq> bootPersistent"
    proof -
      have len: "length links' = ?n" using arg_cong [OF id, of length] by simp
      from that(1) obtain i where i: "i < ?n" "l = links' ! i" by (auto simp: in_set_conv_nth len)
      then have "i < k \<and> fault_result bl_removed (faults i) = bl_removed" using res [rule_format, OF i(1)] that(2) by auto
      then have ik: "i < k" "faults i = None" by (cases "faults i", auto simp: fault_result_def)+
      have "linkName a root l \<in> set (op_names True (take k (op_records ?n ?B ?C) ! i))"
        using i ik that(3) same_idents [OF id i(1)] by (auto simp: op_records_def linkName_def)
      then show ?thesis unfolding v
        by (rule run_ops_removed [where k = 0, simplified, rotated 2]) (use i ik in \<open>auto simp: op_records_def\<close>)
    qed
    moreover have "view w' f = view w f \<or> view w' f = None" unfolding v by (rule run_ops_remove)
    ultimately show ?thesis by blast
  qed
qed

section \<open>Addresses\<close>

lemma join_str_chars: "set (join_str sep xs) \<subseteq> set sep \<union> \<Union> (set ` set xs)"
  by (induction xs) (auto simp: join_str_Cons)

lemma hex_digits_no_slash: "CHR ''/'' \<notin> set (hex_digits n)"
proof (induction n rule: hex_digits.induct)
  case (1 n)
  have "\<forall>c\<in>set ''0123456789abcdef''. c \<noteq> CHR ''/''" by simp
  then have one: "''0123456789abcdef'' ! i \<noteq> CHR ''/''" if "i < 16" for i
    using that nth_mem [of i "''0123456789abcdef''"] by auto
  show ?case
    using "1.IH" one [of n] one [of "n mod 16"] by (subst hex_digits.simps) auto
qed

lemma nat_digits_no_slash: "CHR ''/'' \<notin> set (nat_digits n)"
  using nat_digits_are_digits [of "CHR ''/''" n] by (auto simp: char_class_defs)

lemma ip_string_no_slash: "CHR ''/'' \<notin> set (ip_string bs)"
proof -
  have hex: "CHR ''/'' \<notin> set (join_str '':'' (map hex_digits gs))" for gs
    using join_str_chars [of "'':''" "map hex_digits gs"] hex_digits_no_slash by fastforce
  have dec: "CHR ''/'' \<notin> set (join_str ''.'' (map nat_digits ds))" for ds
    using join_str_chars [of "''.''" "map nat_digits ds"] nat_digits_no_slash by fastforce
  show ?thesis using hex dec by (auto simp: ip_string_def ipv6_string_def split: option.splits)
qed

lemma resolved_address:
  assumes "resolveNodeAddress a node w = (Inr r, w')"
  shows "CHR ''/'' \<notin> set (fst r)"
  using assms
  by (auto simp: resolveNodeAddress_def usable_address_def boot_ip_def ip_string_no_slash
      split: if_splits option.splits sum.splits prod.splits)

lemma other_holders_Nil: "other_holders a node r = [] \<Longrightarrow> set (address_owners a (fst r)) \<subseteq> {node}"
  by (auto simp: other_holders_def filter_empty_conv)


section \<open>Examples\<close>

text \<open>A host that does every record and reports them all, and a site with two nodes.\<close>

definition link_runner :: "link_map runner" where
  "link_runner t req m =
     (let rs = triples (nul_fields (case rq_stdin req of None \<Rightarrow> [] | Some s \<Rightarrow> s)) in
      (Inr (exit_result (\<lambda>s. s) t 0 (line_text (op_lines (\<lambda>k. None) rs)) []),
       run_ops (rq_script req = bootUnlinkScript) (\<lambda>k. None) 0 rs m))"

definition pxe_app :: "(string list, link_map) app" where
  "pxe_app = site_app link_runner"

lemma scripts_differ: "bootLinkScript \<noteq> bootUnlinkScript"
  by (simp add: bootLinkScript_def bootUnlinkScript_def)

lemma pxe_app_fields:
  "ap_runner pxe_app = link_runner" "ap_command_timeout pxe_app = 0" "ap_escape pxe_app = (\<lambda>s. s)"
  "px_static_suffix (ap_pxe pxe_app) = ''s''" "Role pxe_app ''pxe'' = Inr (no_target\<lparr>tg_name := ''pxe'', tg_host := ''p'', tg_role := ''pxe''\<rparr>)"
  by (simp_all add: pxe_app_def site_app_def Role_def find_key_def no_role_def no_target_def)

lemma pxe_app_host: "pxe_host pxe_app ''pxe'' (\<lambda>m. m)"
  unfolding pxe_host_def
proof (intro allI)
  fix del stdin and w :: link_map
  let ?rs = "triples (nul_fields stdin)"
  show "\<exists>faults n. let rs = take n ?rs; ((result, err), w') = RunOnRole pxe_app ''pxe'' (script_request del stdin) w in
        w' = run_ops del faults 0 rs w \<and>
        (case result of None \<Rightarrow> True | Some r \<Rightarrow> prefix (rs_stdout r) (line_text (op_lines faults rs)))"
    by (intro exI [of _ "\<lambda>k. None"] exI [of _ "length ?rs"])
      (auto simp: RunOnRole_def runOnRole_def pxe_app_fields link_runner_def Collect_def script_request_def script_of_def
        exit_result_def scripts_differ no_request_def Let_def)
qed

definition sample_link :: boot_link where
  "sample_link = \<lparr> bl_node = ''a'', bl_address = ''10.0.0.1'', bl_path = ''/b'', bl_mode = bootOnce, bl_result = [], bl_error = [] \<rparr>"

lemma sample_write:
  "writeBootLinks pxe_app ''pxe'' ''/l'' [sample_link] Map.empty =
     ((None, [sample_link\<lparr>bl_result := bl_set\<rparr>]), [''/l/10.0.0.1'' \<mapsto> ''/b''])"
proof -
  have z: "nat_digits 0 = ''0''" by code_simp
  have recs: "write_records pxe_app ''/l'' [sample_link] = [[''0'', ''/b'', ''/l/10.0.0.1'']]"
    by (simp add: write_records_def linkName_def sample_link_def z pxe_app_fields)
  have parsed: "triples (nul_fields (''0'' @ nul # ''/b'' @ nul # ''/l/10.0.0.1'' @ [nul])) = [(''0'', ''/b'', ''/l/10.0.0.1'')]"
    by code_simp
  have printed: "line_text (op_lines (\<lambda>k. None) [(''0'', ''/b'', ''/l/10.0.0.1'')]) = ''ok'' @ CHR 0x09 # ''0'' @ [CHR 0x0A]"
    by code_simp
  have lines: "Lines (exit_result (\<lambda>s. s) t 0 (''ok'' @ CHR 0x09 # ''0'' @ [CHR 0x0A]) []) = [''ok'' @ CHR 0x09 # ''0'']" for t
    by (simp add: Lines_def exit_result_def trim_right_set_def)
  have three: "split_three (''ok'' @ CHR 0x09 # ''0'') = [''ok'', ''0'']" "report_index ''0'' 1 = Some 0" by code_simp+
  let ?stdin = "''0'' @ nul # ''/b'' @ nul # ''/l/10.0.0.1'' @ [nul]"
  have stdin: "linkRecords [[''0'', ''/b'', ''/l/10.0.0.1'']] = Inr ?stdin" by (simp add: linkRecords_def)
  have run: "RunOnRole pxe_app ''pxe'' (no_request\<lparr>rq_script := bootLinkScript, rq_stdin := Some ?stdin\<rparr>) Map.empty =
      ((Some (exit_result (\<lambda>s. s) (no_target\<lparr>tg_name := ''pxe'', tg_host := ''p'', tg_role := ''pxe''\<rparr>) 0 (''ok'' @ CHR 0x09 # ''0'' @ [CHR 0x0A]) []), None),
       [''/l/10.0.0.1'' \<mapsto> ''/b''])"
    using parsed printed scripts_differ
    by (simp add: RunOnRole_def runOnRole_def Collect_def pxe_app_fields link_runner_def no_request_def Let_def check_result_def Failed_def
        exit_result_def exited_def)
  show ?thesis
    unfolding writeBootLinks_def recs stdin sum.case runLinkScript_def run
    using lines three
    by (simp add: unreported_links_def note_report_def links_error_def pxe_app_fields Let_def sample_link_def)
qed

theorem written_links_are_reported_witness:
  "bl_result (sample_link\<lparr>bl_result := bl_set\<rparr>) \<in> {bl_set, bl_unknown}"
proof -
  have "[''/l/10.0.0.1'' \<mapsto> ''/b''] ''/l/10.0.0.1'' = None \<or>
     (\<exists>l\<in>set [sample_link\<lparr>bl_result := bl_set\<rparr>]. linkName pxe_app ''/l'' l = ''/l/10.0.0.1'' \<and> bl_result l \<in> {bl_set, bl_unknown} \<and>
        [''/l/10.0.0.1'' \<mapsto> ''/b''] ''/l/10.0.0.1'' = Some (bl_path l))"
    by (rule written_links_are_reported [where view = "\<lambda>m. m", OF pxe_app_host sample_write]) simp
  then show ?thesis by auto
qed

definition addressed_app :: "(string list, link_map) app" where
  "addressed_app = pxe_app\<lparr>ap_inventory := site\<lparr>iv_nodes := [(''a'', (site_node ''a'' [] [])\<lparr>in_address := ''10.0.0.1''\<rparr>)], iv_order := [''a'']\<rparr>\<rparr>"

lemma sample_addresses: "fst (nodeAddresses addressed_app [''a''] Map.empty) = Inr [''10.0.0.1'']"
  by code_simp


end
