(* ===== verification/ReinstallProps.thy ===== *)
theory ReinstallProps
  imports Reinstall BootLinksProps
begin

text \<open>
  What a reinstallation leaves behind. The links of the PXE host and the boot overrides of the
  processors are read out of the world by two views; a request whose error says that nothing was
  sent changed no override, and a cleared override is off. Then whatever changed and was not taken
  back is the link or the override of a node that is reported as armed or reinstalling.
\<close>

section \<open>The processors\<close>

definition not_sent :: "goerr \<Rightarrow> bool" where
  "not_sent e \<longleftrightarrow> errors_is e ''not sent: the command was interrupted first'' \<or> neverSent e"

fun out_error :: "'a done_with \<Rightarrow> goerr option" where
  "out_error (Returned v e) = e"
| "out_error (Panicked e) = Some e"

definition maybe_sent :: "goerr option \<Rightarrow> bool" where
  "maybe_sent e \<longleftrightarrow> (case e of None \<Rightarrow> True | Some x \<Rightarrow> \<not> not_sent x)"

definition machine_room ::
  "'w prov_ops \<Rightarrow> ('ns, 'w) app \<Rightarrow> string \<Rightarrow> ('w \<Rightarrow> link_map) \<Rightarrow> ('w \<Rightarrow> string \<Rightarrow> bool) \<Rightarrow> bool" where
  "machine_room P a role view over \<longleftrightarrow>
     pxe_host a role view \<and>
     (\<forall>req w. over (snd (RunOnRole a role req w)) = over w) \<and>
     (\<forall>c w. view (snd (po_set_override P c w)) = view w \<and>
        (\<forall>h. over (snd (po_set_override P c w)) h \<longrightarrow> over w h \<or> rc_host c = h \<and> maybe_sent (out_error (fst (po_set_override P c w))))) \<and>
     (\<forall>c w. view (snd (po_clear_override P c w)) = view w \<and>
        (\<forall>h. over (snd (po_clear_override P c w)) h \<longrightarrow> over w h) \<and>
        (out_error (fst (po_clear_override P c w)) = None \<longrightarrow> \<not> over (snd (po_clear_override P c w)) (rc_host c))) \<and>
     (\<forall>c w. view (snd (po_reset P c w)) = view w \<and> (\<forall>h. over (snd (po_reset P c w)) h \<longrightarrow> over w h)) \<and>
     (\<forall>g w. view (snd (po_modify_keys P g w)) = view w \<and> over (snd (po_modify_keys P g w)) = over w)"

section \<open>Sending to every node\<close>

lemma bmcError_sent: "not_sent (bmcError ctx e b) = not_sent e"
  by (simp add: bmcError_def not_sent_def neverSent_def split: option.splits)

lemma errNotSent_unsent: "not_sent errNotSent"
  by (simp add: not_sent_def errNotSent_def errRequestNotSent_def)

lemma merge_all: "list_all (\<lambda>c. cl_client c \<noteq> None) cs \<Longrightarrow> length outs = length cs \<Longrightarrow> merge_calls cs outs = map2 settle_call cs outs"
  by (induction cs arbitrary: outs) (auto simp: length_Suc_conv)

definition ready :: "reinstall_node list \<Rightarrow> bool" where
  "ready ns \<longleftrightarrow> list_all (\<lambda>n. rn_client n \<noteq> None) ns"

definition node_call :: "reinstall_node \<Rightarrow> unit redfish_call" where
  "node_call n = \<lparr> cl_node = rn_node n, cl_client = rn_client n, cl_value = None, cl_err = None, cl_sent = False \<rparr>"

lemma sendToBMCs_pool:
  assumes "ready ns" and "sendToBMCs P a ns do w = (errs, w')" and "ns \<noteq> []"
  obtains outs where "pool_map (po_sched P) (redfishLimit a) (send_call (ap_ctx_err a) True (\<lambda>n. do)) (map node_call ns) w = (outs, w')"
    "length outs = length ns" "errs = map (\<lambda>i. cl_err (settle_call (node_call (ns ! i)) (outs ! i))) [0..<length ns]"
proof -
  let ?cs = "map node_call ns"
  obtain outs w1 where p: "pool_map (po_sched P) (redfishLimit a) (send_call (ap_ctx_err a) True (\<lambda>n. do)) ?cs w = (outs, w1)" by (rule prod.exhaust)
  have cs: "newRedfishCalls (map rn_node ns) (map rn_client ns) = ?cs"
    by (induction ns) (simp_all add: newRedfishCalls_def node_call_def)
  have all: "list_all (\<lambda>c. cl_client c \<noteq> None) ?cs" using assms(1) by (simp add: ready_def list_all_iff node_call_def)
  then have "filter (\<lambda>c. cl_client c \<noteq> None) ?cs = ?cs" by (simp add: list_all_iff)
  with assms(2,3) p cs all pool_map_length [OF p] have "errs = map cl_err (map2 settle_call ?cs outs)" "w' = w1"
    by (simp_all add: sendToBMCs_def redfishEach_def Let_def merge_all)
  with p pool_map_length [OF p] show ?thesis by (intro that [of outs]) (auto intro!: nth_equalityI)
qed

lemma sendToBMCs_length: "ready ns \<Longrightarrow> sendToBMCs P a ns do w = (errs, w') \<Longrightarrow> length errs = length ns"
  by (cases "ns = []") (auto simp: sendToBMCs_def [of P a "[]"] elim: sendToBMCs_pool)

text \<open>What a call comes back with, for a node that has a client.\<close>

lemma send_call_node:
  assumes "rn_client n = Some c"
  shows "snd (send_call ctx True (\<lambda>n. do) (node_call n) w) = snd (do c w)"
    and "(cl_err (fst (send_call ctx True (\<lambda>n. do) (node_call n) w)) = None) = (out_error (fst (do c w)) = None)"
    and "maybe_sent (cl_err (fst (send_call ctx True (\<lambda>n. do) (node_call n) w))) = maybe_sent (out_error (fst (do c w)))"
  using assms by (auto simp: send_call_def node_call_def maybe_sent_def bmcError_sent split: done_with.splits prod.splits option.splits)

text \<open>What every exchange keeps, and what one without an error establishes.\<close>

lemma send_stable:
  assumes "ready ns" and "sendToBMCs P a ns do w = (errs, w')"
    and step: "\<And>c w. R w (snd (do c w)) \<and> (out_error (fst (do c w)) = None \<longrightarrow> S c (snd (do c w)))"
    and stable: "\<And>c w w1. S c w \<Longrightarrow> R w w1 \<Longrightarrow> S c w1"
    and refl: "\<And>w. R w w" and trans: "\<And>u v w. R u v \<Longrightarrow> R v w \<Longrightarrow> R u w"
  shows "R w w' \<and> (\<forall>i<length ns. errs ! i = None \<longrightarrow> S (the (rn_client (ns ! i))) w')"
proof (cases "ns = []")
  case True
  with assms(2) refl show ?thesis by (simp add: sendToBMCs_def)
next
  case False
  from sendToBMCs_pool [OF assms(1,2) False] obtain outs where
    p: "pool_map (po_sched P) (redfishLimit a) (send_call (ap_ctx_err a) True (\<lambda>n. do)) (map node_call ns) w = (outs, w')"
    and len: "length outs = length ns" and errs: "errs = map (\<lambda>i. cl_err (settle_call (node_call (ns ! i)) (outs ! i))) [0..<length ns]" .
  let ?S = "\<lambda>i out w. cl_err out = None \<longrightarrow> S (the (rn_client (ns ! i))) w"
  have one: "R u (snd (send_call (ap_ctx_err a) True (\<lambda>n. do) (map node_call ns ! i) u)) \<and>
      ?S i (fst (send_call (ap_ctx_err a) True (\<lambda>n. do) (map node_call ns ! i) u)) (snd (send_call (ap_ctx_err a) True (\<lambda>n. do) (map node_call ns ! i) u))"
    if "i < length (map node_call ns)" for i u
  proof -
    from that assms(1) obtain c where c: "rn_client (ns ! i) = Some c" by (auto simp: ready_def list_all_length)
    from that step [of u c] show ?thesis by (simp add: send_call_node [OF c] c)
  qed
  have stay: "?S i out u1" if "?S i out u" "R u u1" for i out u u1
    using that(1) stable [OF _ that(2)] by simp
  have "R w w' \<and> (\<forall>i<length (map node_call ns). \<forall>out. outs ! i = Some out \<longrightarrow> ?S i out w')"
    by (rule pool_map_stable [where R = R and S = ?S, OF one stay refl trans p])
  moreover have "\<exists>o'. outs ! i = Some o' \<and> cl_err o' = None" if "i < length ns" "errs ! i = None" for i
    using that by (cases "outs ! i") (auto simp: errs settle_call_def)
  ultimately show ?thesis by (metis length_map)
qed

text \<open>What is true after all of them and was not before, one that may have been sent brought about.\<close>

lemma send_cause:
  assumes "ready ns" and "sendToBMCs P a ns do w = (errs, w')" and "G w'"
    and step: "\<And>c w. G (snd (do c w)) \<Longrightarrow> G w \<or> C c \<and> maybe_sent (out_error (fst (do c w)))"
  shows "G w \<or> (\<exists>i<length ns. C (the (rn_client (ns ! i))) \<and> maybe_sent (errs ! i))"
proof (cases "ns = []")
  case True
  with assms(2,3) show ?thesis by (simp add: sendToBMCs_def)
next
  case False
  from sendToBMCs_pool [OF assms(1,2) False] obtain outs where
    p: "pool_map (po_sched P) (redfishLimit a) (send_call (ap_ctx_err a) True (\<lambda>n. do)) (map node_call ns) w = (outs, w')"
    and len: "length outs = length ns" and errs: "errs = map (\<lambda>i. cl_err (settle_call (node_call (ns ! i)) (outs ! i))) [0..<length ns]" .
  let ?C = "\<lambda>i out. C (the (rn_client (ns ! i))) \<and> maybe_sent (cl_err out)"
  have one: "G u \<or> ?C i (fst (send_call (ap_ctx_err a) True (\<lambda>n. do) (map node_call ns ! i) u))"
    if "i < length (map node_call ns)" "G (snd (send_call (ap_ctx_err a) True (\<lambda>n. do) (map node_call ns ! i) u))" for i u
  proof -
    from that(1) assms(1) obtain c where c: "rn_client (ns ! i) = Some c" by (auto simp: ready_def list_all_length)
    from that step [of c u] show ?thesis by (simp add: send_call_node [OF c] c)
  qed
  have "G w \<or> (\<exists>i<length (map node_call ns). \<exists>out. outs ! i = Some out \<and> ?C i out)"
    by (rule pool_map_cause [where G = G and C = ?C, OF one p assms(3)])
  then show ?thesis
  proof (elim disjE exE conjE)
    fix i out assume "i < length (map node_call ns)" "outs ! i = Some out" "C (the (rn_client (ns ! i)))" "maybe_sent (cl_err out)"
    then show ?thesis by (intro disjI2 exI [of _ i]) (simp add: errs settle_call_def)
  qed simp
qed

section \<open>What is accounted for\<close>

definition node_file :: "('ns, 'w) app \<Rightarrow> string \<Rightarrow> reinstall_node \<Rightarrow> string" where
  "node_file a root n = linkName a root (node_link n)"

definition node_host :: "reinstall_node \<Rightarrow> string" where
  "node_host n = rc_host (the (rn_client n))"

text \<open>Every change since the first world is that of a node of which \<open>A\<close>, for a link, or \<open>B\<close> holds.\<close>

definition accounted ::
  "('ns, 'w) app \<Rightarrow> string \<Rightarrow> ('w \<Rightarrow> link_map) \<Rightarrow> ('w \<Rightarrow> string \<Rightarrow> bool) \<Rightarrow> 'w \<Rightarrow>
     (reinstall_node \<Rightarrow> bool) \<Rightarrow> (reinstall_node \<Rightarrow> bool) \<Rightarrow> reinstall_node list \<Rightarrow> 'w \<Rightarrow> bool" where
  "accounted a root view over w0 A B ns w \<longleftrightarrow>
     (\<forall>f. view w f \<noteq> view w0 f \<longrightarrow> view w f = None \<or> (\<exists>n\<in>set ns. node_file a root n = f \<and> A n)) \<and>
     (\<forall>h. over w h \<and> \<not> over w0 h \<longrightarrow> (\<exists>n\<in>set ns. node_host n = h \<and> B n))"

definition live :: "reinstall_node \<Rightarrow> bool" where
  "live n \<longleftrightarrow> node_state n \<in> {stateReinstalling, stateArmed}"

definition said_live :: "reinstall_node \<Rightarrow> bool" where
  "said_live n \<longleftrightarrow> rn_state n \<in> {stateReinstalling, stateArmed}"

lemma live_intros: "linked n \<Longrightarrow> live n" "overridden n \<Longrightarrow> live n" "rn_reset n = stepSent \<Longrightarrow> live n"
  by (simp_all add: live_def node_state_def)

text \<open>Which machine and which link a node stands for.\<close>

definition same_machine :: "reinstall_node \<Rightarrow> reinstall_node \<Rightarrow> bool" where
  "same_machine n n' \<longleftrightarrow> rn_client n' = rn_client n \<and> node_link n' = node_link n"

lemma same_machine_facts:
  assumes "same_machine n n'"
  shows "node_file a root n' = node_file a root n" "node_host n' = node_host n" "rn_client n' = rn_client n"
  using assms by (simp_all add: same_machine_def node_file_def node_host_def)

lemma accounted_map:
  assumes "accounted a root view over w0 A B ns w" and "length ns' = length ns"
    and same: "\<And>i. i < length ns \<Longrightarrow> same_machine (ns ! i) (ns' ! i)"
    and A: "\<And>i. i < length ns \<Longrightarrow> A (ns ! i) \<Longrightarrow> A' (ns' ! i)" and B: "\<And>i. i < length ns \<Longrightarrow> B (ns ! i) \<Longrightarrow> B' (ns' ! i)"
  shows "accounted a root view over w0 A' B' ns' w"
proof -
  have "\<exists>n\<in>set ns'. node_file a root n = f \<and> A' n" if "n \<in> set ns" "node_file a root n = f" "A n" for n f
  proof -
    from that obtain i where i: "i < length ns" "n = ns ! i" by (auto simp: in_set_conv_nth)
    with that A [OF i(1)] same_machine_facts(1) [OF same [OF i(1)], of a root] assms(2) show ?thesis by (intro bexI [of _ "ns' ! i"]) auto
  qed
  moreover have "\<exists>n\<in>set ns'. node_host n = h \<and> B' n" if "n \<in> set ns" "node_host n = h" "B n" for n h
  proof -
    from that obtain i where i: "i < length ns" "n = ns ! i" by (auto simp: in_set_conv_nth)
    with that B [OF i(1)] same_machine_facts(2) [OF same [OF i(1)]] assms(2) show ?thesis by (intro bexI [of _ "ns' ! i"]) auto
  qed
  ultimately show ?thesis using assms(1) unfolding accounted_def by blast
qed

lemma accounted_world:
  assumes "accounted a root view over w0 A B ns w" and "view w' = view w" and "\<And>h. over w' h \<Longrightarrow> over w h"
  shows "accounted a root view over w0 A B ns w'"
  using assms unfolding accounted_def by auto

section \<open>Notes on a node\<close>

lemma note_node_fields [simp]:
  "rn_boot_link (note_node a what e n) = rn_boot_link n" "rn_boot_once (note_node a what e n) = rn_boot_once n"
  "rn_reset (note_node a what e n) = rn_reset n" "rn_client (note_node a what e n) = rn_client n" "node_link (note_node a what e n) = node_link n"
  by (auto simp: note_node_def node_link_def split: option.splits)

lemma node_link_updates [simp]:
  "node_link (n\<lparr>rn_boot_link := x\<rparr>) = node_link n" "node_link (n\<lparr>rn_boot_once := x\<rparr>) = node_link n" "node_link (n\<lparr>rn_reset := x\<rparr>) = node_link n"
  "node_link (n\<lparr>rn_state := x\<rparr>) = node_link n" "node_link (n\<lparr>rn_errors := xs\<rparr>) = node_link n"
  by (simp_all add: node_link_def)

lemma notes_same:
  "same_machine n (note_link l n)" "same_machine n (note_once a e n)" "same_machine n (note_reset a e n)"
  "same_machine n (note_cleared a e n)" "same_machine n (note_removed l n)" "same_machine n (n\<lparr>rn_state := x\<rparr>)"
  by (auto simp: same_machine_def note_link_def note_once_def note_reset_def note_cleared_def note_removed_def Let_def)

lemma undo_fields [simp]: "rn_boot_link (note_cleared a e n) = rn_boot_link n" "rn_boot_once (note_removed l n) = rn_boot_once n"
  by (auto simp: note_cleared_def note_removed_def)

lemma step_fields [simp]:
  "linked (note_reset a e n) = linked n" "overridden (note_reset a e n) = overridden n" "linked (note_once a e n) = linked n"
  "rn_reset (note_reset a e n) = stepOutcome e stepSent" "rn_boot_once (note_once a e n) = stepOutcome e bl_set"
  "rn_boot_link (note_link l n) = bl_result l" "rn_boot_once (note_link l n) = rn_boot_once n"
  by (simp_all add: note_reset_def note_once_def note_link_def linked_def overridden_def Let_def)

lemma same_machine_trans: "same_machine n n' \<Longrightarrow> same_machine n' n'' \<Longrightarrow> same_machine n n''"
  by (simp add: same_machine_def)

lemma same_machine_refl: "same_machine n n"
  by (simp add: same_machine_def)

lemma update_at_length [simp]: "length (update_at g is xs ns) = length ns"
  by (induction g "is" xs ns rule: update_at.induct) simp_all

lemma update_at_other: "j \<notin> set is \<Longrightarrow> update_at g is xs ns ! j = ns ! j"
  by (induction g "is" xs ns rule: update_at.induct) simp_all

lemma update_at_nth:
  "distinct is \<Longrightarrow> k < length is \<Longrightarrow> length xs = length is \<Longrightarrow> is ! k < length ns \<Longrightarrow>
   update_at g is xs ns ! (is ! k) = g (xs ! k) (ns ! (is ! k))"
proof (induction g "is" xs ns arbitrary: k rule: update_at.induct)
  case (1 g i "is" x xs ns)
  show ?case
  proof (cases k)
    case 0
    with 1 show ?thesis by (simp add: update_at_other)
  next
    case (Suc k')
    with 1(2,3) have "is ! k' \<noteq> i" by (metis Suc_less_eq distinct.simps(2) length_Cons nth_mem)
    with 1 Suc show ?thesis by simp
  qed
qed simp_all

text \<open>What a change at some positions makes of each node, when it is one of these or none.\<close>

lemma update_at_cases:
  assumes "distinct is" and "\<forall>i\<in>set is. i < length ns" and "length xs = length is" and "j < length ns"
  obtains "j \<notin> set is" "update_at g is xs ns ! j = ns ! j"
  | k where "k < length is" "is ! k = j" "update_at g is xs ns ! j = g (xs ! k) (ns ! j)"
proof (cases "j \<in> set is")
  case True
  then obtain k where "k < length is" "is ! k = j" by (auto simp: in_set_conv_nth)
  with update_at_nth [OF assms(1) this(1) assms(3), of ns g] assms(4) that(2) show ?thesis by simp
qed (use update_at_other that(1) in blast)

section \<open>Undoing\<close>

text \<open>What the exchanges do, out of the hypotheses on the machine room.\<close>

lemma room_facts:
  assumes "machine_room P a role view over"
  shows "pxe_host a role view"
    and "over (snd (RunOnRole a role req w)) = over w"
    and "view (snd (po_set_override P c w)) = view w"
    and "over (snd (po_set_override P c w)) h \<Longrightarrow> over w h \<or> rc_host c = h \<and> maybe_sent (out_error (fst (po_set_override P c w)))"
    and "view (snd (po_clear_override P c w)) = view w"
    and "over (snd (po_clear_override P c w)) h \<Longrightarrow> over w h"
    and "out_error (fst (po_clear_override P c w)) = None \<Longrightarrow> \<not> over (snd (po_clear_override P c w)) (rc_host c)"
    and "view (snd (po_reset P c w)) = view w"
    and "over (snd (po_reset P c w)) h \<Longrightarrow> over w h"
    and "view (snd (po_modify_keys P g w)) = view w"
    and "over (snd (po_modify_keys P g w)) = over w"
  using assms unfolding machine_room_def by blast+

lemma runLinkScript_over:
  assumes "machine_room P a role view over"
  shows "over (snd (runLinkScript a role script stdin links done w)) = over w"
  using room_facts(2) [OF assms, of "no_request\<lparr>rq_script := script, rq_stdin := Some stdin\<rparr>" w]
  by (auto simp: runLinkScript_def Let_def split: prod.splits)

lemma boot_links_over:
  assumes "machine_room P a role view over"
  shows "over (snd (writeBootLinks a role root links w)) = over w" "over (snd (removeBootLinks a role root links w)) = over w"
  using runLinkScript_over [OF assms] by (simp_all add: writeBootLinks_def removeBootLinks_def split: sum.splits)

lemma clear_all:
  assumes "machine_room P a role view over" and "ready ns" and "sendToBMCs P a ns (po_clear_override P) w = (errs, w')"
  shows "view w' = view w" and "over w' h \<Longrightarrow> over w h"
    and "i < length ns \<Longrightarrow> errs ! i = None \<Longrightarrow> \<not> over w' (node_host (ns ! i))"
proof -
  let ?R = "\<lambda>w w'. view w' = view w \<and> (\<forall>h. over w' h \<longrightarrow> over w h)" and ?S = "\<lambda>c w. \<not> over w (rc_host c)"
  note r = room_facts [OF assms(1)]
  have one: "?R u (snd (po_clear_override P c u)) \<and> (out_error (fst (po_clear_override P c u)) = None \<longrightarrow> ?S c (snd (po_clear_override P c u)))" for c u
    using r(5,6,7) by blast
  have "?R w w' \<and> (\<forall>i<length ns. errs ! i = None \<longrightarrow> ?S (the (rn_client (ns ! i))) w')"
    by (rule send_stable [where R = ?R and S = ?S, OF assms(2,3) one]) auto
  then show "view w' = view w" "over w' h \<Longrightarrow> over w h" "i < length ns \<Longrightarrow> errs ! i = None \<Longrightarrow> \<not> over w' (node_host (ns ! i))"
    by (simp_all add: node_host_def)
qed

definition links_are_static :: "('ns, 'w) app \<Rightarrow> reinstall_node list \<Rightarrow> bool" where
  "links_are_static a ns \<longleftrightarrow> list_all (\<lambda>n. px_static_suffix (ap_pxe a) \<noteq> [] \<or> rn_mode n \<noteq> bootPersistent) ns"

text \<open>The links that are taken away, by the position of their node.\<close>

lemma removal_of_nodes:
  assumes room: "machine_room P a role view over" and static: "links_are_static a ns" and pos: "\<forall>i\<in>set is. i < length ns"
    and rm: "removeBootLinks a role root (map (\<lambda>i. node_link (ns ! i)) is) w = ((e, links), w')"
  shows "length links = length is" and "view w' f = view w f \<or> view w' f = None"
    and "k < length is \<Longrightarrow> bl_result (links ! k) = bl_removed \<Longrightarrow> view w' (node_file a root (ns ! (is ! k))) = None"
proof -
  let ?ls = "map (\<lambda>i. node_link (ns ! i)) is"
  note ident = removeBootLinks_idents [OF rm]
  show len: "length links = length is" using arg_cong [OF ident, of length] by simp
  have fresh: "\<forall>l\<in>set ?ls. bl_result l \<noteq> bl_removed" by (auto simp: node_link_def)
  note gone = removed_links_are_gone [OF room_facts(1) [OF room] rm]
  show "view w' f = view w f \<or> view w' f = None" by (rule conjunct1 [OF gone])
  assume k: "k < length is" and res: "bl_result (links ! k) = bl_removed"
  from same_idents [OF ident, of k] k have same: "bl_address (links ! k) = rn_address (ns ! (is ! k))" "bl_mode (links ! k) = rn_mode (ns ! (is ! k))"
    by (simp_all add: node_link_def)
  have "px_static_suffix (ap_pxe a) \<noteq> [] \<or> bl_mode (links ! k) \<noteq> bootPersistent"
    using static k pos by (auto simp: links_are_static_def list_all_length same)
  with gone fresh res k len have "view w' (linkName a root (links ! k)) = None" by (metis nth_mem)
  then show "view w' (node_file a root (ns ! (is ! k))) = None"
    by (simp add: node_file_def linkName_def node_link_def same)
qed

text \<open>What the notes at some positions make of every node.\<close>

lemma cleared_nodes:
  assumes "distinct is" and "\<forall>i\<in>set is. i < length ns" and "length errs = length is" and j: "j < length ns"
    and off: "\<And>k. k < length is \<Longrightarrow> errs ! k = None \<Longrightarrow> \<not> on (node_host (ns ! (is ! k)))"
  shows "same_machine (ns ! j) (update_at (note_cleared a) is errs ns ! j)"
    and "rn_boot_link (update_at (note_cleared a) is errs ns ! j) = rn_boot_link (ns ! j)"
    and "j \<notin> set is \<Longrightarrow> update_at (note_cleared a) is errs ns ! j = ns ! j"
    and "overridden (ns ! j) \<Longrightarrow> on (node_host (ns ! j)) \<Longrightarrow> overridden (update_at (note_cleared a) is errs ns ! j)"
proof -
  let ?n = "update_at (note_cleared a) is errs ns ! j"
  have "same_machine (ns ! j) ?n \<and> rn_boot_link ?n = rn_boot_link (ns ! j) \<and> (j \<notin> set is \<longrightarrow> ?n = ns ! j) \<and>
      (overridden (ns ! j) \<and> on (node_host (ns ! j)) \<longrightarrow> overridden ?n)"
  proof (rule update_at_cases [OF assms(1-4), of "note_cleared a"])
    fix k assume k: "k < length is" "is ! k = j" "?n = note_cleared a (errs ! k) (ns ! j)"
    then have "j \<in> set is" by auto
    moreover have "overridden ?n" if "overridden (ns ! j)" "on (node_host (ns ! j))"
      using that off [OF k(1)] k by (auto simp: note_cleared_def overridden_def)
    ultimately show ?thesis using k(3) by (auto simp: notes_same)
  qed (simp add: same_machine_refl)
  then show "same_machine (ns ! j) ?n" "rn_boot_link ?n = rn_boot_link (ns ! j)" "j \<notin> set is \<Longrightarrow> ?n = ns ! j"
    "overridden (ns ! j) \<Longrightarrow> on (node_host (ns ! j)) \<Longrightarrow> overridden ?n" by blast+
qed

lemma removed_nodes:
  assumes "distinct is" and "\<forall>i\<in>set is. i < length ns" and "length links = length is" and j: "j < length ns"
    and gone: "\<And>k. k < length is \<Longrightarrow> bl_result (links ! k) = bl_removed \<Longrightarrow> \<not> there (is ! k)"
  shows "same_machine (ns ! j) (update_at note_removed is links ns ! j)"
    and "rn_boot_once (update_at note_removed is links ns ! j) = rn_boot_once (ns ! j)"
    and "j \<notin> set is \<Longrightarrow> update_at note_removed is links ns ! j = ns ! j"
    and "linked (ns ! j) \<Longrightarrow> there j \<Longrightarrow> linked (update_at note_removed is links ns ! j)"
proof -
  let ?n = "update_at note_removed is links ns ! j"
  have "same_machine (ns ! j) ?n \<and> rn_boot_once ?n = rn_boot_once (ns ! j) \<and> (j \<notin> set is \<longrightarrow> ?n = ns ! j) \<and>
      (linked (ns ! j) \<and> there j \<longrightarrow> linked ?n)"
  proof (rule update_at_cases [OF assms(1-4), of note_removed])
    fix k assume k: "k < length is" "is ! k = j" "?n = note_removed (links ! k) (ns ! j)"
    then have "j \<in> set is" by auto
    moreover have "linked ?n" if "linked (ns ! j)" "there j"
      using that gone [OF k(1)] k by (auto simp: note_removed_def linked_def)
    ultimately show ?thesis using k(3) by (auto simp: notes_same)
  qed (simp add: same_machine_refl)
  then show "same_machine (ns ! j) ?n" "rn_boot_once ?n = rn_boot_once (ns ! j)" "j \<notin> set is \<Longrightarrow> ?n = ns ! j"
    "linked (ns ! j) \<Longrightarrow> there j \<Longrightarrow> linked ?n" by blast+
qed

lemma disarm_links:
  assumes room: "machine_room P a (rp_role p) view over" and rdy: "ready (rp_nodes p)" and static: "links_are_static a (rp_nodes p)"
    and left: "distinct left" "\<forall>i\<in>set left. i < length (rp_nodes p)"
    and dis: "disarm P a p left w = (ns', w')"
  obtains errs links ns1 w1 where
    "ns1 = update_at (note_cleared a) (filter (\<lambda>i. overridden (rp_nodes p ! i)) left) errs (rp_nodes p)"
    "length errs = length (filter (\<lambda>i. overridden (rp_nodes p ! i)) left)"
    "\<And>k. k < length errs \<Longrightarrow> errs ! k = None \<Longrightarrow> \<not> over w' (node_host (rp_nodes p ! (filter (\<lambda>i. overridden (rp_nodes p ! i)) left ! k)))"
    "\<And>h. over w' h \<Longrightarrow> over w h"
    "ns' = update_at note_removed (filter (\<lambda>i. linked (rp_nodes p ! i)) left) links ns1"
    "length links = length (filter (\<lambda>i. linked (rp_nodes p ! i)) left)"
    "\<And>f. view w' f = view w f \<or> view w' f = None"
    "\<And>k. k < length links \<Longrightarrow> bl_result (links ! k) = bl_removed \<Longrightarrow>
       view w' (node_file a (rp_root p) (rp_nodes p ! (filter (\<lambda>i. linked (rp_nodes p ! i)) left ! k))) = None"
proof -
  let ?ns = "rp_nodes p" and ?root = "rp_root p"
  let ?over = "filter (\<lambda>i. overridden (?ns ! i)) left" and ?lnk = "filter (\<lambda>i. linked (?ns ! i)) left"
  obtain errs w1 where clear: "sendToBMCs P a (map ((!) ?ns) ?over) (po_clear_override P) w = (errs, w1)" by (rule prod.exhaust)
  define ns1 where "ns1 = update_at (note_cleared a) ?over errs ?ns"
  have rdy': "ready (map ((!) ?ns) ?over)" using rdy left(2) by (auto simp: ready_def list_all_iff)
  have elen: "length errs = length ?over" using sendToBMCs_length [OF rdy' clear] by simp
  note cleared = clear_all [OF room rdy' clear]
  have off: "\<not> over w1 (node_host (?ns ! (?over ! k)))" if "k < length errs" "errs ! k = None" for k
    using cleared(3) [of k] that elen by simp
  show ?thesis
  proof (cases "?lnk = []")
    case True
    have "ns' = ns1 \<and> w' = w1" using dis clear True by (simp add: disarm_def Let_def ns1_def)
    with True cleared(1,2) off elen ns1_def show ?thesis by (intro that [of ns1 errs "[]"]) auto
  next
    case False
    obtain e links where rm: "removeBootLinks a (rp_role p) ?root (map (\<lambda>i. node_link (?ns ! i)) ?lnk) w1 = ((e, links), w')"
      and n: "ns' = update_at note_removed ?lnk links ns1"
      using dis clear False by (auto simp: disarm_def Let_def ns1_def split: prod.splits)
    have "\<forall>i\<in>set ?lnk. i < length ?ns" using left(2) by simp
    note rmf = removal_of_nodes [OF room static this rm]
    have ow: "over w' = over w1" using boot_links_over(2) [OF room, of ?root "map (\<lambda>i. node_link (?ns ! i)) ?lnk" w1] rm by simp
    show ?thesis
      by (rule that [of ns1 errs links]) (use rmf cleared(1,2) off elen ns1_def n ow in auto)
  qed
qed

lemma disarm_accounted:
  assumes room: "machine_room P a (rp_role p) view over" and rdy: "ready (rp_nodes p)" and static: "links_are_static a (rp_nodes p)"
    and acc: "accounted a (rp_root p) view over w0 linked overridden (rp_nodes p) w"
    and left: "distinct left" "\<forall>i\<in>set left. i < length (rp_nodes p)"
    and sent: "\<And>i. i < length (rp_nodes p) \<Longrightarrow> i \<notin> set left \<Longrightarrow> rn_reset (rp_nodes p ! i) = stepSent"
    and dis: "disarm P a p left w = (ns', w')"
  shows "accounted a (rp_root p) view over w0 live live ns' w' \<and> length ns' = length (rp_nodes p)"
proof (rule disarm_links [OF room rdy static left dis])
  let ?ns = "rp_nodes p" and ?root = "rp_root p"
  let ?over = "filter (\<lambda>i. overridden (?ns ! i)) left" and ?lnk = "filter (\<lambda>i. linked (?ns ! i)) left"
  fix errs links ns1
  assume ns1: "ns1 = update_at (note_cleared a) ?over errs ?ns" and elen: "length errs = length ?over"
    and off: "\<And>k. k < length errs \<Longrightarrow> errs ! k = None \<Longrightarrow> \<not> over w' (node_host (?ns ! (?over ! k)))"
    and ow: "\<And>h. over w' h \<Longrightarrow> over w h"
    and ns': "ns' = update_at note_removed ?lnk links ns1" and llen: "length links = length ?lnk"
    and vw: "\<And>f. view w' f = view w f \<or> view w' f = None"
    and gone: "\<And>k. k < length links \<Longrightarrow> bl_result (links ! k) = bl_removed \<Longrightarrow> view w' (node_file a ?root (?ns ! (?lnk ! k))) = None"
  have pos: "distinct ?over" "\<forall>i\<in>set ?over. i < length ?ns" "distinct ?lnk" "\<forall>i\<in>set ?lnk. i < length ns1"
    using left by (auto simp: ns1)
  let ?there = "\<lambda>j. view w' (node_file a ?root (?ns ! j)) \<noteq> None"
  have c: "same_machine (?ns ! j) (ns1 ! j)" "rn_boot_link (ns1 ! j) = rn_boot_link (?ns ! j)" "j \<notin> set ?over \<Longrightarrow> ns1 ! j = ?ns ! j"
      "overridden (?ns ! j) \<Longrightarrow> over w' (node_host (?ns ! j)) \<Longrightarrow> overridden (ns1 ! j)" if "j < length ?ns" for j
    unfolding ns1 using cleared_nodes [OF pos(1,2) elen that, of "over w'"] off elen by simp_all
  have r: "same_machine (ns1 ! j) (ns' ! j)" "rn_boot_once (ns' ! j) = rn_boot_once (ns1 ! j)" "j \<notin> set ?lnk \<Longrightarrow> ns' ! j = ns1 ! j"
      "linked (ns1 ! j) \<Longrightarrow> ?there j \<Longrightarrow> linked (ns' ! j)" if "j < length ns1" for j
    unfolding ns' using removed_nodes [OF pos(3,4) llen that, of ?there] gone llen by simp_all
  have len: "length ns1 = length ?ns" "length ns' = length ?ns" by (simp_all add: ns1 ns')
  have same: "same_machine (?ns ! j) (ns' ! j)" if "j < length ?ns" for j
    using same_machine_trans [OF c(1) [OF that]] r(1) [of j] that len by simp
  have out: "live (ns' ! j)" if "j < length ?ns" "j \<notin> set left" for j
    using c(3) [of j] r(3) [of j] sent [OF that] that len by (simp add: live_intros)
  have lnk: "live (ns' ! j)" if "j < length ?ns" "linked (?ns ! j)" "?there j" for j
  proof -
    have "linked (ns1 ! j)" using c(2) [OF that(1)] that(2) by (simp add: linked_def)
    then show ?thesis using r(4) [of j] that len by (simp add: live_intros)
  qed
  have ovr: "live (ns' ! j)" if "j < length ?ns" "overridden (?ns ! j)" "over w' (node_host (?ns ! j))" for j
  proof -
    have "overridden (ns1 ! j)" by (rule c(4) [OF that])
    then show ?thesis using r(2) [of j] that len by (simp add: live_intros overridden_def)
  qed
  have "accounted a ?root view over w0 (\<lambda>n. linked n \<and> view w' (node_file a ?root n) \<noteq> None) (\<lambda>n. overridden n \<and> over w' (node_host n)) ?ns w'"
    unfolding accounted_def
  proof (intro conjI allI impI)
    fix f assume f: "view w' f \<noteq> view w0 f"
    show "view w' f = None \<or> (\<exists>n\<in>set ?ns. node_file a ?root n = f \<and> linked n \<and> view w' (node_file a ?root n) \<noteq> None)"
      using vw [of f] f acc unfolding accounted_def by metis
  next
    fix h assume "over w' h \<and> \<not> over w0 h"
    then show "\<exists>n\<in>set ?ns. node_host n = h \<and> overridden n \<and> over w' (node_host n)"
      using ow [of h] acc unfolding accounted_def by metis
  qed
  then show ?thesis using accounted_map [OF _ len(2) same, of a ?root view over w0 _ _ w' live live] lnk ovr len(2) by simp
qed

section \<open>The steps\<close>

abbreviation reported ::
  "('ns, 'w) app \<Rightarrow> string \<Rightarrow> ('w \<Rightarrow> link_map) \<Rightarrow> ('w \<Rightarrow> string \<Rightarrow> bool) \<Rightarrow> 'w \<Rightarrow> reinstall_plan \<Rightarrow> 'w \<Rightarrow> bool" where
  "reported a root view over w0 p w \<equiv> accounted a root view over w0 said_live said_live (rp_nodes p) w"

lemma settled_reported:
  assumes "accounted a root view over w0 live live ns w"
  shows "accounted a root view over w0 said_live said_live (settle_nodes ns) w"
  by (rule accounted_map [OF assms]) (auto simp: settle_nodes_def notes_same live_def said_live_def)

lemma live_accounted:
  assumes "accounted a root view over w0 linked overridden ns w"
  shows "accounted a root view over w0 live live ns w"
  by (rule accounted_map [OF assms]) (auto simp: same_machine_refl live_intros)

text \<open>What a plan keeps from one step to the next.\<close>

definition plan_state ::
  "('ns, 'w) app \<Rightarrow> ('w \<Rightarrow> link_map) \<Rightarrow> ('w \<Rightarrow> string \<Rightarrow> bool) \<Rightarrow> 'w \<Rightarrow> reinstall_plan \<Rightarrow> 'w \<Rightarrow> bool" where
  "plan_state a view over w0 p w \<longleftrightarrow>
     ready (rp_nodes p) \<and> links_are_static a (rp_nodes p) \<and> accounted a (rp_root p) view over w0 linked overridden (rp_nodes p) w"

lemma fail_plan_reported:
  assumes room: "machine_room P a (rp_role p) view over" and st: "plan_state a view over w0 p w"
    and left: "distinct left" "\<forall>i\<in>set left. i < length (rp_nodes p)"
    and sent: "\<And>i. i < length (rp_nodes p) \<Longrightarrow> i \<notin> set left \<Longrightarrow> rn_reset (rp_nodes p ! i) = stepSent"
    and f: "fail_plan L P a p step err left w = ((e, p'), w')"
  shows "reported a (rp_root p) view over w0 p' w'"
proof -
  obtain ns where d: "disarm P a p left w = (ns, w')" and p': "p' = p\<lparr>rp_nodes := settle_nodes ns\<rparr>"
    using f by (auto simp: fail_plan_def Let_def split: prod.splits)
  from st have "accounted a (rp_root p) view over w0 live live ns w'"
    unfolding plan_state_def by (intro disarm_accounted [OF room _ _ _ left sent d, THEN conjunct1]) auto
  then show ?thesis by (simp add: p' settled_reported)
qed

lemma all_nodes_facts: "distinct (all_nodes p)" "\<forall>i\<in>set (all_nodes p). i < length (rp_nodes p)" "i < length (rp_nodes p) \<Longrightarrow> i \<in> set (all_nodes p)"
  by (simp_all add: all_nodes_def)

lemma map_ready:
  assumes "length ns' = length ns" and same: "\<And>i. i < length ns \<Longrightarrow> same_machine (ns ! i) (ns' ! i)"
  shows "ready ns' = ready ns" "links_are_static a ns' = links_are_static a ns"
proof -
  have mode: "rn_mode (ns' ! i) = rn_mode (ns ! i)" if "i < length ns" for i
  proof -
    have "bl_mode (node_link (ns' ! i)) = bl_mode (node_link (ns ! i))" using same [OF that] by (simp add: same_machine_def)
    then show ?thesis by (simp add: node_link_def)
  qed
  show "ready ns' = ready ns" "links_are_static a ns' = links_are_static a ns"
    using assms mode by (auto simp: ready_def links_are_static_def list_all_length same_machine_def)
qed

text \<open>A note that touches no link and no override keeps the state.\<close>

lemma plan_state_map:
  assumes st: "plan_state a view over w0 p w" and len: "length (rp_nodes p') = length (rp_nodes p)" and root: "rp_root p' = rp_root p"
    and same: "\<And>i. i < length (rp_nodes p) \<Longrightarrow> same_machine (rp_nodes p ! i) (rp_nodes p' ! i)"
    and keeps: "\<And>i. i < length (rp_nodes p) \<Longrightarrow> linked (rp_nodes p ! i) \<Longrightarrow> linked (rp_nodes p' ! i)"
      "\<And>i. i < length (rp_nodes p) \<Longrightarrow> overridden (rp_nodes p ! i) \<Longrightarrow> overridden (rp_nodes p' ! i)"
  shows "plan_state a view over w0 p' w"
proof -
  have "accounted a (rp_root p) view over w0 linked overridden (rp_nodes p') w"
    by (rule accounted_map [where A = linked and B = overridden, OF _ len same]) (use st keeps in \<open>auto simp: plan_state_def\<close>)
  moreover have "ready (rp_nodes p') = ready (rp_nodes p)" by (rule map_ready(1) [OF len same])
  moreover have "links_are_static a (rp_nodes p') = links_are_static a (rp_nodes p)" by (rule map_ready(2) [OF len same])
  ultimately show ?thesis using st root by (simp add: plan_state_def)
qed

lemma reset_all:
  assumes "machine_room P a role view over" and "ready ns" and "sendToBMCs P a ns (po_reset P) w = (errs, w')"
  shows "view w' = view w" and "over w' h \<Longrightarrow> over w h"
proof -
  let ?R = "\<lambda>w w'. view w' = view w \<and> (\<forall>h. over w' h \<longrightarrow> over w h)"
  have one: "?R u (snd (po_reset P c u)) \<and> (out_error (fst (po_reset P c u)) = None \<longrightarrow> True)" for c u
    using room_facts(8,9) [OF assms(1)] by blast
  have "?R w w' \<and> (\<forall>i<length ns. errs ! i = None \<longrightarrow> True)"
    by (rule send_stable [where R = ?R and S = "\<lambda>_ _. True", OF assms(2,3) one]) auto
  then show "view w' = view w" "over w' h \<Longrightarrow> over w h" by blast+
qed

lemma reset_nodes_reported:
  assumes room: "machine_room P a (rp_role p) view over" and st: "plan_state a view over w0 p w"
    and r: "reset_nodes L is_usage P a p noReset w = ((e, p'), w')"
  shows "reported a (rp_root p) view over w0 p' w'"
proof (cases noReset)
  case True
  with r st show ?thesis by (auto simp: reset_nodes_def plan_state_def live_accounted settled_reported)
next
  case False
  obtain errs w1 where send: "sendToBMCs P a (rp_nodes p) (po_reset P) w = (errs, w1)" by (rule prod.exhaust)
  from st have rdy: "ready (rp_nodes p)" by (simp add: plan_state_def)
  note len = sendToBMCs_length [OF rdy send]
  define q where "q = p\<lparr>rp_nodes := map2 (note_reset a) errs (rp_nodes p)\<rparr>"
  have st1: "plan_state a view over w0 p w1"
    using st accounted_world [OF _ reset_all(1) [OF room rdy send], of a "rp_root p" over w0 linked overridden "rp_nodes p"] reset_all(2) [OF room rdy send]
    unfolding plan_state_def by blast
  have st2: "plan_state a view over w0 q w1"
    by (rule plan_state_map [OF st1]) (auto simp: q_def len notes_same)
  have room': "machine_room P a (rp_role q) view over" and root: "rp_root q = rp_root p" using room by (simp_all add: q_def)
  show ?thesis
  proof (cases "namedFailures is_usage errs")
    case None
    with r False send have "p' = q\<lparr>rp_nodes := settle_nodes (rp_nodes q)\<rparr>" "w' = w1"
      by (simp_all add: reset_nodes_def q_def Let_def)
    with st2 show ?thesis by (simp add: plan_state_def live_accounted settled_reported root)
  next
    case (Some x)
    let ?left = "filter (\<lambda>i. errs ! i \<noteq> None) (all_nodes q)"
    from r False send Some have f: "fail_plan L P a q ''resetting the machines'' x ?left w1 = ((e, p'), w')"
      by (simp add: reset_nodes_def q_def Let_def)
    have "reported a (rp_root q) view over w0 p' w'"
    proof (rule fail_plan_reported [OF room' st2 _ _ _ f])
      fix i assume i: "i < length (rp_nodes q)" "i \<notin> set ?left"
      then have "errs ! i = None" by (simp add: all_nodes_def)
      with i(1) show "rn_reset (rp_nodes q ! i) = stepSent" by (simp add: q_def len stepOutcome_def)
    qed (auto simp: all_nodes_def)
    then show ?thesis by (simp add: root)
  qed
qed

lemma keys_and_reset_reported:
  assumes room: "machine_room P a (rp_role p) view over" and st: "plan_state a view over w0 p w"
    and r: "keys_and_reset L is_usage P a p noReset w = ((e, p'), w')"
  shows "reported a (rp_root p) view over w0 p' w'"
proof (cases "rp_known_hosts p")
  case False
  with r reset_nodes_reported [OF room st] show ?thesis by (simp add: keys_and_reset_def)
next
  case True
  obtain x w1 where k: "forget_keys P p w = (x, w1)" by (rule prod.exhaust)
  have "w1 = snd (forget_keys P p w)" using k by simp
  then have "view w1 = view w" "over w1 = over w" using room_facts(10,11) [OF room] by (simp_all add: forget_keys_def)
  with st have st1: "plan_state a view over w0 p w1" unfolding plan_state_def using accounted_world by metis
  show ?thesis
  proof (cases x)
    case None
    let ?q = "p\<lparr>rp_keys_forgotten := True\<rparr>"
    from r True k None have r': "reset_nodes L is_usage P a ?q noReset w1 = ((e, p'), w')" by (simp add: keys_and_reset_def)
    have "plan_state a view over w0 ?q w1" using st1 by (simp add: plan_state_def)
    from reset_nodes_reported [OF _ this r'] room show ?thesis by simp
  next
    case (Some y)
    with r True k have "fail_plan L P a p ''forgetting the host keys'' y (all_nodes p) w1 = ((e, p'), w')" by (simp add: keys_and_reset_def)
    then show ?thesis using fail_plan_reported [OF room st1 all_nodes_facts(1,2)] all_nodes_facts(3) by blast
  qed
qed


text \<open>The override of a node is seen from the request that may have set it on.\<close>

lemma boot_once_reported:
  assumes room: "machine_room P a (rp_role p) view over" and st: "plan_state a view over w0 p w" and off: "over w = over w0"
    and r: "boot_once L is_usage P a p noReset w = ((e, p'), w')"
  shows "reported a (rp_root p) view over w0 p' w'"
proof -
  obtain errs w1 where send: "sendToBMCs P a (rp_nodes p) (po_set_override P) w = (errs, w1)" by (rule prod.exhaust)
  from st have rdy: "ready (rp_nodes p)" by (simp add: plan_state_def)
  note len = sendToBMCs_length [OF rdy send] and facts = room_facts [OF room]
  define q where "q = p\<lparr>rp_nodes := map2 (note_once a) errs (rp_nodes p)\<rparr>"
  have vw: "view w1 = view w"
  proof -
    let ?R = "\<lambda>w w'. view w' = view w"
    have "?R w w1 \<and> (\<forall>i<length (rp_nodes p). errs ! i = None \<longrightarrow> True)"
      by (rule send_stable [where R = ?R and S = "\<lambda>_ _. True", OF rdy send]) (simp_all add: facts(3))
    then show ?thesis by blast
  qed
  have on: "\<exists>n\<in>set (rp_nodes q). node_host n = h \<and> overridden n" if "over w1 h" "\<not> over w0 h" for h
  proof -
    have one: "over u h \<or> rc_host c = h \<and> maybe_sent (out_error (fst (po_set_override P c u)))"
      if "over (snd (po_set_override P c u)) h" for c u using facts(4) [OF that] .
    from send_cause [where G = "\<lambda>w. over w h" and C = "\<lambda>c. rc_host c = h", OF rdy send that(1) one] that(2) off
    obtain i where i: "i < length (rp_nodes p)" "rc_host (the (rn_client (rp_nodes p ! i))) = h" "maybe_sent (errs ! i)" by auto
    have at: "rp_nodes q ! i = note_once a (errs ! i) (rp_nodes p ! i)" "i < length (rp_nodes q)" using i(1) by (simp_all add: q_def len)
    have "overridden (rp_nodes q ! i)"
      using i(3) by (auto simp: at overridden_def stepOutcome_def maybe_sent_def not_sent_def split: option.splits)
    moreover have "node_host (rp_nodes q ! i) = h"
      using i(2) same_machine_facts(2) [OF notes_same(2), of a "errs ! i" "rp_nodes p ! i"] by (simp add: at node_host_def)
    ultimately show ?thesis using at(2) by auto
  qed
  have same: "same_machine (rp_nodes p ! i) (rp_nodes q ! i)" if "i < length (rp_nodes p)" for i
    using that by (simp add: q_def len notes_same)
  have qlen: "length (rp_nodes q) = length (rp_nodes p)" by (simp add: q_def len)
  have "accounted a (rp_root p) view over w0 linked (\<lambda>_. True) (rp_nodes q) w"
    by (rule accounted_map [where A = linked and B = overridden, OF _ qlen same]) (use st in \<open>auto simp: plan_state_def q_def len\<close>)
  with vw on have "accounted a (rp_root q) view over w0 linked overridden (rp_nodes q) w1"
    by (simp add: accounted_def) (simp add: q_def)
  moreover have "ready (rp_nodes q) = ready (rp_nodes p)" by (rule map_ready(1) [OF qlen same])
  moreover have "links_are_static a (rp_nodes q) = links_are_static a (rp_nodes p)" by (rule map_ready(2) [OF qlen same])
  ultimately have st1: "plan_state a view over w0 q w1" using st by (simp add: plan_state_def)
  have root: "rp_root q = rp_root p" and room': "machine_room P a (rp_role q) view over" using room by (simp_all add: q_def)
  show ?thesis
  proof (cases "namedFailures is_usage errs")
    case None
    with r send have "keys_and_reset L is_usage P a q noReset w1 = ((e, p'), w')" by (simp add: boot_once_def q_def Let_def)
    from keys_and_reset_reported [OF room' st1 this] show ?thesis by (simp add: root)
  next
    case (Some x)
    with r send have f: "fail_plan L P a q ''setting the machines to boot from the network once'' x (all_nodes q) w1 = ((e, p'), w')"
      by (simp add: boot_once_def q_def Let_def)
    have "reported a (rp_root q) view over w0 p' w'"
      by (rule fail_plan_reported [OF room' st1 all_nodes_facts(1,2) _ f]) (use all_nodes_facts(3) in blast)
    then show ?thesis by (simp add: root)
  qed
qed

text \<open>A plan as it is made: a client for each node, and the links of its nodes.\<close>

definition plan_ok :: "('ns, 'w) app \<Rightarrow> reinstall_plan \<Rightarrow> bool" where
  "plan_ok a p \<longleftrightarrow> ready (rp_nodes p) \<and> links_are_static a (rp_nodes p) \<and> map node_link (rp_nodes p) = map link_ident (rp_links p)"

lemma run_plan_reported:
  assumes room: "machine_room P a (rp_role p) view over" and ok: "plan_ok a p"
    and r: "run_plan L is_usage P a p noReset w = ((e, p'), w')"
  shows "reported a (rp_root p) view over w p' w'"
proof -
  obtain err links w1 where wr: "writeBootLinks a (rp_role p) (rp_root p) (rp_links p) w = ((err, links), w1)" by (metis prod.exhaust)
  note ident = writeBootLinks_idents [OF wr]
  have llen: "length links = length (rp_links p)" using arg_cong [OF ident, of length] by simp
  have nlen: "length (rp_links p) = length (rp_nodes p)" using ok by (metis length_map plan_ok_def)
  define q where "q = p\<lparr>rp_links := links, rp_nodes := map2 note_link links (rp_nodes p)\<rparr>"
  have ow: "over w1 = over w" using boot_links_over(1) [OF room, of "rp_root p" "rp_links p" w] wr by simp
  have qlen: "length (rp_nodes q) = length (rp_nodes p)" by (simp add: q_def llen nlen)
  have same: "same_machine (rp_nodes p ! i) (rp_nodes q ! i)" if "i < length (rp_nodes p)" for i
    using that by (simp add: q_def llen nlen notes_same)
  have at_file: "linkName a root (links ! i) = node_file a root (rp_nodes q ! i)" if i: "i < length links" for i root
  proof -
    have "node_link (rp_nodes p ! i) = link_ident (links ! i)"
      using ok i ident llen nlen by (metis length_map nth_map plan_ok_def)
    then have "bl_address (node_link (rp_nodes p ! i)) = bl_address (link_ident (links ! i))" "bl_mode (node_link (rp_nodes p ! i)) = bl_mode (link_ident (links ! i))"
      by simp_all
    then have "linkName a root (links ! i) = node_file a root (rp_nodes p ! i)" by (simp add: node_file_def linkName_def link_ident_def)
    with same_machine_facts(1) [OF same, of i a root] i llen nlen show ?thesis by simp
  qed
  have "accounted a (rp_root p) view over w linked overridden (rp_nodes q) w1"
    unfolding accounted_def
  proof (intro conjI allI impI)
    fix f assume "view w1 f \<noteq> view w f"
    from links_written [OF room_facts(1) [OF room] wr this]
    show "view w1 f = None \<or> (\<exists>n\<in>set (rp_nodes q). node_file a (rp_root p) n = f \<and> linked n)"
    proof (elim disjE bexE conjE)
      fix l assume l: "l \<in> set links" "linkName a (rp_root p) l = f" "bl_result l \<in> {bl_set, bl_unknown}"
      then obtain i where i: "i < length links" "l = links ! i" by (auto simp: in_set_conv_nth)
      with l(3) llen nlen have "linked (rp_nodes q ! i)" by (auto simp: q_def linked_def)
      with at_file [OF i(1)] l(2) i qlen llen nlen show ?thesis by (intro disjI2 bexI [of _ "rp_nodes q ! i"]) auto
    qed simp
  qed (simp add: ow)
  moreover have "ready (rp_nodes q) = ready (rp_nodes p)" by (rule map_ready(1) [OF qlen same])
  moreover have "links_are_static a (rp_nodes q) = links_are_static a (rp_nodes p)" by (rule map_ready(2) [OF qlen same])
  moreover have "rp_root q = rp_root p" by (simp add: q_def)
  ultimately have st: "plan_state a view over w q w1" using ok by (simp add: plan_state_def plan_ok_def)
  have root: "rp_root q = rp_root p" and room': "machine_room P a (rp_role q) view over" using room by (simp_all add: q_def)
  show ?thesis
  proof (cases err)
    case None
    with r wr have "boot_once L is_usage P a q noReset w1 = ((e, p'), w')" by (simp add: run_plan_def q_def Let_def)
    from boot_once_reported [OF room' st ow this] show ?thesis by (simp add: root)
  next
    case (Some x)
    with r wr have f: "fail_plan L P a q ''configuring the network boot'' x (all_nodes q) w1 = ((e, p'), w')"
      by (simp add: run_plan_def q_def Let_def)
    have "reported a (rp_root q) view over w p' w'"
      by (rule fail_plan_reported [OF room' st all_nodes_facts(1,2) _ f]) (use all_nodes_facts(3) in blast)
    then show ?thesis by (simp add: root)
  qed
qed


lemma plan_access_ok:
  assumes "plan_access a n w = (Inr n', w')" and "\<not> ap_dry_run a"
  shows "rn_client n' \<noteq> None \<and> node_link n' = node_link n"
  using assms by (auto simp: plan_access_def node_link_def split: prod.splits sum.splits)

lemma plan_names_ok: "plan_names a k n = Inr n' \<Longrightarrow> rn_client n' = rn_client n \<and> node_link n' = node_link n"
  by (auto simp: plan_names_def node_link_def split: if_splits sum.splits)

lemma plan_nodes_ok:
  assumes "plan_nodes a k ls w = (Inr ns, w')" and dry: "\<not> ap_dry_run a"
  shows "ready ns \<and> map node_link ns = map link_ident ls"
  using assms(1)
proof (induction ls arbitrary: ns w)
  case (Cons l ls)
  from Cons.prems obtain n n' ns' w1 where n: "plan_access a (blank_node l) w = (Inr n, w1)" "plan_names a k n = Inr n'"
    "plan_nodes a k ls w1 = (Inr ns', w')" "ns = n' # ns'"
    by (auto simp: abind_def alift_def split: prod.splits sum.splits)
  have "node_link (blank_node l) = link_ident l" by (simp add: node_link_def blank_node_def link_ident_def)
  with n plan_access_ok [OF n(1) dry] plan_names_ok [OF n(2)] Cons.IH [OF n(3)] show ?case by (auto simp: ready_def)
qed (simp add: alift_def ready_def)

lemma resolved_static:
  assumes "resolveBootLinks L a ns x b w = (Inr links, w')"
  shows "px_static_suffix (ap_pxe a) \<noteq> [] \<or> (\<forall>l\<in>set links. bl_mode l \<noteq> bootPersistent)"
  using assms
  by (auto simp: resolveBootLinks_def Let_def abind_def alift_def list_ex_iff rbind_Inr_iff split: prod.splits sum.splits if_splits)

lemma planReinstall_ok:
  assumes "planReinstall L a ns x k w = (Inr p, w')" and dry: "\<not> ap_dry_run a"
  shows "plan_ok a p \<and> pxeRole a = Inr (rp_role p) \<and> rp_root p = px_root (ap_pxe a)"
proof -
  from assms(1) obtain role links nodes w1 where p: "pxeRole a = Inr role" "resolveBootLinks L a ns x False w = (Inr links, w1)"
    "plan_nodes a k links w1 = (Inr nodes, w')"
    "p = \<lparr> rp_role = role, rp_root = px_root (ap_pxe a), rp_nodes = nodes, rp_links = links, rp_known_hosts = (\<not> k), rp_keys_forgotten = False \<rparr>"
    by (auto simp: planReinstall_def abind_def alift_def split: prod.splits sum.splits if_splits)
  note nodes = plan_nodes_ok [OF p(3) dry]
  have "px_static_suffix (ap_pxe a) \<noteq> [] \<or> rn_mode n \<noteq> bootPersistent" if "n \<in> set nodes" for n
  proof -
    from that nodes have "node_link n \<in> set (map link_ident links)" by (metis imageI list.set_map)
    then obtain l where "l \<in> set links" "node_link n = link_ident l" by auto
    then have "l \<in> set links" "bl_mode (node_link n) = bl_mode (link_ident l)" by simp_all
    with resolved_static [OF p(2)] show ?thesis by (auto simp: node_link_def link_ident_def)
  qed
  with nodes p show ?thesis by (auto simp: plan_ok_def links_are_static_def list_all_iff)
qed

text \<open>
  C5. Nothing a reinstallation armed is left unnoticed, at whatever step it fails and whatever the
  undoing itself achieves: a boot link that is not what it was before is gone, or is the link of a
  node the plan reports as armed or as reinstalling; and a boot override that is on and was off is
  that of such a node.
\<close>
theorem nothing_stays_armed_unnoticed:
  assumes "planReinstall L a ns x keep w = (Inr p, w1)" and "\<not> ap_dry_run a" and "machine_room P a (rp_role p) view over"
    and "run_plan L is_usage P a p noReset w1 = ((e, p'), w')"
  shows "(view w' f \<noteq> view w1 f \<longrightarrow> view w' f = None \<or>
       (\<exists>n\<in>set (rp_nodes p'). node_file a (px_root (ap_pxe a)) n = f \<and> rn_state n \<in> {stateArmed, stateReinstalling})) \<and>
     (over w' h \<and> \<not> over w1 h \<longrightarrow>
       (\<exists>n\<in>set (rp_nodes p'). node_host n = h \<and> rn_state n \<in> {stateArmed, stateReinstalling}))"
proof -
  note p = planReinstall_ok [OF assms(1,2)]
  from run_plan_reported [OF assms(3) _ assms(4)] p show ?thesis
    unfolding accounted_def said_live_def by (simp add: disj_commute)
qed

section \<open>The order of the steps\<close>

definition armed_once :: "reinstall_node \<Rightarrow> bool" where
  "armed_once n \<longleftrightarrow> rn_boot_link n \<in> {bl_set, bl_removed} \<and> rn_boot_once n \<in> {bl_set, stepCleared}"

text \<open>What every note keeps, undoing keeps.\<close>

definition kept_by_undoing :: "('ns, 'w) app \<Rightarrow> (reinstall_node \<Rightarrow> bool) \<Rightarrow> bool" where
  "kept_by_undoing a Q \<longleftrightarrow>
     (\<forall>e n. Q n \<longrightarrow> Q (note_cleared a e n)) \<and> (\<forall>l n. Q n \<longrightarrow> Q (note_removed l n)) \<and> (\<forall>s n. Q n \<longrightarrow> Q (n\<lparr>rn_state := s\<rparr>))"

lemma update_at_all: "\<forall>n\<in>set ns. Q n \<Longrightarrow> (\<And>x n. Q n \<Longrightarrow> Q (g x n)) \<Longrightarrow> \<forall>n\<in>set (update_at g is xs ns). Q n"
proof (induction g "is" xs ns rule: update_at.induct)
  case (1 g i "is" x xs ns)
  have "\<forall>n\<in>set (ns[i := g x (ns ! i)]). Q n"
  proof (cases "i < length ns")
    case True
    with 1(2,3) have "Q (g x (ns ! i))" by simp
    with 1(2) set_update_subset_insert [of ns i "g x (ns ! i)"] show ?thesis by blast
  qed (use 1(2) in \<open>simp add: list_update_beyond\<close>)
  with 1(1,3) show ?case by simp
qed simp_all

lemma fail_plan_keeps:
  assumes keep: "kept_by_undoing a Q" and Q: "\<forall>n\<in>set (rp_nodes p). Q n" and f: "fail_plan L P a p step err left w = ((e, p'), w')"
  shows "(\<forall>n\<in>set (rp_nodes p'). Q n) \<and> rp_keys_forgotten p' = rp_keys_forgotten p"
proof -
  obtain ns where d: "disarm P a p left w = (ns, w')" and p': "p' = p\<lparr>rp_nodes := settle_nodes ns\<rparr>"
    using f by (auto simp: fail_plan_def Let_def split: prod.splits)
  have one: "\<forall>n\<in>set (update_at (note_cleared a) is errs (rp_nodes p)). Q n" for "is" errs
    by (rule update_at_all [OF Q]) (use keep in \<open>auto simp: kept_by_undoing_def\<close>)
  have two: "\<forall>n\<in>set (update_at note_removed is' links (update_at (note_cleared a) is errs (rp_nodes p))). Q n" for "is" errs is' links
    by (rule update_at_all [OF one]) (use keep in \<open>auto simp: kept_by_undoing_def\<close>)
  have "\<forall>n\<in>set ns. Q n" using d one two by (auto simp: disarm_def Let_def split: prod.splits if_splits)
  with keep show ?thesis by (auto simp: p' settle_nodes_def kept_by_undoing_def)
qed

lemma undoing_keeps: "kept_by_undoing a armed_once" "kept_by_undoing a (\<lambda>n. rn_reset n = [])"
  by (auto simp: kept_by_undoing_def armed_once_def note_cleared_def note_removed_def)

lemma settle_keeps: "kept_by_undoing a Q \<Longrightarrow> \<forall>n\<in>set ns. Q n \<Longrightarrow> \<forall>n\<in>set (settle_nodes ns). Q n"
  by (auto simp: settle_nodes_def kept_by_undoing_def)

lemma namedFailures_None: "namedFailures u errs = None \<Longrightarrow> e \<in> set errs \<Longrightarrow> e = None"
  by (auto simp: namedFailures_def Let_def List.map_filter_def filter_empty_conv split: if_splits)

lemma in_map2: "n \<in> set (map2 g xs ns) \<Longrightarrow> \<exists>x m. x \<in> set xs \<and> m \<in> set ns \<and> n = g x m"
  by (auto dest: set_zip_leftD set_zip_rightD)

text \<open>A link script ends well only when it reported every link as done.\<close>

lemma written_without_error:
  assumes "writeBootLinks a role root links w = ((None, links'), w')"
  shows "\<forall>l\<in>set links'. bl_result l = bl_set"
proof -
  have step: "\<forall>l\<in>set (note_report esc bl_set ls line). bl_result l \<in> {bl_set, bl_failed, bl_unknown}"
    if "\<forall>l\<in>set ls. bl_result l \<in> {bl_set, bl_failed, bl_unknown}" for esc ls line
    using that by (auto simp: note_report_def Let_def split: list.splits option.splits dest!: set_update_subset_insert [THEN subsetD])
  have all: "\<forall>l\<in>set (foldl (note_report esc bl_set) ls lines). bl_result l \<in> {bl_set, bl_failed, bl_unknown}"
    if "\<forall>l\<in>set ls. bl_result l \<in> {bl_set, bl_failed, bl_unknown}" for esc ls lines
    using that
  proof (induction lines arbitrary: ls)
    case (Cons line lines)
    from Cons.IH [OF step [OF Cons.prems]] show ?case by simp
  qed simp
  obtain stdin result e where "links_error links' e = None"
    "links' = (case result of None \<Rightarrow> unreported_links links | Some r \<Rightarrow> foldl (note_report (ap_escape a) bl_set) (unreported_links links) (Lines r))"
    using assms by (auto simp: writeBootLinks_def runLinkScript_def Let_def split: sum.splits prod.splits)
  moreover have "\<forall>l\<in>set (unreported_links links). bl_result l \<in> {bl_set, bl_failed, bl_unknown}" by (simp add: unreported_links_def)
  ultimately have "\<forall>l\<in>set links'. bl_result l \<in> {bl_set, bl_failed, bl_unknown} \<and> bl_result l \<noteq> bl_failed \<and> bl_result l \<noteq> bl_unknown"
    using all by (auto simp: links_error_def Let_def filter_empty_conv split: option.splits if_splits)
  then show ?thesis by blast
qed

lemma reset_step_armed:
  assumes "\<forall>n\<in>set (rp_nodes p). armed_once n" and "keys_and_reset L u P a p noReset w = ((e, p'), w')"
  shows "\<forall>n\<in>set (rp_nodes p'). armed_once n"
proof -
  have reset: "\<forall>n\<in>set (rp_nodes p'). armed_once n"
    if Q: "\<forall>n\<in>set (rp_nodes q). armed_once n" and r: "reset_nodes L u P a q noReset v = ((e, p'), w')" for q v
  proof -
    have noted: "\<forall>n\<in>set (map2 (note_reset a) errs (rp_nodes q)). armed_once n" for errs
      using Q by (auto dest: set_zip_rightD simp: armed_once_def note_reset_def)
    show ?thesis
    proof (cases noReset)
      case True
      with r have "p' = q\<lparr>rp_nodes := settle_nodes (rp_nodes q)\<rparr>" by (simp add: reset_nodes_def)
      with settle_keeps [OF undoing_keeps(1) Q] show ?thesis by simp
    next
      case False
      obtain errs u' where send: "sendToBMCs P a (rp_nodes q) (po_reset P) v = (errs, u')" by (rule prod.exhaust)
      let ?q = "q\<lparr>rp_nodes := map2 (note_reset a) errs (rp_nodes q)\<rparr>"
      have Q': "\<forall>n\<in>set (rp_nodes ?q). armed_once n" using noted [of errs] by simp
      show ?thesis
      proof (cases "namedFailures u errs")
        case None
        with r False send have "p' = ?q\<lparr>rp_nodes := settle_nodes (rp_nodes ?q)\<rparr>" by (simp add: reset_nodes_def Let_def)
        with settle_keeps [OF undoing_keeps(1) Q'] show ?thesis by simp
      next
        case (Some x)
        with r False send have "fail_plan L P a ?q ''resetting the machines'' x (filter (\<lambda>i. errs ! i \<noteq> None) (all_nodes ?q)) u' = ((e, p'), w')"
          by (simp add: reset_nodes_def Let_def)
        from fail_plan_keeps [OF undoing_keeps(1) Q' this] show ?thesis by blast
      qed
    qed
  qed
  show ?thesis
  proof (cases "rp_known_hosts p")
    case False
    with assms reset show ?thesis by (simp add: keys_and_reset_def)
  next
    case True
    obtain x v where k: "forget_keys P p w = (x, v)" by (rule prod.exhaust)
    show ?thesis
    proof (cases x)
      case None
      from True k None assms(2) have "reset_nodes L u P a (p\<lparr>rp_keys_forgotten := True\<rparr>) noReset v = ((e, p'), w')"
        by (simp add: keys_and_reset_def)
      from reset [OF _ this] assms(1) show ?thesis by simp
    next
      case (Some y)
      with True k assms(2) have "fail_plan L P a p ''forgetting the host keys'' y (all_nodes p) v = ((e, p'), w')" by (simp add: keys_and_reset_def)
      from fail_plan_keeps [OF undoing_keeps(1) assms(1) this] show ?thesis by blast
    qed
  qed
qed

lemma planned_untouched:
  assumes "planReinstall L a ns x keep w = (Inr p, w1)"
  shows "\<not> rp_keys_forgotten p \<and> (\<forall>n\<in>set (rp_nodes p). rn_reset n = [])"
proof -
  have acc: "rn_reset n' = rn_reset n" if "plan_access a n w = (Inr n', w')" for n n' w w'
    using that by (auto simp: plan_access_def abind_def alift_def split: prod.splits sum.splits if_splits)
  have nam: "rn_reset n' = rn_reset n" if "plan_names a k n = Inr n'" for k n n'
    using that by (auto simp: plan_names_def split: if_splits sum.splits)
  have nodes: "\<forall>n\<in>set ns. rn_reset n = []" if "plan_nodes a k ls w = (Inr ns, w')" for k ls ns w w'
    using that
  proof (induction ls arbitrary: ns w)
    case (Cons l ls)
    from Cons.prems obtain n n' ns' v where n: "plan_access a (blank_node l) w = (Inr n, v)" "plan_names a k n = Inr n'"
      "plan_nodes a k ls v = (Inr ns', w')" "ns = n' # ns'"
      by (auto simp: abind_def alift_def split: prod.splits sum.splits)
    with acc [OF n(1)] nam [OF n(2)] Cons.IH [OF n(3)] show ?case by (simp add: blank_node_def)
  qed (simp add: alift_def)
  from assms nodes show ?thesis
    by (auto simp: planReinstall_def abind_def alift_def split: prod.splits sum.splits if_splits)
qed


section \<open>An example\<close>

text \<open>One node, a host that does every record, and processors that do as they are told.\<close>

type_synonym room_world = "link_map \<times> string list"

definition room_runner :: "room_world runner" where
  "room_runner t req w = (case link_runner t req (fst w) of (r, m) \<Rightarrow> (r, (m, snd w)))"

definition room_app :: "(string list, room_world) app" where
  "room_app = (site_app room_runner)\<lparr>
     ap_inventory := site\<lparr>iv_nodes := [(''a'', (site_node ''a'' [] [])\<lparr>in_address := ''10.0.0.1'', in_bmc_address := ''m''\<rparr>)], iv_order := [''a'']\<rparr>,
     ap_bmc := (ap_bmc (site_app room_runner))\<lparr>bm_credential := ''c''\<rparr>\<rparr>"

definition room_ops :: "room_world prov_ops" where
  "room_ops = \<lparr> po_sched = (\<lambda>limit n w. [0..<n]),
     po_set_override = (\<lambda>c w. (Returned () None, (fst w, rc_host c # snd w))),
     po_clear_override = (\<lambda>c w. (Returned () None, (fst w, filter (\<lambda>h. h \<noteq> rc_host c) (snd w)))),
     po_reset = (\<lambda>c w. (Returned () None, w)), po_modify_keys = (\<lambda>g w. (None, w)), po_mac = (\<lambda>k s. []) \<rparr>"

definition sample_node :: reinstall_node where
  "sample_node = \<lparr> rn_node = ''a'', rn_address = ''10.0.0.1'', rn_boot_path = ''/b'', rn_mode = bootOnce, rn_bmc = ''m'',
     rn_boot_link = [], rn_boot_once = [], rn_reset = [], rn_state = stateUnchanged, rn_errors = [], rn_host_names = [],
     rn_client = Some \<lparr> rc_host = ''m'', rc_username = ''u'', rc_password = ''p'', rc_system_path = [], rc_reset_types = [],
       rc_timeout = 0, rc_verify = False, rc_min_tls = [] \<rparr> \<rparr>"

definition sample_plan :: reinstall_plan where
  "sample_plan = \<lparr> rp_role = ''pxe'', rp_root = ''/l'', rp_nodes = [sample_node], rp_links = [sample_link],
     rp_known_hosts = False, rp_keys_forgotten = False \<rparr>"

definition empty_room :: room_world where "empty_room = (Map.empty, [])"

lemma sample_planned: "fst (planReinstall name_list room_app [''a''] ''/b'' True empty_room) = Inr sample_plan"
  by code_simp

definition sample_run :: "(goerr option \<times> reinstall_plan) \<times> room_world" where
  "sample_run = run_plan name_list (\<lambda>e. False) room_ops room_app sample_plan False empty_room"

lemma sample_ran:
  "map rn_state (rp_nodes (snd (fst sample_run))) = [stateReinstalling]" "fst (snd sample_run) ''/l/10.0.0.1'' = Some ''/b''"
  by code_simp+

lemma room_app_fields:
  "ap_runner room_app = room_runner" "ap_command_timeout room_app = 0" "ap_escape room_app = (\<lambda>s. s)"
  "Role room_app ''pxe'' = Inr (no_target\<lparr>tg_name := ''pxe'', tg_host := ''p'', tg_role := ''pxe''\<rparr>)" "\<not> ap_dry_run room_app"
  by (simp_all add: room_app_def site_app_def Role_def find_key_def no_role_def no_target_def)

lemma room_run:
  "RunOnRole room_app ''pxe'' req w = (case RunOnRole pxe_app ''pxe'' req (fst w) of (r, m) \<Rightarrow> (r, (m, snd w)))"
  by (simp add: RunOnRole_def runOnRole_def Collect_def room_app_fields pxe_app_fields room_runner_def split: prod.splits sum.splits)

lemma sample_room: "machine_room room_ops room_app ''pxe'' fst (\<lambda>w h. h \<in> set (snd w))"
  unfolding machine_room_def
proof (intro conjI allI)
  show "pxe_host room_app ''pxe'' fst"
    unfolding pxe_host_def
  proof (intro allI)
    fix del stdin and w :: room_world
    show "\<exists>faults n. let rs = take n (triples (nul_fields stdin)); ((result, err), w') = RunOnRole room_app ''pxe'' (script_request del stdin) w in
        fst w' = run_ops del faults 0 rs (fst w) \<and>
        (case result of None \<Rightarrow> True | Some r \<Rightarrow> prefix (rs_stdout r) (line_text (op_lines faults rs)))"
    proof -
      obtain r err m where run: "RunOnRole pxe_app ''pxe'' (script_request del stdin) (fst w) = ((r, err), m)" by (metis prod.exhaust)
      with pxe_app_host [unfolded pxe_host_def, rule_format, of stdin del "fst w"] obtain faults n where
        "m = run_ops del faults 0 (take n (triples (nul_fields stdin))) (fst w)"
        "case r of None \<Rightarrow> True | Some r \<Rightarrow> prefix (rs_stdout r) (line_text (op_lines faults (take n (triples (nul_fields stdin)))))"
        by (auto simp: Let_def)
      then show ?thesis by (intro exI [of _ faults] exI [of _ n]) (simp add: room_run run Let_def)
    qed
  qed
  show "(\<lambda>h. h \<in> set (snd (snd (RunOnRole room_app ''pxe'' req w)))) = (\<lambda>h. h \<in> set (snd w))" for req w
    by (simp add: room_run split: prod.splits)
qed (auto simp: room_ops_def maybe_sent_def)

lemma sample_plan_world: "planReinstall name_list room_app [''a''] ''/b'' True empty_room = (Inr sample_plan, empty_room)"
proof -
  have "Q (snd (planReinstall name_list room_app [''a''] ''/b'' True w)) = (Q w :: bool)" for Q w by code_simp
  from this [of "\<lambda>w. w = empty_room" empty_room] sample_planned show ?thesis by (metis prod.collapse)
qed

definition ran_plan :: reinstall_plan where "ran_plan = snd (fst sample_run)"

lemma sample_run_parts: "run_plan name_list (\<lambda>e. False) room_ops room_app sample_plan False empty_room = ((fst (fst sample_run), ran_plan), snd sample_run)"
  by (simp add: sample_run_def ran_plan_def)

theorem nothing_stays_armed_unnoticed_witness:
  "\<exists>n\<in>set (rp_nodes ran_plan). node_file room_app ''/l'' n = ''/l/10.0.0.1'' \<and> rn_state n \<in> {stateArmed, stateReinstalling}"
proof -
  have app: "\<not> ap_dry_run room_app" "px_root (ap_pxe room_app) = ''/l''" by (simp_all add: room_app_def site_app_def)
  have room: "machine_room room_ops room_app (rp_role sample_plan) fst (\<lambda>w h. h \<in> set (snd w))"
    using sample_room by (simp add: sample_plan_def)
  have "fst (snd sample_run) ''/l/10.0.0.1'' \<noteq> fst empty_room ''/l/10.0.0.1''" "fst (snd sample_run) ''/l/10.0.0.1'' \<noteq> None"
    by (simp_all add: sample_ran(2) empty_room_def)
  with nothing_stays_armed_unnoticed [OF sample_plan_world app(1) room sample_run_parts, of "''/l/10.0.0.1''" "''m''"]
  show ?thesis unfolding app(2) by blast
qed


end
