(* ===== verification/Spec2Isabelle.thy ===== *)
theory Spec2Isabelle
  imports ShellQuote ExitCode Tmpl Naming SshTrust Outcome Safety SlurmProps DhcpLayout HostSlots Fanout PlanProps KnownHostsRemoval KnownHostsText KnownHostsProps InventoryProps Flights NodeExpr ConfigResolveProps ReinstallProps
begin

text \<open>
  A model of clusterctl, the program an administrator of a computing centre uses to run commands on
  nodes, power them, drain them in Slurm and find them in the site's files, and the theorems that
  make its core correct. The paths below are those of the repository.

  \<^bold>\<open>Conventions.\<close> A Go string is a list of \<^theory_text>\<open>char\<close>, one for each byte; what the source does by rune is
  written out by the UTF-8 bytes where it matters, and case mapping is that of ASCII. A function that
  returns a value and an error returns a sum, \<open>Inl\<close> the error; an error (\<open>goerr\<close> of \<open>ExitCode\<close>) keeps
  its exit code and what it wraps, and its message only where the code reads it. A Go map is a map, or
  an association list where the order is seen. Code with effects is a function from the state of the
  world, a parameter, to an answer and the state after it (\<open>act\<close> of \<open>Prelude\<close>); callers that run
  side by side are step relations (\<open>HostSlots\<close>, \<open>Flights\<close>), and every other fan-out is taken in
  the order of its targets. Code that is not in the repository is a parameter: the node set engine
  go-nodeset (\<open>NodeSet\<close>, with its documented laws as a locale), the regular expression compiler, the
  cell escaping of go-clikit, HMAC and digests, the terminal, the files and the clock, the YAML decoder.

  \<^bold>\<open>Foundations.\<close> \<open>Prelude\<close>: results, the loop that stops at the first error, facts on lists. \<open>GoStrings\<close>,
  \<open>GoFields\<close>, \<open>GoNumbers\<close>, \<open>GoNet\<close>: what the program uses of the packages strings, strconv, slices and
  net. \<open>ApiTypes\<close>: the configuration records of internal/apis/v1alpha1.

  \<^bold>\<open>Small packages.\<close> \<open>ShellQuote\<close> (internal/shellquote, with the word splitting of a POSIX shell as the
  reference), \<open>ExitCode\<close> (internal/exitcode), \<open>HostName\<close> (internal/hostname), \<open>Tmpl\<close> (internal/tmpl),
  \<open>Naming\<close> (internal/naming). They show that quoting is undone by a shell, that accepted names hold
  nothing a shell, ssh or a URL gives a meaning to, and that expansion is what its templates say.

  \<^bold>\<open>Reaching hosts.\<close> \<open>Remote\<close> and \<open>Outcome\<close> (internal/transport: transport.go, copy.go, fake.go): the one
  argument a request becomes, and how the end of ssh is classified, with the bounded capture of its
  output. \<open>SshConfig\<close>, \<open>SshConfigProps\<close>, \<open>SshTrust\<close> (sshconfig.go): the generated configuration, the
  jump hosts, and a reader of ssh_config by its manual page. They show that the words sent are the
  words received, that an exit code is what ssh and the contexts did, and that every host gets the
  trust settings of the site whatever is configured. The reader gives up, and so answers nothing, at
  Include and Match, which the theorems therefore exclude or never meet.
  \<open>HostSlots\<close>, \<open>Fanout\<close> (internal/fanout): places on a host, and the results of a fan-out.
  \<open>KnownHosts\<close>, \<open>KnownHostsChange\<close>, \<open>KnownHostsRemoval\<close>, \<open>KnownHostsText\<close>, \<open>KnownHostsProps\<close>
  (internal/hostkeys/hostkeys.go): the files of recorded host keys and their index.

  \<^bold>\<open>What there is.\<close> \<open>Inventory\<close>, \<open>InventoryProps\<close> (internal/inventory): building the nodes of a site,
  against an abstract record of each host by its entries. \<open>ConfigTree\<close>, \<open>ConfigTreeProps\<close>,
  \<open>ConfigResolve\<close>, \<open>ConfigResolveProps\<close> (internal/config: merge.go, document.go, load.go,
  effective.go): the layers of the configuration, refined to writes into a finite map.
  \<open>NodeGroups\<close>, \<open>NodeGroupsProps\<close>, \<open>Flights\<close> (internal/groups) and \<open>NodeExpr\<close> (internal/nodeexpr):
  groups of nodes, what is kept of answers, and the lookups callers share.
  \<open>Dhcp\<close>, \<open>DhcpLookup\<close>, \<open>DhcpProps\<close>, \<open>DhcpLayout\<close> (internal/dhcp/dhcp.go): the parser and its lookups.

  \<^bold>\<open>What is done.\<close> \<open>Safety\<close> (internal/safety): the gate of destructive commands. \<open>SlurmText\<close>,
  \<open>SlurmQuery\<close>, \<open>SlurmChange\<close>, \<open>SlurmJobs\<close>, \<open>SlurmProps\<close> (internal/slurm): queries and changes.
  \<open>Plans\<close>, \<open>PlanApply\<close>, \<open>PlanProps\<close> (internal/mcpserver/plan.go): planning and applying a change.

  \<^bold>\<open>How the parts meet.\<close> A command resolves the configuration (\<open>ConfigResolve\<close>), which gives the
  inventory, the groups and the ssh configuration; an expression is read with the groups (\<open>NodeExpr\<close>)
  into nodes, which pass the gate (\<open>Safety\<close>) and the job check (\<open>SlurmJobs\<close>) and become targets of
  requests (\<open>Remote\<close>, \<open>Fanout\<close>, \<open>HostSlots\<close>); what comes back is classified (\<open>Outcome\<close>) and becomes the
  exit code (\<open>ExitCode\<close>). \<open>PlanApply\<close> is built on the Slurm client, which is built on the runner of
  \<open>Remote\<close>.

  \<^bold>\<open>Termination and fuel.\<close> Every definition is total. Fuel is used in three places: the search of jump
  hosts (\<open>visit\<close>, \<open>jump_hosts\<close>), started with more than the number of hosts, which \<open>visit_enough_fuel\<close>
  shows to be enough; the blocks of a dhcpd configuration (\<open>block\<close>), started with more than the number
  of tokens, which \<open>block_total\<close> shows to be enough; and the files it includes, bounded by the depth
  the source bounds them by.

  \<^bold>\<open>Not modelled.\<close> Wording of messages that nothing reads; progress displays and tracing; the cobra
  command tree, tables and documents of the output; the protocol of the MCP server; HTTP, IPMI and
  sshuttle processes; decryption of secrets and reading of passwords; the scanning of host keys;
  schemas and the typed decoding of configuration documents; file system calls and locks, which are a
  state before and after; the shell's assignments and expansions in the word splitting of \<open>ShellQuote\<close>,
  which quoted words never reach.
\<close>

end
